(* ===== verification/Prelude.thy ===== *)
theory Prelude
  imports Main "HOL-Library.Word"
begin

text \<open>
  Prelude of the development: the machine integers of the Rust sources, the three outcomes a
  fallible Rust function has (a value, an error value, a panic), big-endian integers on byte
  buffers, growing output buffers (writers) and consuming input buffers (parsers).  Nothing here
  belongs to one component; every component theory imports it.
\<close>

unbundle bit_operations_syntax

section \<open>Machine integers and byte buffers\<close>

type_synonym u8 = "8 word"
type_synonym u16 = "16 word"
type_synonym u32 = "32 word"
type_synonym u64 = "64 word"
type_synonym i64 = "64 word"
type_synonym bytes = "u8 list"

named_theorems codec_simps \<open>evaluation rules of the wire formats\<close>
named_theorems writes_intros \<open>what a writer appends to its buffer\<close>
named_theorems no_panic_intros \<open>functions that cannot panic\<close>

lemma bit_word8_high [simp]: "8 \<le> n \<Longrightarrow> \<not> bit (w :: u8) n"
  using bit_imp_le_length [of w n] by auto

lemma bit_word16_high [simp]: "16 \<le> n \<Longrightarrow> \<not> bit (w :: u16) n"
  using bit_imp_le_length [of w n] by auto

lemma bit_word32_high [simp]: "32 \<le> n \<Longrightarrow> \<not> bit (w :: u32) n"
  using bit_imp_le_length [of w n] by auto

lemma unat_u8_less [simp]: "unat (w :: u8) < 256"
  using unsigned_less [of w, where ?'a = nat] by simp

lemma unat_u16_less [simp]: "unat (w :: u16) < 65536"
  using unsigned_less [of w, where ?'a = nat] by simp

lemma unat_u16_le [simp]: "unat (w :: u16) \<le> 65535"
  using unat_u16_less [of w] by linarith

lemma unat_u32_less [simp]: "unat (w :: u32) < 4294967296"
  using unsigned_less [of w, where ?'a = nat] by simp

section \<open>Outcomes\<close>

text \<open>
  A Rust function of type \<open>Result<T, E>\<close> returns a value, returns an error or panics (an index
  out of range, an integer operation checked in the source, an explicit \<^verbatim>\<open>panic!\<close>).
\<close>

datatype ('a, 'e) res = Ok 'a | Err 'e | Panic

primrec bind_res :: "('a, 'e) res \<Rightarrow> ('a \<Rightarrow> ('b, 'e) res) \<Rightarrow> ('b, 'e) res" where
  "bind_res (Ok x) f = f x"
| "bind_res (Err e) f = Err e"
| "bind_res Panic f = Panic"

text \<open>The question mark operator evaluates its continuation on the value only.\<close>

lemma bind_res_cong [fundef_cong]:
  "m = m' \<Longrightarrow> (\<And>x. m' = Ok x \<Longrightarrow> f x = f' x) \<Longrightarrow> bind_res m f = bind_res m' f'"
  by (cases m') auto

lemma bind_res_eq_Ok [simp]:
  "bind_res m f = Ok y \<longleftrightarrow> (\<exists>x. m = Ok x \<and> f x = Ok y)"
  by (cases m) auto

lemma bind_res_eq_Panic [simp]:
  "bind_res m f = Panic \<longleftrightarrow> m = Panic \<or> (\<exists>x. m = Ok x \<and> f x = Panic)"
  by (cases m) auto

lemma bind_res_assoc: "bind_res (bind_res m f) g = bind_res m (\<lambda>x. bind_res (f x) g)"
  by (cases m) auto

text \<open>\<^verbatim>\<open>ensure!(cond, e)\<close> of \<^verbatim>\<open>codec/utils.rs\<close>.\<close>

definition ensure :: "bool \<Rightarrow> 'e \<Rightarrow> (unit, 'e) res" where
  "ensure c e = (if c then Ok () else Err e)"

lemma ensure_simps [simp]:
  "ensure True e = Ok ()" "ensure False e = Err e"
  "ensure c e = Ok u \<longleftrightarrow> c" "ensure c e \<noteq> Panic" "Panic \<noteq> ensure c e"
  "ensure c e = Err e' \<longleftrightarrow> \<not> c \<and> e = e'"
  by (auto simp: ensure_def)

primrec map_res :: "('a \<Rightarrow> 'b) \<Rightarrow> ('a, 'e) res \<Rightarrow> ('b, 'e) res" where
  "map_res f (Ok x) = Ok (f x)"
| "map_res f (Err e) = Err e"
| "map_res f Panic = Panic"

lemma map_res_eq_Ok [simp]: "map_res f m = Ok y \<longleftrightarrow> (\<exists>x. m = Ok x \<and> y = f x)"
  by (cases m) auto

lemma map_res_eq_Panic [simp]: "map_res f m = Panic \<longleftrightarrow> m = Panic"
  by (cases m) auto

definition ok_or :: "'a option \<Rightarrow> 'e \<Rightarrow> ('a, 'e) res" where
  "ok_or x e = (case x of None \<Rightarrow> Err e | Some v \<Rightarrow> Ok v)"

lemma ok_or_simps [simp]:
  "ok_or None e = Err e" "ok_or (Some v) e = Ok v" "ok_or x e \<noteq> Panic"
  "ok_or x e = Ok v \<longleftrightarrow> x = Some v"
  by (auto simp: ok_or_def split: option.splits)

text \<open>\<^verbatim>\<open>xs.iter().map(f).collect::<Result<Vec<_>, _>>()\<close>: the first error ends the traversal.\<close>

fun collect_res :: "('a \<Rightarrow> ('b, 'e) res) \<Rightarrow> 'a list \<Rightarrow> ('b list, 'e) res" where
  "collect_res f [] = Ok []"
| "collect_res f (x # xs) = bind_res (f x) (\<lambda>y. map_res (Cons y) (collect_res f xs))"

lemma collect_res_no_panic [no_panic_intros]:
  "(\<And>x. x \<in> set xs \<Longrightarrow> f x \<noteq> Panic) \<Longrightarrow> collect_res f xs \<noteq> Panic"
  by (induction xs) auto

lemma collect_res_Ok:
  "(\<And>x. x \<in> set xs \<Longrightarrow> f (g x) = Ok x) \<Longrightarrow> collect_res f (map g xs) = Ok xs"
  by (induction xs) auto

lemma collect_res_eq_Ok:
  "collect_res f xs = Ok ys \<longleftrightarrow> list_all2 (\<lambda>x y. f x = Ok y) xs ys"
  by (induction xs arbitrary: ys) (auto simp: list_all2_Cons1)

section \<open>Input buffers\<close>

text \<open>
  \<^verbatim>\<open>&mut Bytes\<close> is the list of the bytes not yet consumed, returned with every value read from it.
  The accessors of the trait \<^verbatim>\<open>bytes::Buf\<close> panic when the buffer is too short.
\<close>

type_synonym ('a, 'e) parser = "bytes \<Rightarrow> ('a \<times> bytes, 'e) res"

fun get_u8 :: "(u8, 'e) parser" where
  "get_u8 (a # src) = Ok (a, src)"
| "get_u8 [] = Panic"

definition of_be16 :: "u8 \<Rightarrow> u8 \<Rightarrow> u16" where
  "of_be16 a b = push_bit 8 (ucast a) OR ucast b"

definition of_be32 :: "u8 \<Rightarrow> u8 \<Rightarrow> u8 \<Rightarrow> u8 \<Rightarrow> u32" where
  "of_be32 a b c d = push_bit 24 (ucast a) OR push_bit 16 (ucast b) OR push_bit 8 (ucast c) OR ucast d"

fun get_u16 :: "(u16, 'e) parser" where
  "get_u16 (a # b # src) = Ok (of_be16 a b, src)"
| "get_u16 _ = Panic"

fun get_u32 :: "(u32, 'e) parser" where
  "get_u32 (a # b # c # d # src) = Ok (of_be32 a b c d, src)"
| "get_u32 _ = Panic"

definition advance :: "nat \<Rightarrow> (unit, 'e) parser" where
  "advance n src = (if n \<le> length src then Ok ((), drop n src) else Panic)"

definition split_to :: "nat \<Rightarrow> (bytes, 'e) parser" where
  "split_to n src = (if n \<le> length src then Ok (take n src, drop n src) else Panic)"

text \<open>\<^verbatim>\<open>&src[i..j]\<close>\<close>

definition slice :: "bytes \<Rightarrow> nat \<Rightarrow> nat \<Rightarrow> (bytes, 'e) res" where
  "slice src i j = (if i \<le> j \<and> j \<le> length src then Ok (take (j - i) (drop i src)) else Panic)"

text \<open>\<^verbatim>\<open>src[i]\<close>\<close>

definition index :: "bytes \<Rightarrow> nat \<Rightarrow> (u8, 'e) res" where
  "index src i = (if i < length src then Ok (src ! i) else Panic)"

lemma get_u8_append [simp]: "src \<noteq> [] \<Longrightarrow> get_u8 src = Ok (hd src, tl src)"
  by (cases src) auto

lemma get_u8_eq_Panic [simp]: "get_u8 src = Panic \<longleftrightarrow> src = []"
  by (cases src) auto

lemma get_u8_not_Err [simp]: "get_u8 src \<noteq> Err e"
  by (cases src) auto

lemma get_u8_Ok: "get_u8 src = Ok (v, rest) \<longleftrightarrow> src = v # rest"
  by (cases src) auto

lemma get_u16_eq_Panic [simp]: "get_u16 src = Panic \<longleftrightarrow> length src < 2"
  by (cases src rule: get_u16.cases) auto

lemma get_u16_not_Err [simp]: "get_u16 src \<noteq> Err e"
  by (cases src rule: get_u16.cases) auto

lemma get_u16_Ok: "get_u16 src = Ok (v, rest) \<Longrightarrow> length src = Suc (Suc (length rest))"
  by (cases src rule: get_u16.cases) auto

lemma get_u32_eq_Panic [simp]: "get_u32 src = Panic \<longleftrightarrow> length src < 4"
  by (cases src rule: get_u32.cases) auto

lemma get_u32_not_Err [simp]: "get_u32 src \<noteq> Err e"
  by (cases src rule: get_u32.cases) auto

lemma get_u32_Ok: "get_u32 src = Ok (v, rest) \<Longrightarrow> length src = length rest + 4"
  by (cases src rule: get_u32.cases) auto

lemma advance_Ok [simp]: "n \<le> length src \<Longrightarrow> advance n src = Ok ((), drop n src)"
  by (simp add: advance_def)

lemma advance_eq_Panic [simp]: "advance n src = Panic \<longleftrightarrow> length src < n"
  by (auto simp: advance_def)

lemma split_to_Ok [simp]: "n \<le> length src \<Longrightarrow> split_to n src = Ok (take n src, drop n src)"
  by (simp add: split_to_def)

lemma split_to_eq_Panic [simp]: "split_to n src = Panic \<longleftrightarrow> length src < n"
  by (auto simp: split_to_def)

lemma slice_eq_Panic [simp]: "slice src i j = Panic \<longleftrightarrow> \<not> (i \<le> j \<and> j \<le> length src)"
  by (auto simp: slice_def)

lemma slice_not_Err [simp]: "slice src i j \<noteq> Err e"
  by (auto simp: slice_def)

lemma index_eq_Panic [simp]: "index src i = Panic \<longleftrightarrow> length src \<le> i"
  by (auto simp: index_def)

lemma index_not_Err [simp]: "index src i \<noteq> Err e"
  by (auto simp: index_def)

section \<open>Output buffers\<close>

text \<open>
  \<^verbatim>\<open>&mut BytesMut\<close> is the list of the bytes written so far.  A writer returns its outcome together
  with the buffer, since a Rust function that returns an error leaves what it had already written.
\<close>

type_synonym ('a, 'e) writer = "bytes \<Rightarrow> ('a, 'e) res \<times> bytes"

definition put :: "bytes \<Rightarrow> (unit, 'e) writer" where
  "put bs dst = (Ok (), dst @ bs)"

definition put_u8 :: "u8 \<Rightarrow> (unit, 'e) writer" where
  "put_u8 v = put [v]"

definition be16 :: "u16 \<Rightarrow> bytes" where
  "be16 v = [ucast (drop_bit 8 v), ucast v]"

definition be32 :: "u32 \<Rightarrow> bytes" where
  "be32 v = [ucast (drop_bit 24 v), ucast (drop_bit 16 v), ucast (drop_bit 8 v), ucast v]"

definition put_u16 :: "u16 \<Rightarrow> (unit, 'e) writer" where
  "put_u16 v = put (be16 v)"

definition put_u32 :: "u32 \<Rightarrow> (unit, 'e) writer" where
  "put_u32 v = put (be32 v)"

definition fail_w :: "'e \<Rightarrow> ('a, 'e) writer" where
  "fail_w e dst = (Err e, dst)"

definition panic_w :: "('a, 'e) writer" where
  "panic_w dst = (Panic, dst)"

definition skip_w :: "(unit, 'e) writer" where
  "skip_w dst = (Ok (), dst)"

text \<open>Sequencing: \<^verbatim>\<open>w1?; w2\<close>.\<close>

definition seq_w :: "(unit, 'e) writer \<Rightarrow> ('b, 'e) writer \<Rightarrow> ('b, 'e) writer" where
  "seq_w w1 w2 dst = (case w1 dst of
       (Ok u, dst') \<Rightarrow> w2 dst'
     | (Err e, dst') \<Rightarrow> (Err e, dst')
     | (Panic, dst') \<Rightarrow> (Panic, dst'))"

text \<open>\<^verbatim>\<open>for x in xs { f(x)?; }\<close>\<close>

primrec each_w :: "('a \<Rightarrow> (unit, 'e) writer) \<Rightarrow> 'a list \<Rightarrow> (unit, 'e) writer" where
  "each_w f [] = skip_w"
| "each_w f (x # xs) = seq_w (f x) (each_w f xs)"

text \<open>\<^verbatim>\<open>if let Some(x) = v { f(x)?; }\<close>\<close>

definition opt_w :: "('a \<Rightarrow> (unit, 'e) writer) \<Rightarrow> 'a option \<Rightarrow> (unit, 'e) writer" where
  "opt_w f v = (case v of None \<Rightarrow> skip_w | Some x \<Rightarrow> f x)"

text \<open>The contract of a successful writer: it appends exactly \<open>bs\<close>, whatever the buffer held.\<close>

definition writes :: "(unit, 'e) writer \<Rightarrow> bytes \<Rightarrow> bool" where
  "writes w bs \<longleftrightarrow> (\<forall>dst. w dst = (Ok (), dst @ bs))"

lemma writesD: "writes w bs \<Longrightarrow> w dst = (Ok (), dst @ bs)"
  by (simp add: writes_def)

lemma writes_put [writes_intros]: "writes (put bs) bs"
  by (simp add: writes_def put_def)

lemma writes_put_u8 [writes_intros]: "writes (put_u8 v) [v]"
  by (simp add: writes_def put_def put_u8_def)

lemma writes_put_u16 [writes_intros]: "writes (put_u16 v) (be16 v)"
  by (simp add: writes_def put_def put_u16_def)

lemma writes_put_u32 [writes_intros]: "writes (put_u32 v) (be32 v)"
  by (simp add: writes_def put_def put_u32_def)

lemma writes_skip [writes_intros]: "writes skip_w []"
  by (simp add: writes_def skip_w_def)

lemma writes_seq [writes_intros]:
  "writes w1 as \<Longrightarrow> writes w2 bs \<Longrightarrow> writes (seq_w w1 w2) (as @ bs)"
  by (simp add: writes_def seq_w_def)

lemma writes_each [writes_intros]:
  "(\<And>x. x \<in> set xs \<Longrightarrow> writes (f x) (g x)) \<Longrightarrow> writes (each_w f xs) (concat (map g xs))"
  by (induction xs) (auto intro: writes_intros)

lemma writes_opt [writes_intros]:
  "(\<And>x. v = Some x \<Longrightarrow> writes (f x) (g x)) \<Longrightarrow>
   writes (opt_w f v) (case v of None \<Rightarrow> [] | Some x \<Rightarrow> g x)"
  by (cases v) (auto simp: opt_w_def intro: writes_intros)

lemma writes_if [writes_intros]:
  "(c \<Longrightarrow> writes a as) \<Longrightarrow> (\<not> c \<Longrightarrow> writes b bs) \<Longrightarrow>
   writes (if c then a else b) (if c then as else bs)"
  by auto

lemma writes_unique: "writes w as \<Longrightarrow> writes w bs \<Longrightarrow> as = bs"
  by (auto simp: writes_def)

section \<open>Big-endian integers\<close>

lemma length_be [simp]: "length (be16 v) = 2" "length (be32 w) = 4"
  by (simp_all add: be16_def be32_def)

lemma of_be16_be16 [simp]: "of_be16 (ucast (drop_bit 8 v)) (ucast v) = v"
  unfolding of_be16_def
  by (rule bit_word_eqI) (auto simp: bit_simps)

lemma of_be32_be32 [simp]:
  "of_be32 (ucast (drop_bit 24 v)) (ucast (drop_bit 16 v)) (ucast (drop_bit 8 v)) (ucast v) = v"
proof (rule bit_word_eqI)
  fix n
  assume "n < LENGTH(32)"
  then consider "n < 8" | "8 \<le> n" "n < 16" | "16 \<le> n" "n < 24" | "24 \<le> n" "n < 32"
    by fastforce
  then show "bit (of_be32 (ucast (drop_bit 24 v)) (ucast (drop_bit 16 v))
      (ucast (drop_bit 8 v)) (ucast v)) n = bit v n"
    by cases (auto simp: of_be32_def bit_simps)
qed

lemma get_u16_be16 [simp, codec_simps]: "get_u16 (be16 v @ rest) = Ok (v, rest)"
  by (simp add: be16_def)

lemma get_u32_be32 [simp, codec_simps]: "get_u32 (be32 v @ rest) = Ok (v, rest)"
  by (simp add: be32_def)

lemma be16_of_be16: "be16 (of_be16 a b) = [a, b]"
  by (auto simp: be16_def of_be16_def intro!: bit_word_eqI simp: bit_simps)

section \<open>Repetition over an input buffer\<close>

text \<open>
  The loop \<^verbatim>\<open>while src.has_remaining() { out.push(T::decode(src)?) }\<close>.  The reader of an element
  must consume at least one byte for the loop to end; a reader that does not is cut off with a panic,
  and the locale \<open>consuming\<close> below shows that the readers of this development never are.
\<close>

function many :: "('a, 'e) parser \<Rightarrow> bytes \<Rightarrow> ('a list, 'e) res" where
  "many p src = (if src = [] then Ok []
     else bind_res (p src) (\<lambda>(x, src').
       if length src' < length src then bind_res (many p src') (\<lambda>xs. Ok (x # xs)) else Panic))"
  by pat_completeness auto
termination
  by (relation "measure (\<lambda>(p, src). length src)") auto

declare many.simps [simp del]

lemma many_Nil [simp]: "many p [] = Ok []"
  by (simp add: many.simps)

locale consuming =
  fixes p :: "('a, 'e) parser"
  assumes consumes: "p src = Ok (x, rest) \<Longrightarrow> length rest < length src"
begin

lemma many_unfold:
  "src \<noteq> [] \<Longrightarrow> many p src =
     bind_res (p src) (\<lambda>(x, src'). bind_res (many p src') (\<lambda>xs. Ok (x # xs)))"
  by (subst many.simps) (auto intro!: bind_res_cong simp: consumes)

lemma many_no_panic:
  assumes "\<And>s. s \<noteq> [] \<Longrightarrow> p s \<noteq> Panic"
  shows "many p src \<noteq> Panic"
proof (induction "length src" arbitrary: src rule: less_induct)
  case less
  show ?case
  proof (cases "src = []")
    case False
    with less assms [of src] show ?thesis
      by (auto simp: many_unfold dest: consumes)
  qed simp
qed

lemma many_repr:
  assumes "\<And>x rest. x \<in> set xs \<Longrightarrow> p (r x @ rest) = Ok (x, rest)"
  shows "many p (concat (map r xs)) = Ok xs"
  using assms
proof (induction xs)
  case (Cons x xs)
  let ?t = "concat (map r xs)"
  have ok: "p (r x @ ?t) = Ok (x, ?t)"
    using Cons.prems by simp
  then have "r x @ ?t \<noteq> []"
    using consumes [OF ok] by auto
  with ok Cons show ?case
    by (simp add: many_unfold)
qed simp

end

text \<open>
  The loop over the properties of an MQTT 5 packet: \<^verbatim>\<open>while prop_src.has_remaining() { match
  prop_src.get_u8() { ... } }\<close>, with the variables the body assigns as its accumulator.
\<close>

function prop_loop :: "(u8 \<Rightarrow> 'acc \<Rightarrow> ('acc, 'e) parser) \<Rightarrow> 'acc \<Rightarrow> bytes \<Rightarrow> ('acc, 'e) res" where
  "prop_loop step acc [] = Ok acc"
| "prop_loop step acc (b # src) = bind_res (step b acc src) (\<lambda>(acc', src').
     if length src' \<le> length src then prop_loop step acc' src' else Panic)"
  by pat_completeness auto
termination
  by (relation "measure (\<lambda>(step, acc, src). length src)") auto

declare prop_loop.simps(2) [simp del]

locale property_reader =
  fixes step :: "u8 \<Rightarrow> 'acc \<Rightarrow> ('acc, 'e) parser"
  assumes shrinks: "step b acc src = Ok (acc', rest) \<Longrightarrow> length rest \<le> length src"
    and no_panic: "step b acc src \<noteq> Panic"
begin

lemma prop_loop_unfold:
  "prop_loop step acc (b # src) =
     bind_res (step b acc src) (\<lambda>(acc', src'). prop_loop step acc' src')"
  by (subst prop_loop.simps) (auto intro!: bind_res_cong simp: shrinks)

lemma prop_loop_no_panic: "prop_loop step acc src \<noteq> Panic"
proof (induction "length src" arbitrary: acc src rule: less_induct)
  case less
  show ?case
  proof (cases src)
    case (Cons b s)
    have "prop_loop step acc' s' \<noteq> Panic" if "step b acc s = Ok (acc', s')" for acc' s'
      using less [of s'] shrinks [OF that] Cons by simp
    with Cons no_panic [of b acc s] show ?thesis
      by (auto simp: prop_loop_unfold)
  qed simp
qed

end

end
