(* ===== verification/Codec_Types.thy ===== *)
theory Codec_Types
  imports Prelude
begin

text \<open>
  The vocabulary of the codec: the errors of \<^verbatim>\<open>codec/error.rs\<close> and the reason codes they are
  reported with, and the types and constants of \<^verbatim>\<open>codec/types.rs\<close> (quality of service, connect
  flags, packet type bytes, the fixed header).
\<close>

unbundle bit_operations_syntax

section \<open>Errors (codec/error.rs)\<close>

datatype decode_error =
    InvalidProtocol
  | InvalidLength
  | MalformedPacket
  | UnsupportedProtocolLevel
  | ConnectReservedFlagSet
  | ConnAckReservedFlagSet
  | InvalidClientId
  | UnsupportedPacketType
  | PacketIdRequired
  | MaxSizeExceeded u32 u32
  | Utf8Error
  | Io bytes

datatype encode_error =
    OverMaxPacketSize u32 u32
  | EncInvalidLength
  | EncMalformedPacket
  | EncPacketIdRequired
  | UnsupportedVersion
  | EncIo bytes

datatype protocol_error = PE_Decode decode_error | PE_Encode encode_error | PE_KeepAliveTimeout

datatype handshake_error = HE_Protocol protocol_error | HE_Timeout

datatype send_packet_error = SPE_Encode encode_error

type_synonym 'a dres = "('a, decode_error) res"
type_synonym 'a decoder = "('a, decode_error) parser"
type_synonym encoder = "(unit, encode_error) writer"

section \<open>Disconnect reason codes (codec/v5/packet/disconnect.rs)\<close>

datatype disconnect_reason_code =
    NormalDisconnection | DisconnectWithWillMessage | DRC_UnspecifiedError | DRC_MalformedPacket
  | DRC_ProtocolError | DRC_ImplementationSpecificError | DRC_NotAuthorized | DRC_ServerBusy
  | DRC_ServerShuttingDown | DRC_BadAuthenticationMethod | DRC_KeepAliveTimeout
  | DRC_SessionTakenOver | DRC_TopicFilterInvalid | DRC_TopicNameInvalid
  | DRC_ReceiveMaximumExceeded | DRC_TopicAliasInvalid | DRC_PacketTooLarge
  | DRC_MessageRateTooHigh | DRC_QuotaExceeded | DRC_AdministrativeAction
  | DRC_PayloadFormatInvalid | DRC_RetainNotSupported | DRC_QosNotSupported
  | DRC_UseAnotherServer | DRC_ServerMoved | DRC_SharedSubscriptionNotSupported
  | DRC_ConnectionRateExceeded | DRC_MaximumConnectTime
  | DRC_SubscriptionIdentifiersNotSupported | DRC_WildcardSubscriptionsNotSupported

fun disconnect_reason_code_to_u8 :: "disconnect_reason_code \<Rightarrow> u8" where
  "disconnect_reason_code_to_u8 NormalDisconnection = 0"
| "disconnect_reason_code_to_u8 DisconnectWithWillMessage = 4"
| "disconnect_reason_code_to_u8 DRC_UnspecifiedError = 128"
| "disconnect_reason_code_to_u8 DRC_MalformedPacket = 129"
| "disconnect_reason_code_to_u8 DRC_ProtocolError = 130"
| "disconnect_reason_code_to_u8 DRC_ImplementationSpecificError = 131"
| "disconnect_reason_code_to_u8 DRC_NotAuthorized = 135"
| "disconnect_reason_code_to_u8 DRC_ServerBusy = 137"
| "disconnect_reason_code_to_u8 DRC_ServerShuttingDown = 139"
| "disconnect_reason_code_to_u8 DRC_BadAuthenticationMethod = 140"
| "disconnect_reason_code_to_u8 DRC_KeepAliveTimeout = 141"
| "disconnect_reason_code_to_u8 DRC_SessionTakenOver = 142"
| "disconnect_reason_code_to_u8 DRC_TopicFilterInvalid = 143"
| "disconnect_reason_code_to_u8 DRC_TopicNameInvalid = 144"
| "disconnect_reason_code_to_u8 DRC_ReceiveMaximumExceeded = 147"
| "disconnect_reason_code_to_u8 DRC_TopicAliasInvalid = 148"
| "disconnect_reason_code_to_u8 DRC_PacketTooLarge = 149"
| "disconnect_reason_code_to_u8 DRC_MessageRateTooHigh = 150"
| "disconnect_reason_code_to_u8 DRC_QuotaExceeded = 151"
| "disconnect_reason_code_to_u8 DRC_AdministrativeAction = 152"
| "disconnect_reason_code_to_u8 DRC_PayloadFormatInvalid = 153"
| "disconnect_reason_code_to_u8 DRC_RetainNotSupported = 154"
| "disconnect_reason_code_to_u8 DRC_QosNotSupported = 155"
| "disconnect_reason_code_to_u8 DRC_UseAnotherServer = 156"
| "disconnect_reason_code_to_u8 DRC_ServerMoved = 157"
| "disconnect_reason_code_to_u8 DRC_SharedSubscriptionNotSupported = 158"
| "disconnect_reason_code_to_u8 DRC_ConnectionRateExceeded = 159"
| "disconnect_reason_code_to_u8 DRC_MaximumConnectTime = 160"
| "disconnect_reason_code_to_u8 DRC_SubscriptionIdentifiersNotSupported = 161"
| "disconnect_reason_code_to_u8 DRC_WildcardSubscriptionsNotSupported = 162"

fun decode_error_to_reason_code :: "decode_error \<Rightarrow> disconnect_reason_code" where
  "decode_error_to_reason_code InvalidProtocol = DRC_ProtocolError"
| "decode_error_to_reason_code InvalidLength = DRC_MalformedPacket"
| "decode_error_to_reason_code MalformedPacket = DRC_MalformedPacket"
| "decode_error_to_reason_code UnsupportedProtocolLevel = DRC_ImplementationSpecificError"
| "decode_error_to_reason_code ConnectReservedFlagSet = DRC_ProtocolError"
| "decode_error_to_reason_code ConnAckReservedFlagSet = DRC_ProtocolError"
| "decode_error_to_reason_code InvalidClientId = DRC_NotAuthorized"
| "decode_error_to_reason_code UnsupportedPacketType = DRC_ImplementationSpecificError"
| "decode_error_to_reason_code PacketIdRequired = DRC_ProtocolError"
| "decode_error_to_reason_code (MaxSizeExceeded _ _) = DRC_PacketTooLarge"
| "decode_error_to_reason_code Utf8Error = DRC_PayloadFormatInvalid"
| "decode_error_to_reason_code (Io _) = DRC_UnspecifiedError"

fun encode_error_to_reason_code :: "encode_error \<Rightarrow> disconnect_reason_code" where
  "encode_error_to_reason_code (OverMaxPacketSize _ _) = DRC_PacketTooLarge"
| "encode_error_to_reason_code EncInvalidLength = DRC_MalformedPacket"
| "encode_error_to_reason_code EncMalformedPacket = DRC_MalformedPacket"
| "encode_error_to_reason_code EncPacketIdRequired = DRC_ProtocolError"
| "encode_error_to_reason_code UnsupportedVersion = DRC_ImplementationSpecificError"
| "encode_error_to_reason_code (EncIo _) = DRC_UnspecifiedError"

fun protocol_error_to_reason_code :: "protocol_error \<Rightarrow> disconnect_reason_code" where
  "protocol_error_to_reason_code (PE_Decode e) = decode_error_to_reason_code e"
| "protocol_error_to_reason_code (PE_Encode e) = encode_error_to_reason_code e"
| "protocol_error_to_reason_code PE_KeepAliveTimeout = DRC_KeepAliveTimeout"

fun handshake_error_to_reason_code :: "handshake_error \<Rightarrow> disconnect_reason_code" where
  "handshake_error_to_reason_code (HE_Protocol e) = protocol_error_to_reason_code e"
| "handshake_error_to_reason_code HE_Timeout = DRC_MaximumConnectTime"

fun send_packet_error_to_reason_code :: "send_packet_error \<Rightarrow> disconnect_reason_code" where
  "send_packet_error_to_reason_code (SPE_Encode e) = encode_error_to_reason_code e"

section \<open>Constants (codec/types.rs)\<close>

definition MQTT :: bytes where
  "MQTT = [0x4D, 0x51, 0x54, 0x54]"

definition MQISDP :: bytes where
  "MQISDP = [0x4D, 0x51, 0x49, 0x73, 0x64, 0x70]"

definition MQTT_LEVEL_31 :: u8 where [simp]: "MQTT_LEVEL_31 = 3"
definition MQTT_LEVEL_311 :: u8 where [simp]: "MQTT_LEVEL_311 = 4"
definition MQTT_LEVEL_5 :: u8 where [simp]: "MQTT_LEVEL_5 = 5"
definition WILL_QOS_SHIFT :: nat where [simp]: "WILL_QOS_SHIFT = 3"
definition MAX_PACKET_SIZE :: u32 where [simp]: "MAX_PACKET_SIZE = 0xFFFFFFF"

definition CONNECT :: u8 where [simp]: "CONNECT = 0b00010000"
definition CONNACK :: u8 where [simp]: "CONNACK = 0b00100000"
definition PUBLISH_START :: u8 where [simp]: "PUBLISH_START = 0b00110000"
definition PUBLISH_END :: u8 where [simp]: "PUBLISH_END = 0b00111111"
definition PUBACK :: u8 where [simp]: "PUBACK = 0b01000000"
definition PUBREC :: u8 where [simp]: "PUBREC = 0b01010000"
definition PUBREL :: u8 where [simp]: "PUBREL = 0b01100010"
definition PUBCOMP :: u8 where [simp]: "PUBCOMP = 0b01110000"
definition SUBSCRIBE :: u8 where [simp]: "SUBSCRIBE = 0b10000010"
definition SUBACK :: u8 where [simp]: "SUBACK = 0b10010000"
definition UNSUBSCRIBE :: u8 where [simp]: "UNSUBSCRIBE = 0b10100010"
definition UNSUBACK :: u8 where [simp]: "UNSUBACK = 0b10110000"
definition PINGREQ :: u8 where [simp]: "PINGREQ = 0b11000000"
definition PINGRESP :: u8 where [simp]: "PINGRESP = 0b11010000"
definition DISCONNECT :: u8 where [simp]: "DISCONNECT = 0b11100000"
definition AUTH :: u8 where [simp]: "AUTH = 0b11110000"

section \<open>Quality of service\<close>

datatype qos = AtMostOnce | AtLeastOnce | ExactlyOnce

fun qos_value :: "qos \<Rightarrow> u8" where
  "qos_value AtMostOnce = 0"
| "qos_value AtLeastOnce = 1"
| "qos_value ExactlyOnce = 2"

definition qos_try_from :: "u8 \<Rightarrow> qos dres" where
  "qos_try_from v = (if v = 0 then Ok AtMostOnce else if v = 1 then Ok AtLeastOnce
     else if v = 2 then Ok ExactlyOnce else Err MalformedPacket)"

definition less_value :: "qos \<Rightarrow> qos \<Rightarrow> qos" where
  "less_value self q = (if qos_value self < qos_value q then self else q)"

text \<open>The derived order of the enum.\<close>

instantiation qos :: linorder
begin

definition less_eq_qos :: "qos \<Rightarrow> qos \<Rightarrow> bool" where
  "less_eq_qos a b \<longleftrightarrow> qos_value a \<le> qos_value b"

definition less_qos :: "qos \<Rightarrow> qos \<Rightarrow> bool" where
  "less_qos a b \<longleftrightarrow> qos_value a < qos_value b"

instance
proof
  fix a b c :: qos
  show "a < b \<longleftrightarrow> a \<le> b \<and> \<not> b \<le> a" by (auto simp: less_eq_qos_def less_qos_def)
  show "a \<le> a" by (simp add: less_eq_qos_def)
  show "a \<le> b \<Longrightarrow> b \<le> c \<Longrightarrow> a \<le> c" by (simp add: less_eq_qos_def)
  show "a \<le> b \<Longrightarrow> b \<le> a \<Longrightarrow> a = b"
    by (cases a; cases b) (simp_all add: less_eq_qos_def word_le_nat_alt)
  show "a \<le> b \<or> b \<le> a" by (auto simp: less_eq_qos_def)
qed

end

lemma qos_try_from_value [simp, codec_simps]: "qos_try_from (qos_value q) = Ok q"
  by (cases q) (simp_all add: qos_try_from_def)

lemma qos_try_from_no_panic [simp, no_panic_intros]: "qos_try_from v \<noteq> Panic"
  by (simp add: qos_try_from_def)

lemma qos_try_from_Ok: "qos_try_from v = Ok q \<longleftrightarrow> v = qos_value q"
  by (cases q) (auto simp: qos_try_from_def split: if_splits)

lemma less_value_min: "less_value a b = min a b"
  by (cases a; cases b) (simp_all add: less_value_def min_def less_eq_qos_def word_le_nat_alt word_less_nat_alt)

section \<open>Connect flags\<close>

definition USERNAME :: u8 where [simp]: "USERNAME = 0b10000000"
definition PASSWORD :: u8 where [simp]: "PASSWORD = 0b01000000"
definition WILL_RETAIN :: u8 where [simp]: "WILL_RETAIN = 0b00100000"
definition WILL_QOS :: u8 where [simp]: "WILL_QOS = 0b00011000"
definition WILL :: u8 where [simp]: "WILL = 0b00000100"
definition CLEAN_START :: u8 where [simp]: "CLEAN_START = 0b00000010"
definition SESSION_PRESENT :: u8 where [simp]: "SESSION_PRESENT = 0b00000001"

text \<open>
  The types the macro \<^verbatim>\<open>bitflags!\<close> generates are words: \<^verbatim>\<open>from_bits\<close> refuses a word with a bit no
  constant has, \<^verbatim>\<open>from_bits_truncate\<close> clears such bits, \<^verbatim>\<open>contains\<close> tests all bits of its argument.
\<close>

definition connect_flags_all :: u8 where
  "connect_flags_all = USERNAME OR PASSWORD OR WILL_RETAIN OR WILL_QOS OR WILL OR CLEAN_START"

definition flags_from_bits :: "u8 \<Rightarrow> u8 \<Rightarrow> u8 option" where
  "flags_from_bits all b = (if b AND NOT all = 0 then Some b else None)"

definition flags_from_bits_truncate :: "u8 \<Rightarrow> u8 \<Rightarrow> u8" where
  "flags_from_bits_truncate all b = b AND all"

definition contains :: "u8 \<Rightarrow> u8 \<Rightarrow> bool" where
  "contains flags f \<longleftrightarrow> flags AND f = f"

section \<open>Headers and the publish packet\<close>

record fixed_header =
  first_byte :: u8
  remaining_length :: u32

text \<open>\<^verbatim>\<open>Protocol(u8)\<close>\<close>

type_synonym protocol = u8

definition protocol_name :: "protocol \<Rightarrow> bytes" where
  "protocol_name p = (if p = MQTT_LEVEL_311 then MQTT else if p = MQTT_LEVEL_31 then MQISDP
     else if p = MQTT_LEVEL_5 then MQTT else MQTT)"

definition protocol_default :: protocol where
  "protocol_default = MQTT_LEVEL_311"

type_synonym user_property = "bytes \<times> bytes"
type_synonym user_properties = "user_property list"

text \<open>\<^verbatim>\<open>PublishProperties\<close> of \<^verbatim>\<open>codec/v5/packet/publish.rs\<close>\<close>

record publish_properties =
  pp_topic_alias :: "u16 option"
  pp_correlation_data :: "bytes option"
  pp_message_expiry_interval :: "u32 option"
  pp_content_type :: "bytes option"
  pp_user_properties :: user_properties
  pp_is_utf8_payload :: bool
  pp_response_topic :: "bytes option"
  pp_subscription_ids :: "u32 list"

record publish =
  pub_dup :: bool
  pub_retain :: bool
  pub_qos :: qos
  pub_topic :: bytes
  pub_packet_id :: "u16 option"
  pub_payload :: bytes
  pub_properties :: "publish_properties option"

end
