(* ===== verification/Codec_Utils.thy ===== *)
theory Codec_Utils
  imports Codec_Types
begin

text \<open>
  The primitive wire types of \<^verbatim>\<open>codec/utils.rs\<close>: the variable-length integer, and the \<^verbatim>\<open>Decode\<close> and
  \<^verbatim>\<open>Encode\<close> implementations of booleans, integers, byte strings and text.  The locale \<open>wire_type\<close> is
  the contract the two traits share; every implementation interprets it, and the packet theories use
  only its laws.
\<close>

unbundle bit_operations_syntax

section \<open>Variable-length integers\<close>

fun decode_variable_length_loop :: "u32 \<Rightarrow> u32 \<Rightarrow> u32 decoder" where
  "decode_variable_length_loop shift len [] = Err MalformedPacket"
| "decode_variable_length_loop shift len (val # src) =
     (let len = len + push_bit (unat shift) (ucast (val AND 0b01111111)) in
      if val AND 0b10000000 = 0 then Ok (len, src)
      else if shift < 21 then decode_variable_length_loop (shift + 7) len src
      else Err InvalidLength)"

definition decode_variable_length_cursor :: "u32 decoder" where
  "decode_variable_length_cursor src = decode_variable_length_loop 0 0 src"

definition decode_variable_length :: "bytes \<Rightarrow> (u32 \<times> nat) option dres" where
  "decode_variable_length src = (case decode_variable_length_cursor src of
       Ok (len, rest) \<Rightarrow> Ok (Some (len, length src - length rest))
     | Err MalformedPacket \<Rightarrow> Ok None
     | Err e \<Rightarrow> Err e
     | Panic \<Rightarrow> Panic)"

definition write_variable_length :: "u32 \<Rightarrow> encoder" where
  "write_variable_length len =
     (if len \<le> 127 then put_u8 (ucast len)
      else if len \<le> 16383 then
        put [ucast ((len AND 0b01111111) OR 0b10000000), ucast (drop_bit 7 len)]
      else if len \<le> 2097151 then
        put [ucast ((len AND 0b01111111) OR 0b10000000),
             ucast ((drop_bit 7 len AND 0b01111111) OR 0b10000000),
             ucast (drop_bit 14 len)]
      else if len \<le> 268435455 then
        put [ucast ((len AND 0b01111111) OR 0b10000000),
             ucast ((drop_bit 7 len AND 0b01111111) OR 0b10000000),
             ucast ((drop_bit 14 len AND 0b01111111) OR 0b10000000),
             ucast (drop_bit 21 len)]
      else panic_w)"

text \<open>The bytes a successful call appends.\<close>

definition varlen_bytes :: "u32 \<Rightarrow> bytes" where
  "varlen_bytes len = snd ((write_variable_length len :: encoder) [])"

subsection \<open>Seven-bit groups\<close>

lemma and_127_take_bit: "(w :: u32) AND 127 = take_bit 7 w"
  by (simp add: take_bit_eq_mask mask_eq_exp_minus_1)

lemma bit_128_int [simp]: "bit (128 :: int) n \<longleftrightarrow> n = 7"
proof -
  have "bit ((2 :: int) ^ 7) n \<longleftrightarrow> n = 7"
    by (subst bit_exp_iff) auto
  then show ?thesis by simp
qed

lemma and_128_bit: "((w :: u8) AND 128 = 0) \<longleftrightarrow> \<not> bit w 7"
proof
  assume "w AND 128 = 0"
  then have "\<not> bit (w AND 128) 7" by simp
  then show "\<not> bit w 7" by (simp add: bit_and_iff)
next
  assume "\<not> bit w 7"
  then show "w AND 128 = 0"
    by (intro bit_word_eqI) (auto simp: bit_and_iff)
qed

lemma group_more: "((ucast ((w AND 127) OR 128 :: u32) :: u8) AND 128) \<noteq> 0"
  by (simp add: and_128_bit bit_simps)

lemma group_value:
  "(ucast ((ucast ((w AND 127) OR 128 :: u32) :: u8) AND 127) :: u32) = take_bit 7 w"
proof (rule bit_word_eqI)
  fix n assume "n < LENGTH(32)"
  have a: "(127 :: u8) = mask 7" "(127 :: u32) = mask 7"
    by (simp_all add: mask_eq_exp_minus_1)
  show "bit (ucast ((ucast ((w AND 127) OR 128 :: u32) :: u8) AND 127) :: u32) n = bit (take_bit 7 w) n"
    unfolding a by (auto simp: bit_simps)
qed

lemma bit_less_exp:
  assumes "unat (w :: u32) < 2 ^ k" and "bit w n"
  shows "n < k"
proof -
  have "bit (take_bit k (unat w)) n"
    using assms by (simp add: take_bit_nat_eq_self bit_unsigned_iff)
  then show ?thesis by (simp add: bit_take_bit_iff)
qed

lemma group_last:
  assumes "w < (128 :: u32)"
  shows "(ucast w :: u8) AND 128 = 0" "(ucast ((ucast w :: u8) AND 127) :: u32) = w"
proof -
  have b: "bit w n \<Longrightarrow> n < 7" for n
    using bit_less_exp [of w 7 n] assms by (simp add: word_less_nat_alt)
  have a: "(127 :: u8) = mask 7"
    by (simp add: mask_eq_exp_minus_1)
  show "(ucast w :: u8) AND 128 = 0"
    using b [of 7] by (auto simp: and_128_bit bit_simps)
  show "(ucast ((ucast w :: u8) AND 127) :: u32) = w"
    unfolding a by (rule bit_word_eqI) (auto simp: bit_simps dest: b)
qed

lemma unat_drop_bit_less:
  "unat (w :: u32) < 2 ^ (k + m) \<Longrightarrow> unat (drop_bit k w) < 2 ^ m"
  by (subst unat_drop_bit_eq, subst drop_bit_eq_div)
    (simp add: less_mult_imp_div_less power_add mult.commute)

lemma drop_bit_group:
  "w < (16384 :: u32) \<Longrightarrow> drop_bit 7 w < 128"
  "w < (2097152 :: u32) \<Longrightarrow> drop_bit 14 w < 128"
  "w < (268435456 :: u32) \<Longrightarrow> drop_bit 21 w < 128"
  using unat_drop_bit_less [of w 7 7] unat_drop_bit_less [of w 14 7] unat_drop_bit_less [of w 21 7]
  by (simp_all add: word_less_nat_alt)

lemma split_7: "take_bit 7 w + push_bit 7 (drop_bit 7 w) = (w :: u32)"
  using bits_ident [of 7 w] by (simp add: add.commute)

lemma split_14:
  "take_bit 7 w + push_bit 7 (take_bit 7 (drop_bit 7 w)) + push_bit 14 (drop_bit 14 w) = (w :: u32)"
proof -
  have "push_bit 7 (take_bit 7 (drop_bit 7 w)) + push_bit 14 (drop_bit 14 w)
      = push_bit 7 (take_bit 7 (drop_bit 7 w) + push_bit 7 (drop_bit 7 (drop_bit 7 w)))"
    by (simp only: push_bit_add push_bit_push_bit drop_bit_drop_bit) simp
  also have "\<dots> = push_bit 7 (drop_bit 7 w)"
    by (simp only: split_7)
  finally show ?thesis
    using split_7 [of w] by (simp add: add.assoc)
qed

lemma split_21:
  "take_bit 7 w + push_bit 7 (take_bit 7 (drop_bit 7 w)) + push_bit 14 (take_bit 7 (drop_bit 14 w))
     + push_bit 21 (drop_bit 21 w) = (w :: u32)"
proof -
  have "push_bit 14 (take_bit 7 (drop_bit 14 w)) + push_bit 21 (drop_bit 21 w)
      = push_bit 14 (take_bit 7 (drop_bit 14 w) + push_bit 7 (drop_bit 7 (drop_bit 14 w)))"
    by (simp only: push_bit_add push_bit_push_bit drop_bit_drop_bit) simp
  also have "\<dots> = push_bit 14 (drop_bit 14 w)"
    by (simp only: split_7)
  finally show ?thesis
    using split_14 [of w] by (simp add: add.assoc)
qed

lemma le_pred_less: "(w :: u32) \<le> 127 \<longleftrightarrow> w < 128" "w \<le> 16383 \<longleftrightarrow> w < 16384"
  "w \<le> 2097151 \<longleftrightarrow> w < 2097152" "w \<le> 268435455 \<longleftrightarrow> w < 268435456"
  by (auto simp: word_le_nat_alt word_less_nat_alt)

subsection \<open>Writing then reading\<close>

lemma writes_variable_length [writes_intros]:
  "len \<le> 268435455 \<Longrightarrow> writes (write_variable_length len) (varlen_bytes len)"
  by (auto simp: varlen_bytes_def write_variable_length_def put_def put_u8_def writes_def)

lemma varlen_bytes_cases:
  assumes "len \<le> 268435455"
  obtains (one) "len < 128" "varlen_bytes len = [ucast len]"
  | (two) "128 \<le> len" "len < 16384"
    "varlen_bytes len = [ucast ((len AND 127) OR 128), ucast (drop_bit 7 len)]"
  | (three) "16384 \<le> len" "len < 2097152"
    "varlen_bytes len = [ucast ((len AND 127) OR 128),
       ucast ((drop_bit 7 len AND 127) OR 128), ucast (drop_bit 14 len)]"
  | (four) "2097152 \<le> len" "len < 268435456"
    "varlen_bytes len = [ucast ((len AND 127) OR 128),
       ucast ((drop_bit 7 len AND 127) OR 128), ucast ((drop_bit 14 len AND 127) OR 128),
       ucast (drop_bit 21 len)]"
proof -
  consider "len < 128" | "128 \<le> len" "len < 16384" | "16384 \<le> len" "len < 2097152"
    | "2097152 \<le> len" "len < 268435456"
    using assms by (force simp: le_pred_less not_less)
  then show ?thesis
  proof cases
    case 1
    then show ?thesis
      by (intro one) (simp_all add: varlen_bytes_def write_variable_length_def put_def put_u8_def
          le_pred_less)
  next
    case 2
    then show ?thesis
      by (intro two) (simp_all add: varlen_bytes_def write_variable_length_def put_def put_u8_def
          le_pred_less leD)
  next
    case 3
    then show ?thesis
      by (intro three) (auto simp: varlen_bytes_def write_variable_length_def put_def put_u8_def
          le_pred_less word_le_nat_alt word_less_nat_alt)
  next
    case 4
    then show ?thesis
      by (intro four) (auto simp: varlen_bytes_def write_variable_length_def put_def put_u8_def
          le_pred_less word_le_nat_alt word_less_nat_alt)
  qed
qed

lemma decode_varlen_bytes [simp, codec_simps]:
  assumes "len \<le> 268435455"
  shows "decode_variable_length_cursor (varlen_bytes len @ rest) = Ok (len, rest)"
  using assms
proof (cases rule: varlen_bytes_cases)
  case one
  then show ?thesis
    by (simp add: decode_variable_length_cursor_def group_last)
next
  case two
  then show ?thesis
    by (simp add: decode_variable_length_cursor_def group_last drop_bit_group group_more
        group_value split_7)
next
  case three
  then show ?thesis
    by (simp add: decode_variable_length_cursor_def group_last drop_bit_group group_more
        group_value split_14)
next
  case four
  then show ?thesis
    by (simp add: decode_variable_length_cursor_def group_last drop_bit_group group_more
        group_value split_21)
qed

subsection \<open>Reading arbitrary input\<close>

lemma decode_variable_length_loop_no_panic [simp]: "decode_variable_length_loop s l src \<noteq> Panic"
  by (induction s l src rule: decode_variable_length_loop.induct) (auto simp: Let_def)

lemma decode_variable_length_cursor_no_panic [simp, no_panic_intros]:
  "decode_variable_length_cursor src \<noteq> Panic"
  by (simp add: decode_variable_length_cursor_def)

lemma decode_variable_length_no_panic [simp, no_panic_intros]: "decode_variable_length src \<noteq> Panic"
  using decode_variable_length_cursor_no_panic [of src]
  by (auto simp: decode_variable_length_def split: res.splits decode_error.splits)

lemma decode_variable_length_loop_consumes:
  "decode_variable_length_loop s l src = Ok (v, rest) \<Longrightarrow>
     length rest < length src \<and> (\<exists>pre. src = pre @ rest)"
  by (induction s l src rule: decode_variable_length_loop.induct)
    (fastforce simp: Let_def split: if_splits)+

lemma decode_variable_length_cursor_consumes:
  "decode_variable_length_cursor src = Ok (v, rest) \<Longrightarrow> length rest < length src"
  using decode_variable_length_loop_consumes by (auto simp: decode_variable_length_cursor_def)

lemma decode_variable_length_loop_append:
  "decode_variable_length_loop s l src = Ok (v, rest) \<Longrightarrow>
     decode_variable_length_loop s l (src @ ext) = Ok (v, rest @ ext)"
  "decode_variable_length_loop s l src = Err InvalidLength \<Longrightarrow>
     decode_variable_length_loop s l (src @ ext) = Err InvalidLength"
  by (induction s l src rule: decode_variable_length_loop.induct)
    (auto simp: Let_def split: if_splits)

lemma decode_variable_length_loop_errors:
  "decode_variable_length_loop s l src = Err e \<Longrightarrow> e = MalformedPacket \<or> e = InvalidLength"
  by (induction s l src rule: decode_variable_length_loop.induct)
    (auto simp: Let_def split: if_splits)

lemma decode_variable_length_Some:
  "decode_variable_length src = Ok (Some (v, n)) \<longleftrightarrow>
     (\<exists>rest. decode_variable_length_cursor src = Ok (v, rest) \<and> n = length src - length rest)"
  by (auto simp: decode_variable_length_def split: res.splits decode_error.splits)

lemma decode_variable_length_Err:
  "decode_variable_length src = Err e \<longleftrightarrow>
     e = InvalidLength \<and> decode_variable_length_cursor src = Err InvalidLength"
  using decode_variable_length_loop_errors [of 0 0 src]
  by (auto simp: decode_variable_length_def decode_variable_length_cursor_def
      split: res.splits decode_error.splits)

lemma decode_variable_length_append:
  "decode_variable_length src = Ok (Some (v, n)) \<Longrightarrow>
     decode_variable_length (src @ ext) = Ok (Some (v, n))"
  "decode_variable_length src = Err e \<Longrightarrow> decode_variable_length (src @ ext) = Err e"
  using decode_variable_length_loop_consumes [of 0 0 src]
  by (auto simp: decode_variable_length_Some decode_variable_length_Err
      decode_variable_length_cursor_def decode_variable_length_loop_append)

lemma decode_variable_length_varlen [simp]:
  "len \<le> 268435455 \<Longrightarrow>
     decode_variable_length (varlen_bytes len @ rest) = Ok (Some (len, length (varlen_bytes len)))"
  by (simp add: decode_variable_length_Some)

lemma decode_variable_length_bound:
  "decode_variable_length src = Ok (Some (v, n)) \<Longrightarrow> 0 < n \<and> n \<le> length src"
  by (auto simp: decode_variable_length_Some dest: decode_variable_length_cursor_consumes)

lemma unat_add_group:
  assumes "unat (len :: u32) < 2 ^ s" and "s \<le> 21"
  shows "unat (len + push_bit s (ucast (val AND 127 :: u8))) < 2 ^ (s + 7)"
proof -
  let ?g = "ucast (val AND 127 :: u8) :: u32"
  have "unat (val AND 127) \<le> 127"
    using word_and_le1 [of val 127] by (simp add: word_le_nat_alt)
  then have g: "unat ?g \<le> 127"
    by (simp add: unsigned_ucast_eq) (erule order.trans [OF take_bit_nat_less_eq_self])
  have "unat (push_bit s ?g) \<le> unat ?g * 2 ^ s"
    by (subst unsigned_push_bit_eq, rule order.trans [OF take_bit_nat_less_eq_self])
      (simp add: push_bit_eq_mult)
  also have "\<dots> \<le> 127 * 2 ^ s"
    using g by simp
  finally have p: "unat (push_bit s ?g) \<le> 127 * 2 ^ s" .
  have "unat (len + push_bit s ?g) \<le> unat len + unat (push_bit s ?g)"
    by (simp add: unat_word_ariths)
  also have "\<dots> < 2 ^ s + 127 * 2 ^ s"
    using assms(1) p by linarith
  also have "\<dots> = 2 ^ (s + 7)"
    by (simp add: power_add)
  finally show ?thesis .
qed

lemma unat_shift_step:
  "(s :: u32) < 21 \<Longrightarrow> 7 dvd unat s \<Longrightarrow> unat (s + 7) = unat s + 7 \<and> unat s \<le> 14"
  by (auto simp: word_less_nat_alt unat_word_ariths)

lemma decode_variable_length_loop_bound:
  "decode_variable_length_loop s l src = Ok (v, rest) \<Longrightarrow>
   unat l < 2 ^ unat s \<Longrightarrow> unat s \<le> 21 \<Longrightarrow> 7 dvd unat s \<Longrightarrow>
   unat v < 2 ^ 28 \<and> 7 * (length src - length rest) + unat s \<le> 28"
proof (induction s l src rule: decode_variable_length_loop.induct)
  case (2 s l val src)
  let ?l = "l + push_bit (unat s) (ucast (val AND 127 :: u8))"
  have l: "unat ?l < 2 ^ (unat s + 7)"
    using 2 by (intro unat_add_group)
  show ?case
  proof (cases "val AND 128 = 0")
    case True
    have "(2 :: nat) ^ (unat s + 7) \<le> 2 ^ 28"
      using 2 by (intro power_increasing) auto
    with l have "unat ?l < 2 ^ 28"
      by (rule order.strict_trans2)
    moreover have "v = ?l" "rest = src"
      using True "2.prems"(1) by (simp_all add: Let_def)
    ultimately show ?thesis
      using "2.prems" by simp
  next
    case False
    then have s: "s < 21" and rec: "decode_variable_length_loop (s + 7) ?l src = Ok (v, rest)"
      using "2.prems"(1) by (auto simp: Let_def split: if_splits)
    note step = unat_shift_step [OF s "2.prems"(4)]
    have "unat v < 2 ^ 28 \<and> 7 * (length src - length rest) + unat (s + 7) \<le> 28"
      using False s l rec "2.prems" step by (intro "2.IH") auto
    then show ?thesis
      using step decode_variable_length_loop_consumes [OF rec] by (auto simp: Suc_diff_le)
  qed
qed simp

lemma decode_variable_length_cursor_bound:
  assumes "decode_variable_length_cursor src = Ok (v, rest)"
  shows "v \<le> 268435455 \<and> length src - length rest \<le> 4"
  using decode_variable_length_loop_bound [of 0 0 src v rest] assms
  by (simp add: decode_variable_length_cursor_def word_le_nat_alt)

section \<open>Text\<close>

text \<open>
  \<^verbatim>\<open>ByteString::try_from(Bytes)\<close> accepts the byte sequences \<^verbatim>\<open>std::str::from_utf8\<close> accepts: the
  well-formed UTF-8 sequences of the Unicode standard (no overlong form, no surrogate, no code point
  above U+10FFFF).
\<close>

definition in_range :: "u8 \<Rightarrow> u8 \<Rightarrow> u8 \<Rightarrow> bool" where
  "in_range lo hi b \<longleftrightarrow> lo \<le> b \<and> b \<le> hi"

fun utf8_valid :: "bytes \<Rightarrow> bool" where
  "utf8_valid [] = True"
| "utf8_valid (a # s) =
     (if a \<le> 0x7F then utf8_valid s
      else if in_range 0xC2 0xDF a then
        (case s of b # s' \<Rightarrow> in_range 0x80 0xBF b \<and> utf8_valid s' | _ \<Rightarrow> False)
      else if in_range 0xE0 0xEF a then
        (case s of b # c # s' \<Rightarrow>
             in_range (if a = 0xE0 then 0xA0 else 0x80) (if a = 0xED then 0x9F else 0xBF) b \<and>
             in_range 0x80 0xBF c \<and> utf8_valid s'
         | _ \<Rightarrow> False)
      else if in_range 0xF0 0xF4 a then
        (case s of b # c # d # s' \<Rightarrow>
             in_range (if a = 0xF0 then 0x90 else 0x80) (if a = 0xF4 then 0x8F else 0xBF) b \<and>
             in_range 0x80 0xBF c \<and> in_range 0x80 0xBF d \<and> utf8_valid s'
         | _ \<Rightarrow> False)
      else False)"

section \<open>Primitive types\<close>

definition decode_bool :: "bool decoder" where
  "decode_bool src =
     bind_res (ensure (src \<noteq> []) InvalidLength) (\<lambda>_.
     bind_res (get_u8 src) (\<lambda>(v, src).
     bind_res (ensure (v \<le> 1) MalformedPacket) (\<lambda>_.
     Ok (v = 1, src))))"

definition decode_u16 :: "u16 decoder" where
  "decode_u16 src = bind_res (ensure (2 \<le> length src) InvalidLength) (\<lambda>_. get_u16 src)"

definition decode_u32 :: "u32 decoder" where
  "decode_u32 src = bind_res (ensure (4 \<le> length src) InvalidLength) (\<lambda>_. get_u32 src)"

definition decode_NonZeroU16 :: "u16 decoder" where
  "decode_NonZeroU16 src = bind_res (decode_u16 src) (\<lambda>(v, src).
     if v = 0 then Err MalformedPacket else Ok (v, src))"

definition decode_NonZeroU32 :: "u32 decoder" where
  "decode_NonZeroU32 src = bind_res (decode_u32 src) (\<lambda>(v, src).
     if v = 0 then Err MalformedPacket else Ok (v, src))"

definition decode_Bytes :: "bytes decoder" where
  "decode_Bytes src =
     bind_res (decode_u16 src) (\<lambda>(len, src).
     bind_res (ensure (unat len \<le> length src) InvalidLength) (\<lambda>_.
     split_to (unat len) src))"

definition decode_ByteString :: "bytes decoder" where
  "decode_ByteString src =
     bind_res (decode_Bytes src) (\<lambda>(b, src). if utf8_valid b then Ok (b, src) else Err Utf8Error)"

definition decode_UserProperty :: "user_property decoder" where
  "decode_UserProperty src =
     bind_res (decode_ByteString src) (\<lambda>(key, src).
     bind_res (decode_ByteString src) (\<lambda>(val, src). Ok ((key, val), src)))"

definition take_properties :: "bytes decoder" where
  "take_properties src =
     bind_res (decode_variable_length_cursor src) (\<lambda>(prop_len, src).
     bind_res (ensure (unat prop_len \<le> length src) InvalidLength) (\<lambda>_.
     split_to (unat prop_len) src))"

text \<open>\<^verbatim>\<open>Property for Option<T>\<close>: a property may be set once.\<close>

definition read_value :: "'a decoder \<Rightarrow> 'a option \<Rightarrow> 'a option decoder" where
  "read_value dec self src =
     bind_res (ensure (self = None) MalformedPacket) (\<lambda>_.
     bind_res (dec src) (\<lambda>(v, src). Ok (Some v, src)))"

definition encode_bool :: "bool \<Rightarrow> encoder" where
  "encode_bool v = put_u8 (if v then 1 else 0)"

definition encode_u16 :: "u16 \<Rightarrow> encoder" where
  "encode_u16 v = put_u16 v"

definition encode_NonZeroU16 :: "u16 \<Rightarrow> encoder" where
  "encode_NonZeroU16 v = encode_u16 v"

definition encode_u32 :: "u32 \<Rightarrow> encoder" where
  "encode_u32 v = put_u32 v"

definition encode_NonZeroU32 :: "u32 \<Rightarrow> encoder" where
  "encode_NonZeroU32 v = encode_u32 v"

text \<open>\<^verbatim>\<open>u16::try_from(self.len())\<close> fails above 65535.\<close>

definition encode_Bytes :: "bytes \<Rightarrow> encoder" where
  "encode_Bytes self =
     (if length self \<le> 65535
      then seq_w (put_u16 (of_nat (length self))) (put self)
      else fail_w EncInvalidLength)"

definition encode_ByteString :: "bytes \<Rightarrow> encoder" where
  "encode_ByteString self = encode_Bytes self"

definition encode_UserProperty :: "user_property \<Rightarrow> encoder" where
  "encode_UserProperty self = seq_w (encode_ByteString (fst self)) (encode_ByteString (snd self))"

definition encoded_size_bool :: "bool \<Rightarrow> nat" where "encoded_size_bool v = 1"
definition encoded_size_u16 :: "u16 \<Rightarrow> nat" where "encoded_size_u16 v = 2"
definition encoded_size_u32 :: "u32 \<Rightarrow> nat" where "encoded_size_u32 v = 4"
definition encoded_size_Bytes :: "bytes \<Rightarrow> nat" where "encoded_size_Bytes v = 2 + length v"
definition encoded_size_UserProperty :: "user_property \<Rightarrow> nat" where
  "encoded_size_UserProperty v = encoded_size_Bytes (fst v) + encoded_size_Bytes (snd v)"

section \<open>The contract of the traits Decode and Encode\<close>

text \<open>
  \<open>wf\<close> says which values the wire format can carry (a length prefix has 16 bits, text is UTF-8, an
  identifier is not zero), \<open>repr\<close> is the representation.  A type keeps its contract when encoding a
  carried value appends its representation, whose length is the announced size; decoding a
  representation gives the value back and leaves what follows; and decoding never panics, consumes
  input and yields carried values only.
\<close>

locale wire_type =
  fixes enc :: "'a \<Rightarrow> encoder" and esize :: "'a \<Rightarrow> nat" and dec :: "'a decoder"
    and wf :: "'a \<Rightarrow> bool" and repr :: "'a \<Rightarrow> bytes"
  assumes enc_writes: "wf v \<Longrightarrow> writes (enc v) (repr v)"
    and esize_repr: "wf v \<Longrightarrow> esize v = length (repr v)"
    and dec_repr: "wf v \<Longrightarrow> dec (repr v @ rest) = Ok (v, rest)"
    and dec_no_panic: "dec src \<noteq> Panic"
    and dec_consumes: "dec src = Ok (v, rest) \<Longrightarrow> length rest < length src"
    and dec_wf: "dec src = Ok (v, rest) \<Longrightarrow> wf v"
begin

lemma dec_repr_all: "wf v \<Longrightarrow> dec (repr v) = Ok (v, [])"
  using dec_repr [of v "[]"] by simp

lemma repr_not_Nil: "wf v \<Longrightarrow> repr v \<noteq> []"
  using dec_repr [of v "[]"] dec_consumes [of "repr v" v "[]"] by auto

lemma read_value_repr:
  "wf v \<Longrightarrow> read_value dec None (repr v @ rest) = Ok (Some v, rest)"
  by (simp add: read_value_def dec_repr)

lemma read_value_twice: "read_value dec (Some u) src = Err MalformedPacket"
  by (simp add: read_value_def)

lemma read_value_no_panic: "read_value dec self src \<noteq> Panic"
  by (auto simp: read_value_def dec_no_panic)

lemma read_value_shrinks: "read_value dec self src = Ok (v, rest) \<Longrightarrow> length rest \<le> length src"
  by (auto simp: read_value_def dest: dec_consumes)

lemma dec_shrinks: "dec src = Ok (v, rest) \<Longrightarrow> length rest \<le> length src"
  by (drule dec_consumes) simp

lemma read_value_wf: "read_value dec self src = Ok (v, rest) \<Longrightarrow> \<exists>u. v = Some u \<and> wf u"
  by (auto simp: read_value_def dest: dec_wf)

end

definition short :: "bytes \<Rightarrow> bool" where
  "short b \<longleftrightarrow> length b \<le> 65535"

definition is_text :: "bytes \<Rightarrow> bool" where
  "is_text b \<longleftrightarrow> short b \<and> utf8_valid b"

definition is_text2 :: "user_property \<Rightarrow> bool" where
  "is_text2 p \<longleftrightarrow> is_text (fst p) \<and> is_text (snd p)"

definition prefixed :: "bytes \<Rightarrow> bytes" where
  "prefixed b = be16 (of_nat (length b)) @ b"

definition prefixed2 :: "user_property \<Rightarrow> bytes" where
  "prefixed2 p = prefixed (fst p) @ prefixed (snd p)"

lemma unat_of_nat_short: "short b \<Longrightarrow> unat (of_nat (length b) :: u16) = length b"
  by (simp add: short_def unat_of_nat)

lemma length_prefixed [simp]:
  "length (prefixed b) = 2 + length b" "length (prefixed2 p) = 4 + length (fst p) + length (snd p)"
  by (simp_all add: prefixed_def prefixed2_def)

interpretation wbool: wire_type encode_bool encoded_size_bool decode_bool "\<lambda>_. True"
  "\<lambda>v. [if v then 1 else 0]"
proof
  show "decode_bool src \<noteq> Panic" for src
    by (auto simp: decode_bool_def)
  show "decode_bool src = Ok (v, rest) \<Longrightarrow> length rest < length src" for src v rest
    by (auto simp: decode_bool_def)
qed (auto simp: encode_bool_def encoded_size_bool_def decode_bool_def intro: writes_intros)

interpretation wu16: wire_type encode_u16 encoded_size_u16 decode_u16 "\<lambda>_. True" be16
  by unfold_locales
    (auto simp: encode_u16_def encoded_size_u16_def decode_u16_def dest: get_u16_Ok
      intro: writes_intros)

interpretation wu32: wire_type encode_u32 encoded_size_u32 decode_u32 "\<lambda>_. True" be32
  by unfold_locales
    (auto simp: encode_u32_def encoded_size_u32_def decode_u32_def dest: get_u32_Ok
      intro: writes_intros)

interpretation wnz16: wire_type encode_NonZeroU16 encoded_size_u16 decode_NonZeroU16 "\<lambda>v. v \<noteq> 0" be16
  by unfold_locales
    (auto simp: encode_NonZeroU16_def decode_NonZeroU16_def wu16.esize_repr wu16.dec_no_panic
      wu16.dec_repr [simplified] intro: wu16.enc_writes dest: wu16.dec_consumes split: if_splits)

interpretation wnz32: wire_type encode_NonZeroU32 encoded_size_u32 decode_NonZeroU32 "\<lambda>v. v \<noteq> 0" be32
  by unfold_locales
    (auto simp: encode_NonZeroU32_def decode_NonZeroU32_def wu32.esize_repr wu32.dec_no_panic
      wu32.dec_repr [simplified] intro: wu32.enc_writes dest: wu32.dec_consumes split: if_splits)

lemma decode_Bytes_Ok:
  assumes "decode_Bytes src = Ok (v, rest)"
  shows "short v \<and> length rest < length src"
proof -
  obtain len s where d: "decode_u16 src = Ok (len, s)" and "unat len \<le> length s"
    "v = take (unat len) s" "rest = drop (unat len) s"
    using assms by (auto simp: decode_Bytes_def)
  then show ?thesis
    using wu16.dec_consumes [OF d] unat_u16_less [of len] by (auto simp: short_def)
qed

interpretation wbytes: wire_type encode_Bytes encoded_size_Bytes decode_Bytes short prefixed
proof
  show "short v \<Longrightarrow> writes (encode_Bytes v) (prefixed v)" for v
    by (auto simp: encode_Bytes_def short_def prefixed_def intro: writes_intros)
  show "short v \<Longrightarrow> decode_Bytes (prefixed v @ rest) = Ok (v, rest)" for v rest
    by (simp add: decode_Bytes_def prefixed_def wu16.dec_repr unat_of_nat_short)
  show "decode_Bytes src \<noteq> Panic" for src
    by (auto simp: decode_Bytes_def wu16.dec_no_panic)
qed (auto simp: encoded_size_Bytes_def dest: decode_Bytes_Ok)

interpretation wtext: wire_type encode_ByteString encoded_size_Bytes decode_ByteString is_text prefixed
  by unfold_locales
    (auto simp: encode_ByteString_def decode_ByteString_def is_text_def wbytes.esize_repr
      wbytes.dec_repr wbytes.dec_no_panic intro: wbytes.enc_writes
      dest: wbytes.dec_consumes wbytes.dec_wf split: if_splits)

interpretation wuser: wire_type encode_UserProperty encoded_size_UserProperty decode_UserProperty
  is_text2 prefixed2
proof
  show "is_text2 v \<Longrightarrow> writes (encode_UserProperty v) (prefixed2 v)" for v
    by (auto simp: encode_UserProperty_def is_text2_def prefixed2_def
        intro!: writes_intros wtext.enc_writes)
  show "is_text2 v \<Longrightarrow> decode_UserProperty (prefixed2 v @ rest) = Ok (v, rest)" for v rest
    by (cases v) (simp add: decode_UserProperty_def is_text2_def prefixed2_def wtext.dec_repr)
  show "decode_UserProperty src \<noteq> Panic" for src
    by (auto simp: decode_UserProperty_def wtext.dec_no_panic)
  show "decode_UserProperty src = Ok (v, rest) \<Longrightarrow> length rest < length src" for src v rest
    by (auto simp: decode_UserProperty_def dest!: wtext.dec_consumes)
  show "decode_UserProperty src = Ok (v, rest) \<Longrightarrow> is_text2 v" for src v rest
    by (auto simp: decode_UserProperty_def is_text2_def dest!: wtext.dec_wf)
qed (auto simp: encoded_size_UserProperty_def encoded_size_Bytes_def)

lemmas wire_reprs [simp, codec_simps] =
  wbool.dec_repr wu16.dec_repr wu32.dec_repr wnz16.dec_repr wnz32.dec_repr
  wbytes.dec_repr wtext.dec_repr wuser.dec_repr
  wu16.dec_repr_all wu32.dec_repr_all wnz16.dec_repr_all wnz32.dec_repr_all
  wbytes.dec_repr_all wtext.dec_repr_all wuser.dec_repr_all

lemmas wire_no_panic [simp, no_panic_intros] =
  wbool.dec_no_panic wu16.dec_no_panic wu32.dec_no_panic wnz16.dec_no_panic wnz32.dec_no_panic
  wbytes.dec_no_panic wtext.dec_no_panic wuser.dec_no_panic
  wbool.read_value_no_panic wu16.read_value_no_panic wu32.read_value_no_panic
  wnz16.read_value_no_panic wnz32.read_value_no_panic wbytes.read_value_no_panic
  wtext.read_value_no_panic

lemmas wire_writes [writes_intros] =
  wbool.enc_writes wu16.enc_writes wu32.enc_writes wnz16.enc_writes wnz32.enc_writes
  wbytes.enc_writes wtext.enc_writes wuser.enc_writes

lemmas wire_shrinks =
  wbool.read_value_shrinks wu16.read_value_shrinks wu32.read_value_shrinks
  wnz16.read_value_shrinks wnz32.read_value_shrinks wbytes.read_value_shrinks
  wtext.read_value_shrinks wuser.dec_shrinks

lemma take_properties_repr [simp, codec_simps]:
  assumes "length props \<le> 268435455"
  shows "take_properties (varlen_bytes (of_nat (length props)) @ props @ rest) = Ok (props, rest)"
proof -
  have "unat (of_nat (length props) :: u32) = length props"
    using assms by (simp add: unat_of_nat)
  moreover from this have "(of_nat (length props) :: u32) \<le> 268435455"
    using assms by (simp add: word_le_nat_alt)
  ultimately show ?thesis
    by (simp add: take_properties_def)
qed

lemma take_properties_no_panic [simp, no_panic_intros]: "take_properties src \<noteq> Panic"
  by (auto simp: take_properties_def)

lemma take_properties_shrinks:
  "take_properties src = Ok (props, rest) \<Longrightarrow> length rest < length src"
  by (fastforce simp: take_properties_def dest: decode_variable_length_cursor_consumes)

end
