(* ===== verification/Framing.thy ===== *)
theory Framing
  imports Codec_Utils
begin

text \<open>
  The framing both protocol codecs share (\<^verbatim>\<open>codec/v3/codec.rs\<close>, \<^verbatim>\<open>codec/v5/codec.rs\<close>): a fixed header
  (type byte and variable-length size) and a body of that size, decoded from a buffer that grows as
  bytes arrive from the network.  The locale \<open>framed\<close> states the equations a \<^verbatim>\<open>Decoder::decode\<close>
  implementation satisfies, and derives from them that the packets obtained do not depend on how the
  stream is cut into reads; both codecs interpret it.
\<close>

datatype decode_state = FrameHeader | Frame fixed_header

type_synonym ('p, 'c) decode_result = "('p \<times> u32) option dres \<times> 'c \<times> bytes"

text \<open>
  What a reader obtains by calling \<open>decode\<close> until it asks for more input: the packets, the state of
  the codec and the bytes it keeps.
\<close>

inductive yields :: "('c \<Rightarrow> bytes \<Rightarrow> ('p, 'c) decode_result) \<Rightarrow> 'c \<Rightarrow> bytes \<Rightarrow> ('p \<times> u32) list
    \<Rightarrow> 'c \<Rightarrow> bytes \<Rightarrow> bool" for decode where
  more_input: "decode c src = (Ok None, c', src') \<Longrightarrow> yields decode c src [] c' src'"
| packet: "decode c src = (Ok (Some p), c1, src1) \<Longrightarrow> yields decode c1 src1 ps c' src' \<Longrightarrow>
    yields decode c src (p # ps) c' src'"

inductive_cases yields_NilE: "yields decode c src [] c' src'"
inductive_cases yields_ConsE: "yields decode c src (p # ps) c' src'"

locale framed =
  fixes decode :: "'c \<Rightarrow> bytes \<Rightarrow> ('p, 'c) decode_result"
    and state_of :: "'c \<Rightarrow> decode_state" and set_state :: "decode_state \<Rightarrow> 'c \<Rightarrow> 'c"
    and max_in :: "'c \<Rightarrow> u32" and decode_packet :: "bytes \<Rightarrow> u8 \<Rightarrow> 'p dres"
    and received :: "'p \<Rightarrow> 'c \<Rightarrow> 'c"
  assumes state_set_state [simp]: "state_of (set_state s c) = s"
    and decode_header: "state_of c = FrameHeader \<Longrightarrow> decode c src =
      (if length src < 2 then (Ok None, c, src)
       else case decode_variable_length (tl src) of
           Ok (Some (len, consumed)) \<Rightarrow>
             if max_in c \<noteq> 0 \<and> max_in c < len then (Err (MaxSizeExceeded len (max_in c)), c, src)
             else let src' = drop (consumed + 1) src;
                      c' = set_state (Frame \<lparr>first_byte = hd src, remaining_length = len\<rparr>) c
                  in if length src' < unat len then (Ok None, c', src') else decode c' src'
         | Ok None \<Rightarrow> (Ok None, c, src)
         | Err e \<Rightarrow> (Err e, c, src)
         | Panic \<Rightarrow> (Panic, c, src))"
    and decode_frame: "state_of c = Frame h \<Longrightarrow> decode c src =
      (if length src < unat (remaining_length h) then (Ok None, c, src)
       else let body = take (unat (remaining_length h)) src;
                src' = drop (unat (remaining_length h)) src
            in case decode_packet body (first_byte h) of
                Ok p \<Rightarrow> (Ok (Some (p, remaining_length h)), received p (set_state FrameHeader c), src')
              | Err e \<Rightarrow> (Err e, c, src')
              | Panic \<Rightarrow> (Panic, c, src'))"
begin

lemma frame_append_packet:
  "state_of c = Frame h \<Longrightarrow> \<not> length src < unat (remaining_length h) \<Longrightarrow>
   decode c src = (r, c', src') \<Longrightarrow> decode c (src @ ext) = (r, c', src' @ ext)"
  by (auto simp: decode_frame Let_def split: res.splits)

lemma header_enter:
  assumes "state_of c = FrameHeader" and "\<not> length src < 2"
    and "decode_variable_length (tl src) = Ok (Some (len, n))"
    and "\<not> (max_in c \<noteq> 0 \<and> max_in c < len)"
  shows "decode c src = decode (set_state (Frame \<lparr>first_byte = hd src, remaining_length = len\<rparr>) c)
           (drop (n + 1) src)"
proof -
  have "decode (set_state (Frame \<lparr>first_byte = hd src, remaining_length = len\<rparr>) c) s
      = (Ok None, set_state (Frame \<lparr>first_byte = hd src, remaining_length = len\<rparr>) c, s)"
    if "length s < unat len" for s
    using that by (simp add: decode_frame)
  with assms show ?thesis
    by (auto simp: decode_header Let_def)
qed

text \<open>A call that asks for more input is resumed by the next call as if all bytes had been there.\<close>

lemma resume:
  assumes "decode c src = (Ok None, c', src')"
  shows "decode c (src @ ext) = decode c' (src' @ ext)"
proof (cases "state_of c")
  case (Frame h)
  with assms have "c' = c \<and> src' = src"
    by (auto simp: decode_frame Let_def split: if_splits res.splits)
  then show ?thesis by simp
next
  case FrameHeader
  show ?thesis
  proof (cases "\<exists>len n. \<not> length src < 2 \<and> decode_variable_length (tl src) = Ok (Some (len, n))
      \<and> \<not> (max_in c \<noteq> 0 \<and> max_in c < len)")
    case False
    with assms FrameHeader have "c' = c \<and> src' = src"
      by (auto simp: decode_header Let_def split: if_splits res.splits option.splits)
    then show ?thesis by simp
  next
    case True
    then obtain len n where h: "\<not> length src < 2"
      "decode_variable_length (tl src) = Ok (Some (len, n))"
      "\<not> (max_in c \<noteq> 0 \<and> max_in c < len)" by blast
    let ?c = "set_state (Frame \<lparr>first_byte = hd src, remaining_length = len\<rparr>) c"
    have n: "n \<le> length (tl src)"
      using decode_variable_length_bound [OF h(2)] by simp
    have tl: "tl (src @ ext) = tl src @ ext" "hd (src @ ext) = hd src"
      using h(1) by (cases src; simp)+
    have "decode c (src @ ext) = decode ?c (drop (n + 1) (src @ ext))"
      using header_enter [of c "src @ ext" len n] FrameHeader h tl
        decode_variable_length_append(1) [OF h(2), of ext] by simp
    also have "\<dots> = decode ?c (drop (n + 1) src @ ext)"
      using n h(1) by simp
    finally have e: "decode c (src @ ext) = decode ?c (drop (n + 1) src @ ext)" .
    have "decode ?c (drop (n + 1) src) = (Ok None, c', src')"
      using assms header_enter [OF FrameHeader h] by simp
    then have "c' = ?c \<and> src' = drop (n + 1) src"
      by (auto simp: decode_frame Let_def split: if_splits res.splits)
    with e show ?thesis by simp
  qed
qed

text \<open>Bytes that arrive later do not change the outcome of a call that had one.\<close>

lemma outcome_append:
  assumes "decode c src = (r, c', src')" and "r \<noteq> Ok None"
  shows "decode c (src @ ext) = (r, c', src' @ ext)"
proof (cases "state_of c")
  case (Frame h)
  with assms have "\<not> length src < unat (remaining_length h)"
    by (auto simp: decode_frame)
  with Frame assms(1) show ?thesis by (blast intro: frame_append_packet)
next
  case FrameHeader
  from assms FrameHeader have l: "\<not> length src < 2"
    by (auto simp: decode_header)
  then have tl: "tl (src @ ext) = tl src @ ext" "hd (src @ ext) = hd src"
    by (cases src; simp)+
  show ?thesis
  proof (cases "decode_variable_length (tl src)")
    case (Ok o1)
    show ?thesis
    proof (cases o1)
      case None
      with assms FrameHeader Ok l show ?thesis by (simp add: decode_header)
    next
      case (Some lc)
      then obtain len n where h: "decode_variable_length (tl src) = Ok (Some (len, n))"
        using Ok by (cases lc) auto
      have n: "n \<le> length (tl src)"
        using decode_variable_length_bound [OF h] by simp
      show ?thesis
      proof (cases "max_in c \<noteq> 0 \<and> max_in c < len")
        case True
        with assms FrameHeader h l show ?thesis
          using decode_variable_length_append(1) [OF h, of ext] tl by (auto simp: decode_header)
      next
        case False
        let ?c = "set_state (Frame \<lparr>first_byte = hd src, remaining_length = len\<rparr>) c"
        have d: "decode ?c (drop (n + 1) src) = (r, c', src')"
          using assms header_enter [OF FrameHeader l h False] by simp
        with assms(2) have "\<not> length (drop (n + 1) src) < unat len"
          by (auto simp: decode_frame)
        with d have "decode ?c (drop (n + 1) src @ ext) = (r, c', src' @ ext)"
          by (intro frame_append_packet) auto
        moreover have "decode c (src @ ext) = decode ?c (drop (n + 1) (src @ ext))"
          using header_enter [of c "src @ ext" len n] FrameHeader h tl False l
            decode_variable_length_append(1) [OF h, of ext] by simp
        ultimately show ?thesis
          using n l by simp
      qed
    qed
  next
    case (Err e)
    with assms FrameHeader l tl show ?thesis
      using decode_variable_length_append(2) [OF Err, of ext] by (auto simp: decode_header)
  qed simp
qed

lemma yields_chunks:
  assumes "yields decode c src ps c1 src1" and "yields decode c1 (src1 @ ext) qs c2 src2"
  shows "yields decode c (src @ ext) (ps @ qs) c2 src2"
  using assms
proof (induction rule: yields.induct)
  case (more_input c src c' src')
  note eq = resume [OF more_input.hyps, of ext]
  from more_input.prems show ?case
    by (cases rule: yields.cases) (auto simp: eq intro: yields.intros)
next
  case (packet c src p c1 src1 ps c' src')
  have "decode c (src @ ext) = (Ok (Some p), c1, src1 @ ext)"
    using outcome_append [OF packet.hyps(1), of ext] by simp
  with packet.IH packet.prems show ?case
    by (auto intro: yields.intros)
qed

lemma whole_frame:
  assumes "state_of c = FrameHeader" and "len \<le> 268435455" and "max_in c = 0 \<or> len \<le> max_in c"
    and "length body = unat len" and "decode_packet body fb = Ok p"
  shows "decode c (fb # varlen_bytes len @ body @ rest) =
    (Ok (Some (p, len)), received p (set_state FrameHeader
       (set_state (Frame \<lparr>first_byte = fb, remaining_length = len\<rparr>) c)), rest)"
proof -
  have "varlen_bytes len \<noteq> []"
    using assms(2) by (cases rule: varlen_bytes_cases) auto
  then have "\<not> length (fb # varlen_bytes len @ body @ rest) < 2"
    by (cases "varlen_bytes len") auto
  then have "decode c (fb # varlen_bytes len @ body @ rest) =
      decode (set_state (Frame \<lparr>first_byte = fb, remaining_length = len\<rparr>) c) (body @ rest)"
    using assms header_enter [of c "fb # varlen_bytes len @ body @ rest" len] by (auto dest: leD)
  also have "\<dots> = (Ok (Some (p, len)), received p (set_state FrameHeader
       (set_state (Frame \<lparr>first_byte = fb, remaining_length = len\<rparr>) c)), rest)"
    using assms by (simp add: decode_frame)
  finally show ?thesis .
qed

lemma no_panic:
  assumes "\<And>b fb. decode_packet b fb \<noteq> Panic"
  shows "fst (decode c src) \<noteq> Panic"
proof -
  have f: "fst (decode c src) \<noteq> Panic" if "state_of c = Frame h" for c src h
    using that assms by (auto simp: decode_frame Let_def split: res.splits)
  show ?thesis
  proof (cases "state_of c")
    case FrameHeader
    then show ?thesis
      using f decode_variable_length_no_panic [of "tl src"]
      by (auto simp: decode_header Let_def split: res.splits option.splits)
  qed (rule f)
qed

text \<open>Every packet comes from the packet decoder, and leaves the codec waiting for a header.\<close>

lemma decoded:
  assumes "decode c src = (Ok (Some (p, len)), c', src')"
  shows "\<exists>body fb c1. decode_packet body fb = Ok p \<and> length body = unat len
    \<and> c' = received p (set_state FrameHeader c1)"
proof -
  have f: "\<exists>body fb c1. decode_packet body fb = Ok p \<and> length body = unat len
      \<and> c' = received p (set_state FrameHeader c1)"
    if "state_of c1 = Frame h" "decode c1 s = (Ok (Some (p, len)), c', src')" for c1 h s
  proof -
    have "decode_packet (take (unat (remaining_length h)) s) (first_byte h) = Ok p"
      "length (take (unat (remaining_length h)) s) = unat len"
      "c' = received p (set_state FrameHeader c1)"
      using that by (auto simp: decode_frame Let_def split: if_splits res.splits)
    then show ?thesis by blast
  qed
  show ?thesis
  proof (cases "state_of c")
    case FrameHeader
    then obtain len' n where h: "\<not> length src < 2" "decode_variable_length (tl src) = Ok (Some (len', n))"
      "\<not> (max_in c \<noteq> 0 \<and> max_in c < len')"
      using assms by (auto simp: decode_header split: if_splits res.splits option.splits)
    show ?thesis
      using assms unfolding header_enter [OF FrameHeader h] by (rule f [rotated]) simp
  qed (rule f [OF _ assms])
qed

lemma decoded_from_header:
  assumes "state_of c = FrameHeader" and "decode c src = (Ok (Some (p, len)), c', src')"
  shows "\<exists>n body. decode_variable_length (tl src) = Ok (Some (len, n))
    \<and> decode_packet body (hd src) = Ok p \<and> drop (n + 1) src = body @ src'"
proof -
  obtain len' n where h: "\<not> length src < 2" "decode_variable_length (tl src) = Ok (Some (len', n))"
    "\<not> (max_in c \<noteq> 0 \<and> max_in c < len')"
    using assms by (auto simp: decode_header split: if_splits res.splits option.splits)
  have "len' = len" "decode_packet (take (unat len) (drop (n + 1) src)) (hd src) = Ok p"
    "src' = drop (unat len) (drop (n + 1) src)"
    using assms(2) unfolding header_enter [OF assms(1) h]
    by (auto simp: decode_frame Let_def split: if_splits res.splits)
  with h show ?thesis
    by (metis append_take_drop_id)
qed

text \<open>No packet larger than the configured maximum is ever handed to the packet decoder.\<close>

lemma max_size_enforced:
  assumes "state_of c = FrameHeader" and "max_in c \<noteq> 0"
    and "decode c src = (Ok (Some (p, len)), c', src')"
  shows "len \<le> max_in c"
proof (rule ccontr)
  assume gt: "\<not> len \<le> max_in c"
  obtain n l where h: "\<not> length src < 2" "decode_variable_length (tl src) = Ok (Some (l, n))"
    "\<not> (max_in c \<noteq> 0 \<and> max_in c < l)"
    using assms by (auto simp: decode_header split: if_splits res.splits option.splits)
  from assms header_enter [OF assms(1) h] have "len = l"
    by (auto simp: decode_frame Let_def split: if_splits res.splits)
  with gt h assms(2) show False by simp
qed

end

end
