(* ===== verification/V3_Codec.thy ===== *)
theory V3_Codec
  imports Framing
begin

text \<open>
  The MQTT 3.1 / 3.1.1 codec (\<^verbatim>\<open>codec/v3\<close>): the packets, \<^verbatim>\<open>decode.rs\<close>, \<^verbatim>\<open>encode.rs\<close> and the framing
  codec of \<^verbatim>\<open>codec.rs\<close>, with the round trip of every packet, the exactness of the announced sizes
  and the absence of panics on arbitrary input.
\<close>

unbundle bit_operations_syntax

section \<open>Packets (packet.rs)\<close>

record cert_info =
  common_name :: "string option"
  subject :: string
  serial :: "string option"
  organization :: "string option"

datatype v3_connect_ack_reason =
    ConnectionAccepted | UnacceptableProtocolVersion | IdentifierRejected | ServiceUnavailable
  | BadUserNameOrPassword | NotAuthorized | Reserved

definition v3_connect_ack_reason_try_from :: "u8 \<Rightarrow> v3_connect_ack_reason dres" where
  "v3_connect_ack_reason_try_from v =
     (if v = 0 then Ok ConnectionAccepted else if v = 1 then Ok UnacceptableProtocolVersion
      else if v = 2 then Ok IdentifierRejected else if v = 3 then Ok ServiceUnavailable
      else if v = 4 then Ok BadUserNameOrPassword else if v = 5 then Ok NotAuthorized
      else if v = 6 then Ok Reserved else Err MalformedPacket)"

fun v3_connect_ack_reason_to_u8 :: "v3_connect_ack_reason \<Rightarrow> u8" where
  "v3_connect_ack_reason_to_u8 ConnectionAccepted = 0"
| "v3_connect_ack_reason_to_u8 UnacceptableProtocolVersion = 1"
| "v3_connect_ack_reason_to_u8 IdentifierRejected = 2"
| "v3_connect_ack_reason_to_u8 ServiceUnavailable = 3"
| "v3_connect_ack_reason_to_u8 BadUserNameOrPassword = 4"
| "v3_connect_ack_reason_to_u8 NotAuthorized = 5"
| "v3_connect_ack_reason_to_u8 Reserved = 6"

record v3_last_will =
  lw3_qos :: qos
  lw3_retain :: bool
  lw3_topic :: bytes
  lw3_message :: bytes

record v3_connect =
  c3_protocol :: protocol
  c3_clean_session :: bool
  c3_keep_alive :: u16
  c3_last_will :: "v3_last_will option"
  c3_client_id :: bytes
  c3_username :: "bytes option"
  c3_password :: "bytes option"
  c3_cert :: "cert_info option"

record v3_connect_ack =
  ca3_return_code :: v3_connect_ack_reason
  ca3_session_present :: bool

datatype subscribe_return_code = Success qos | Failure

datatype v3_packet =
    V3_Connect v3_connect
  | V3_ConnectAck v3_connect_ack
  | V3_Publish publish
  | V3_PublishAck u16
  | V3_PublishReceived u16
  | V3_PublishRelease u16
  | V3_PublishComplete u16
  | V3_Subscribe u16 "(bytes \<times> qos) list"
  | V3_SubscribeAck u16 "subscribe_return_code list"
  | V3_Unsubscribe u16 "bytes list"
  | V3_UnsubscribeAck u16
  | V3_PingRequest
  | V3_PingResponse
  | V3_Disconnect

fun v3_packet_type :: "v3_packet \<Rightarrow> u8" where
  "v3_packet_type (V3_Connect _) = CONNECT"
| "v3_packet_type (V3_ConnectAck _) = CONNACK"
| "v3_packet_type (V3_Publish _) = PUBLISH_START"
| "v3_packet_type (V3_PublishAck _) = PUBACK"
| "v3_packet_type (V3_PublishReceived _) = PUBREC"
| "v3_packet_type (V3_PublishRelease _) = PUBREL"
| "v3_packet_type (V3_PublishComplete _) = PUBCOMP"
| "v3_packet_type (V3_Subscribe _ _) = SUBSCRIBE"
| "v3_packet_type (V3_SubscribeAck _ _) = SUBACK"
| "v3_packet_type (V3_Unsubscribe _ _) = UNSUBSCRIBE"
| "v3_packet_type (V3_UnsubscribeAck _) = UNSUBACK"
| "v3_packet_type V3_PingRequest = PINGREQ"
| "v3_packet_type V3_PingResponse = PINGRESP"
| "v3_packet_type V3_Disconnect = DISCONNECT"

section \<open>Decoding (decode.rs)\<close>

definition v3_decode_ack :: "bytes \<Rightarrow> (u16 \<Rightarrow> v3_packet) \<Rightarrow> v3_packet dres" where
  "v3_decode_ack src f =
     bind_res (decode_NonZeroU16 src) (\<lambda>(packet_id, src).
     bind_res (ensure (src = []) InvalidLength) (\<lambda>_. Ok (f packet_id)))"

text \<open>\<^verbatim>\<open>len == n && &src[0..n] == name\<close>: the slice is taken only when the lengths agree.\<close>

definition name_matches :: "u16 \<Rightarrow> bytes \<Rightarrow> bytes \<Rightarrow> bool dres" where
  "name_matches len name src =
     (if unat len = length name then map_res (\<lambda>s. s = name) (slice src 0 (length name)) else Ok False)"

definition v3_decode_last_will :: "u8 \<Rightarrow> v3_last_will option decoder" where
  "v3_decode_last_will flags src =
     (if contains flags WILL then
        bind_res (decode_ByteString src) (\<lambda>(topic, src).
        bind_res (decode_Bytes src) (\<lambda>(message, src).
        bind_res (qos_try_from (drop_bit WILL_QOS_SHIFT (flags AND WILL_QOS))) (\<lambda>q.
        Ok (Some \<lparr>lw3_qos = q, lw3_retain = contains flags WILL_RETAIN, lw3_topic = topic,
                 lw3_message = message\<rparr>, src))))
      else Ok (None, src))"

definition decode_if :: "bool \<Rightarrow> 'a decoder \<Rightarrow> 'a option decoder" where
  "decode_if c dec src = (if c then bind_res (dec src) (\<lambda>(v, src). Ok (Some v, src)) else Ok (None, src))"

definition v3_decode_connect_packet :: "bytes \<Rightarrow> v3_packet dres" where
  "v3_decode_connect_packet src =
     bind_res (ensure (10 \<le> length src) InvalidLength) (\<lambda>_.
     bind_res (get_u16 src) (\<lambda>(len, src).
     bind_res (name_matches len MQTT src) (\<lambda>is_mqtt.
     bind_res (if is_mqtt then advance 4 src
               else bind_res (name_matches len MQISDP src) (\<lambda>is_mqisdp.
                 if is_mqisdp then advance 6 src else Err InvalidProtocol)) (\<lambda>(_, src).
     bind_res (get_u8 src) (\<lambda>(level, src).
     bind_res (ensure (level = MQTT_LEVEL_311 \<or> level = MQTT_LEVEL_31) UnsupportedProtocolLevel) (\<lambda>_.
     bind_res (get_u8 src) (\<lambda>(fb, src).
     bind_res (ok_or (flags_from_bits connect_flags_all fb) ConnectReservedFlagSet) (\<lambda>flags.
     bind_res (decode_u16 src) (\<lambda>(keep_alive, src).
     bind_res (decode_ByteString src) (\<lambda>(client_id, src).
     bind_res (ensure (client_id \<noteq> [] \<or> contains flags CLEAN_START) InvalidClientId) (\<lambda>_.
     bind_res (v3_decode_last_will flags src) (\<lambda>(last_will, src).
     bind_res (decode_if (contains flags USERNAME) decode_ByteString src) (\<lambda>(username, src).
     bind_res (decode_if (contains flags PASSWORD) decode_Bytes src) (\<lambda>(password, src).
     Ok (V3_Connect \<lparr>c3_protocol = level, c3_clean_session = contains flags CLEAN_START,
           c3_keep_alive = keep_alive, c3_last_will = last_will, c3_client_id = client_id,
           c3_username = username, c3_password = password, c3_cert = None\<rparr>)))))))))))))))"

definition v3_decode_connect_ack_packet :: "bytes \<Rightarrow> v3_packet dres" where
  "v3_decode_connect_ack_packet src =
     bind_res (ensure (2 \<le> length src) InvalidLength) (\<lambda>_.
     bind_res (get_u8 src) (\<lambda>(fb, src).
     bind_res (ok_or (flags_from_bits SESSION_PRESENT fb) ConnAckReservedFlagSet) (\<lambda>flags.
     bind_res (get_u8 src) (\<lambda>(code, src).
     bind_res (v3_connect_ack_reason_try_from code) (\<lambda>return_code.
     Ok (V3_ConnectAck \<lparr>ca3_return_code = return_code,
           ca3_session_present = contains flags SESSION_PRESENT\<rparr>))))))"

definition decode_packet_id :: "qos \<Rightarrow> u16 option decoder" where
  "decode_packet_id q src =
     (if q = AtMostOnce then Ok (None, src)
      else bind_res (decode_NonZeroU16 src) (\<lambda>(pid, src). Ok (Some pid, src)))"

definition v3_decode_publish_packet :: "bytes \<Rightarrow> u8 \<Rightarrow> v3_packet dres" where
  "v3_decode_publish_packet src packet_flags =
     bind_res (decode_ByteString src) (\<lambda>(topic, src).
     bind_res (qos_try_from (drop_bit 1 (packet_flags AND 0b0110))) (\<lambda>q.
     bind_res (decode_packet_id q src) (\<lambda>(packet_id, src).
     Ok (V3_Publish \<lparr>pub_dup = (packet_flags AND 0b1000 = 0b1000),
           pub_retain = (packet_flags AND 0b0001 = 0b0001), pub_qos = q, pub_topic = topic,
           pub_packet_id = packet_id, pub_payload = src, pub_properties = None\<rparr>))))"

definition v3_decode_subscription :: "(bytes \<times> qos) decoder" where
  "v3_decode_subscription src =
     bind_res (decode_ByteString src) (\<lambda>(topic, src).
     bind_res (ensure (1 \<le> length src) InvalidLength) (\<lambda>_.
     bind_res (get_u8 src) (\<lambda>(b, src).
     bind_res (qos_try_from (b AND 0b00000011)) (\<lambda>q. Ok ((topic, q), src)))))"

definition v3_decode_subscribe_packet :: "bytes \<Rightarrow> v3_packet dres" where
  "v3_decode_subscribe_packet src =
     bind_res (decode_NonZeroU16 src) (\<lambda>(packet_id, src).
     bind_res (many v3_decode_subscription src) (\<lambda>topic_filters.
     Ok (V3_Subscribe packet_id topic_filters)))"

definition v3_decode_status :: "u8 \<Rightarrow> subscribe_return_code dres" where
  "v3_decode_status code = (if code = 0x80 then Ok Failure else map_res Success (qos_try_from code))"

definition v3_decode_subscribe_ack_packet :: "bytes \<Rightarrow> v3_packet dres" where
  "v3_decode_subscribe_ack_packet src =
     bind_res (decode_NonZeroU16 src) (\<lambda>(packet_id, src).
     bind_res (collect_res v3_decode_status src) (\<lambda>status.
     Ok (V3_SubscribeAck packet_id status)))"

definition v3_decode_unsubscribe_packet :: "bytes \<Rightarrow> v3_packet dres" where
  "v3_decode_unsubscribe_packet src =
     bind_res (decode_NonZeroU16 src) (\<lambda>(packet_id, src).
     bind_res (many decode_ByteString src) (\<lambda>topic_filters.
     Ok (V3_Unsubscribe packet_id topic_filters)))"

definition v3_decode_packet :: "bytes \<Rightarrow> u8 \<Rightarrow> v3_packet dres" where
  "v3_decode_packet src fb =
     (if fb = CONNECT then v3_decode_connect_packet src
      else if fb = CONNACK then v3_decode_connect_ack_packet src
      else if PUBLISH_START \<le> fb \<and> fb \<le> PUBLISH_END
        then v3_decode_publish_packet src (fb AND 0b00001111)
      else if fb = PUBACK then v3_decode_ack src V3_PublishAck
      else if fb = PUBREC then v3_decode_ack src V3_PublishReceived
      else if fb = PUBREL then v3_decode_ack src V3_PublishRelease
      else if fb = PUBCOMP then v3_decode_ack src V3_PublishComplete
      else if fb = SUBSCRIBE then v3_decode_subscribe_packet src
      else if fb = SUBACK then v3_decode_subscribe_ack_packet src
      else if fb = UNSUBSCRIBE then v3_decode_unsubscribe_packet src
      else if fb = UNSUBACK then v3_decode_ack src V3_UnsubscribeAck
      else if fb = PINGREQ then Ok V3_PingRequest
      else if fb = PINGRESP then Ok V3_PingResponse
      else if fb = DISCONNECT then Ok V3_Disconnect
      else Err UnsupportedPacketType)"

section \<open>Encoding (encode.rs)\<close>

definition v3_get_encoded_publish_size :: "publish \<Rightarrow> nat" where
  "v3_get_encoded_publish_size p =
     (if pub_qos p = AtLeastOnce \<or> pub_qos p = ExactlyOnce
      then 4 + length (pub_topic p) + length (pub_payload p)
      else 2 + length (pub_topic p) + length (pub_payload p))"

definition v3_get_encoded_subscribe_size :: "(bytes \<times> qos) list \<Rightarrow> nat" where
  "v3_get_encoded_subscribe_size topic_filters =
     2 + foldl (\<lambda>acc (flt, _). acc + 2 + length flt + 1) 0 topic_filters"

definition v3_get_encoded_unsubscribe_size :: "bytes list \<Rightarrow> nat" where
  "v3_get_encoded_unsubscribe_size topic_filters =
     2 + foldl (\<lambda>acc flt. acc + 2 + length flt) 0 topic_filters"

fun v3_get_encoded_size :: "v3_packet \<Rightarrow> nat" where
  "v3_get_encoded_size (V3_Connect c) =
     1 + 1 + 2 + (2 + length (protocol_name (c3_protocol c))) + (2 + length (c3_client_id c))
     + (case c3_last_will c of Some w \<Rightarrow> 2 + length (lw3_topic w) + 2 + length (lw3_message w) | None \<Rightarrow> 0)
     + (case c3_username c of Some s \<Rightarrow> 2 + length s | None \<Rightarrow> 0)
     + (case c3_password c of Some s \<Rightarrow> 2 + length s | None \<Rightarrow> 0)"
| "v3_get_encoded_size (V3_Publish p) = v3_get_encoded_publish_size p"
| "v3_get_encoded_size (V3_ConnectAck _) = 2"
| "v3_get_encoded_size (V3_PublishAck _) = 2"
| "v3_get_encoded_size (V3_PublishReceived _) = 2"
| "v3_get_encoded_size (V3_PublishRelease _) = 2"
| "v3_get_encoded_size (V3_PublishComplete _) = 2"
| "v3_get_encoded_size (V3_UnsubscribeAck _) = 2"
| "v3_get_encoded_size (V3_Subscribe _ topic_filters) = v3_get_encoded_subscribe_size topic_filters"
| "v3_get_encoded_size (V3_SubscribeAck _ status) = 2 + length status"
| "v3_get_encoded_size (V3_Unsubscribe _ topic_filters) = v3_get_encoded_unsubscribe_size topic_filters"
| "v3_get_encoded_size V3_PingRequest = 0"
| "v3_get_encoded_size V3_PingResponse = 0"
| "v3_get_encoded_size V3_Disconnect = 0"

definition v3_connect_flags :: "v3_connect \<Rightarrow> u8" where
  "v3_connect_flags c =
     (if c3_username c \<noteq> None then USERNAME else 0)
     OR (if c3_password c \<noteq> None then PASSWORD else 0)
     OR (case c3_last_will c of None \<Rightarrow> 0
         | Some w \<Rightarrow> WILL OR (if lw3_retain w then WILL_RETAIN else 0)
             OR flags_from_bits_truncate connect_flags_all (push_bit WILL_QOS_SHIFT (qos_value (lw3_qos w))))
     OR (if c3_clean_session c then CLEAN_START else 0)"

definition v3_encode_connect :: "v3_connect \<Rightarrow> encoder" where
  "v3_encode_connect c =
     seq_w (encode_Bytes (protocol_name (c3_protocol c)))
     (seq_w (put [MQTT_LEVEL_311, v3_connect_flags c])
     (seq_w (put_u16 (c3_keep_alive c))
     (seq_w (encode_ByteString (c3_client_id c))
     (seq_w (opt_w (\<lambda>w. seq_w (encode_ByteString (lw3_topic w)) (encode_Bytes (lw3_message w))) (c3_last_will c))
     (seq_w (opt_w encode_ByteString (c3_username c))
            (opt_w encode_Bytes (c3_password c)))))))"

definition publish_first_byte :: "publish \<Rightarrow> u8" where
  "publish_first_byte p =
     PUBLISH_START OR push_bit 1 (qos_value (pub_qos p)) OR push_bit 3 (if pub_dup p then 1 else 0)
     OR (if pub_retain p then 1 else 0)"

definition encode_publish_packet_id :: "publish \<Rightarrow> encoder" where
  "encode_publish_packet_id p =
     (if pub_qos p = AtMostOnce
      then if pub_packet_id p \<noteq> None then fail_w EncMalformedPacket else skip_w
      else case pub_packet_id p of None \<Rightarrow> fail_w EncPacketIdRequired | Some pid \<Rightarrow> encode_NonZeroU16 pid)"

fun v3_status_byte :: "subscribe_return_code \<Rightarrow> u8" where
  "v3_status_byte (Success q) = qos_value q"
| "v3_status_byte Failure = 0x80"

fun v3_encode :: "v3_packet \<Rightarrow> u32 \<Rightarrow> encoder" where
  "v3_encode (V3_Connect c) content_size =
     seq_w (put_u8 CONNECT) (seq_w (write_variable_length content_size) (v3_encode_connect c))"
| "v3_encode (V3_ConnectAck ack) content_size =
     seq_w (put_u8 CONNACK) (seq_w (write_variable_length content_size)
       (put [if ca3_session_present ack then 1 else 0, v3_connect_ack_reason_to_u8 (ca3_return_code ack)]))"
| "v3_encode (V3_Publish p) content_size =
     seq_w (put_u8 (publish_first_byte p)) (seq_w (write_variable_length content_size)
       (seq_w (encode_ByteString (pub_topic p)) (seq_w (encode_publish_packet_id p)
         (put (pub_payload p)))))"
| "v3_encode (V3_PublishAck pid) content_size =
     seq_w (put_u8 PUBACK) (seq_w (write_variable_length content_size) (encode_NonZeroU16 pid))"
| "v3_encode (V3_PublishReceived pid) content_size =
     seq_w (put_u8 PUBREC) (seq_w (write_variable_length content_size) (encode_NonZeroU16 pid))"
| "v3_encode (V3_PublishRelease pid) content_size =
     seq_w (put_u8 PUBREL) (seq_w (write_variable_length content_size) (encode_NonZeroU16 pid))"
| "v3_encode (V3_PublishComplete pid) content_size =
     seq_w (put_u8 PUBCOMP) (seq_w (write_variable_length content_size) (encode_NonZeroU16 pid))"
| "v3_encode (V3_Subscribe pid topic_filters) content_size =
     seq_w (put_u8 SUBSCRIBE) (seq_w (write_variable_length content_size) (seq_w (encode_NonZeroU16 pid)
       (each_w (\<lambda>tf. seq_w (encode_ByteString (fst tf)) (put_u8 (qos_value (snd tf)))) topic_filters)))"
| "v3_encode (V3_SubscribeAck pid status) content_size =
     seq_w (put_u8 SUBACK) (seq_w (write_variable_length content_size) (seq_w (encode_NonZeroU16 pid)
       (put (map v3_status_byte status))))"
| "v3_encode (V3_Unsubscribe pid topic_filters) content_size =
     seq_w (put_u8 UNSUBSCRIBE) (seq_w (write_variable_length content_size) (seq_w (encode_NonZeroU16 pid)
       (each_w encode_ByteString topic_filters)))"
| "v3_encode (V3_UnsubscribeAck pid) content_size =
     seq_w (put_u8 UNSUBACK) (seq_w (write_variable_length content_size) (encode_NonZeroU16 pid))"
| "v3_encode V3_PingRequest content_size = put [PINGREQ, 0]"
| "v3_encode V3_PingResponse content_size = put [PINGRESP, 0]"
| "v3_encode V3_Disconnect content_size = put [DISCONNECT, 0]"

section \<open>The codec (codec.rs)\<close>

record v3_codec =
  v3_state :: decode_state
  v3_max_size :: u32

definition v3_codec_new :: "u32 \<Rightarrow> v3_codec" where
  "v3_codec_new max_packet_size = \<lparr>v3_state = FrameHeader, v3_max_size = max_packet_size\<rparr>"

definition v3_codec_default :: v3_codec where
  "v3_codec_default = v3_codec_new 0"

definition v3_set_max_size :: "u32 \<Rightarrow> v3_codec \<Rightarrow> v3_codec" where
  "v3_set_max_size sz c = c\<lparr>v3_max_size := sz\<rparr>"

function v3_codec_decode :: "v3_codec \<Rightarrow> bytes \<Rightarrow> (v3_packet, v3_codec) decode_result" where
  "v3_codec_decode c src = (case v3_state c of
     FrameHeader \<Rightarrow>
       if length src < 2 then (Ok None, c, src)
       else (case decode_variable_length (tl src) of
           Ok (Some (len, consumed)) \<Rightarrow>
             if v3_max_size c \<noteq> 0 \<and> v3_max_size c < len
             then (Err (MaxSizeExceeded len (v3_max_size c)), c, src)
             else let src' = drop (consumed + 1) src;
                      c' = c\<lparr>v3_state := Frame \<lparr>first_byte = hd src, remaining_length = len\<rparr>\<rparr>
                  in if length src' < unat len then (Ok None, c', src') else v3_codec_decode c' src'
         | Ok None \<Rightarrow> (Ok None, c, src)
         | Err e \<Rightarrow> (Err e, c, src)
         | Panic \<Rightarrow> (Panic, c, src))
   | Frame fixed \<Rightarrow>
       if length src < unat (remaining_length fixed) then (Ok None, c, src)
       else let packet_buf = take (unat (remaining_length fixed)) src;
                src' = drop (unat (remaining_length fixed)) src
            in (case v3_decode_packet packet_buf (first_byte fixed) of
                Ok p \<Rightarrow> (Ok (Some (p, remaining_length fixed)), c\<lparr>v3_state := FrameHeader\<rparr>, src')
              | Err e \<Rightarrow> (Err e, c, src')
              | Panic \<Rightarrow> (Panic, c, src')))"
  by pat_completeness auto
termination
  by (relation "measure (\<lambda>(c, src). case v3_state c of FrameHeader \<Rightarrow> 1 | Frame _ \<Rightarrow> 0)") auto

declare v3_codec_decode.simps [simp del]

definition v3_codec_encode :: "v3_packet \<Rightarrow> encoder" where
  "v3_codec_encode item dst =
     (case item of
        V3_Publish p \<Rightarrow>
          if (pub_qos p = AtLeastOnce \<or> pub_qos p = ExactlyOnce) \<and> pub_packet_id p = None
          then (Err EncPacketIdRequired, dst)
          else v3_encode item (of_nat (v3_get_encoded_size item)) dst
      | _ \<Rightarrow> v3_encode item (of_nat (v3_get_encoded_size item)) dst)"

section \<open>Absence of panics\<close>

interpretation sub3: consuming v3_decode_subscription
  by unfold_locales
    (auto simp: v3_decode_subscription_def get_u8_Ok dest!: wtext.dec_consumes)

interpretation text3: consuming decode_ByteString
  by unfold_locales (rule wtext.dec_consumes)

lemma name_matches_no_panic:
  "length name \<le> length src \<Longrightarrow> name_matches len name src \<noteq> Panic"
  by (auto simp: name_matches_def)

lemma v3_decode_last_will_no_panic [simp, no_panic_intros]: "v3_decode_last_will flags src \<noteq> Panic"
  by (auto simp: v3_decode_last_will_def)

lemma decode_if_no_panic [no_panic_intros]: "(\<And>s. dec s \<noteq> Panic) \<Longrightarrow> decode_if c dec src \<noteq> Panic"
  by (auto simp: decode_if_def)

lemma decode_if_text_no_panic [simp]:
  "decode_if c decode_ByteString src \<noteq> Panic" "decode_if c decode_Bytes src \<noteq> Panic"
  by (simp_all add: decode_if_no_panic)

lemma v3_decode_connect_packet_no_panic: "v3_decode_connect_packet src \<noteq> Panic"
proof (cases "10 \<le> length src")
  case True
  then obtain a b s where src: "src = a # b # s" and s: "8 \<le> length s"
    by (cases src rule: get_u16.cases) auto
  have "name_matches (of_be16 a b) MQTT s \<noteq> Panic" "name_matches (of_be16 a b) MQISDP s \<noteq> Panic"
    using s by (auto intro!: name_matches_no_panic simp: MQTT_def MQISDP_def)
  moreover obtain c d t where "drop 4 s = c # d # t"
    using s by (cases "drop 4 s" rule: get_u16.cases) (auto dest: arg_cong [where f = length])
  moreover obtain c d t where "drop 6 s = c # d # t"
    using s by (cases "drop 6 s" rule: get_u16.cases) (auto dest: arg_cong [where f = length])
  ultimately show ?thesis
    using s src by (auto simp: v3_decode_connect_packet_def split: if_splits)
qed (simp add: v3_decode_connect_packet_def)

lemma v3_connect_ack_reason_no_panic [simp]: "v3_connect_ack_reason_try_from v \<noteq> Panic"
  by (simp add: v3_connect_ack_reason_try_from_def)

lemma v3_decode_connect_ack_packet_no_panic: "v3_decode_connect_ack_packet src \<noteq> Panic"
  by (cases src rule: get_u16.cases) (auto simp: v3_decode_connect_ack_packet_def)

lemma decode_packet_id_no_panic [simp]: "decode_packet_id q src \<noteq> Panic"
  by (auto simp: decode_packet_id_def)

lemma v3_decode_status_no_panic [simp]: "v3_decode_status c \<noteq> Panic"
  by (simp add: v3_decode_status_def)

lemma v3_decode_lists_no_panic [simp]:
  "many v3_decode_subscription src \<noteq> Panic" "many decode_ByteString src \<noteq> Panic"
  "collect_res v3_decode_status src \<noteq> Panic"
  by (auto intro!: sub3.many_no_panic text3.many_no_panic collect_res_no_panic
      simp: v3_decode_subscription_def)

lemma v3_decode_packet_no_panic: "v3_decode_packet src fb \<noteq> Panic"
  by (auto simp: v3_decode_packet_def v3_decode_connect_packet_no_panic
      v3_decode_connect_ack_packet_no_panic v3_decode_publish_packet_def v3_decode_ack_def
      v3_decode_subscribe_packet_def v3_decode_subscribe_ack_packet_def
      v3_decode_unsubscribe_packet_def)

section \<open>Representation of the packets\<close>

fun v3_first_byte :: "v3_packet \<Rightarrow> u8" where
  "v3_first_byte (V3_Publish p) = publish_first_byte p"
| "v3_first_byte p = v3_packet_type p"

definition opt_bytes :: "('a \<Rightarrow> bytes) \<Rightarrow> 'a option \<Rightarrow> bytes" where
  "opt_bytes f v = (case v of None \<Rightarrow> [] | Some x \<Rightarrow> f x)"

definition v3_connect_body :: "v3_connect \<Rightarrow> bytes" where
  "v3_connect_body c = prefixed (protocol_name (c3_protocol c)) @ [MQTT_LEVEL_311, v3_connect_flags c]
     @ be16 (c3_keep_alive c) @ prefixed (c3_client_id c)
     @ opt_bytes (\<lambda>w. prefixed (lw3_topic w) @ prefixed (lw3_message w)) (c3_last_will c)
     @ opt_bytes prefixed (c3_username c) @ opt_bytes prefixed (c3_password c)"

fun v3_body :: "v3_packet \<Rightarrow> bytes" where
  "v3_body (V3_Connect c) = v3_connect_body c"
| "v3_body (V3_ConnectAck a) =
     [if ca3_session_present a then 1 else 0, v3_connect_ack_reason_to_u8 (ca3_return_code a)]"
| "v3_body (V3_Publish p) = prefixed (pub_topic p) @ opt_bytes be16 (pub_packet_id p) @ pub_payload p"
| "v3_body (V3_PublishAck pid) = be16 pid"
| "v3_body (V3_PublishReceived pid) = be16 pid"
| "v3_body (V3_PublishRelease pid) = be16 pid"
| "v3_body (V3_PublishComplete pid) = be16 pid"
| "v3_body (V3_UnsubscribeAck pid) = be16 pid"
| "v3_body (V3_Subscribe pid tfs) = be16 pid @ concat (map (\<lambda>tf. prefixed (fst tf) @ [qos_value (snd tf)]) tfs)"
| "v3_body (V3_SubscribeAck pid status) = be16 pid @ map v3_status_byte status"
| "v3_body (V3_Unsubscribe pid tfs) = be16 pid @ concat (map prefixed tfs)"
| "v3_body V3_PingRequest = []"
| "v3_body V3_PingResponse = []"
| "v3_body V3_Disconnect = []"

text \<open>The packets the wire format can carry.\<close>

definition v3_wf_connect :: "v3_connect \<Rightarrow> bool" where
  "v3_wf_connect c \<longleftrightarrow> is_text (c3_client_id c) \<and> (c3_client_id c \<noteq> [] \<or> c3_clean_session c)
     \<and> (\<forall>w \<in> set_option (c3_last_will c). is_text (lw3_topic w) \<and> short (lw3_message w))
     \<and> (\<forall>u \<in> set_option (c3_username c). is_text u)
     \<and> (\<forall>p \<in> set_option (c3_password c). short p) \<and> c3_cert c = None"

definition v3_wf_publish :: "publish \<Rightarrow> bool" where
  "v3_wf_publish p \<longleftrightarrow> is_text (pub_topic p) \<and> (pub_packet_id p = None \<longleftrightarrow> pub_qos p = AtMostOnce)
     \<and> pub_packet_id p \<noteq> Some 0 \<and> pub_properties p = None"

fun v3_wf :: "v3_packet \<Rightarrow> bool" where
  "v3_wf (V3_Connect c) \<longleftrightarrow> v3_wf_connect c"
| "v3_wf (V3_ConnectAck a) \<longleftrightarrow> True"
| "v3_wf (V3_Publish p) \<longleftrightarrow> v3_wf_publish p"
| "v3_wf (V3_PublishAck pid) \<longleftrightarrow> pid \<noteq> 0"
| "v3_wf (V3_PublishReceived pid) \<longleftrightarrow> pid \<noteq> 0"
| "v3_wf (V3_PublishRelease pid) \<longleftrightarrow> pid \<noteq> 0"
| "v3_wf (V3_PublishComplete pid) \<longleftrightarrow> pid \<noteq> 0"
| "v3_wf (V3_UnsubscribeAck pid) \<longleftrightarrow> pid \<noteq> 0"
| "v3_wf (V3_Subscribe pid tfs) \<longleftrightarrow> pid \<noteq> 0 \<and> list_all (\<lambda>tf. is_text (fst tf)) tfs"
| "v3_wf (V3_SubscribeAck pid status) \<longleftrightarrow> pid \<noteq> 0"
| "v3_wf (V3_Unsubscribe pid tfs) \<longleftrightarrow> pid \<noteq> 0 \<and> list_all is_text tfs"
| "v3_wf V3_PingRequest \<longleftrightarrow> True"
| "v3_wf V3_PingResponse \<longleftrightarrow> True"
| "v3_wf V3_Disconnect \<longleftrightarrow> True"

text \<open>What the round trip returns: the encoder announces level 4 whatever the protocol of the packet.\<close>

fun v3_level_311 :: "v3_packet \<Rightarrow> v3_packet" where
  "v3_level_311 (V3_Connect c) = V3_Connect (c\<lparr>c3_protocol := MQTT_LEVEL_311\<rparr>)"
| "v3_level_311 p = p"

section \<open>The encoder appends the representation\<close>

lemma writes_opt_bytes [writes_intros]:
  "(\<And>x. v = Some x \<Longrightarrow> writes (f x) (g x)) \<Longrightarrow> writes (opt_w f v) (opt_bytes g v)"
  by (cases v) (auto simp: opt_w_def opt_bytes_def intro: writes_intros)

lemma length_opt_bytes: "length (opt_bytes f v) = (case v of None \<Rightarrow> 0 | Some x \<Rightarrow> length (f x))"
  by (cases v) (auto simp: opt_bytes_def)

lemma short_protocol_name [simp]: "short (protocol_name p)"
  by (simp add: protocol_name_def MQTT_def MQISDP_def short_def)

lemma v3_encode_connect_writes: "v3_wf_connect c \<Longrightarrow> writes (v3_encode_connect c) (v3_connect_body c)"
  unfolding v3_encode_connect_def v3_connect_body_def
  by (intro writes_intros) (auto simp: v3_wf_connect_def is_text_def)

lemma writes_packet_id:
  "v3_wf_publish p \<Longrightarrow> writes (encode_publish_packet_id p) (opt_bytes be16 (pub_packet_id p))"
  by (cases "pub_packet_id p")
    (auto simp: v3_wf_publish_def encode_publish_packet_id_def opt_bytes_def intro: writes_intros)

lemma writes_framed:
  assumes "len \<le> 268435455" and "writes w body"
  shows "writes (seq_w (put_u8 b) (seq_w (write_variable_length len) w)) (b # varlen_bytes len @ body)"
  using writes_seq [OF writes_put_u8 writes_seq [OF writes_variable_length [OF assms(1)] assms(2)]]
  by simp

lemma writes_ping: "writes (put [b, 0]) (b # varlen_bytes 0)"
  by (simp add: writes_def put_def varlen_bytes_def write_variable_length_def put_u8_def)

lemma v3_encode_writes:
  assumes "v3_wf p" and "len \<le> 268435455" and "v3_body p = [] \<Longrightarrow> len = 0"
  shows "writes (v3_encode p len) (v3_first_byte p # varlen_bytes len @ v3_body p)"
proof (cases p)
  case (V3_Connect c)
  with assms show ?thesis by (simp add: writes_framed v3_encode_connect_writes)
next
  case (V3_Publish q)
  with assms have "writes (seq_w (encode_ByteString (pub_topic q)) (seq_w (encode_publish_packet_id q)
      (put (pub_payload q)))) (v3_body p)"
    by (auto simp: v3_wf_publish_def intro!: writes_intros writes_packet_id)
  with V3_Publish assms show ?thesis by (simp add: writes_framed)
next
  case (V3_Subscribe pid tfs)
  with assms show ?thesis
    by (auto simp: list_all_iff intro!: writes_framed writes_intros)
next
  case (V3_Unsubscribe pid tfs)
  with assms show ?thesis
    by (auto simp: list_all_iff intro!: writes_framed writes_intros)
qed (use assms in \<open>auto intro!: writes_framed writes_intros simp: writes_ping\<close>)

lemma foldl_sum: "foldl (\<lambda>acc x. acc + f x) n xs = n + sum_list (map f xs)" for n :: nat
  by (induction xs arbitrary: n) auto

lemma v3_encoded_size_body:
  assumes "v3_wf p"
  shows "v3_get_encoded_size p = length (v3_body p)"
proof (cases p)
  case (V3_Publish q)
  with assms show ?thesis
    by (cases "pub_qos q") (auto simp: v3_get_encoded_publish_size_def length_opt_bytes v3_wf_publish_def
        split: option.splits)
next
  case (V3_Subscribe pid tfs)
  then show ?thesis
    using foldl_sum [of "\<lambda>tf. 2 + length (fst tf) + 1" 0 tfs]
    by (simp add: v3_get_encoded_subscribe_size_def length_concat case_prod_unfold comp_def add.assoc)
next
  case (V3_Unsubscribe pid tfs)
  then show ?thesis
    using foldl_sum [of "\<lambda>tf. 2 + length tf" 0 tfs]
    by (simp add: v3_get_encoded_unsubscribe_size_def length_concat comp_def add.assoc)
qed (auto simp: v3_connect_body_def length_opt_bytes split: option.splits)

section \<open>Decoding the representation\<close>

lemma v3_flags_accepted:
  "flags_from_bits connect_flags_all (v3_connect_flags c) = Some (v3_connect_flags c)"
  by (cases "case c3_last_will c of None \<Rightarrow> AtMostOnce | Some w \<Rightarrow> lw3_qos w")
    (auto simp: v3_connect_flags_def flags_from_bits_def connect_flags_all_def
      flags_from_bits_truncate_def split: option.splits)

lemma v3_flags_contains:
  "contains (v3_connect_flags c) USERNAME \<longleftrightarrow> c3_username c \<noteq> None"
  "contains (v3_connect_flags c) PASSWORD \<longleftrightarrow> c3_password c \<noteq> None"
  "contains (v3_connect_flags c) WILL \<longleftrightarrow> c3_last_will c \<noteq> None"
  "contains (v3_connect_flags c) CLEAN_START \<longleftrightarrow> c3_clean_session c"
  by (cases "case c3_last_will c of None \<Rightarrow> AtMostOnce | Some w \<Rightarrow> lw3_qos w",
      auto simp: v3_connect_flags_def contains_def connect_flags_all_def
        flags_from_bits_truncate_def split: option.splits)+

lemma v3_flags_will:
  assumes "c3_last_will c = Some w"
  shows "contains (v3_connect_flags c) WILL_RETAIN \<longleftrightarrow> lw3_retain w"
    and "drop_bit WILL_QOS_SHIFT (v3_connect_flags c AND WILL_QOS) = qos_value (lw3_qos w)"
  using assms
  by (cases "lw3_qos w", auto simp: v3_connect_flags_def contains_def connect_flags_all_def
        flags_from_bits_truncate_def)+

lemma decode_if_opt_bytes:
  assumes "\<And>x. v = Some x \<Longrightarrow> dec (f x @ rest) = Ok (x, rest)"
  shows "decode_if (v \<noteq> None) dec (opt_bytes f v @ rest) = Ok (v, rest)"
  using assms by (cases v) (auto simp: decode_if_def opt_bytes_def)

lemma v3_decode_last_will_repr:
  assumes "v3_wf_connect c"
  shows "v3_decode_last_will (v3_connect_flags c)
      (opt_bytes (\<lambda>w. prefixed (lw3_topic w) @ prefixed (lw3_message w)) (c3_last_will c) @ rest)
    = Ok (c3_last_will c, rest)"
  using assms
  by (cases "c3_last_will c")
    (simp_all add: v3_decode_last_will_def v3_flags_contains v3_flags_will opt_bytes_def v3_wf_connect_def
      del: WILL_def WILL_QOS_def WILL_RETAIN_def WILL_QOS_SHIFT_def drop_bit_and)

lemma decode_protocol_name:
  obtains (mqtt) "protocol_name p = MQTT" | (mqisdp) "protocol_name p = MQISDP"
proof -
  have "protocol_name p = MQTT \<or> protocol_name p = MQISDP"
    by (simp add: protocol_name_def)
  then show thesis
    using that by blast
qed

lemma length_names [simp]: "length MQTT = 4" "length MQISDP = 6"
  by (simp_all add: MQTT_def MQISDP_def)

lemma get_u16_prefixed: "get_u16 (prefixed b @ rest) = Ok (of_nat (length b), b @ rest)"
  by (simp add: prefixed_def)

lemma name_matches_name:
  "name_matches 4 MQTT (MQTT @ rest) = Ok True" "name_matches 6 MQTT src = Ok False"
  "name_matches 6 MQISDP (MQISDP @ rest) = Ok True"
  by (simp_all add: name_matches_def slice_def)

lemma v3_decode_connect_body:
  assumes "v3_wf_connect c"
  shows "v3_decode_connect_packet (v3_connect_body c) = Ok (v3_level_311 (V3_Connect c))"
proof -
  define t where "t = be16 (c3_keep_alive c) @ prefixed (c3_client_id c)
     @ opt_bytes (\<lambda>w. prefixed (lw3_topic w) @ prefixed (lw3_message w)) (c3_last_will c)
     @ opt_bytes prefixed (c3_username c) @ opt_bytes prefixed (c3_password c)"
  have username: "decode_if (contains (v3_connect_flags c) USERNAME) decode_ByteString
      (opt_bytes prefixed (c3_username c) @ rest) = Ok (c3_username c, rest)" for rest
    unfolding v3_flags_contains
    by (rule decode_if_opt_bytes) (use assms in \<open>auto simp: v3_wf_connect_def\<close>)
  have password: "decode_if (contains (v3_connect_flags c) PASSWORD) decode_Bytes
      (opt_bytes prefixed (c3_password c)) = Ok (c3_password c, [])"
    unfolding v3_flags_contains
    using decode_if_opt_bytes [of "c3_password c" decode_Bytes prefixed "[]"] assms
    by (simp add: v3_wf_connect_def)
  have id: "is_text (c3_client_id c)" "c3_client_id c \<noteq> [] \<or> c3_clean_session c" "c3_cert c = None"
    using assms by (auto simp: v3_wf_connect_def)
  have "10 \<le> length (prefixed (protocol_name (c3_protocol c)) @ MQTT_LEVEL_311 # v3_connect_flags c # t)"
    by (cases rule: decode_protocol_name [of "c3_protocol c"]) (simp_all add: t_def)
  moreover have "c\<lparr>c3_protocol := MQTT_LEVEL_311\<rparr> =
      \<lparr>c3_protocol = MQTT_LEVEL_311, c3_clean_session = c3_clean_session c,
       c3_keep_alive = c3_keep_alive c, c3_last_will = c3_last_will c, c3_client_id = c3_client_id c,
       c3_username = c3_username c, c3_password = c3_password c, c3_cert = None\<rparr>"
    using id by (cases c) simp
  ultimately show ?thesis
    using id v3_decode_last_will_repr [OF assms] username password
    by (cases rule: decode_protocol_name [of "c3_protocol c"])
      (simp_all add: v3_connect_body_def v3_decode_connect_packet_def name_matches_name
        get_u16_prefixed v3_flags_accepted v3_flags_contains(4) t_def
        del: USERNAME_def PASSWORD_def CLEAN_START_def)
qed

lemma v3_decode_publish_body:
  assumes "v3_wf_publish p"
  shows "v3_decode_packet (v3_body (V3_Publish p)) (publish_first_byte p) = Ok (V3_Publish p)"
proof -
  have flags: "publish_first_byte p AND 0b00001111 AND 0b0110 = push_bit 1 (qos_value (pub_qos p))"
    "(publish_first_byte p AND 0b00001111 AND 0b1000 = 0b1000) = pub_dup p"
    "(publish_first_byte p AND 0b00001111 AND 0b0001 = 0b0001) = pub_retain p"
    "PUBLISH_START \<le> publish_first_byte p \<and> publish_first_byte p \<le> PUBLISH_END"
    by (cases "pub_qos p"; cases "pub_dup p"; cases "pub_retain p";
        simp add: publish_first_byte_def word_le_nat_alt)+
  then have "publish_first_byte p \<noteq> CONNECT \<and> publish_first_byte p \<noteq> CONNACK"
    by (auto simp: word_le_nat_alt)
  moreover have "drop_bit 1 (push_bit 1 (qos_value q)) = qos_value q" for q
    by (cases q) simp_all
  moreover have "decode_packet_id (pub_qos p) (opt_bytes be16 (pub_packet_id p) @ rest)
      = Ok (pub_packet_id p, rest)" for rest
    using assms by (cases "pub_packet_id p") (auto simp: decode_packet_id_def opt_bytes_def v3_wf_publish_def)
  ultimately show ?thesis
    using assms flags
    by (cases p) (simp add: v3_decode_packet_def v3_decode_publish_packet_def v3_wf_publish_def and.assoc
        del: CONNECT_def CONNACK_def PUBLISH_START_def PUBLISH_END_def)
qed

lemma v3_decode_subscription_repr:
  "is_text (fst tf) \<Longrightarrow>
   v3_decode_subscription ((prefixed (fst tf) @ [qos_value (snd tf)]) @ rest) = Ok (tf, rest)"
proof -
  have "qos_value q AND 3 = qos_value q" for q by (cases q) simp_all
  then show "is_text (fst tf) \<Longrightarrow> ?thesis"
    by (simp add: v3_decode_subscription_def)
qed

lemma v3_decode_body:
  assumes "v3_wf p"
  shows "v3_decode_packet (v3_body p) (v3_first_byte p) = Ok (v3_level_311 p)"
proof (cases p)
  case (V3_Connect c)
  with assms show ?thesis using v3_decode_connect_body [of c] by (simp add: v3_decode_packet_def)
next
  case (V3_ConnectAck a)
  then show ?thesis
    by (cases a; cases "ca3_return_code a") (auto simp: v3_decode_packet_def
        v3_decode_connect_ack_packet_def flags_from_bits_def contains_def v3_connect_ack_reason_try_from_def)
next
  case (V3_Publish q)
  with assms show ?thesis using v3_decode_publish_body [of q] by simp
next
  case (V3_Subscribe pid tfs)
  with assms have "many v3_decode_subscription (concat (map (\<lambda>tf. prefixed (fst tf) @ [qos_value (snd tf)]) tfs))
      = Ok tfs"
    by (intro sub3.many_repr v3_decode_subscription_repr) (auto simp: list_all_iff)
  with assms V3_Subscribe show ?thesis
    by (simp add: v3_decode_packet_def v3_decode_subscribe_packet_def word_le_nat_alt)
next
  case (V3_Unsubscribe pid tfs)
  with assms have "many decode_ByteString (concat (map prefixed tfs)) = Ok tfs"
    by (intro text3.many_repr wire_reprs) (auto simp: list_all_iff)
  with assms V3_Unsubscribe show ?thesis
    by (simp add: v3_decode_packet_def v3_decode_unsubscribe_packet_def word_le_nat_alt)
next
  case (V3_SubscribeAck pid status)
  have "v3_decode_status (v3_status_byte s) = Ok s" for s
  proof (cases s)
    case (Success q)
    then show ?thesis by (cases q) (simp_all add: v3_decode_status_def qos_try_from_def)
  qed (simp add: v3_decode_status_def)
  then have "collect_res v3_decode_status (map v3_status_byte status) = Ok status"
    by (intro collect_res_Ok)
  with assms V3_SubscribeAck show ?thesis
    by (simp add: v3_decode_packet_def v3_decode_subscribe_ack_packet_def word_le_nat_alt)
qed (use assms wnz16.dec_repr [where rest = "[]"] in
      \<open>auto simp: v3_decode_packet_def v3_decode_ack_def word_le_nat_alt\<close>)

section \<open>The codec\<close>

interpretation v3: framed v3_codec_decode v3_state "\<lambda>s c. c\<lparr>v3_state := s\<rparr>" v3_max_size
  v3_decode_packet "\<lambda>_ c. c"
proof
  show "v3_state c = FrameHeader \<Longrightarrow> v3_codec_decode c src =
      (if length src < 2 then (Ok None, c, src)
       else case decode_variable_length (tl src) of
           Ok (Some (len, consumed)) \<Rightarrow>
             if v3_max_size c \<noteq> 0 \<and> v3_max_size c < len then (Err (MaxSizeExceeded len (v3_max_size c)), c, src)
             else let src' = drop (consumed + 1) src;
                      c' = c\<lparr>v3_state := Frame \<lparr>first_byte = hd src, remaining_length = len\<rparr>\<rparr>
                  in if length src' < unat len then (Ok None, c', src') else v3_codec_decode c' src'
         | Ok None \<Rightarrow> (Ok None, c, src)
         | Err e \<Rightarrow> (Err e, c, src)
         | Panic \<Rightarrow> (Panic, c, src))" for c src
    by (subst v3_codec_decode.simps) simp
qed (simp_all add: v3_codec_decode.simps cong: res.case_cong)

lemma v3_codec_encode_writes:
  assumes "v3_wf p" and "length (v3_body p) \<le> 268435455"
  shows "writes (v3_codec_encode p)
    (v3_first_byte p # varlen_bytes (of_nat (v3_get_encoded_size p)) @ v3_body p)"
proof -
  let ?n = "of_nat (v3_get_encoded_size p) :: u32"
  have "unat ?n = length (v3_body p)"
    using assms v3_encoded_size_body [OF assms(1)] by (simp add: unat_of_nat)
  then have "?n \<le> 268435455" and "v3_body p = [] \<Longrightarrow> ?n = 0"
    using assms v3_encoded_size_body [OF assms(1)] by (auto simp: word_le_nat_alt)
  then have "writes (v3_encode p ?n) (v3_first_byte p # varlen_bytes ?n @ v3_body p)"
    using assms by (intro v3_encode_writes)
  moreover have "v3_codec_encode p = v3_encode p ?n"
    using assms by (cases p) (auto simp: v3_codec_encode_def v3_wf_publish_def fun_eq_iff)
  ultimately show ?thesis by simp
qed

lemma v3_decode_frame:
  assumes "v3_wf p" and "length (v3_body p) \<le> 268435455" and "v3_state c = FrameHeader"
    and "v3_max_size c = 0 \<or> of_nat (length (v3_body p)) \<le> v3_max_size c"
  shows "v3_codec_decode c (v3_first_byte p # varlen_bytes (of_nat (v3_get_encoded_size p)) @ v3_body p @ rest)
    = (Ok (Some (v3_level_311 p, of_nat (v3_get_encoded_size p))), c, rest)"
proof -
  let ?n = "of_nat (v3_get_encoded_size p) :: u32"
  have n: "unat ?n = length (v3_body p)" "?n = of_nat (length (v3_body p))"
    using assms v3_encoded_size_body [OF assms(1)] by (simp_all add: unat_of_nat)
  have le: "?n \<le> 268435455"
    using n(1) assms(2) by (simp add: word_le_nat_alt)
  have max: "v3_max_size c = 0 \<or> ?n \<le> v3_max_size c"
    using assms(4) unfolding n(2) .
  have "c\<lparr>v3_state := s, v3_state := FrameHeader\<rparr> = c" for s
    using assms(3) by (cases c) simp
  then show ?thesis
    using v3.whole_frame [OF assms(3) le max n(1) [symmetric] v3_decode_body [OF assms(1)], of rest]
    by metis
qed

lemma v3_decode_last_will_wf:
  "v3_decode_last_will flags src = Ok (lw, rest) \<Longrightarrow>
   \<forall>w \<in> set_option lw. is_text (lw3_topic w) \<and> short (lw3_message w)"
  by (auto simp: v3_decode_last_will_def split: if_splits dest: wtext.dec_wf wbytes.dec_wf)

lemma decode_if_wf:
  "decode_if c dec src = Ok (v, rest) \<Longrightarrow> (\<And>s x r. dec s = Ok (x, r) \<Longrightarrow> Q x) \<Longrightarrow>
   \<forall>x \<in> set_option v. Q x"
  by (auto simp: decode_if_def split: if_splits)

lemma v3_decode_connect_wf:
  assumes "v3_decode_connect_packet src = Ok p"
  shows "v3_wf p"
proof -
  obtain level flags ka s0 cid s1 lw s2 user s3 pass s4 where d:
    "decode_ByteString s0 = Ok (cid, s1)" "cid \<noteq> [] \<or> contains flags CLEAN_START"
    "v3_decode_last_will flags s1 = Ok (lw, s2)"
    "decode_if (contains flags USERNAME) decode_ByteString s2 = Ok (user, s3)"
    "decode_if (contains flags PASSWORD) decode_Bytes s3 = Ok (pass, s4)"
    "p = V3_Connect \<lparr>c3_protocol = level, c3_clean_session = contains flags CLEAN_START,
           c3_keep_alive = ka, c3_last_will = lw, c3_client_id = cid,
           c3_username = user, c3_password = pass, c3_cert = None\<rparr>"
    using assms unfolding v3_decode_connect_packet_def
    by (clarsimp simp del: CLEAN_START_def USERNAME_def PASSWORD_def)
  have "\<forall>x \<in> set_option user. is_text x" "\<forall>x \<in> set_option pass. short x"
    using decode_if_wf [OF d(4)] decode_if_wf [OF d(5)] wtext.dec_wf wbytes.dec_wf by blast+
  with d wtext.dec_wf [OF d(1)] v3_decode_last_will_wf [OF d(3)] show ?thesis
    by (simp add: v3_wf_connect_def)
qed

lemma v3_decode_publish_wf: "v3_decode_publish_packet src fl = Ok p \<Longrightarrow> v3_wf p"
  by (auto simp: v3_decode_publish_packet_def v3_wf_publish_def decode_packet_id_def
      split: if_splits dest: wtext.dec_wf wnz16.dec_wf)

lemma many_Ball:
  assumes "many p src = Ok xs" and "\<And>s x r. p s = Ok (x, r) \<Longrightarrow> Q x"
  shows "list_all Q xs"
  using assms
proof (induction p src arbitrary: xs rule: many.induct)
  case (1 p src)
  from "1.prems" show ?case
    by (subst (asm) many.simps) (auto split: if_splits dest: "1.IH")
qed

lemma v3_decode_lists_wf:
  "many v3_decode_subscription src = Ok tfs \<Longrightarrow> list_all (\<lambda>tf. is_text (fst tf)) tfs"
  "many decode_ByteString src = Ok fs \<Longrightarrow> list_all is_text fs"
  by (auto elim!: many_Ball simp: v3_decode_subscription_def dest: wtext.dec_wf)

lemma v3_decode_packet_wf:
  assumes "v3_decode_packet src fb = Ok p"
  shows "v3_wf p"
  using assms
  by (auto simp: v3_decode_packet_def v3_decode_connect_ack_packet_def v3_decode_ack_def
      v3_decode_subscribe_packet_def v3_decode_subscribe_ack_packet_def v3_decode_unsubscribe_packet_def
      dest: v3_decode_connect_wf v3_decode_publish_wf wnz16.dec_wf v3_decode_lists_wf split: if_splits)

section \<open>Properties\<close>

text \<open>
  C10: every well-formed MQTT 3 packet whose body fits a frame is encoded successfully, and a codec
  waiting for a header decodes the frame back to the packet, whatever follows it in the buffer; the
  codec is then ready for the next frame.  Only the protocol level of a CONNECT packet is not kept:
  the encoder always writes level 4, also after the name of MQTT 3.1.
\<close>

theorem v3_roundtrip:
  assumes "v3_wf p" and "v3_get_encoded_size p \<le> 268435455" and "v3_state c = FrameHeader"
    and "v3_max_size c = 0 \<or> of_nat (v3_get_encoded_size p) \<le> v3_max_size c"
  shows "\<exists>frame. (\<forall>dst. v3_codec_encode p dst = (Ok (), dst @ frame)) \<and>
    (\<forall>rest. v3_codec_decode c (frame @ rest) =
       (Ok (Some (v3_level_311 p, of_nat (v3_get_encoded_size p))), c, rest))"
proof -
  have "length (v3_body p) \<le> 268435455"
    using assms(2) v3_encoded_size_body [OF assms(1)] by simp
  moreover have "v3_max_size c = 0 \<or> of_nat (length (v3_body p)) \<le> v3_max_size c"
    using assms(4) unfolding v3_encoded_size_body [OF assms(1)] .
  ultimately show ?thesis
    using v3_decode_frame [OF assms(1) _ assms(3)]
      writesD [OF v3_codec_encode_writes [OF assms(1)]]
    by (intro exI [of _ "v3_first_byte p # varlen_bytes (of_nat (v3_get_encoded_size p)) @ v3_body p"])
      simp
qed

definition v3_sample :: v3_packet where
  "v3_sample = V3_Publish \<lparr>pub_dup = False, pub_retain = True, pub_qos = AtLeastOnce,
     pub_topic = [0x61, 0x2F, 0x62], pub_packet_id = Some 7, pub_payload = [1, 2], pub_properties = None\<rparr>"

theorem v3_roundtrip_witness:
  "\<exists>frame. (\<forall>dst. v3_codec_encode v3_sample dst = (Ok (), dst @ frame)) \<and>
    (\<forall>rest. v3_codec_decode v3_codec_default (frame @ rest) =
       (Ok (Some (v3_sample, 9)), v3_codec_default, rest))"
  using v3_roundtrip [of v3_sample v3_codec_default]
  by (simp add: v3_sample_def v3_codec_default_def v3_codec_new_def v3_wf_publish_def is_text_def
      short_def v3_get_encoded_publish_size_def word_le_nat_alt)

text \<open>
  No sequence of bytes received from the network makes the MQTT 3 codec panic, in whatever state
  it is; every input is answered by a packet, a request for more input or an error.
\<close>

theorem v3_decode_total: "fst (v3_codec_decode c src) \<noteq> Panic"
  by (rule v3.no_panic) (rule v3_decode_packet_no_panic)

text \<open>
  The MQTT 3 packets obtained from a stream do not depend on how the network cuts it into reads:
  the packets decoded from a first part and then from what was kept followed by a second part are the
  packets decoded from both parts at once, with the same final state and remaining bytes.
\<close>

theorem v3_decode_chunks:
  assumes "yields v3_codec_decode c src ps c1 src1"
    and "yields v3_codec_decode c1 (src1 @ ext) qs c2 src2"
  shows "yields v3_codec_decode c (src @ ext) (ps @ qs) c2 src2"
  using assms by (rule v3.yields_chunks)

theorem v3_decode_chunks_witness:
  "yields v3_codec_decode v3_codec_default ([0xC0, 0x00] @ [0xD0] @ [0x00])
     ([(V3_PingRequest, 0)] @ [(V3_PingResponse, 0)]) v3_codec_default []"
proof -
  have a: "yields v3_codec_decode v3_codec_default [0xC0, 0x00, 0xD0]
      [(V3_PingRequest, 0)] v3_codec_default [0xD0]"
    by (rule yields.packet [where ?c1.0 = v3_codec_default and ?src1.0 = "[0xD0]"];
        (rule yields.more_input)?)
      (simp_all add: v3_codec_decode.simps v3_codec_default_def v3_codec_new_def decode_variable_length_def
        decode_variable_length_cursor_def v3_decode_packet_def word_le_nat_alt)
  have b: "yields v3_codec_decode v3_codec_default ([0xD0] @ [0x00])
      [(V3_PingResponse, 0)] v3_codec_default []"
    by (rule yields.packet [where ?c1.0 = v3_codec_default and ?src1.0 = "[]"];
        (rule yields.more_input)?)
      (simp_all add: v3_codec_decode.simps v3_codec_default_def v3_codec_new_def decode_variable_length_def
        decode_variable_length_cursor_def v3_decode_packet_def word_le_nat_alt)
  show ?thesis
    using v3_decode_chunks [OF a b] by simp
qed

text \<open>
  The MQTT 3 decoder only produces well-formed packets: texts are UTF-8 of at most 65535 bytes,
  packet identifiers are not zero and present exactly for quality of service 1 and 2, and an empty
  client identifier comes with a clean session.  With the round trip, re-encoding a received packet
  succeeds and is understood as the same packet.
\<close>

theorem v3_decode_well_formed:
  assumes "v3_codec_decode c src = (Ok (Some (p, len)), c', src')"
  shows "v3_wf p \<and> v3_state c' = FrameHeader"
  using v3.decoded [OF assms] by (auto intro: v3_decode_packet_wf)

theorem v3_decode_well_formed_witness:
  "v3_wf (V3_PublishAck 5)"
  using v3_decode_well_formed [of v3_codec_default "[0x40, 0x02, 0x00, 0x05]" "V3_PublishAck 5" 2
      v3_codec_default "[]"]
  by (simp add: v3_codec_decode.simps v3_codec_default_def v3_codec_new_def decode_variable_length_def
      decode_variable_length_cursor_def v3_decode_packet_def v3_decode_ack_def decode_NonZeroU16_def
      decode_u16_def of_be16_def word_le_nat_alt)

text \<open>
  A non-zero maximum size is enforced: every packet a codec waiting for a header returns has a
  body of at most that size, and a larger announced size is refused before the body is read, leaving
  the codec and its buffer unchanged.
\<close>

theorem v3_max_size_enforced:
  assumes "v3_state c = FrameHeader" and "v3_max_size c \<noteq> 0"
  shows "(v3_codec_decode c src = (Ok (Some (p, len)), c', src') \<longrightarrow> len \<le> v3_max_size c) \<and>
    (decode_variable_length (tl src) = Ok (Some (len, n)) \<and> v3_max_size c < len \<longrightarrow>
      v3_codec_decode c src = (Err (MaxSizeExceeded len (v3_max_size c)), c, src))"
proof (intro conjI impI)
  show "v3_codec_decode c src = (Ok (Some (p, len)), c', src') \<Longrightarrow> len \<le> v3_max_size c"
    using assms by (rule v3.max_size_enforced)
  assume v: "decode_variable_length (tl src) = Ok (Some (len, n)) \<and> v3_max_size c < len"
  then have "\<not> length src < 2"
    using decode_variable_length_bound [of "tl src" len n] by (cases src) auto
  with v assms show "v3_codec_decode c src = (Err (MaxSizeExceeded len (v3_max_size c)), c, src)"
    using v3.decode_header [of c src] by simp
qed

theorem v3_max_size_enforced_witness:
  "(2 :: u32) \<le> v3_max_size (v3_codec_new 3) \<and>
   v3_codec_decode (v3_codec_new 3) [0x30, 0x09] = (Err (MaxSizeExceeded 9 3), v3_codec_new 3, [0x30, 0x09])"
  using v3_max_size_enforced [of "v3_codec_new 3" "[0x40, 0x02, 0x00, 0x05]" "V3_PublishAck 5" 2
      "v3_codec_new 3" "[]"]
    v3_max_size_enforced [of "v3_codec_new 3" "[0x30, 0x09]" _ 9 _ _ 1]
  by (simp add: v3_codec_decode.simps v3_codec_default_def v3_codec_new_def decode_variable_length_def
      decode_variable_length_cursor_def v3_decode_packet_def v3_decode_ack_def decode_NonZeroU16_def
      decode_u16_def of_be16_def word_le_nat_alt word_less_nat_alt)

end
