(* ===== verification/Version_Codec.thy ===== *)
theory Version_Codec
  imports V3_Codec
begin

text \<open>
  Detection of the protocol version from the first bytes of a connection (\<^verbatim>\<open>codec/version.rs\<close>), before
  the connection is handed to the codec of that version.
\<close>

unbundle bit_operations_syntax

section \<open>The version codec\<close>

datatype protocol_version = MQTT3 | MQTT5

definition version_of_level :: "u8 \<Rightarrow> protocol_version option dres" where
  "version_of_level level =
     (if level = MQTT_LEVEL_31 \<or> level = MQTT_LEVEL_311 then Ok (Some MQTT3)
      else if level = MQTT_LEVEL_5 then Ok (Some MQTT5) else Err InvalidProtocol)"

text \<open>
  The codec only looks at the buffer.  \<^verbatim>\<open>u16::from_be_bytes\<close> of a slice of two bytes is \<open>get_u16\<close>.
\<close>

definition version_decode :: "bytes \<Rightarrow> protocol_version option dres" where
  "version_decode src =
     (if length src < 2 then Ok None
      else bind_res (index src 0) (\<lambda>first.
        bind_res (decode_variable_length (tl src)) (\<lambda>r. case r of
          Some (_, n) \<Rightarrow>
            let consumed = n + 1 in
            if first = CONNECT then
              if length src \<le> consumed + 6 then Ok None
              else bind_res (bind_res (slice src consumed (consumed + 2)) get_u16) (\<lambda>(protocol_len, _).
                if protocol_len = 4 then
                  bind_res (slice src (consumed + 2) (consumed + 6)) (\<lambda>name.
                  if name \<noteq> MQTT then Err InvalidProtocol
                  else bind_res (index src (consumed + 2 + unat protocol_len)) version_of_level)
                else if protocol_len = 6 then
                  if length src \<le> consumed + 8 then Ok None
                  else bind_res (slice src (consumed + 2) (consumed + 8)) (\<lambda>name.
                    if name \<noteq> MQISDP then Err InvalidProtocol
                    else bind_res (index src (consumed + 2 + unat protocol_len)) version_of_level)
                else Err InvalidProtocol)
            else Err UnsupportedPacketType
        | None \<Rightarrow> Ok None)))"

definition version_encode :: "protocol_version \<Rightarrow> encoder" where
  "version_encode v = fail_w UnsupportedVersion"

section \<open>Detection on a connect frame\<close>

lemma version_of_level_no_panic [simp]: "version_of_level l \<noteq> Panic"
  by (simp add: version_of_level_def)

lemma version_decode_no_panic: "version_decode src \<noteq> Panic"
  by (auto simp: version_decode_def Let_def slice_def index_def decode_variable_length_no_panic
      split: option.splits)

text \<open>The part of the detection that follows the fixed header.\<close>

definition version_of_body :: "bytes \<Rightarrow> protocol_version option dres" where
  "version_of_body body =
     (if length body \<le> 6 then Ok None
      else bind_res (bind_res (slice body 0 2) get_u16) (\<lambda>(protocol_len, _).
        if protocol_len = 4 then
          bind_res (slice body 2 6) (\<lambda>name.
          if name \<noteq> MQTT then Err InvalidProtocol
          else bind_res (index body (2 + unat protocol_len)) version_of_level)
        else if protocol_len = 6 then
          if length body \<le> 8 then Ok None
          else bind_res (slice body 2 8) (\<lambda>name.
            if name \<noteq> MQISDP then Err InvalidProtocol
            else bind_res (index body (2 + unat protocol_len)) version_of_level)
        else Err InvalidProtocol))"

lemma slice_drop: "n \<le> length src \<Longrightarrow> slice (drop n src) i j = slice src (n + i) (n + j)"
  by (auto simp: slice_def add.commute)

lemma index_drop: "n \<le> length src \<Longrightarrow> index (drop n src) i = index src (n + i)"
  by (auto simp: index_def)

lemma slice_append_left: "slice src i j \<noteq> Panic \<Longrightarrow> slice (src @ ext) i j = slice src i j"
  by (auto simp: slice_def split: if_splits)

lemma index_append_left: "index src i \<noteq> Panic \<Longrightarrow> index (src @ ext) i = index src i"
  by (auto simp: index_def nth_append split: if_splits)

lemma version_decode_body:
  assumes "decode_variable_length (tl src) = Ok (Some (len, n))" and "hd src = CONNECT"
  shows "version_decode src = version_of_body (drop (n + 1) src)"
proof -
  have n: "0 < n \<and> n \<le> length src - 1"
    using decode_variable_length_bound [OF assms(1)] by simp
  then have len: "Suc n \<le> length src" "\<not> length src < 2"
    by linarith+
  have m: "length (drop (Suc n) src) \<le> k \<longleftrightarrow> length src \<le> Suc n + k" for k
    by auto
  have i: "index src 0 = Ok 16"
    using len assms(2) by (cases src) (auto simp: index_def)
  show ?thesis
    unfolding version_decode_def version_of_body_def
    by (simp add: i m assms(1) len(2) slice_drop [OF len(1)] index_drop [OF len(1)] add.assoc
        del: length_drop cong: if_cong)
qed

lemma version_decode_Some:
  assumes "version_decode src = r" and "r \<noteq> Ok None"
  shows "\<not> length src < 2" and "decode_variable_length (tl src) \<noteq> Ok None"
  using assms by (auto simp: version_decode_def index_def split: if_splits)

lemma version_of_body_append:
  assumes "version_of_body body \<noteq> Ok None"
  shows "version_of_body (body @ ext) = version_of_body body"
proof -
  have l: "\<not> length body \<le> 6"
    using assms by (auto simp: version_of_body_def)
  then have "slice (body @ ext) 0 2 = slice body 0 2" "slice (body @ ext) 2 6 = slice body 2 6"
    "index (body @ ext) 6 = index body 6"
    by (simp_all add: slice_append_left index_append_left)
  moreover have "slice (body @ ext) 2 8 = slice body 2 8" "index (body @ ext) 8 = index body 8"
    if "\<not> length body \<le> 8"
    using that by (simp_all add: slice_append_left index_append_left)
  ultimately show ?thesis
    using assms l by (auto simp: version_of_body_def intro!: bind_res_cong)
qed

lemma v3_decode_connect_head:
  assumes "v3_decode_connect_packet (a # b # s) = Ok p"
  obtains name where "name = MQTT \<or> name = MQISDP" "of_be16 a b = of_nat (length name)"
    "take (length name) s = name" "length name < length s" "s ! length name = 3 \<or> s ! length name = 4"
proof -
  define head where "head x = (if x then advance 4 s else bind_res (name_matches (of_be16 a b) MQISDP s)
       (\<lambda>y. if y then advance 6 s else Err InvalidProtocol))" for x
  obtain x t u level t' where d: "name_matches (of_be16 a b) MQTT s = Ok x"
    "head x = Ok (u, t)" "(get_u8 t :: (u8 \<times> bytes) dres) = Ok (level, t')" "level = 4 \<or> level = 3"
    using assms unfolding v3_decode_connect_packet_def by (clarsimp simp flip: head_def)
  have adv: "t = drop k s \<and> k \<le> length s" if "(advance k s :: (unit \<times> bytes) dres) = Ok (u, t)" for k
    using that by (auto simp: advance_def split: if_splits)
  have nm: "of_be16 a b = of_nat (length name) \<and> take (length name) s = name"
    if "name_matches (of_be16 a b) name s = Ok True" for name
    using that by (auto simp: name_matches_def slice_def split: if_splits) (metis of_nat_unat ucast_id)
  have lvl: "k < length s \<and> s ! k = level" if "t = drop k s" for k
    using d(3) that by (cases "k < length s") (auto simp: hd_drop_conv_nth)
  show thesis
  proof (cases x)
    case True
    with d adv [of 4] nm [of MQTT] lvl [of 4] that [of MQTT] show ?thesis by (auto simp: head_def)
  next
    case False
    with d obtain "name_matches (of_be16 a b) MQISDP s = Ok True" "(advance 6 s :: (unit \<times> bytes) dres) = Ok (u, t)"
      by (auto simp: head_def split: if_splits)
    with d adv [of 6] nm [of MQISDP] lvl [of 6] that [of MQISDP] show ?thesis by auto
  qed
qed

lemma version_of_body_connect:
  assumes "v3_decode_connect_packet body = Ok p"
  shows "version_of_body (body @ ext) = Ok (Some MQTT3)"
proof -
  obtain a b s where src: "body = a # b # s"
    using assms by (cases body rule: get_u16.cases) (auto simp: v3_decode_connect_packet_def)
  obtain name where "name = MQTT \<or> name = MQISDP" "of_be16 a b = of_nat (length name)"
    "take (length name) s = name" "length name < length s" "s ! length name = 3 \<or> s ! length name = 4"
    using assms v3_decode_connect_head unfolding src by blast
  then have "version_of_body body = Ok (Some MQTT3)"
    by (auto simp: src version_of_body_def version_of_level_def slice_def index_def)
  with version_of_body_append [of body ext] show ?thesis by simp
qed

section \<open>Properties\<close>

text \<open>
  Detection never panics, and once it has decided (a version or an error), bytes that arrive
  later do not change the decision.
\<close>

theorem version_decode_stable:
  "version_decode src \<noteq> Panic \<and>
   (version_decode src \<noteq> Ok None \<longrightarrow> version_decode (src @ ext) = version_decode src)"
proof (intro conjI impI)
  show "version_decode src \<noteq> Panic" by (rule version_decode_no_panic)
  assume r: "version_decode src \<noteq> Ok None"
  note l = version_decode_Some [OF refl r]
  obtain x xs where src: "src = x # xs" "xs \<noteq> []"
    using l(1) by (cases src) (auto simp: Suc_le_eq)
  show "version_decode (src @ ext) = version_decode src"
  proof (cases "decode_variable_length xs")
    case (Ok o1)
    then obtain len n where v: "decode_variable_length xs = Ok (Some (len, n))"
      using l(2) src by (cases o1) auto
    note v' = decode_variable_length_append(1) [OF v, of ext]
    have n: "n \<le> length xs"
      using decode_variable_length_bound [OF v] by simp
    show ?thesis
    proof (cases "x = CONNECT")
      case True
      then have "version_decode src = version_of_body (drop n xs)"
        "version_decode (src @ ext) = version_of_body (drop n xs @ ext)"
        using version_decode_body [of src len n] version_decode_body [of "src @ ext" len n] v v' src n
        by simp_all
      with r version_of_body_append [of "drop n xs" ext] show ?thesis by simp
    next
      case False
      with v v' src show ?thesis by (simp add: version_decode_def Let_def index_def)
    qed
  next
    case (Err e)
    with decode_variable_length_append(2) [OF Err, of ext] src show ?thesis
      by (simp add: version_decode_def index_def)
  qed (simp add: decode_variable_length_no_panic)
qed

theorem version_decode_stable_witness:
  "version_decode ([0x10, 0x10, 0x00, 0x04, 0x4D, 0x51, 0x54, 0x54, 0x05] @ [0x02]) = Ok (Some MQTT5)"
  using version_decode_stable [of "[0x10, 0x10, 0x00, 0x04, 0x4D, 0x51, 0x54, 0x54, 0x05]" "[0x02]"]
  by (simp add: version_decode_def index_def slice_def decode_variable_length_def of_be16_def
      decode_variable_length_cursor_def version_of_level_def MQTT_def Let_def)

text \<open>
  C27: detection and the MQTT 3 codec agree: whenever the MQTT 3 codec, waiting for a header, decodes a
  CONNECT packet from a buffer, detection on the same buffer announces MQTT 3.
\<close>

theorem version_decode_v3:
  assumes "v3_state c = FrameHeader"
    and "v3_codec_decode c src = (Ok (Some (V3_Connect k, len)), c', src')"
  shows "version_decode src = Ok (Some MQTT3)"
proof -
  obtain body n fb where h: "decode_variable_length (tl src) = Ok (Some (len, n))" "fb = hd src"
    "v3_decode_packet body fb = Ok (V3_Connect k)" "drop (n + 1) src = body @ src'"
    using v3.decoded_from_header [OF assms] by blast
  have "fb = CONNECT \<and> v3_decode_connect_packet body = Ok (V3_Connect k)"
    using h(3) by (auto simp: v3_decode_packet_def v3_decode_connect_ack_packet_def
        v3_decode_publish_packet_def v3_decode_ack_def v3_decode_subscribe_packet_def
        v3_decode_subscribe_ack_packet_def v3_decode_unsubscribe_packet_def split: if_splits)
  with h version_decode_body [OF h(1)] version_of_body_connect [of body _ src'] show ?thesis
    by simp
qed

theorem version_decode_v3_witness:
  "version_decode [0x10, 0x0D, 0x00, 0x04, 0x4D, 0x51, 0x54, 0x54, 0x04, 0x02, 0x00, 0x3C, 0x00, 0x01, 0x61]
     = Ok (Some MQTT3)"
  by (rule version_decode_v3 [of v3_codec_default _ "\<lparr>c3_protocol = 4, c3_clean_session = True, c3_keep_alive = 60,
        c3_last_will = None, c3_client_id = [0x61], c3_username = None, c3_password = None, c3_cert = None\<rparr>"
        13 v3_codec_default "[]"])
    (simp_all add: v3_codec_decode.simps v3_codec_default_def v3_codec_new_def decode_variable_length_def
      decode_variable_length_cursor_def v3_decode_packet_def v3_decode_connect_packet_def of_be16_def
      name_matches_def slice_def MQTT_def flags_from_bits_def connect_flags_all_def contains_def
      decode_u16_def decode_ByteString_def decode_Bytes_def v3_decode_last_will_def decode_if_def
      word_le_nat_alt)

end
