(* ===== verification/V5_Types.thy ===== *)
theory V5_Types
  imports V3_Codec
begin

text \<open>
  The MQTT 5 packets (\<^verbatim>\<open>codec/v5/packet/*.rs\<close>): reason codes, property identifiers and the packet
  types.  The reason codes are enums of the macro \<^verbatim>\<open>prim_enum!\<close>; the locale \<open>prim_enum\<close> is the contract
  between its \<^verbatim>\<open>TryFrom<u8>\<close> and the \<^verbatim>\<open>From<..> for u8\<close> written beside it, and every enum interprets it.
\<close>

section \<open>Enums of one byte\<close>

text \<open>The \<^verbatim>\<open>match\<close> the macro generates, on the table of its variants.\<close>

definition prim_enum_try_from :: "(u8 \<times> 'a) list \<Rightarrow> u8 \<Rightarrow> 'a dres" where
  "prim_enum_try_from variants v = ok_or (map_of variants v) MalformedPacket"

datatype auth_reason_code =
    ARC_Success | ARC_ContinueAuth | ARC_ReAuth

fun auth_reason_code_to_u8 :: "auth_reason_code \<Rightarrow> u8" where
  "auth_reason_code_to_u8 ARC_Success = 0"
| "auth_reason_code_to_u8 ARC_ContinueAuth = 24"
| "auth_reason_code_to_u8 ARC_ReAuth = 25"

definition auth_reason_code_try_from :: "u8 \<Rightarrow> auth_reason_code dres" where
  "auth_reason_code_try_from = prim_enum_try_from [(0, ARC_Success), (24, ARC_ContinueAuth),
     (25, ARC_ReAuth)]"

datatype connect_ack_reason =
    CAR_Success | CAR_UnspecifiedError | CAR_MalformedPacket | CAR_ProtocolError
  | CAR_ImplementationSpecificError | CAR_UnsupportedProtocolVersion
  | CAR_ClientIdentifierNotValid | CAR_BadUserNameOrPassword | CAR_NotAuthorized
  | CAR_ServerUnavailable | CAR_ServerBusy | CAR_Banned | CAR_BadAuthenticationMethod
  | CAR_TopicNameInvalid | CAR_PacketTooLarge | CAR_QuotaExceeded | CAR_PayloadFormatInvalid
  | CAR_RetainNotSupported | CAR_QosNotSupported | CAR_UseAnotherServer | CAR_ServerMoved
  | CAR_ConnectionRateExceeded

fun connect_ack_reason_to_u8 :: "connect_ack_reason \<Rightarrow> u8" where
  "connect_ack_reason_to_u8 CAR_Success = 0"
| "connect_ack_reason_to_u8 CAR_UnspecifiedError = 128"
| "connect_ack_reason_to_u8 CAR_MalformedPacket = 129"
| "connect_ack_reason_to_u8 CAR_ProtocolError = 130"
| "connect_ack_reason_to_u8 CAR_ImplementationSpecificError = 131"
| "connect_ack_reason_to_u8 CAR_UnsupportedProtocolVersion = 132"
| "connect_ack_reason_to_u8 CAR_ClientIdentifierNotValid = 133"
| "connect_ack_reason_to_u8 CAR_BadUserNameOrPassword = 134"
| "connect_ack_reason_to_u8 CAR_NotAuthorized = 135"
| "connect_ack_reason_to_u8 CAR_ServerUnavailable = 136"
| "connect_ack_reason_to_u8 CAR_ServerBusy = 137"
| "connect_ack_reason_to_u8 CAR_Banned = 138"
| "connect_ack_reason_to_u8 CAR_BadAuthenticationMethod = 140"
| "connect_ack_reason_to_u8 CAR_TopicNameInvalid = 144"
| "connect_ack_reason_to_u8 CAR_PacketTooLarge = 149"
| "connect_ack_reason_to_u8 CAR_QuotaExceeded = 151"
| "connect_ack_reason_to_u8 CAR_PayloadFormatInvalid = 153"
| "connect_ack_reason_to_u8 CAR_RetainNotSupported = 154"
| "connect_ack_reason_to_u8 CAR_QosNotSupported = 155"
| "connect_ack_reason_to_u8 CAR_UseAnotherServer = 156"
| "connect_ack_reason_to_u8 CAR_ServerMoved = 157"
| "connect_ack_reason_to_u8 CAR_ConnectionRateExceeded = 159"

definition connect_ack_reason_try_from :: "u8 \<Rightarrow> connect_ack_reason dres" where
  "connect_ack_reason_try_from = prim_enum_try_from [(0, CAR_Success),
     (128, CAR_UnspecifiedError), (129, CAR_MalformedPacket), (130, CAR_ProtocolError),
     (131, CAR_ImplementationSpecificError), (132, CAR_UnsupportedProtocolVersion),
     (133, CAR_ClientIdentifierNotValid), (134, CAR_BadUserNameOrPassword),
     (135, CAR_NotAuthorized), (136, CAR_ServerUnavailable), (137, CAR_ServerBusy),
     (138, CAR_Banned), (140, CAR_BadAuthenticationMethod), (144, CAR_TopicNameInvalid),
     (149, CAR_PacketTooLarge), (151, CAR_QuotaExceeded), (153, CAR_PayloadFormatInvalid),
     (154, CAR_RetainNotSupported), (155, CAR_QosNotSupported), (156, CAR_UseAnotherServer),
     (157, CAR_ServerMoved), (159, CAR_ConnectionRateExceeded)]"

datatype publish_ack_reason =
    PAR_Success | PAR_NoMatchingSubscribers | PAR_UnspecifiedError
  | PAR_ImplementationSpecificError | PAR_NotAuthorized | PAR_TopicNameInvalid
  | PAR_PacketIdentifierInUse | PAR_QuotaExceeded | PAR_PayloadFormatInvalid

fun publish_ack_reason_to_u8 :: "publish_ack_reason \<Rightarrow> u8" where
  "publish_ack_reason_to_u8 PAR_Success = 0"
| "publish_ack_reason_to_u8 PAR_NoMatchingSubscribers = 16"
| "publish_ack_reason_to_u8 PAR_UnspecifiedError = 128"
| "publish_ack_reason_to_u8 PAR_ImplementationSpecificError = 131"
| "publish_ack_reason_to_u8 PAR_NotAuthorized = 135"
| "publish_ack_reason_to_u8 PAR_TopicNameInvalid = 144"
| "publish_ack_reason_to_u8 PAR_PacketIdentifierInUse = 145"
| "publish_ack_reason_to_u8 PAR_QuotaExceeded = 151"
| "publish_ack_reason_to_u8 PAR_PayloadFormatInvalid = 153"

definition publish_ack_reason_try_from :: "u8 \<Rightarrow> publish_ack_reason dres" where
  "publish_ack_reason_try_from = prim_enum_try_from [(0, PAR_Success),
     (16, PAR_NoMatchingSubscribers), (128, PAR_UnspecifiedError),
     (131, PAR_ImplementationSpecificError), (135, PAR_NotAuthorized),
     (144, PAR_TopicNameInvalid), (145, PAR_PacketIdentifierInUse), (151, PAR_QuotaExceeded),
     (153, PAR_PayloadFormatInvalid)]"

datatype publish_ack2_reason =
    PA2R_Success | PA2R_SendOnward | PA2R_PacketIdNotFound

fun publish_ack2_reason_to_u8 :: "publish_ack2_reason \<Rightarrow> u8" where
  "publish_ack2_reason_to_u8 PA2R_Success = 0"
| "publish_ack2_reason_to_u8 PA2R_SendOnward = 2"
| "publish_ack2_reason_to_u8 PA2R_PacketIdNotFound = 146"

definition publish_ack2_reason_try_from :: "u8 \<Rightarrow> publish_ack2_reason dres" where
  "publish_ack2_reason_try_from = prim_enum_try_from [(0, PA2R_Success), (2, PA2R_SendOnward),
     (146, PA2R_PacketIdNotFound)]"

datatype retain_handling =
    AtSubscribe | AtSubscribeNew | NoAtSubscribe

fun retain_handling_to_u8 :: "retain_handling \<Rightarrow> u8" where
  "retain_handling_to_u8 AtSubscribe = 0"
| "retain_handling_to_u8 AtSubscribeNew = 1"
| "retain_handling_to_u8 NoAtSubscribe = 2"

definition retain_handling_try_from :: "u8 \<Rightarrow> retain_handling dres" where
  "retain_handling_try_from = prim_enum_try_from [(0, AtSubscribe), (1, AtSubscribeNew),
     (2, NoAtSubscribe)]"

datatype subscribe_ack_reason =
    SAR_GrantedQos0 | SAR_GrantedQos1 | SAR_GrantedQos2 | SAR_UnspecifiedError
  | SAR_ImplementationSpecificError | SAR_NotAuthorized | SAR_TopicFilterInvalid
  | SAR_PacketIdentifierInUse | SAR_QuotaExceeded | SAR_SharedSubscriptionNotSupported
  | SAR_SubscriptionIdentifiersNotSupported | SAR_WildcardSubscriptionsNotSupported

fun subscribe_ack_reason_to_u8 :: "subscribe_ack_reason \<Rightarrow> u8" where
  "subscribe_ack_reason_to_u8 SAR_GrantedQos0 = 0"
| "subscribe_ack_reason_to_u8 SAR_GrantedQos1 = 1"
| "subscribe_ack_reason_to_u8 SAR_GrantedQos2 = 2"
| "subscribe_ack_reason_to_u8 SAR_UnspecifiedError = 128"
| "subscribe_ack_reason_to_u8 SAR_ImplementationSpecificError = 131"
| "subscribe_ack_reason_to_u8 SAR_NotAuthorized = 135"
| "subscribe_ack_reason_to_u8 SAR_TopicFilterInvalid = 143"
| "subscribe_ack_reason_to_u8 SAR_PacketIdentifierInUse = 145"
| "subscribe_ack_reason_to_u8 SAR_QuotaExceeded = 151"
| "subscribe_ack_reason_to_u8 SAR_SharedSubscriptionNotSupported = 158"
| "subscribe_ack_reason_to_u8 SAR_SubscriptionIdentifiersNotSupported = 161"
| "subscribe_ack_reason_to_u8 SAR_WildcardSubscriptionsNotSupported = 162"

definition subscribe_ack_reason_try_from :: "u8 \<Rightarrow> subscribe_ack_reason dres" where
  "subscribe_ack_reason_try_from = prim_enum_try_from [(0, SAR_GrantedQos0),
     (1, SAR_GrantedQos1), (2, SAR_GrantedQos2), (128, SAR_UnspecifiedError),
     (131, SAR_ImplementationSpecificError), (135, SAR_NotAuthorized),
     (143, SAR_TopicFilterInvalid), (145, SAR_PacketIdentifierInUse), (151, SAR_QuotaExceeded),
     (158, SAR_SharedSubscriptionNotSupported), (161, SAR_SubscriptionIdentifiersNotSupported),
     (162, SAR_WildcardSubscriptionsNotSupported)]"

datatype unsubscribe_ack_reason =
    UAR_Success | UAR_NoSubscriptionExisted | UAR_UnspecifiedError
  | UAR_ImplementationSpecificError | UAR_NotAuthorized | UAR_TopicFilterInvalid
  | UAR_PacketIdentifierInUse

fun unsubscribe_ack_reason_to_u8 :: "unsubscribe_ack_reason \<Rightarrow> u8" where
  "unsubscribe_ack_reason_to_u8 UAR_Success = 0"
| "unsubscribe_ack_reason_to_u8 UAR_NoSubscriptionExisted = 17"
| "unsubscribe_ack_reason_to_u8 UAR_UnspecifiedError = 128"
| "unsubscribe_ack_reason_to_u8 UAR_ImplementationSpecificError = 131"
| "unsubscribe_ack_reason_to_u8 UAR_NotAuthorized = 135"
| "unsubscribe_ack_reason_to_u8 UAR_TopicFilterInvalid = 143"
| "unsubscribe_ack_reason_to_u8 UAR_PacketIdentifierInUse = 145"

definition unsubscribe_ack_reason_try_from :: "u8 \<Rightarrow> unsubscribe_ack_reason dres" where
  "unsubscribe_ack_reason_try_from = prim_enum_try_from [(0, UAR_Success),
     (17, UAR_NoSubscriptionExisted), (128, UAR_UnspecifiedError),
     (131, UAR_ImplementationSpecificError), (135, UAR_NotAuthorized),
     (143, UAR_TopicFilterInvalid), (145, UAR_PacketIdentifierInUse)]"

definition disconnect_reason_code_try_from :: "u8 \<Rightarrow> disconnect_reason_code dres" where
  "disconnect_reason_code_try_from = prim_enum_try_from [(0, NormalDisconnection),
     (4, DisconnectWithWillMessage), (128, DRC_UnspecifiedError), (129, DRC_MalformedPacket),
     (130, DRC_ProtocolError), (131, DRC_ImplementationSpecificError), (135, DRC_NotAuthorized),
     (137, DRC_ServerBusy), (139, DRC_ServerShuttingDown), (140, DRC_BadAuthenticationMethod),
     (141, DRC_KeepAliveTimeout), (142, DRC_SessionTakenOver), (143, DRC_TopicFilterInvalid),
     (144, DRC_TopicNameInvalid), (147, DRC_ReceiveMaximumExceeded),
     (148, DRC_TopicAliasInvalid), (149, DRC_PacketTooLarge), (150, DRC_MessageRateTooHigh),
     (151, DRC_QuotaExceeded), (152, DRC_AdministrativeAction), (153, DRC_PayloadFormatInvalid),
     (154, DRC_RetainNotSupported), (155, DRC_QosNotSupported), (156, DRC_UseAnotherServer),
     (157, DRC_ServerMoved), (158, DRC_SharedSubscriptionNotSupported),
     (159, DRC_ConnectionRateExceeded), (160, DRC_MaximumConnectTime),
     (161, DRC_SubscriptionIdentifiersNotSupported),
     (162, DRC_WildcardSubscriptionsNotSupported)]"

locale prim_enum =
  fixes to_u8 :: "'a \<Rightarrow> u8" and try_from :: "u8 \<Rightarrow> 'a dres"
  assumes try_from_to_u8: "try_from (to_u8 x) = Ok x"
    and try_from_Ok: "try_from b = Ok x \<Longrightarrow> to_u8 x = b"
    and try_from_no_panic: "try_from b \<noteq> Panic"
begin

lemma to_u8_inject: "to_u8 x = to_u8 y \<longleftrightarrow> x = y"
  by (metis res.inject(1) try_from_to_u8)

lemma collect_status: "collect_res try_from (map to_u8 xs) = Ok xs"
  by (rule collect_res_Ok) (rule try_from_to_u8)

lemma collect_no_panic: "collect_res try_from bs \<noteq> Panic"
  by (rule collect_res_no_panic) (rule try_from_no_panic)

end

lemma prim_enum_no_panic [simp]: "prim_enum_try_from vs b \<noteq> Panic"
  by (simp add: prim_enum_try_from_def)

lemma prim_enum_Ok: "prim_enum_try_from vs b = Ok x \<Longrightarrow> (b, x) \<in> set vs"
  by (auto simp: prim_enum_try_from_def dest: map_of_SomeD)

interpretation e_auth: prim_enum auth_reason_code_to_u8 auth_reason_code_try_from
proof
  show "auth_reason_code_try_from (auth_reason_code_to_u8 x) = Ok x" for x
    by (cases x) (simp_all add: auth_reason_code_try_from_def prim_enum_try_from_def)
qed (auto simp: auth_reason_code_try_from_def dest!: prim_enum_Ok)

interpretation e_connack: prim_enum connect_ack_reason_to_u8 connect_ack_reason_try_from
proof
  show "connect_ack_reason_try_from (connect_ack_reason_to_u8 x) = Ok x" for x
    by (cases x) (simp_all add: connect_ack_reason_try_from_def prim_enum_try_from_def)
qed (auto simp: connect_ack_reason_try_from_def dest!: prim_enum_Ok)

interpretation e_puback: prim_enum publish_ack_reason_to_u8 publish_ack_reason_try_from
proof
  show "publish_ack_reason_try_from (publish_ack_reason_to_u8 x) = Ok x" for x
    by (cases x) (simp_all add: publish_ack_reason_try_from_def prim_enum_try_from_def)
qed (auto simp: publish_ack_reason_try_from_def dest!: prim_enum_Ok)

interpretation e_puback2: prim_enum publish_ack2_reason_to_u8 publish_ack2_reason_try_from
proof
  show "publish_ack2_reason_try_from (publish_ack2_reason_to_u8 x) = Ok x" for x
    by (cases x) (simp_all add: publish_ack2_reason_try_from_def prim_enum_try_from_def)
qed (auto simp: publish_ack2_reason_try_from_def dest!: prim_enum_Ok)

interpretation e_retain: prim_enum retain_handling_to_u8 retain_handling_try_from
proof
  show "retain_handling_try_from (retain_handling_to_u8 x) = Ok x" for x
    by (cases x) (simp_all add: retain_handling_try_from_def prim_enum_try_from_def)
qed (auto simp: retain_handling_try_from_def dest!: prim_enum_Ok)

interpretation e_suback: prim_enum subscribe_ack_reason_to_u8 subscribe_ack_reason_try_from
proof
  show "subscribe_ack_reason_try_from (subscribe_ack_reason_to_u8 x) = Ok x" for x
    by (cases x) (simp_all add: subscribe_ack_reason_try_from_def prim_enum_try_from_def)
qed (auto simp: subscribe_ack_reason_try_from_def dest!: prim_enum_Ok)

interpretation e_unsuback: prim_enum unsubscribe_ack_reason_to_u8 unsubscribe_ack_reason_try_from
proof
  show "unsubscribe_ack_reason_try_from (unsubscribe_ack_reason_to_u8 x) = Ok x" for x
    by (cases x) (simp_all add: unsubscribe_ack_reason_try_from_def prim_enum_try_from_def)
qed (auto simp: unsubscribe_ack_reason_try_from_def dest!: prim_enum_Ok)

interpretation e_disc: prim_enum disconnect_reason_code_to_u8 disconnect_reason_code_try_from
proof
  show "disconnect_reason_code_try_from (disconnect_reason_code_to_u8 x) = Ok x" for x
    by (cases x) (simp_all add: disconnect_reason_code_try_from_def prim_enum_try_from_def)
qed (auto simp: disconnect_reason_code_try_from_def dest!: prim_enum_Ok)

lemmas enum_simps [simp] =
  e_auth.try_from_to_u8 e_auth.try_from_no_panic e_auth.collect_status e_auth.collect_no_panic
  e_connack.try_from_to_u8 e_connack.try_from_no_panic e_connack.collect_status e_connack.collect_no_panic
  e_puback.try_from_to_u8 e_puback.try_from_no_panic e_puback.collect_status e_puback.collect_no_panic
  e_puback2.try_from_to_u8 e_puback2.try_from_no_panic e_puback2.collect_status e_puback2.collect_no_panic
  e_retain.try_from_to_u8 e_retain.try_from_no_panic e_retain.collect_status e_retain.collect_no_panic
  e_suback.try_from_to_u8 e_suback.try_from_no_panic e_suback.collect_status e_suback.collect_no_panic
  e_unsuback.try_from_to_u8 e_unsuback.try_from_no_panic e_unsuback.collect_status e_unsuback.collect_no_panic
  e_disc.try_from_to_u8 e_disc.try_from_no_panic e_disc.collect_status e_disc.collect_no_panic

section \<open>Property identifiers (packet/mod.rs)\<close>

definition PT_UTF8_PAYLOAD :: u8 where [simp]: "PT_UTF8_PAYLOAD = 0x01"
definition PT_MSG_EXPIRY_INT :: u8 where [simp]: "PT_MSG_EXPIRY_INT = 0x02"
definition PT_CONTENT_TYPE :: u8 where [simp]: "PT_CONTENT_TYPE = 0x03"
definition PT_RESP_TOPIC :: u8 where [simp]: "PT_RESP_TOPIC = 0x08"
definition PT_CORR_DATA :: u8 where [simp]: "PT_CORR_DATA = 0x09"
definition PT_SUB_ID :: u8 where [simp]: "PT_SUB_ID = 0x0B"
definition PT_SESS_EXPIRY_INT :: u8 where [simp]: "PT_SESS_EXPIRY_INT = 0x11"
definition PT_ASSND_CLIENT_ID :: u8 where [simp]: "PT_ASSND_CLIENT_ID = 0x12"
definition PT_SERVER_KA :: u8 where [simp]: "PT_SERVER_KA = 0x13"
definition PT_AUTH_METHOD :: u8 where [simp]: "PT_AUTH_METHOD = 0x15"
definition PT_AUTH_DATA :: u8 where [simp]: "PT_AUTH_DATA = 0x16"
definition PT_REQ_PROB_INFO :: u8 where [simp]: "PT_REQ_PROB_INFO = 0x17"
definition PT_WILL_DELAY_INT :: u8 where [simp]: "PT_WILL_DELAY_INT = 0x18"
definition PT_REQ_RESP_INFO :: u8 where [simp]: "PT_REQ_RESP_INFO = 0x19"
definition PT_RESP_INFO :: u8 where [simp]: "PT_RESP_INFO = 0x1A"
definition PT_SERVER_REF :: u8 where [simp]: "PT_SERVER_REF = 0x1C"
definition PT_REASON_STRING :: u8 where [simp]: "PT_REASON_STRING = 0x1F"
definition PT_RECEIVE_MAX :: u8 where [simp]: "PT_RECEIVE_MAX = 0x21"
definition PT_TOPIC_ALIAS_MAX :: u8 where [simp]: "PT_TOPIC_ALIAS_MAX = 0x22"
definition PT_TOPIC_ALIAS :: u8 where [simp]: "PT_TOPIC_ALIAS = 0x23"
definition PT_MAX_QOS :: u8 where [simp]: "PT_MAX_QOS = 0x24"
definition PT_RETAIN_AVAIL :: u8 where [simp]: "PT_RETAIN_AVAIL = 0x25"
definition PT_USER :: u8 where [simp]: "PT_USER = 0x26"
definition PT_MAX_PACKET_SIZE :: u8 where [simp]: "PT_MAX_PACKET_SIZE = 0x27"
definition PT_WILDCARD_SUB_AVAIL :: u8 where [simp]: "PT_WILDCARD_SUB_AVAIL = 0x28"
definition PT_SUB_IDS_AVAIL :: u8 where [simp]: "PT_SUB_IDS_AVAIL = 0x29"
definition PT_SHARED_SUB_AVAIL :: u8 where [simp]: "PT_SHARED_SUB_AVAIL = 0x2A"

text \<open>\<^verbatim>\<open>RECEIVE_MAX_DEFAULT\<close> of \<^verbatim>\<open>codec/v5/mod.rs\<close>\<close>

definition RECEIVE_MAX_DEFAULT :: u16 where "RECEIVE_MAX_DEFAULT = 65535"

section \<open>Packets\<close>

record auth =
  au_reason_code :: auth_reason_code
  au_auth_method :: "bytes option"
  au_auth_data :: "bytes option"
  au_reason_string :: "bytes option"
  au_user_properties :: user_properties

record v5_last_will =
  lw_qos :: qos
  lw_retain :: bool
  lw_topic :: bytes
  lw_message :: bytes
  lw_will_delay_interval_sec :: "u32 option"
  lw_correlation_data :: "bytes option"
  lw_message_expiry_interval :: "u32 option"
  lw_content_type :: "bytes option"
  lw_user_properties :: user_properties
  lw_is_utf8_payload :: "bool option"
  lw_response_topic :: "bytes option"

record v5_connect =
  cn_clean_start :: bool
  cn_keep_alive :: u16
  cn_session_expiry_interval_secs :: u32
  cn_auth_method :: "bytes option"
  cn_auth_data :: "bytes option"
  cn_request_problem_info :: bool
  cn_request_response_info :: bool
  cn_receive_max :: "u16 option"
  cn_topic_alias_max :: u16
  cn_user_properties :: user_properties
  cn_max_packet_size :: "u32 option"
  cn_last_will :: "v5_last_will option"
  cn_client_id :: bytes
  cn_username :: "bytes option"
  cn_password :: "bytes option"
  cn_cert :: "cert_info option"

record v5_connect_ack =
  ca_session_present :: bool
  ca_reason_code :: connect_ack_reason
  ca_session_expiry_interval_secs :: "u32 option"
  ca_receive_max :: u16
  ca_max_qos :: qos
  ca_max_packet_size :: "u32 option"
  ca_assigned_client_id :: "bytes option"
  ca_topic_alias_max :: u16
  ca_retain_available :: bool
  ca_wildcard_subscription_available :: bool
  ca_subscription_identifiers_available :: bool
  ca_shared_subscription_available :: bool
  ca_server_keepalive_sec :: "u16 option"
  ca_response_info :: "bytes option"
  ca_server_reference :: "bytes option"
  ca_auth_method :: "bytes option"
  ca_auth_data :: "bytes option"
  ca_reason_string :: "bytes option"
  ca_user_properties :: user_properties

text \<open>\<^verbatim>\<open>PublishAck\<close> and \<^verbatim>\<open>PublishAck2\<close> differ in the type of their reason code only.\<close>

record 'r publish_ack =
  ack_packet_id :: u16
  ack_reason_code :: 'r
  ack_properties :: user_properties
  ack_reason_string :: "bytes option"

type_synonym publish_ack1 = "publish_ack_reason publish_ack"
type_synonym publish_ack2 = "publish_ack2_reason publish_ack"

record subscription_options =
  so_qos :: qos
  so_no_local :: bool
  so_retain_as_published :: bool
  so_retain_handling :: retain_handling

record v5_subscribe =
  sb_packet_id :: u16
  sb_id :: "u32 option"
  sb_user_properties :: user_properties
  sb_topic_filters :: "(bytes \<times> subscription_options) list"

text \<open>\<^verbatim>\<open>SubscribeAck\<close> and \<^verbatim>\<open>UnsubscribeAck\<close> differ in the type of their reason codes only.\<close>

record 'r status_ack =
  sa_packet_id :: u16
  sa_properties :: user_properties
  sa_reason_string :: "bytes option"
  sa_status :: "'r list"

type_synonym v5_subscribe_ack = "subscribe_ack_reason status_ack"
type_synonym v5_unsubscribe_ack = "unsubscribe_ack_reason status_ack"

record v5_unsubscribe =
  us_packet_id :: u16
  us_user_properties :: user_properties
  us_topic_filters :: "bytes list"

record v5_disconnect =
  di_reason_code :: disconnect_reason_code
  di_session_expiry_interval_secs :: "u32 option"
  di_server_reference :: "bytes option"
  di_reason_string :: "bytes option"
  di_user_properties :: user_properties

datatype v5_packet =
    V5_Connect v5_connect
  | V5_ConnectAck v5_connect_ack
  | V5_Publish publish
  | V5_PublishAck publish_ack1
  | V5_PublishReceived publish_ack1
  | V5_PublishRelease publish_ack2
  | V5_PublishComplete publish_ack2
  | V5_Subscribe v5_subscribe
  | V5_SubscribeAck v5_subscribe_ack
  | V5_Unsubscribe v5_unsubscribe
  | V5_UnsubscribeAck v5_unsubscribe_ack
  | V5_PingRequest
  | V5_PingResponse
  | V5_Disconnect v5_disconnect
  | V5_Auth auth

fun v5_packet_type :: "v5_packet \<Rightarrow> u8" where
  "v5_packet_type (V5_Connect _) = CONNECT"
| "v5_packet_type (V5_ConnectAck _) = CONNACK"
| "v5_packet_type (V5_Publish _) = PUBLISH_START"
| "v5_packet_type (V5_PublishAck _) = PUBACK"
| "v5_packet_type (V5_PublishReceived _) = PUBREC"
| "v5_packet_type (V5_PublishRelease _) = PUBREL"
| "v5_packet_type (V5_PublishComplete _) = PUBCOMP"
| "v5_packet_type (V5_Subscribe _) = SUBSCRIBE"
| "v5_packet_type (V5_SubscribeAck _) = SUBACK"
| "v5_packet_type (V5_Unsubscribe _) = UNSUBSCRIBE"
| "v5_packet_type (V5_UnsubscribeAck _) = UNSUBACK"
| "v5_packet_type V5_PingRequest = PINGREQ"
| "v5_packet_type V5_PingResponse = PINGRESP"
| "v5_packet_type (V5_Disconnect _) = DISCONNECT"
| "v5_packet_type (V5_Auth _) = AUTH"

section \<open>Default values\<close>

definition auth_default :: auth where
  "auth_default = \<lparr>au_reason_code = ARC_Success, au_auth_method = None, au_auth_data = None,
     au_reason_string = None, au_user_properties = []\<rparr>"

definition publish_ack_default :: publish_ack1 where
  "publish_ack_default = \<lparr>ack_packet_id = 1, ack_reason_code = PAR_Success, ack_properties = [],
     ack_reason_string = None\<rparr>"

definition publish_ack2_default :: publish_ack2 where
  "publish_ack2_default = \<lparr>ack_packet_id = 1, ack_reason_code = PA2R_Success, ack_properties = [],
     ack_reason_string = None\<rparr>"

definition v5_disconnect_new :: "disconnect_reason_code \<Rightarrow> v5_disconnect" where
  "v5_disconnect_new reason_code = \<lparr>di_reason_code = reason_code,
     di_session_expiry_interval_secs = None, di_server_reference = None, di_reason_string = None,
     di_user_properties = []\<rparr>"

definition v5_disconnect_default :: v5_disconnect where
  "v5_disconnect_default = \<lparr>di_reason_code = NormalDisconnection,
     di_session_expiry_interval_secs = None, di_server_reference = None, di_reason_string = None,
     di_user_properties = []\<rparr>"

definition publish_properties_default :: publish_properties where
  "publish_properties_default = \<lparr>pp_topic_alias = None, pp_correlation_data = None,
     pp_message_expiry_interval = None, pp_content_type = None, pp_user_properties = [],
     pp_is_utf8_payload = False, pp_response_topic = None, pp_subscription_ids = []\<rparr>"

definition subscription_options_default :: subscription_options where
  "subscription_options_default = \<lparr>so_qos = AtMostOnce, so_no_local = False,
     so_retain_as_published = False, so_retain_handling = AtSubscribe\<rparr>"

definition v5_connect_default :: v5_connect where
  "v5_connect_default = \<lparr>cn_clean_start = False, cn_keep_alive = 0,
     cn_session_expiry_interval_secs = 0, cn_auth_method = None, cn_auth_data = None,
     cn_request_problem_info = True, cn_request_response_info = False, cn_receive_max = None,
     cn_topic_alias_max = 0, cn_user_properties = [], cn_max_packet_size = None,
     cn_last_will = None, cn_client_id = [], cn_username = None, cn_password = None, cn_cert = None\<rparr>"

definition v5_connect_ack_default :: v5_connect_ack where
  "v5_connect_ack_default = \<lparr>ca_session_present = False, ca_reason_code = CAR_Success,
     ca_session_expiry_interval_secs = None, ca_receive_max = RECEIVE_MAX_DEFAULT,
     ca_max_qos = ExactlyOnce, ca_max_packet_size = None, ca_assigned_client_id = None,
     ca_topic_alias_max = 0, ca_retain_available = True, ca_wildcard_subscription_available = True,
     ca_subscription_identifiers_available = True, ca_shared_subscription_available = True,
     ca_server_keepalive_sec = None, ca_response_info = None, ca_server_reference = None,
     ca_auth_method = None, ca_auth_data = None, ca_reason_string = None, ca_user_properties = []\<rparr>"

fun publish_ack_reason_should_disconnect :: "publish_ack_reason \<Rightarrow> bool" where
  "publish_ack_reason_should_disconnect PAR_UnspecifiedError = True"
| "publish_ack_reason_should_disconnect PAR_ImplementationSpecificError = True"
| "publish_ack_reason_should_disconnect PAR_NotAuthorized = True"
| "publish_ack_reason_should_disconnect PAR_TopicNameInvalid = True"
| "publish_ack_reason_should_disconnect _ = False"

fun publish_ack_reason_to_reason_code :: "publish_ack_reason \<Rightarrow> disconnect_reason_code" where
  "publish_ack_reason_to_reason_code PAR_Success = NormalDisconnection"
| "publish_ack_reason_to_reason_code PAR_NoMatchingSubscribers = NormalDisconnection"
| "publish_ack_reason_to_reason_code PAR_UnspecifiedError = DRC_UnspecifiedError"
| "publish_ack_reason_to_reason_code PAR_ImplementationSpecificError = DRC_ImplementationSpecificError"
| "publish_ack_reason_to_reason_code PAR_NotAuthorized = DRC_NotAuthorized"
| "publish_ack_reason_to_reason_code PAR_TopicNameInvalid = DRC_TopicNameInvalid"
| "publish_ack_reason_to_reason_code PAR_PacketIdentifierInUse = DRC_ProtocolError"
| "publish_ack_reason_to_reason_code PAR_QuotaExceeded = DRC_QuotaExceeded"
| "publish_ack_reason_to_reason_code PAR_PayloadFormatInvalid = DRC_PayloadFormatInvalid"

fun publish_ack2_reason_should_disconnect :: "publish_ack2_reason \<Rightarrow> bool" where
  "publish_ack2_reason_should_disconnect PA2R_PacketIdNotFound = True"
| "publish_ack2_reason_should_disconnect _ = False"

fun publish_ack2_reason_to_reason_code :: "publish_ack2_reason \<Rightarrow> disconnect_reason_code" where
  "publish_ack2_reason_to_reason_code PA2R_Success = NormalDisconnection"
| "publish_ack2_reason_to_reason_code PA2R_SendOnward = NormalDisconnection"
| "publish_ack2_reason_to_reason_code PA2R_PacketIdNotFound = DRC_ImplementationSpecificError"

end
