(* ===== verification/V5_Props.thy ===== *)
theory V5_Props
  imports V5_Types
begin

text \<open>
  What all MQTT 5 packets share: the size of a variable-length integer and its inverse, the property
  helpers of \<^verbatim>\<open>codec/v5/encode.rs\<close>, the diagnostics (user properties and reason string) that are cut
  to fit the size limit of the peer, and the loop that reads properties.  \<open>fit_props\<close> specifies which
  diagnostics are kept; the size computation and the writer of the code are shown to agree with it.
\<close>

section \<open>Sizes of variable-length integers (encode.rs)\<close>

fun bit_length :: "nat \<Rightarrow> nat" where
  "bit_length n = (if n = 0 then 0 else Suc (bit_length (n div 2)))"

declare bit_length.simps [simp del]

definition leading_zeros :: "nat \<Rightarrow> nat \<Rightarrow> nat" where
  "leading_zeros width val = width - bit_length val"

definition var_int_table :: "u32 list" where
  "var_int_table = [10, 9, 9, 9, 9, 9, 9, 9, 8, 8, 8, 8, 8, 8, 8, 7, 7, 7, 7, 7, 7, 7, 6, 6, 6, 6,
     6, 6, 6, 5, 5, 5, 5, 5, 5, 5, 4, 4, 4, 4, 4, 4, 4, 3, 3, 3, 3, 3, 3, 3, 2, 2, 2, 2, 2, 2, 2, 1,
     1, 1, 1, 1, 1, 1, 1]"

definition var_int_len :: "nat \<Rightarrow> u32" where
  "var_int_len val = var_int_table ! leading_zeros 64 val"

definition var_int_table_u32 :: "u32 list" where
  "var_int_table_u32 = [5, 5, 5, 5, 4, 4, 4, 4, 4, 4, 4, 3, 3, 3, 3, 3, 3, 3, 2, 2, 2, 2, 2, 2, 2,
     1, 1, 1, 1, 1, 1, 1, 1]"

definition var_int_len_u32 :: "u32 \<Rightarrow> u32" where
  "var_int_len_u32 val = var_int_table_u32 ! leading_zeros 32 (unat val)"

definition var_int_len_from_size :: "u32 \<Rightarrow> u32" where
  "var_int_len_from_size val =
     (let over_size = var_int_len_u32 val; res = val - over_size + 1 in val - var_int_len_u32 res)"

section \<open>Property helpers (encode.rs)\<close>

definition encoded_property_size :: "('a \<Rightarrow> nat) \<Rightarrow> 'a option \<Rightarrow> nat" where
  "encoded_property_size esize v = (case v of None \<Rightarrow> 0 | Some v \<Rightarrow> 1 + esize v)"

definition encoded_property_size_default :: "('a \<Rightarrow> nat) \<Rightarrow> 'a \<Rightarrow> 'a \<Rightarrow> nat" where
  "encoded_property_size_default esize v def = (if v = def then 0 else 1 + esize v)"

definition encode_property :: "('a \<Rightarrow> encoder) \<Rightarrow> 'a option \<Rightarrow> u8 \<Rightarrow> encoder" where
  "encode_property enc v prop_type =
     (case v of Some v \<Rightarrow> seq_w (put_u8 prop_type) (enc v) | None \<Rightarrow> skip_w)"

definition encode_property_default :: "('a \<Rightarrow> encoder) \<Rightarrow> 'a \<Rightarrow> 'a \<Rightarrow> u8 \<Rightarrow> encoder" where
  "encode_property_default enc v def prop_type =
     (if v \<noteq> def then seq_w (put_u8 prop_type) (enc v) else skip_w)"

definition encoded_size_UserProperties :: "user_properties \<Rightarrow> nat" where
  "encoded_size_UserProperties ps = foldl (\<lambda>len p. len + (1 + encoded_size_UserProperty p)) 0 ps"

definition encode_UserProperties :: "user_properties \<Rightarrow> encoder" where
  "encode_UserProperties = each_w (\<lambda>p. seq_w (put_u8 PT_USER) (encode_UserProperty p))"

definition reduce_limit :: "u32 \<Rightarrow> nat \<Rightarrow> u32" where
  "reduce_limit limit reduction = (if unat limit < reduction then 0 else limit - of_nat reduction)"

fun encoded_size_opt_props_loop :: "user_properties \<Rightarrow> bytes option \<Rightarrow> u32 \<Rightarrow> nat \<Rightarrow> nat" where
  "encoded_size_opt_props_loop [] reason_str limit len =
     (case reason_str of
        Some reason \<Rightarrow> let reason_len = 1 + encoded_size_Bytes reason in
          if reason_len \<le> unat limit then len + reason_len else len
      | None \<Rightarrow> len)"
| "encoded_size_opt_props_loop (up # user_props) reason_str limit len =
     (let prop_len = 1 + encoded_size_UserProperty up in
      if unat limit < prop_len then len
      else encoded_size_opt_props_loop user_props reason_str (limit - of_nat prop_len) (len + prop_len))"

definition encoded_size_opt_props :: "user_properties \<Rightarrow> bytes option \<Rightarrow> u32 \<Rightarrow> nat" where
  "encoded_size_opt_props user_props reason_str limit =
     encoded_size_opt_props_loop user_props reason_str limit 0"

fun encode_opt_props :: "user_properties \<Rightarrow> bytes option \<Rightarrow> u32 \<Rightarrow> encoder" where
  "encode_opt_props [] reason_str sz =
     (case reason_str of
        Some reason \<Rightarrow>
          if length reason < unat sz
          then seq_w (put_u8 PT_REASON_STRING) (encode_ByteString reason) else skip_w
      | None \<Rightarrow> skip_w)"
| "encode_opt_props (up # user_props) reason_str sz =
     (let prop_len = 1 + encoded_size_Bytes (fst up) + encoded_size_Bytes (snd up) in
      if unat sz < prop_len then skip_w
      else seq_w (seq_w (put_u8 PT_USER) (encode_UserProperty up))
             (encode_opt_props user_props reason_str (sz - of_nat prop_len)))"

section \<open>Reading properties\<close>

text \<open>\<^verbatim>\<open>field.read_value(prop_src)?\<close> and \<^verbatim>\<open>field.push(T::decode(prop_src)?)\<close> in a property loop.\<close>

definition read_prop ::
  "'a decoder \<Rightarrow> ('s \<Rightarrow> 'a option) \<Rightarrow> (('a option \<Rightarrow> 'a option) \<Rightarrow> 's \<Rightarrow> 's) \<Rightarrow> 's \<Rightarrow> 's decoder" where
  "read_prop dec field upd acc src =
     bind_res (read_value dec (field acc) src) (\<lambda>(v, src). Ok (upd (\<lambda>_. v) acc, src))"

definition push_prop :: "'a decoder \<Rightarrow> (('a list \<Rightarrow> 'a list) \<Rightarrow> 's \<Rightarrow> 's) \<Rightarrow> 's \<Rightarrow> 's decoder" where
  "push_prop dec upd acc src =
     bind_res (dec src) (\<lambda>(v, src). Ok (upd (\<lambda>vs. vs @ [v]) acc, src))"

text \<open>A subscription identifier: a variable-length integer that is not zero.\<close>

definition decode_sub_id :: "u32 decoder" where
  "decode_sub_id src =
     bind_res (decode_variable_length_cursor src) (\<lambda>(val, src).
     if val = 0 then Err MalformedPacket else Ok (val, src))"

section \<open>The properties of acknowledgements (packet/mod.rs, ack\_props)\<close>

definition ack_props_encoded_size :: "user_properties \<Rightarrow> bytes option \<Rightarrow> u32 \<Rightarrow> nat" where
  "ack_props_encoded_size properties reason_string limit =
     (if limit < 4 then 1
      else let len = encoded_size_opt_props properties reason_string (limit - 4)
           in unat (var_int_len len) + len)"

definition ack_props_encode :: "user_properties \<Rightarrow> bytes option \<Rightarrow> u32 \<Rightarrow> encoder" where
  "ack_props_encode properties reason_string sz =
     (if sz = 1 then put_u8 0
      else let sz = var_int_len_from_size sz in
        seq_w (write_variable_length sz) (encode_opt_props properties reason_string sz))"

definition ack_prop :: "u8 \<Rightarrow> user_properties \<times> bytes option \<Rightarrow> (user_properties \<times> bytes option) decoder" where
  "ack_prop prop_id acc src =
     (if prop_id = PT_REASON_STRING then read_prop decode_ByteString snd apsnd acc src
      else if prop_id = PT_USER then push_prop decode_UserProperty apfst acc src
      else Err MalformedPacket)"

definition ack_props_decode :: "(user_properties \<times> bytes option) decoder" where
  "ack_props_decode src =
     bind_res (take_properties src) (\<lambda>(prop_src, src).
     bind_res (prop_loop ack_prop ([], None) prop_src) (\<lambda>acc. Ok (acc, src)))"

section \<open>Variable-length sizes are exact\<close>

lemma bit_length_le: "bit_length n \<le> k \<longleftrightarrow> n < 2 ^ k"
proof (induction k arbitrary: n)
  case 0
  show ?case by (subst bit_length.simps) simp
next
  case (Suc k)
  have "n div 2 < 2 ^ k \<longleftrightarrow> n < 2 ^ Suc k"
    by auto
  then show ?case
    by (subst bit_length.simps) (auto simp: Suc.IH)
qed

lemma bit_length_cases:
  assumes "n < 268435456"
  shows "bit_length n \<in> {..<8} \<and> n < 128 \<or> bit_length n \<in> {8..<15} \<and> 128 \<le> n \<and> n < 16384 \<or>
    bit_length n \<in> {15..<22} \<and> 16384 \<le> n \<and> n < 2097152 \<or> bit_length n \<in> {22..<29} \<and> 2097152 \<le> n"
proof -
  have b: "n < 128 \<longleftrightarrow> bit_length n < 8" "n < 16384 \<longleftrightarrow> bit_length n < 15"
    "n < 2097152 \<longleftrightarrow> bit_length n < 22" "bit_length n < 29"
    using bit_length_le [of n 7] bit_length_le [of n 14] bit_length_le [of n 21] bit_length_le [of n 28]
      assms by (auto simp: less_Suc_eq_le [symmetric])
  show ?thesis
    unfolding lessThan_iff atLeastLessThan_iff using b by linarith
qed

definition vlen :: "nat \<Rightarrow> nat" where
  "vlen n = (if n < 128 then 1 else if n < 16384 then 2 else if n < 2097152 then 3 else 4)"

lemma var_int_len_table:
  "\<forall>b \<in> {..<8}. var_int_table ! (64 - b) = 1" "\<forall>b \<in> {8..<15}. var_int_table ! (64 - b) = 2"
  "\<forall>b \<in> {15..<22}. var_int_table ! (64 - b) = 3" "\<forall>b \<in> {22..<29}. var_int_table ! (64 - b) = 4"
  by code_simp+

lemma var_int_len_u32_table:
  "\<forall>b \<in> {..<8}. var_int_table_u32 ! (32 - b) = 1" "\<forall>b \<in> {8..<15}. var_int_table_u32 ! (32 - b) = 2"
  "\<forall>b \<in> {15..<22}. var_int_table_u32 ! (32 - b) = 3" "\<forall>b \<in> {22..<29}. var_int_table_u32 ! (32 - b) = 4"
  by code_simp+

lemma var_int_len_vlen: "n < 268435456 \<Longrightarrow> var_int_len n = of_nat (vlen n)"
  using bit_length_cases [of n] var_int_len_table
  by (auto simp: var_int_len_def vlen_def leading_zeros_def)

lemma var_int_len_u32_vlen: "unat n < 268435456 \<Longrightarrow> var_int_len_u32 n = of_nat (vlen (unat n))"
  using bit_length_cases [of "unat n"] var_int_len_u32_table
  by (auto simp: var_int_len_u32_def vlen_def leading_zeros_def)

lemma length_varlen_bytes:
  assumes "n < 268435456"
  shows "length (varlen_bytes (of_nat n)) = vlen n"
proof -
  have u: "unat (of_nat n :: u32) = n"
    using assms by (simp add: unat_of_nat)
  then have "(of_nat n :: u32) \<le> 268435455"
    using assms by (simp add: word_le_nat_alt)
  then show ?thesis
    by (cases rule: varlen_bytes_cases) (auto simp: vlen_def word_le_nat_alt word_less_nat_alt u)
qed

lemma vlen_bounds: "1 \<le> vlen n" "vlen n \<le> 4"
  by (auto simp: vlen_def)

text \<open>\<^verbatim>\<open>var_int_len_from_size\<close> inverts \<^verbatim>\<open>len + var_int_len(len)\<close>.\<close>

lemma var_int_len_from_size_inverse:
  assumes "n + vlen n < 268435456"
  shows "var_int_len_from_size (of_nat (vlen n + n)) = of_nat n"
proof -
  let ?v = "of_nat (vlen n + n) :: u32"
  have n: "n < 268435456" using assms by simp
  have v: "unat ?v = vlen n + n" using assms by (simp add: unat_of_nat del: of_nat_add)
  have over: "var_int_len_u32 ?v = of_nat (vlen (vlen n + n))"
    using assms v by (simp add: var_int_len_u32_vlen del: of_nat_add)
  have le: "vlen (vlen n + n) \<le> vlen n + n"
    by (auto simp: vlen_def)
  have res: "?v - of_nat (vlen (vlen n + n)) + 1 = of_nat (vlen n + n - vlen (vlen n + n) + 1)"
    using le by (simp add: of_nat_diff)
  have u: "unat (of_nat (vlen n + n - vlen (vlen n + n) + 1) :: u32) = vlen n + n - vlen (vlen n + n) + 1"
    using assms by (simp add: unat_of_nat del: of_nat_add of_nat_Suc)
  have "vlen (vlen n + n - vlen (vlen n + n) + 1) = vlen n"
    by (auto simp: vlen_def)
  moreover have "vlen n + n - vlen (vlen n + n) + 1 < 268435456"
    using assms vlen_bounds [of "vlen n + n"] by linarith
  ultimately have "var_int_len_u32 (?v - of_nat (vlen (vlen n + n)) + 1) = of_nat (vlen n)"
    unfolding res using u by (simp add: var_int_len_u32_vlen del: of_nat_add of_nat_Suc)
  then show ?thesis
    unfolding var_int_len_from_size_def Let_def over by simp
qed

section \<open>Representation of properties\<close>

definition opt_prop :: "u8 \<Rightarrow> ('a \<Rightarrow> bytes) \<Rightarrow> 'a option \<Rightarrow> bytes" where
  "opt_prop prop_type r v = opt_bytes (\<lambda>x. prop_type # r x) v"

definition many_props :: "u8 \<Rightarrow> ('a \<Rightarrow> bytes) \<Rightarrow> 'a list \<Rightarrow> bytes" where
  "many_props prop_type r vs = concat (map (\<lambda>x. prop_type # r x) vs)"

text \<open>A property that is not sent when it has its default value.\<close>

definition nondefault :: "'a \<Rightarrow> 'a \<Rightarrow> 'a option" where
  "nondefault def v = (if v = def then None else Some v)"

definition unwrap_or :: "'a option \<Rightarrow> 'a \<Rightarrow> 'a" where
  "unwrap_or v def = (case v of None \<Rightarrow> def | Some x \<Rightarrow> x)"

lemma unwrap_nondefault [simp]: "unwrap_or (nondefault d v) d = v"
  by (simp add: unwrap_or_def nondefault_def)

lemma nondefault_Some: "nondefault d v = Some x \<longleftrightarrow> v = x \<and> x \<noteq> d"
  by (auto simp: nondefault_def)

lemma encode_property_default_eq:
  "encode_property_default enc v d t = encode_property enc (nondefault d v) t"
  by (simp add: encode_property_default_def encode_property_def nondefault_def)

lemma encoded_property_size_default_eq:
  "encoded_property_size_default esize v d = encoded_property_size esize (nondefault d v)"
  by (simp add: encoded_property_size_default_def encoded_property_size_def nondefault_def)

context wire_type
begin

lemma encode_property_writes:
  "(\<And>x. v = Some x \<Longrightarrow> wf x) \<Longrightarrow> writes (encode_property enc v t) (opt_prop t repr v)"
  using writes_seq [OF writes_put_u8 enc_writes]
  by (cases v) (auto simp: encode_property_def opt_prop_def opt_bytes_def intro: writes_intros)

lemma encoded_property_size_length:
  "(\<And>x. v = Some x \<Longrightarrow> wf x) \<Longrightarrow> encoded_property_size esize v = length (opt_prop t repr v)"
  by (cases v) (auto simp: encoded_property_size_def opt_prop_def opt_bytes_def esize_repr)

lemma read_prop_repr:
  "wf v \<Longrightarrow> field acc = None \<Longrightarrow>
   read_prop dec field upd acc (repr v @ rest) = Ok (upd (\<lambda>_. Some v) acc, rest)"
  by (simp add: read_prop_def read_value_repr)

lemma read_prop_repr_all:
  "wf v \<Longrightarrow> field acc = None \<Longrightarrow> read_prop dec field upd acc (repr v) = Ok (upd (\<lambda>_. Some v) acc, [])"
  using read_prop_repr [where rest = "[]"] by simp

lemma read_prop_twice: "field acc = Some u \<Longrightarrow> read_prop dec field upd acc src = Err MalformedPacket"
  by (simp add: read_prop_def read_value_twice)

lemma read_prop_no_panic: "read_prop dec field upd acc src \<noteq> Panic"
  by (auto simp: read_prop_def read_value_no_panic)

lemma read_prop_shrinks:
  "read_prop dec field upd acc src = Ok (acc', rest) \<Longrightarrow> length rest \<le> length src"
  by (auto simp: read_prop_def dest: read_value_shrinks)

lemma read_prop_Ok:
  "read_prop dec field upd acc src = Ok (acc', rest) \<Longrightarrow> \<exists>u. wf u \<and> acc' = upd (\<lambda>_. Some u) acc"
  by (auto simp: read_prop_def dest: read_value_wf)

lemma push_prop_repr:
  "wf v \<Longrightarrow> push_prop dec upd acc (repr v @ rest) = Ok (upd (\<lambda>vs. vs @ [v]) acc, rest)"
  by (simp add: push_prop_def dec_repr)

lemma push_prop_repr_all:
  "wf v \<Longrightarrow> push_prop dec upd acc (repr v) = Ok (upd (\<lambda>vs. vs @ [v]) acc, [])"
  using push_prop_repr [where rest = "[]"] by simp

lemma push_prop_no_panic: "push_prop dec upd acc src \<noteq> Panic"
  by (auto simp: push_prop_def dec_no_panic)

lemma push_prop_shrinks:
  "push_prop dec upd acc src = Ok (acc', rest) \<Longrightarrow> length rest \<le> length src"
  by (auto simp: push_prop_def dest: dec_shrinks)

lemma push_prop_Ok:
  "push_prop dec upd acc src = Ok (acc', rest) \<Longrightarrow> \<exists>u. wf u \<and> acc' = upd (\<lambda>vs. vs @ [u]) acc"
  by (auto simp: push_prop_def dest: dec_wf)

end

context property_reader
begin

lemma loop_opt:
  assumes "\<And>x. v = Some x \<Longrightarrow> step prop_type acc (r x @ rest) = Ok (acc', rest)"
    and "v = None \<Longrightarrow> acc' = acc"
  shows "prop_loop step acc (opt_prop prop_type r v @ rest) = prop_loop step acc' rest"
  using assms by (cases v) (auto simp: opt_prop_def opt_bytes_def prop_loop_unfold)

lemma loop_many:
  assumes "\<And>acc x rest. x \<in> set vs \<Longrightarrow>
      step prop_type acc (r x @ rest) = Ok (upd (\<lambda>xs. xs @ [x]) acc, rest)"
    and "\<And>f g acc. upd f (upd g acc) = upd (\<lambda>xs. f (g xs)) acc" and "\<And>acc. upd (\<lambda>xs. xs) acc = acc"
  shows "prop_loop step acc (many_props prop_type r vs @ rest) = prop_loop step (upd (\<lambda>xs. xs @ vs) acc) rest"
  using assms(1)
proof (induction vs arbitrary: acc)
  case (Cons x xs)
  then show ?case
    by (simp add: many_props_def prop_loop_unfold assms(2))
qed (simp add: many_props_def assms(3))

lemma loop_inv:
  assumes "prop_loop step acc src = Ok acc'" and "Q acc"
    and "\<And>b acc s acc' r. Q acc \<Longrightarrow> step b acc s = Ok (acc', r) \<Longrightarrow> Q acc'"
  shows "Q acc'"
  using assms(1,2)
proof (induction "length src" arbitrary: acc src rule: less_induct)
  case less
  show ?case
  proof (cases src)
    case (Cons b s)
    then obtain acc1 s1 where s: "step b acc s = Ok (acc1, s1)" "prop_loop step acc1 s1 = Ok acc'"
      using less.prems(1) by (auto simp: prop_loop_unfold)
    then show ?thesis
      using less.hyps [of s1 acc1] shrinks [OF s(1)] Cons assms(3) [OF less.prems(2) s(1)] by simp
  qed (use less.prems in simp)
qed

end

section \<open>Subscription identifiers and user properties\<close>

interpretation wsubid: wire_type write_variable_length "\<lambda>v. unat (var_int_len (unat v))" decode_sub_id
  "\<lambda>v. v \<noteq> 0 \<and> v \<le> 268435455" varlen_bytes
proof
  fix v :: u32
  assume v: "v \<noteq> 0 \<and> v \<le> 268435455"
  then have u: "unat v < 268435456"
    by (simp add: word_le_nat_alt)
  show "unat (var_int_len (unat v)) = length (varlen_bytes v)"
    using u length_varlen_bytes [OF u] by (simp add: var_int_len_vlen vlen_def)
  show "writes (write_variable_length v) (varlen_bytes v)"
    using v by (intro writes_intros) simp
  show "decode_sub_id (varlen_bytes v @ rest) = Ok (v, rest)" for rest
    using v by (simp add: decode_sub_id_def)
next
  show "decode_sub_id src \<noteq> Panic" for src
    by (auto simp: decode_sub_id_def)
  show "decode_sub_id src = Ok (v, rest) \<Longrightarrow> length rest < length src" for src v rest
    by (auto simp: decode_sub_id_def split: if_splits dest: decode_variable_length_cursor_consumes)
  show "decode_sub_id src = Ok (v, rest) \<Longrightarrow> v \<noteq> 0 \<and> v \<le> 268435455" for src v rest
    by (auto simp: decode_sub_id_def split: if_splits dest: decode_variable_length_cursor_bound)
qed

abbreviation user_bytes :: "user_properties \<Rightarrow> bytes" where
  "user_bytes \<equiv> many_props PT_USER prefixed2"

abbreviation wf_users :: "user_properties \<Rightarrow> bool" where
  "wf_users \<equiv> list_all is_text2"

lemma many_props_simps [simp]:
  "many_props t r [] = []" "many_props t r (x # xs) = t # r x @ many_props t r xs"
  by (simp_all add: many_props_def)

lemma writes_many_props:
  "(\<And>x. x \<in> set xs \<Longrightarrow> writes (w x) (t # r x)) \<Longrightarrow> writes (each_w w xs) (many_props t r xs)"
  unfolding many_props_def by (rule writes_each)

lemma encode_UserProperties_writes:
  "wf_users ps \<Longrightarrow> writes (encode_UserProperties ps) (user_bytes ps)"
  unfolding encode_UserProperties_def
  using writes_seq [OF writes_put_u8 wuser.enc_writes]
  by (intro writes_many_props) (auto simp: list_all_iff)

lemma length_many_props: "length (many_props t r xs) = sum_list (map (\<lambda>x. 1 + length (r x)) xs)"
  by (induction xs) simp_all

lemma encoded_size_UserProperties_length: "encoded_size_UserProperties ps = length (user_bytes ps)"
  unfolding encoded_size_UserProperties_def foldl_sum length_many_props
  by (simp add: encoded_size_UserProperty_def encoded_size_Bytes_def add.assoc eval_nat_numeral)

section \<open>Diagnostics that fit a limit\<close>

text \<open>
  The diagnostics of a packet are its user properties and its reason string.  What is sent under a
  limit is the longest prefix of the user properties that fits, and the reason string when all user
  properties are sent and it fits too.
\<close>

fun fit_props :: "user_properties \<Rightarrow> bytes option \<Rightarrow> nat \<Rightarrow> user_properties \<times> bytes option" where
  "fit_props [] reason limit =
     ([], case reason of None \<Rightarrow> None | Some r \<Rightarrow> if 3 + length r \<le> limit then Some r else None)"
| "fit_props (up # ups) reason limit =
     (let prop_len = 1 + length (prefixed2 up) in
      if limit < prop_len then ([], None)
      else case fit_props ups reason (limit - prop_len) of (us, r) \<Rightarrow> (up # us, r))"

definition diag_bytes :: "user_properties \<times> bytes option \<Rightarrow> bytes" where
  "diag_bytes d = user_bytes (fst d) @ opt_prop PT_REASON_STRING prefixed (snd d)"

definition wf_diag :: "user_properties \<times> bytes option \<Rightarrow> bool" where
  "wf_diag d \<longleftrightarrow> wf_users (fst d) \<and> (\<forall>r \<in> set_option (snd d). is_text r)"

lemma esize_user [simp]: "encoded_size_UserProperty up = length (prefixed2 up)"
  "encoded_size_Bytes (fst up) + encoded_size_Bytes (snd up) = length (prefixed2 up)"
  by (simp_all add: encoded_size_UserProperty_def encoded_size_Bytes_def)

lemma diag_bytes_Cons: "diag_bytes (up # us, r) = (PT_USER # prefixed2 up) @ diag_bytes (us, r)"
  by (simp add: diag_bytes_def)

lemma fit_props_length: "length (diag_bytes (fit_props ups reason limit)) \<le> limit"
  by (induction ups reason limit rule: fit_props.induct)
    (auto simp: diag_bytes_def opt_prop_def opt_bytes_def Let_def split: option.splits prod.splits)

lemma fit_props_wf: "wf_diag (ups, reason) \<Longrightarrow> wf_diag (fit_props ups reason limit)"
  by (induction ups reason limit rule: fit_props.induct)
    (auto simp: wf_diag_def Let_def split: option.splits prod.splits)

lemma fit_props_all:
  "length (diag_bytes (ups, reason)) \<le> limit \<Longrightarrow> fit_props ups reason limit = (ups, reason)"
  by (induction ups reason limit rule: fit_props.induct)
    (auto simp: diag_bytes_def opt_prop_def opt_bytes_def Let_def split: option.splits prod.splits)

lemma fit_props_Cons:
  "fit_props (up # ups) reason limit =
     (if limit < 1 + length (prefixed2 up) then ([], None)
      else apfst (Cons up) (fit_props ups reason (limit - (1 + length (prefixed2 up)))))"
  by (simp add: Let_def split: prod.splits)

lemma diag_bytes_apfst: "diag_bytes (apfst (Cons up) d) = (PT_USER # prefixed2 up) @ diag_bytes d"
  by (cases d) (simp add: diag_bytes_def)

lemma unat_sub_nat:
  assumes "n \<le> unat (l :: u32)"
  shows "unat (l - of_nat n) = unat l - n"
proof -
  have n: "unat (of_nat n :: u32) = n"
    using order.strict_trans1 [OF assms unat_u32_less] by (simp add: unat_of_nat)
  with assms show ?thesis
    by (subst unat_sub) (simp_all add: word_le_nat_alt)
qed

lemma encoded_size_opt_props_loop_fit:
  "encoded_size_opt_props_loop ups reason limit len =
     len + length (diag_bytes (fit_props ups reason (unat limit)))"
proof (induction ups arbitrary: limit len)
  case Nil
  show ?case
    by (auto simp: diag_bytes_def opt_prop_def opt_bytes_def encoded_size_Bytes_def Let_def
        split: option.splits)
next
  case (Cons up ups)
  show ?case
  proof (cases "unat limit < 1 + length (prefixed2 up)")
    case True
    then show ?thesis by (simp add: diag_bytes_def opt_prop_def opt_bytes_def)
  next
    case False
    then have "unat (limit - of_nat (1 + length (prefixed2 up))) = unat limit - (1 + length (prefixed2 up))"
      by (intro unat_sub_nat) simp
    with False Cons.IH show ?thesis
      by (simp add: fit_props_Cons diag_bytes_apfst Let_def del: length_prefixed fit_props.simps(2) of_nat_add of_nat_Suc)
  qed
qed

lemma encoded_size_opt_props_fit:
  "encoded_size_opt_props ups reason limit = length (diag_bytes (fit_props ups reason (unat limit)))"
  by (simp add: encoded_size_opt_props_def encoded_size_opt_props_loop_fit)

lemma encode_opt_props_fit:
  assumes "wf_diag (ups, reason)" and "unat sz = length (diag_bytes (fit_props ups reason limit))"
  shows "writes (encode_opt_props ups reason sz) (diag_bytes (fit_props ups reason limit))"
  using assms
proof (induction ups arbitrary: sz limit)
  case Nil
  show ?case
  proof (cases reason)
    case (Some r)
    have "writes (seq_w (put_u8 PT_REASON_STRING) (encode_ByteString r)) (PT_REASON_STRING # prefixed r)"
      using Nil.prems(1) Some writes_seq [OF writes_put_u8 wtext.enc_writes] by (simp add: wf_diag_def)
    with Nil.prems(2) Some show ?thesis
      by (auto simp: diag_bytes_def opt_prop_def opt_bytes_def intro: writes_skip)
  qed (simp add: diag_bytes_def opt_prop_def opt_bytes_def writes_skip)
next
  case (Cons up ups)
  let ?n = "1 + length (prefixed2 up)"
  show ?case
  proof (cases "limit < ?n")
    case True
    with Cons.prems(2) have "unat sz = 0" and "diag_bytes (fit_props (up # ups) reason limit) = []"
      by (simp_all add: diag_bytes_def opt_prop_def opt_bytes_def)
    then show ?thesis
      by (simp add: writes_skip Let_def del: fit_props.simps)
  next
    case False
    then have d: "diag_bytes (fit_props (up # ups) reason limit) =
        (PT_USER # prefixed2 up) @ diag_bytes (fit_props ups reason (limit - ?n))"
      by (simp add: fit_props_Cons diag_bytes_apfst del: fit_props.simps)
    have n: "?n \<le> unat sz"
      unfolding Cons.prems(2) d by simp
    then have "unat (sz - of_nat ?n) = length (diag_bytes (fit_props ups reason (limit - ?n)))"
      using Cons.prems(2) unfolding d by (subst unat_sub_nat) simp_all
    moreover have "wf_diag (ups, reason)" "is_text2 up"
      using Cons.prems(1) by (simp_all add: wf_diag_def)
    ultimately have "writes (seq_w (seq_w (put_u8 PT_USER) (encode_UserProperty up))
        (encode_opt_props ups reason (sz - of_nat ?n)))
        (([PT_USER] @ prefixed2 up) @ diag_bytes (fit_props ups reason (limit - ?n)))"
      by (intro writes_intros Cons.IH)
    with n d show ?thesis
      by (simp add: Let_def add.assoc del: fit_props.simps length_prefixed of_nat_add of_nat_Suc)
  qed
qed

section \<open>Properties of acknowledgements\<close>

lemmas prop_no_panics [simp] =
  wbool.read_prop_no_panic wu16.read_prop_no_panic wu32.read_prop_no_panic wnz16.read_prop_no_panic
  wnz32.read_prop_no_panic wbytes.read_prop_no_panic wtext.read_prop_no_panic
  wsubid.read_prop_no_panic wsubid.push_prop_no_panic wuser.push_prop_no_panic

lemmas prop_shrinks =
  wbool.read_prop_shrinks wu16.read_prop_shrinks wu32.read_prop_shrinks wnz16.read_prop_shrinks
  wnz32.read_prop_shrinks wbytes.read_prop_shrinks wtext.read_prop_shrinks
  wsubid.read_prop_shrinks wsubid.push_prop_shrinks wuser.push_prop_shrinks

lemmas prop_reprs =
  wbool.read_prop_repr wu16.read_prop_repr wu32.read_prop_repr wnz16.read_prop_repr
  wnz32.read_prop_repr wbytes.read_prop_repr wtext.read_prop_repr
  wsubid.read_prop_repr wsubid.push_prop_repr wuser.push_prop_repr
  wbool.read_prop_repr_all wu16.read_prop_repr_all wu32.read_prop_repr_all wnz16.read_prop_repr_all
  wnz32.read_prop_repr_all wbytes.read_prop_repr_all wtext.read_prop_repr_all
  wsubid.read_prop_repr_all wsubid.push_prop_repr_all wuser.push_prop_repr_all

lemmas prop_Oks =
  wbool.read_prop_Ok wu16.read_prop_Ok wu32.read_prop_Ok wnz16.read_prop_Ok
  wnz32.read_prop_Ok wbytes.read_prop_Ok wtext.read_prop_Ok
  wsubid.read_prop_Ok wsubid.push_prop_Ok wuser.push_prop_Ok

interpretation ackp: property_reader ack_prop
  by unfold_locales (auto simp: ack_prop_def split: if_splits dest: prop_shrinks)

lemma ack_props_decode_no_panic [simp]: "ack_props_decode src \<noteq> Panic"
  by (auto simp: ack_props_decode_def ackp.prop_loop_no_panic)

lemma ack_loop_diag:
  assumes "wf_diag d"
  shows "prop_loop ack_prop ([], None) (diag_bytes d) = Ok d"
proof -
  have "prop_loop ack_prop ([], None) (diag_bytes d @ []) =
      prop_loop ack_prop (fst d, None) (opt_prop PT_REASON_STRING prefixed (snd d) @ [])"
    unfolding diag_bytes_def append_assoc
    using assms by (subst ackp.loop_many [where upd = apfst])
      (auto simp: ack_prop_def prop_reprs wf_diag_def list_all_iff apfst_def map_prod_def split: prod.splits)
  also have "\<dots> = prop_loop ack_prop (fst d, snd d) []"
    using assms by (intro ackp.loop_opt) (auto simp: ack_prop_def prop_reprs wf_diag_def)
  finally show ?thesis by simp
qed

definition props_bytes :: "bytes \<Rightarrow> bytes" where
  "props_bytes ps = varlen_bytes (of_nat (length ps)) @ ps"

lemma length_props_bytes:
  "length ps < 268435456 \<Longrightarrow> length (props_bytes ps) = vlen (length ps) + length ps"
  by (simp add: props_bytes_def length_varlen_bytes)

lemma take_props_bytes [simp]:
  "length ps < 268435456 \<Longrightarrow> take_properties (props_bytes ps @ rest) = Ok (ps, rest)"
  "length ps < 268435456 \<Longrightarrow> take_properties (props_bytes ps) = Ok (ps, [])"
  using take_properties_repr [of ps rest] take_properties_repr [of ps "[]"]
  by (simp_all add: props_bytes_def)

lemma ack_props_roundtrip:
  assumes "wf_diag d" and "length (diag_bytes d) < 268435456"
  shows "ack_props_decode (props_bytes (diag_bytes d) @ rest) = Ok (d, rest)"
  using assms by (simp add: ack_props_decode_def ack_loop_diag)

text \<open>Four bytes of the limit are kept for the length of the properties.\<close>

definition ack_fit :: "user_properties \<Rightarrow> bytes option \<Rightarrow> u32 \<Rightarrow> user_properties \<times> bytes option" where
  "ack_fit ups reason limit = (if limit < 4 then ([], None) else fit_props ups reason (unat (limit - 4)))"

lemma ack_fit_wf: "wf_diag (ups, reason) \<Longrightarrow> wf_diag (ack_fit ups reason limit)"
  by (simp add: ack_fit_def fit_props_wf) (simp add: wf_diag_def)

lemma diag_bytes_empty [simp]: "diag_bytes ([], None) = []"
  by (simp add: diag_bytes_def opt_prop_def opt_bytes_def)

lemma ack_props_encoded_size_ge:
  "length (diag_bytes (ack_fit ups reason limit)) \<le> ack_props_encoded_size ups reason limit"
  by (simp add: ack_fit_def ack_props_encoded_size_def encoded_size_opt_props_fit Let_def)

lemma unat_vlen: "unat (of_nat (vlen n) :: u32) = vlen n"
  by (simp add: vlen_def)

lemma varlen_bytes_0: "varlen_bytes 0 = [0]"
  by (simp add: varlen_bytes_def write_variable_length_def put_u8_def put_def)

lemma ack_props_encoded_size_length:
  assumes "length (diag_bytes (ack_fit ups reason limit)) < 268435456"
  shows "ack_props_encoded_size ups reason limit = length (props_bytes (diag_bytes (ack_fit ups reason limit)))"
  using assms
  by (auto simp: ack_fit_def ack_props_encoded_size_def encoded_size_opt_props_fit Let_def
      length_props_bytes var_int_len_vlen unat_vlen) (simp add: vlen_def)

lemma ack_props_encode_writes:
  assumes "wf_diag (ups, reason)" and "ack_props_encoded_size ups reason limit < 268435456"
    and "sz = of_nat (ack_props_encoded_size ups reason limit)"
  shows "writes (ack_props_encode ups reason sz) (props_bytes (diag_bytes (ack_fit ups reason limit)))"
proof -
  let ?d = "diag_bytes (ack_fit ups reason limit)"
  have l: "length ?d < 268435456"
    using ack_props_encoded_size_ge assms(2) by (rule order.strict_trans1)
  note e = ack_props_encoded_size_length [OF l] length_props_bytes [OF l]
  have small: "length ?d + vlen (length ?d) < 268435456"
    using assms(2) e by simp
  show ?thesis
  proof (cases "?d = []")
    case True
    then have "sz = 1"
      using assms(3) e by (simp add: vlen_def)
    with True show ?thesis
      by (simp add: ack_props_encode_def props_bytes_def varlen_bytes_0 writes_put_u8)
  next
    case False
    then have lim: "\<not> limit < 4"
      by (auto simp: ack_fit_def)
    have "unat sz = vlen (length ?d) + length ?d"
      using small assms(3) e by (simp add: unat_of_nat del: of_nat_add)
    moreover from False have "vlen (length ?d) + length ?d > 1"
      using vlen_bounds [of "length ?d"] by (cases ?d) auto
    ultimately have "sz \<noteq> 1"
      by auto
    moreover have "var_int_len_from_size sz = of_nat (length ?d)"
      unfolding assms(3) e using small by (rule var_int_len_from_size_inverse)
    moreover have u: "unat (of_nat (length ?d) :: u32) = length ?d"
      using l by (simp add: unat_of_nat)
    moreover from this have "(of_nat (length ?d) :: u32) \<le> 268435455"
      using l by (simp add: word_le_nat_alt)
    ultimately show ?thesis
      using lim assms(1) encode_opt_props_fit [OF assms(1), of "of_nat (length ?d)" "unat (limit - 4)"]
      by (auto simp: ack_props_encode_def props_bytes_def ack_fit_def Let_def
          intro!: writes_seq writes_variable_length)
  qed
qed

end
