(* ===== verification/V5_Packets.thy ===== *)
theory V5_Packets
  imports V5_Props
begin

text \<open>
  Decoding and encoding of every MQTT 5 packet (\<^verbatim>\<open>codec/v5/packet/*.rs\<close>, \<^verbatim>\<open>decode.rs\<close>, \<^verbatim>\<open>encode.rs\<close>).
  The local variables a property loop assigns are the fields of a record; the sizes are computed with
  the \<^verbatim>\<open>u32\<close> subtractions of the source, which wrap around.
\<close>

unbundle bit_operations_syntax

text \<open>\<^verbatim>\<open>buf.len()\<close> read in the middle of a writer.\<close>

definition at_len :: "(nat \<Rightarrow> ('a, 'e) writer) \<Rightarrow> ('a, 'e) writer" where
  "at_len f dst = f (length dst) dst"

section \<open>AUTH (auth.rs)\<close>

record auth_props =
  aup_auth_method :: "bytes option"
  aup_auth_data :: "bytes option"
  aup_reason_string :: "bytes option"
  aup_user_properties :: user_properties

definition auth_props0 :: auth_props where
  "auth_props0 = \<lparr>aup_auth_method = None, aup_auth_data = None, aup_reason_string = None,
     aup_user_properties = []\<rparr>"

definition auth_prop :: "u8 \<Rightarrow> auth_props \<Rightarrow> auth_props decoder" where
  "auth_prop prop_id acc src =
     (if prop_id = PT_AUTH_METHOD then read_prop decode_ByteString aup_auth_method aup_auth_method_update acc src
      else if prop_id = PT_AUTH_DATA then read_prop decode_Bytes aup_auth_data aup_auth_data_update acc src
      else if prop_id = PT_REASON_STRING then read_prop decode_ByteString aup_reason_string aup_reason_string_update acc src
      else if prop_id = PT_USER then push_prop decode_UserProperty aup_user_properties_update acc src
      else Err MalformedPacket)"

definition decode_auth :: "bytes \<Rightarrow> auth dres" where
  "decode_auth src =
     (if src \<noteq> [] then
        bind_res (get_u8 src) (\<lambda>(b, src).
        bind_res (auth_reason_code_try_from b) (\<lambda>reason_code.
        if src \<noteq> [] then
          bind_res
            (if reason_code \<noteq> ARC_Success \<or> src \<noteq> [] then
               bind_res (take_properties src) (\<lambda>(prop_src, src).
               bind_res (prop_loop auth_prop auth_props0 prop_src) (\<lambda>acc.
               bind_res (ensure (src = []) InvalidLength) (\<lambda>_. Ok acc)))
             else Ok auth_props0) (\<lambda>acc.
          Ok \<lparr>au_reason_code = reason_code, au_auth_method = aup_auth_method acc,
              au_auth_data = aup_auth_data acc, au_reason_string = aup_reason_string acc,
              au_user_properties = aup_user_properties acc\<rparr>)
        else Ok (auth_default\<lparr>au_reason_code := reason_code\<rparr>)))
      else Ok auth_default)"

definition encoded_size_auth :: "auth \<Rightarrow> u32 \<Rightarrow> nat" where
  "encoded_size_auth a limit =
     (let header_len = 1;
          prop_len = encoded_property_size encoded_size_Bytes (au_auth_method a)
            + encoded_property_size encoded_size_Bytes (au_auth_data a);
          diag_len = encoded_size_opt_props (au_user_properties a) (au_reason_string a)
            (reduce_limit limit (prop_len + header_len + 4));
          prop_len = prop_len + diag_len
      in header_len + unat (var_int_len prop_len) + prop_len)"

definition encode_auth :: "auth \<Rightarrow> u32 \<Rightarrow> encoder" where
  "encode_auth a sz = at_len (\<lambda>start_len.
     seq_w (put_u8 (auth_reason_code_to_u8 (au_reason_code a)))
     (seq_w (write_variable_length (var_int_len_from_size (sz - 1)))
     (seq_w (encode_property encode_ByteString (au_auth_method a) PT_AUTH_METHOD)
     (seq_w (encode_property encode_Bytes (au_auth_data a) PT_AUTH_DATA)
     (at_len (\<lambda>len. encode_opt_props (au_user_properties a) (au_reason_string a)
        (sz - of_nat (len - start_len))))))))"

section \<open>DISCONNECT (disconnect.rs)\<close>

record disconnect_props =
  dip_session_exp_secs :: "u32 option"
  dip_server_reference :: "bytes option"
  dip_reason_string :: "bytes option"
  dip_user_properties :: user_properties

definition disconnect_props0 :: disconnect_props where
  "disconnect_props0 = \<lparr>dip_session_exp_secs = None, dip_server_reference = None,
     dip_reason_string = None, dip_user_properties = []\<rparr>"

definition disconnect_prop :: "u8 \<Rightarrow> disconnect_props \<Rightarrow> disconnect_props decoder" where
  "disconnect_prop prop_id acc src =
     (if prop_id = PT_SESS_EXPIRY_INT then read_prop decode_u32 dip_session_exp_secs dip_session_exp_secs_update acc src
      else if prop_id = PT_REASON_STRING then read_prop decode_ByteString dip_reason_string dip_reason_string_update acc src
      else if prop_id = PT_USER then push_prop decode_UserProperty dip_user_properties_update acc src
      else if prop_id = PT_SERVER_REF then read_prop decode_ByteString dip_server_reference dip_server_reference_update acc src
      else Err MalformedPacket)"

definition decode_disconnect :: "bytes \<Rightarrow> v5_disconnect dres" where
  "decode_disconnect src =
     (if src \<noteq> [] then
        bind_res (get_u8 src) (\<lambda>(b, src).
        bind_res (disconnect_reason_code_try_from b) (\<lambda>reason_code.
        if src \<noteq> [] then
          bind_res (take_properties src) (\<lambda>(prop_src, src).
          bind_res (prop_loop disconnect_prop disconnect_props0 prop_src) (\<lambda>acc.
          bind_res (ensure (src = []) InvalidLength) (\<lambda>_.
          Ok \<lparr>di_reason_code = reason_code,
              di_session_expiry_interval_secs = dip_session_exp_secs acc,
              di_server_reference = dip_server_reference acc,
              di_reason_string = dip_reason_string acc,
              di_user_properties = dip_user_properties acc\<rparr>)))
        else Ok (v5_disconnect_default\<lparr>di_reason_code := reason_code\<rparr>)))
      else Ok v5_disconnect_default)"

definition encoded_size_disconnect :: "v5_disconnect \<Rightarrow> u32 \<Rightarrow> nat" where
  "encoded_size_disconnect d limit =
     (let header_len = 1;
          prop_len = encoded_property_size encoded_size_u32 (di_session_expiry_interval_secs d)
            + encoded_property_size encoded_size_Bytes (di_server_reference d);
          diag_len = encoded_size_opt_props (di_user_properties d) (di_reason_string d)
            (reduce_limit limit (prop_len + header_len + 4));
          prop_len = prop_len + diag_len
      in header_len + unat (var_int_len prop_len) + prop_len)"

definition encode_disconnect :: "v5_disconnect \<Rightarrow> u32 \<Rightarrow> encoder" where
  "encode_disconnect d sz = at_len (\<lambda>start_len.
     seq_w (put_u8 (disconnect_reason_code_to_u8 (di_reason_code d)))
     (seq_w (write_variable_length (var_int_len_from_size (sz - 1)))
     (seq_w (encode_property encode_u32 (di_session_expiry_interval_secs d) PT_SESS_EXPIRY_INT)
     (seq_w (encode_property encode_ByteString (di_server_reference d) PT_SERVER_REF)
     (at_len (\<lambda>len. encode_opt_props (di_user_properties d) (di_reason_string d)
        (sz - of_nat (len - start_len))))))))"

section \<open>PUBACK, PUBREC, PUBREL, PUBCOMP (pubacks.rs)\<close>

definition decode_ack_packet :: "'r publish_ack \<Rightarrow> (u8 \<Rightarrow> 'r dres) \<Rightarrow> bytes \<Rightarrow> 'r publish_ack dres" where
  "decode_ack_packet dflt try_from src =
     bind_res (decode_NonZeroU16 src) (\<lambda>(packet_id, src).
     if src \<noteq> [] then
       bind_res (get_u8 src) (\<lambda>(b, src).
       bind_res (try_from b) (\<lambda>reason_code.
       if src \<noteq> [] then
         bind_res (ack_props_decode src) (\<lambda>((properties, reason_string), src).
         bind_res (ensure (src = []) InvalidLength) (\<lambda>_.
         Ok \<lparr>ack_packet_id = packet_id, ack_reason_code = reason_code, ack_properties = properties,
             ack_reason_string = reason_string\<rparr>))
       else Ok (dflt\<lparr>ack_packet_id := packet_id, ack_reason_code := reason_code\<rparr>)))
     else Ok (dflt\<lparr>ack_packet_id := packet_id\<rparr>))"

definition decode_publish_ack :: "bytes \<Rightarrow> publish_ack1 dres" where
  "decode_publish_ack = decode_ack_packet publish_ack_default publish_ack_reason_try_from"

definition decode_publish_ack2 :: "bytes \<Rightarrow> publish_ack2 dres" where
  "decode_publish_ack2 = decode_ack_packet publish_ack2_default publish_ack2_reason_try_from"

definition HEADER_LEN :: u32 where [simp]: "HEADER_LEN = 2 + 1"

definition encoded_size_publish_ack :: "'r publish_ack \<Rightarrow> u32 \<Rightarrow> nat" where
  "encoded_size_publish_ack a limit =
     (let prop_len = ack_props_encoded_size (ack_properties a) (ack_reason_string a) (limit - HEADER_LEN - 4)
      in unat HEADER_LEN + prop_len)"

definition encode_publish_ack :: "('r \<Rightarrow> u8) \<Rightarrow> 'r publish_ack \<Rightarrow> u32 \<Rightarrow> encoder" where
  "encode_publish_ack to_u8 a sz =
     seq_w (encode_u16 (ack_packet_id a))
     (seq_w (put_u8 (to_u8 (ack_reason_code a)))
       (ack_props_encode (ack_properties a) (ack_reason_string a) (sz - HEADER_LEN)))"

section \<open>PUBLISH (publish.rs)\<close>

record publish_props =
  pbp_message_expiry_interval :: "u32 option"
  pbp_topic_alias :: "u16 option"
  pbp_content_type :: "bytes option"
  pbp_correlation_data :: "bytes option"
  pbp_subscription_ids :: "u32 list"
  pbp_response_topic :: "bytes option"
  pbp_is_utf8_payload :: "bool option"
  pbp_user_props :: user_properties

definition publish_props0 :: publish_props where
  "publish_props0 = \<lparr>pbp_message_expiry_interval = None, pbp_topic_alias = None, pbp_content_type = None,
     pbp_correlation_data = None, pbp_subscription_ids = [], pbp_response_topic = None,
     pbp_is_utf8_payload = None, pbp_user_props = []\<rparr>"

definition publish_prop :: "u8 \<Rightarrow> publish_props \<Rightarrow> publish_props decoder" where
  "publish_prop prop_id acc src =
     (if prop_id = PT_UTF8_PAYLOAD then read_prop decode_bool pbp_is_utf8_payload pbp_is_utf8_payload_update acc src
      else if prop_id = PT_MSG_EXPIRY_INT
        then read_prop decode_NonZeroU32 pbp_message_expiry_interval pbp_message_expiry_interval_update acc src
      else if prop_id = PT_CONTENT_TYPE then read_prop decode_ByteString pbp_content_type pbp_content_type_update acc src
      else if prop_id = PT_RESP_TOPIC then read_prop decode_ByteString pbp_response_topic pbp_response_topic_update acc src
      else if prop_id = PT_CORR_DATA then read_prop decode_Bytes pbp_correlation_data pbp_correlation_data_update acc src
      else if prop_id = PT_SUB_ID then push_prop decode_sub_id pbp_subscription_ids_update acc src
      else if prop_id = PT_TOPIC_ALIAS then read_prop decode_NonZeroU16 pbp_topic_alias pbp_topic_alias_update acc src
      else if prop_id = PT_USER then push_prop decode_UserProperty pbp_user_props_update acc src
      else Err MalformedPacket)"

definition parse_publish_properties :: "publish_properties decoder" where
  "parse_publish_properties src =
     bind_res (take_properties src) (\<lambda>(prop_src, src).
     bind_res (prop_loop publish_prop publish_props0 prop_src) (\<lambda>acc.
     Ok (\<lparr>pp_topic_alias = pbp_topic_alias acc, pp_correlation_data = pbp_correlation_data acc,
          pp_message_expiry_interval = pbp_message_expiry_interval acc,
          pp_content_type = pbp_content_type acc, pp_user_properties = pbp_user_props acc,
          pp_is_utf8_payload = unwrap_or (pbp_is_utf8_payload acc) False,
          pp_response_topic = pbp_response_topic acc,
          pp_subscription_ids = pbp_subscription_ids acc\<rparr>, src)))"

definition decode_publish :: "bytes \<Rightarrow> u8 \<Rightarrow> publish dres" where
  "decode_publish src packet_flags =
     bind_res (decode_ByteString src) (\<lambda>(topic, src).
     bind_res (qos_try_from (drop_bit 1 (packet_flags AND 0b0110))) (\<lambda>q.
     bind_res (decode_packet_id q src) (\<lambda>(packet_id, src).
     bind_res (parse_publish_properties src) (\<lambda>(properties, payload).
     Ok \<lparr>pub_dup = (packet_flags AND 0b1000 = 0b1000),
         pub_retain = (packet_flags AND 0b0001 = 0b0001), pub_qos = q, pub_topic = topic,
         pub_packet_id = packet_id, pub_payload = payload, pub_properties = Some properties\<rparr>))))"

definition encoded_size_publish_properties :: "publish_properties \<Rightarrow> nat" where
  "encoded_size_publish_properties p =
     (let prop_len = encoded_property_size encoded_size_u16 (pp_topic_alias p)
        + encoded_property_size encoded_size_Bytes (pp_correlation_data p)
        + encoded_property_size encoded_size_u32 (pp_message_expiry_interval p)
        + encoded_property_size encoded_size_Bytes (pp_content_type p)
        + encoded_property_size_default encoded_size_bool (pp_is_utf8_payload p) False
        + encoded_property_size encoded_size_Bytes (pp_response_topic p)
        + foldl (\<lambda>acc i. acc + 1 + unat (var_int_len (unat i))) 0 (pp_subscription_ids p)
        + encoded_size_UserProperties (pp_user_properties p)
      in prop_len + unat (var_int_len prop_len))"

definition encode_publish_properties :: "publish_properties \<Rightarrow> u32 \<Rightarrow> encoder" where
  "encode_publish_properties p sz =
     seq_w (write_variable_length (var_int_len_from_size sz))
     (seq_w (encode_property encode_NonZeroU16 (pp_topic_alias p) PT_TOPIC_ALIAS)
     (seq_w (encode_property encode_Bytes (pp_correlation_data p) PT_CORR_DATA)
     (seq_w (encode_property encode_NonZeroU32 (pp_message_expiry_interval p) PT_MSG_EXPIRY_INT)
     (seq_w (encode_property encode_ByteString (pp_content_type p) PT_CONTENT_TYPE)
     (seq_w (encode_property_default encode_bool (pp_is_utf8_payload p) False PT_UTF8_PAYLOAD)
     (seq_w (encode_property encode_ByteString (pp_response_topic p) PT_RESP_TOPIC)
     (seq_w (each_w (\<lambda>sub_id. seq_w (put_u8 PT_SUB_ID) (write_variable_length sub_id)) (pp_subscription_ids p))
            (encode_UserProperties (pp_user_properties p)))))))))"

definition publish_props_of :: "publish \<Rightarrow> publish_properties" where
  "publish_props_of p = (case pub_properties p of Some ps \<Rightarrow> ps | None \<Rightarrow> publish_properties_default)"

definition encoded_size_publish :: "publish \<Rightarrow> nat" where
  "encoded_size_publish p =
     (let packet_id_size = (if pub_qos p = AtMostOnce then 0 else 2)
      in encoded_size_Bytes (pub_topic p) + packet_id_size
         + encoded_size_publish_properties (publish_props_of p) + length (pub_payload p))"

definition encode_publish :: "publish \<Rightarrow> u32 \<Rightarrow> encoder" where
  "encode_publish p sz = at_len (\<lambda>start_len.
     seq_w (encode_ByteString (pub_topic p))
     (seq_w (encode_publish_packet_id p)
     (seq_w (at_len (\<lambda>len. encode_publish_properties (publish_props_of p)
               (sz - of_nat (len - start_len + length (pub_payload p)))))
            (put (pub_payload p)))))"

section \<open>SUBSCRIBE, SUBACK, UNSUBSCRIBE, UNSUBACK (subscribe.rs)\<close>

definition decode_subscription_options :: "subscription_options decoder" where
  "decode_subscription_options src =
     bind_res (ensure (src \<noteq> []) InvalidLength) (\<lambda>_.
     bind_res (get_u8 src) (\<lambda>(val, src).
     bind_res (qos_try_from (val AND 0b00000011)) (\<lambda>q.
     bind_res (retain_handling_try_from (drop_bit 4 (val AND 0b00110000))) (\<lambda>rh.
     Ok (\<lparr>so_qos = q, so_no_local = (val AND 0b00000100 \<noteq> 0),
          so_retain_as_published = (val AND 0b00001000 \<noteq> 0), so_retain_handling = rh\<rparr>, src)))))"

definition subscription_options_byte :: "subscription_options \<Rightarrow> u8" where
  "subscription_options_byte opts =
     qos_value (so_qos opts) OR push_bit 2 (if so_no_local opts then 1 else 0)
     OR push_bit 3 (if so_retain_as_published opts then 1 else 0)
     OR push_bit 4 (retain_handling_to_u8 (so_retain_handling opts))"

definition encode_subscription_options :: "subscription_options \<Rightarrow> encoder" where
  "encode_subscription_options opts = put_u8 (subscription_options_byte opts)"

text \<open>\<^verbatim>\<open>read_prop decode_sub_id\<close>: the identifier may not appear twice.\<close>

definition subscribe_prop ::
  "u8 \<Rightarrow> u32 option \<times> user_properties \<Rightarrow> (u32 option \<times> user_properties) decoder" where
  "subscribe_prop prop_id acc src =
     (if prop_id = PT_SUB_ID then read_prop decode_sub_id fst apfst acc src
      else if prop_id = PT_USER then push_prop decode_UserProperty apsnd acc src
      else Err MalformedPacket)"

definition decode_topic_filter :: "(bytes \<times> subscription_options) decoder" where
  "decode_topic_filter src =
     bind_res (decode_ByteString src) (\<lambda>(topic, src).
     bind_res (decode_subscription_options src) (\<lambda>(opts, src). Ok ((topic, opts), src)))"

definition decode_subscribe :: "bytes \<Rightarrow> v5_subscribe dres" where
  "decode_subscribe src =
     bind_res (decode_NonZeroU16 src) (\<lambda>(packet_id, src).
     bind_res (take_properties src) (\<lambda>(prop_src, src).
     bind_res (prop_loop subscribe_prop (None, []) prop_src) (\<lambda>(sub_id, user_properties).
     bind_res (many decode_topic_filter src) (\<lambda>topic_filters.
     Ok \<lparr>sb_packet_id = packet_id, sb_id = sub_id, sb_user_properties = user_properties,
         sb_topic_filters = topic_filters\<rparr>))))"

definition decode_status_ack :: "(u8 \<Rightarrow> 'r dres) \<Rightarrow> bytes \<Rightarrow> 'r status_ack dres" where
  "decode_status_ack try_from src =
     bind_res (decode_NonZeroU16 src) (\<lambda>(packet_id, src).
     bind_res (ack_props_decode src) (\<lambda>((properties, reason_string), src).
     bind_res (collect_res try_from src) (\<lambda>status.
     Ok \<lparr>sa_packet_id = packet_id, sa_properties = properties, sa_reason_string = reason_string,
         sa_status = status\<rparr>)))"

definition decode_subscribe_ack :: "bytes \<Rightarrow> v5_subscribe_ack dres" where
  "decode_subscribe_ack = decode_status_ack subscribe_ack_reason_try_from"

definition decode_unsubscribe_ack :: "bytes \<Rightarrow> v5_unsubscribe_ack dres" where
  "decode_unsubscribe_ack = decode_status_ack unsubscribe_ack_reason_try_from"

definition unsubscribe_prop :: "u8 \<Rightarrow> user_properties \<Rightarrow> user_properties decoder" where
  "unsubscribe_prop prop_id acc src =
     (if prop_id = PT_USER then push_prop decode_UserProperty (\<lambda>f. f) acc src else Err MalformedPacket)"

definition decode_unsubscribe :: "bytes \<Rightarrow> v5_unsubscribe dres" where
  "decode_unsubscribe src =
     bind_res (decode_NonZeroU16 src) (\<lambda>(packet_id, src).
     bind_res (take_properties src) (\<lambda>(prop_src, src).
     bind_res (prop_loop unsubscribe_prop [] prop_src) (\<lambda>user_properties.
     bind_res (many decode_ByteString src) (\<lambda>topic_filters.
     Ok \<lparr>us_packet_id = packet_id, us_user_properties = user_properties,
         us_topic_filters = topic_filters\<rparr>))))"

definition encoded_size_subscribe :: "v5_subscribe \<Rightarrow> nat" where
  "encoded_size_subscribe p =
     (let prop_len = (case sb_id p of None \<Rightarrow> 0 | Some v \<Rightarrow> 1 + unat (var_int_len (unat v)))
            + encoded_size_UserProperties (sb_user_properties p);
          payload_len = foldl (\<lambda>acc (flt, _). acc + encoded_size_Bytes flt + 1) 0 (sb_topic_filters p)
      in encoded_size_u16 (sb_packet_id p) + unat (var_int_len prop_len) + prop_len + payload_len)"

definition encode_subscribe :: "v5_subscribe \<Rightarrow> encoder" where
  "encode_subscribe p =
     (let prop_len = (case sb_id p of None \<Rightarrow> 0 | Some v \<Rightarrow> 1 + var_int_len (unat v))
            + of_nat (encoded_size_UserProperties (sb_user_properties p))
      in seq_w (encode_NonZeroU16 (sb_packet_id p))
         (seq_w (write_variable_length prop_len)
         (seq_w (opt_w (\<lambda>i. seq_w (put_u8 PT_SUB_ID) (write_variable_length i)) (sb_id p))
         (seq_w (encode_UserProperties (sb_user_properties p))
                (each_w (\<lambda>(flt, opts). seq_w (encode_ByteString flt) (encode_subscription_options opts))
                   (sb_topic_filters p))))))"

definition encoded_size_subscribe_ack :: "v5_subscribe_ack \<Rightarrow> u32 \<Rightarrow> nat" where
  "encoded_size_subscribe_ack a limit =
     (let len = length (sa_status a)
      in if 4294967293 < len then 18446744073709551615
         else 2 + ack_props_encoded_size (sa_properties a) (sa_reason_string a) (limit - 2 - of_nat len) + len)"

definition encoded_size_unsubscribe_ack :: "v5_unsubscribe_ack \<Rightarrow> u32 \<Rightarrow> nat" where
  "encoded_size_unsubscribe_ack a limit =
     (let len = length (sa_status a)
      in 2 + len + ack_props_encoded_size (sa_properties a) (sa_reason_string a) (reduce_limit limit (2 + len)))"

definition encode_status_ack :: "('r \<Rightarrow> u8) \<Rightarrow> 'r status_ack \<Rightarrow> u32 \<Rightarrow> encoder" where
  "encode_status_ack to_u8 a sz =
     (let len = of_nat (length (sa_status a))
      in seq_w (encode_NonZeroU16 (sa_packet_id a))
         (seq_w (ack_props_encode (sa_properties a) (sa_reason_string a) (sz - 2 - len))
                (each_w (\<lambda>reason. put_u8 (to_u8 reason)) (sa_status a))))"

definition encoded_size_unsubscribe :: "v5_unsubscribe \<Rightarrow> nat" where
  "encoded_size_unsubscribe p =
     (let prop_len = encoded_size_UserProperties (us_user_properties p)
      in 2 + unat (var_int_len prop_len) + prop_len
         + foldl (\<lambda>acc flt. acc + 2 + length flt) 0 (us_topic_filters p))"

definition encode_unsubscribe :: "v5_unsubscribe \<Rightarrow> encoder" where
  "encode_unsubscribe p =
     (let prop_len = encoded_size_UserProperties (us_user_properties p)
      in seq_w (encode_NonZeroU16 (us_packet_id p))
         (seq_w (write_variable_length (of_nat prop_len))
         (seq_w (encode_UserProperties (us_user_properties p))
                (each_w encode_ByteString (us_topic_filters p)))))"

section \<open>CONNECT (connect.rs)\<close>

record last_will_props =
  lwp_will_delay_interval_sec :: "u32 option"
  lwp_correlation_data :: "bytes option"
  lwp_message_expiry_interval :: "u32 option"
  lwp_content_type :: "bytes option"
  lwp_user_properties :: user_properties
  lwp_is_utf8_payload :: "bool option"
  lwp_response_topic :: "bytes option"

definition last_will_props0 :: last_will_props where
  "last_will_props0 = \<lparr>lwp_will_delay_interval_sec = None, lwp_correlation_data = None,
     lwp_message_expiry_interval = None, lwp_content_type = None, lwp_user_properties = [],
     lwp_is_utf8_payload = None, lwp_response_topic = None\<rparr>"

definition last_will_prop :: "u8 \<Rightarrow> last_will_props \<Rightarrow> last_will_props decoder" where
  "last_will_prop prop_id acc src =
     (if prop_id = PT_WILL_DELAY_INT
        then read_prop decode_u32 lwp_will_delay_interval_sec lwp_will_delay_interval_sec_update acc src
      else if prop_id = PT_CORR_DATA
        then read_prop decode_Bytes lwp_correlation_data lwp_correlation_data_update acc src
      else if prop_id = PT_MSG_EXPIRY_INT
        then read_prop decode_NonZeroU32 lwp_message_expiry_interval lwp_message_expiry_interval_update acc src
      else if prop_id = PT_CONTENT_TYPE
        then read_prop decode_ByteString lwp_content_type lwp_content_type_update acc src
      else if prop_id = PT_UTF8_PAYLOAD
        then read_prop decode_bool lwp_is_utf8_payload lwp_is_utf8_payload_update acc src
      else if prop_id = PT_RESP_TOPIC
        then read_prop decode_ByteString lwp_response_topic lwp_response_topic_update acc src
      else if prop_id = PT_USER
        then push_prop decode_UserProperty lwp_user_properties_update acc src
      else Err MalformedPacket)"

definition v5_decode_last_will :: "u8 \<Rightarrow> v5_last_will decoder" where
  "v5_decode_last_will flags src =
     bind_res (take_properties src) (\<lambda>(prop_src, src).
     bind_res (prop_loop last_will_prop last_will_props0 prop_src) (\<lambda>acc.
     bind_res (decode_ByteString src) (\<lambda>(topic, src).
     bind_res (decode_Bytes src) (\<lambda>(message, src).
     bind_res (qos_try_from (drop_bit WILL_QOS_SHIFT (flags AND WILL_QOS))) (\<lambda>q.
     Ok (\<lparr>lw_qos = q, lw_retain = contains flags WILL_RETAIN, lw_topic = topic, lw_message = message,
          lw_will_delay_interval_sec = lwp_will_delay_interval_sec acc,
          lw_correlation_data = lwp_correlation_data acc,
          lw_message_expiry_interval = lwp_message_expiry_interval acc,
          lw_content_type = lwp_content_type acc, lw_user_properties = lwp_user_properties acc,
          lw_is_utf8_payload = lwp_is_utf8_payload acc,
          lw_response_topic = lwp_response_topic acc\<rparr>, src))))))"

record connect_props =
  cnp_session_expiry_interval_secs :: "u32 option"
  cnp_auth_method :: "bytes option"
  cnp_auth_data :: "bytes option"
  cnp_request_problem_info :: "bool option"
  cnp_request_response_info :: "bool option"
  cnp_receive_max :: "u16 option"
  cnp_topic_alias_max :: "u16 option"
  cnp_user_properties :: user_properties
  cnp_max_packet_size :: "u32 option"

definition connect_props0 :: connect_props where
  "connect_props0 = \<lparr>cnp_session_expiry_interval_secs = None, cnp_auth_method = None, cnp_auth_data = None,
     cnp_request_problem_info = None, cnp_request_response_info = None, cnp_receive_max =
     None, cnp_topic_alias_max = None, cnp_user_properties = [], cnp_max_packet_size = None\<rparr>"

definition connect_prop :: "u8 \<Rightarrow> connect_props \<Rightarrow> connect_props decoder" where
  "connect_prop prop_id acc src =
     (if prop_id = PT_SESS_EXPIRY_INT
        then read_prop decode_u32 cnp_session_expiry_interval_secs cnp_session_expiry_interval_secs_update acc src
      else if prop_id = PT_AUTH_METHOD
        then read_prop decode_ByteString cnp_auth_method cnp_auth_method_update acc src
      else if prop_id = PT_AUTH_DATA
        then read_prop decode_Bytes cnp_auth_data cnp_auth_data_update acc src
      else if prop_id = PT_REQ_PROB_INFO
        then read_prop decode_bool cnp_request_problem_info cnp_request_problem_info_update acc src
      else if prop_id = PT_REQ_RESP_INFO
        then read_prop decode_bool cnp_request_response_info cnp_request_response_info_update acc src
      else if prop_id = PT_RECEIVE_MAX
        then read_prop decode_NonZeroU16 cnp_receive_max cnp_receive_max_update acc src
      else if prop_id = PT_TOPIC_ALIAS_MAX
        then read_prop decode_u16 cnp_topic_alias_max cnp_topic_alias_max_update acc src
      else if prop_id = PT_USER
        then push_prop decode_UserProperty cnp_user_properties_update acc src
      else if prop_id = PT_MAX_PACKET_SIZE
        then read_prop decode_NonZeroU32 cnp_max_packet_size cnp_max_packet_size_update acc src
      else Err MalformedPacket)"

definition decode_connect :: "bytes \<Rightarrow> v5_connect dres" where
  "decode_connect src =
     bind_res (ensure (10 \<le> length src) InvalidLength) (\<lambda>_.
     bind_res (get_u16 src) (\<lambda>(len, src).
     bind_res (name_matches len MQTT src) (\<lambda>is_mqtt.
     bind_res (ensure is_mqtt InvalidProtocol) (\<lambda>_.
     bind_res (advance 4 src) (\<lambda>(_, src).
     bind_res (get_u8 src) (\<lambda>(level, src).
     bind_res (ensure (level = MQTT_LEVEL_5) UnsupportedProtocolLevel) (\<lambda>_.
     bind_res (get_u8 src) (\<lambda>(fb, src).
     bind_res (ok_or (flags_from_bits connect_flags_all fb) ConnectReservedFlagSet) (\<lambda>flags.
     bind_res (get_u16 src) (\<lambda>(keep_alive, src).
     bind_res (take_properties src) (\<lambda>(prop_src, src).
     bind_res (prop_loop connect_prop connect_props0 prop_src) (\<lambda>acc.
     bind_res (decode_ByteString src) (\<lambda>(client_id, src).
     bind_res (ensure (client_id \<noteq> [] \<or> contains flags CLEAN_START) InvalidClientId) (\<lambda>_.
     bind_res (decode_if (contains flags WILL) (v5_decode_last_will flags) src) (\<lambda>(last_will, src).
     bind_res (decode_if (contains flags USERNAME) decode_ByteString src) (\<lambda>(username, src).
     bind_res (decode_if (contains flags PASSWORD) decode_Bytes src) (\<lambda>(password, src).
     Ok \<lparr>cn_clean_start = contains flags CLEAN_START, cn_keep_alive = keep_alive,
         cn_session_expiry_interval_secs = unwrap_or (cnp_session_expiry_interval_secs acc) 0,
         cn_auth_method = cnp_auth_method acc, cn_auth_data = cnp_auth_data acc,
         cn_request_problem_info = unwrap_or (cnp_request_problem_info acc) True,
         cn_request_response_info = unwrap_or (cnp_request_response_info acc) False,
         cn_receive_max = cnp_receive_max acc,
         cn_topic_alias_max = unwrap_or (cnp_topic_alias_max acc) 0,
         cn_user_properties = cnp_user_properties acc, cn_max_packet_size = cnp_max_packet_size acc,
         cn_last_will = last_will, cn_client_id = client_id, cn_username = username,
         cn_password = password, cn_cert = None\<rparr>)))))))))))))))))"

definition connect_set_client_id :: "bytes \<Rightarrow> v5_connect \<Rightarrow> v5_connect" where
  "connect_set_client_id client_id c = c\<lparr>cn_client_id := client_id\<rparr>"

definition connect_set_receive_max :: "u16 \<Rightarrow> v5_connect \<Rightarrow> v5_connect" where
  "connect_set_receive_max m c = c\<lparr>cn_receive_max := (if m \<noteq> 0 then Some m else None)\<rparr>"

definition last_will_properties_len :: "v5_last_will \<Rightarrow> nat" where
  "last_will_properties_len w =
     encoded_property_size encoded_size_u32 (lw_will_delay_interval_sec w)
     + encoded_property_size encoded_size_Bytes (lw_correlation_data w)
     + encoded_property_size encoded_size_u32 (lw_message_expiry_interval w)
     + encoded_property_size encoded_size_Bytes (lw_content_type w)
     + encoded_property_size encoded_size_bool (lw_is_utf8_payload w)
     + encoded_property_size encoded_size_Bytes (lw_response_topic w)
     + encoded_size_UserProperties (lw_user_properties w)"

definition connect_properties_len :: "v5_connect \<Rightarrow> nat" where
  "connect_properties_len c =
     encoded_property_size encoded_size_Bytes (cn_auth_method c)
     + encoded_property_size encoded_size_Bytes (cn_auth_data c)
     + encoded_property_size_default encoded_size_u32 (cn_session_expiry_interval_secs c) 0
     + encoded_property_size_default encoded_size_bool (cn_request_problem_info c) True
     + encoded_property_size_default encoded_size_bool (cn_request_response_info c) False
     + encoded_property_size encoded_size_u16 (cn_receive_max c)
     + encoded_property_size encoded_size_u32 (cn_max_packet_size c)
     + encoded_property_size_default encoded_size_u16 (cn_topic_alias_max c) 0
     + encoded_size_UserProperties (cn_user_properties c)"

definition encoded_size_connect :: "v5_connect \<Rightarrow> nat" where
  "encoded_size_connect c =
     (let prop_len = connect_properties_len c
      in 6 + 1 + 1 + 2 + unat (var_int_len prop_len) + prop_len + encoded_size_Bytes (cn_client_id c)
         + (case cn_last_will c of None \<Rightarrow> 0
            | Some will \<Rightarrow> let prop_len = last_will_properties_len will
                in unat (var_int_len prop_len) + prop_len + encoded_size_Bytes (lw_topic will)
                   + encoded_size_Bytes (lw_message will))
         + (case cn_username c of None \<Rightarrow> 0 | Some v \<Rightarrow> encoded_size_Bytes v)
         + (case cn_password c of None \<Rightarrow> 0 | Some v \<Rightarrow> encoded_size_Bytes v))"

definition v5_connect_flags :: "v5_connect \<Rightarrow> u8" where
  "v5_connect_flags c =
     (if cn_username c \<noteq> None then USERNAME else 0)
     OR (if cn_password c \<noteq> None then PASSWORD else 0)
     OR (case cn_last_will c of None \<Rightarrow> 0
         | Some w \<Rightarrow> WILL OR (if lw_retain w then WILL_RETAIN else 0)
             OR flags_from_bits_truncate connect_flags_all (push_bit WILL_QOS_SHIFT (qos_value (lw_qos w))))
     OR (if cn_clean_start c then CLEAN_START else 0)"

definition encode_last_will :: "v5_last_will \<Rightarrow> encoder" where
  "encode_last_will will =
     seq_w (write_variable_length (of_nat (last_will_properties_len will)))
     (seq_w (encode_property encode_u32 (lw_will_delay_interval_sec will) PT_WILL_DELAY_INT)
     (seq_w (encode_property encode_bool (lw_is_utf8_payload will) PT_UTF8_PAYLOAD)
     (seq_w (encode_property encode_NonZeroU32 (lw_message_expiry_interval will) PT_MSG_EXPIRY_INT)
     (seq_w (encode_property encode_ByteString (lw_content_type will) PT_CONTENT_TYPE)
     (seq_w (encode_property encode_ByteString (lw_response_topic will) PT_RESP_TOPIC)
     (seq_w (encode_property encode_Bytes (lw_correlation_data will) PT_CORR_DATA)
     (seq_w (encode_UserProperties (lw_user_properties will))
     (seq_w (encode_ByteString (lw_topic will))
            (encode_Bytes (lw_message will))))))))))"

definition encode_connect :: "v5_connect \<Rightarrow> encoder" where
  "encode_connect c =
     seq_w (encode_Bytes MQTT)
     (seq_w (put [MQTT_LEVEL_5, v5_connect_flags c])
     (seq_w (encode_u16 (cn_keep_alive c))
     (seq_w (write_variable_length (of_nat (connect_properties_len c)))
     (seq_w (encode_property_default encode_u32 (cn_session_expiry_interval_secs c) 0 PT_SESS_EXPIRY_INT)
     (seq_w (encode_property encode_ByteString (cn_auth_method c) PT_AUTH_METHOD)
     (seq_w (encode_property encode_Bytes (cn_auth_data c) PT_AUTH_DATA)
     (seq_w (encode_property_default encode_bool (cn_request_problem_info c) True PT_REQ_PROB_INFO)
     (seq_w (encode_property_default encode_bool (cn_request_response_info c) False PT_REQ_RESP_INFO)
     (seq_w (encode_property encode_NonZeroU16 (cn_receive_max c) PT_RECEIVE_MAX)
     (seq_w (encode_property encode_NonZeroU32 (cn_max_packet_size c) PT_MAX_PACKET_SIZE)
     (seq_w (encode_property_default encode_u16 (cn_topic_alias_max c) 0 PT_TOPIC_ALIAS_MAX)
     (seq_w (encode_UserProperties (cn_user_properties c))
     (seq_w (encode_ByteString (cn_client_id c))
     (seq_w (opt_w encode_last_will (cn_last_will c))
     (seq_w (opt_w encode_ByteString (cn_username c))
            (opt_w encode_Bytes (cn_password c)))))))))))))))))"

section \<open>CONNACK (connack.rs)\<close>

definition decode_qos :: "qos decoder" where
  "decode_qos src =
     bind_res (ensure (src \<noteq> []) InvalidLength) (\<lambda>_.
     bind_res (get_u8 src) (\<lambda>(b, src).
     bind_res (qos_try_from b) (\<lambda>q. Ok (q, src))))"

record connack_props =
  cap_session_expiry_interval_secs :: "u32 option"
  cap_receive_max :: "u16 option"
  cap_max_qos :: "qos option"
  cap_retain_available :: "bool option"
  cap_max_packet_size :: "u32 option"
  cap_assigned_client_id :: "bytes option"
  cap_topic_alias_max :: "u16 option"
  cap_reason_string :: "bytes option"
  cap_user_properties :: user_properties
  cap_wildcard_sub_avail :: "bool option"
  cap_sub_ids_avail :: "bool option"
  cap_shared_sub_avail :: "bool option"
  cap_server_ka_sec :: "u16 option"
  cap_response_info :: "bytes option"
  cap_server_reference :: "bytes option"
  cap_auth_method :: "bytes option"
  cap_auth_data :: "bytes option"

definition connack_props0 :: connack_props where
  "connack_props0 = \<lparr>cap_session_expiry_interval_secs = None, cap_receive_max = None, cap_max_qos = None,
     cap_retain_available = None, cap_max_packet_size = None, cap_assigned_client_id = None,
     cap_topic_alias_max = None, cap_reason_string = None, cap_user_properties = [],
     cap_wildcard_sub_avail = None, cap_sub_ids_avail = None, cap_shared_sub_avail = None,
     cap_server_ka_sec = None, cap_response_info = None, cap_server_reference = None,
     cap_auth_method = None, cap_auth_data = None\<rparr>"

definition connack_prop :: "u8 \<Rightarrow> connack_props \<Rightarrow> connack_props decoder" where
  "connack_prop prop_id acc src =
     (if prop_id = PT_SESS_EXPIRY_INT
        then read_prop decode_u32 cap_session_expiry_interval_secs cap_session_expiry_interval_secs_update acc src
      else if prop_id = PT_RECEIVE_MAX
        then read_prop decode_NonZeroU16 cap_receive_max cap_receive_max_update acc src
      else if prop_id = PT_MAX_QOS
        then read_prop decode_qos cap_max_qos cap_max_qos_update acc src
      else if prop_id = PT_RETAIN_AVAIL
        then read_prop decode_bool cap_retain_available cap_retain_available_update acc src
      else if prop_id = PT_MAX_PACKET_SIZE
        then read_prop decode_u32 cap_max_packet_size cap_max_packet_size_update acc src
      else if prop_id = PT_ASSND_CLIENT_ID
        then read_prop decode_ByteString cap_assigned_client_id cap_assigned_client_id_update acc src
      else if prop_id = PT_TOPIC_ALIAS_MAX
        then read_prop decode_u16 cap_topic_alias_max cap_topic_alias_max_update acc src
      else if prop_id = PT_REASON_STRING
        then read_prop decode_ByteString cap_reason_string cap_reason_string_update acc src
      else if prop_id = PT_USER
        then push_prop decode_UserProperty cap_user_properties_update acc src
      else if prop_id = PT_WILDCARD_SUB_AVAIL
        then read_prop decode_bool cap_wildcard_sub_avail cap_wildcard_sub_avail_update acc src
      else if prop_id = PT_SUB_IDS_AVAIL
        then read_prop decode_bool cap_sub_ids_avail cap_sub_ids_avail_update acc src
      else if prop_id = PT_SHARED_SUB_AVAIL
        then read_prop decode_bool cap_shared_sub_avail cap_shared_sub_avail_update acc src
      else if prop_id = PT_SERVER_KA
        then read_prop decode_u16 cap_server_ka_sec cap_server_ka_sec_update acc src
      else if prop_id = PT_RESP_INFO
        then read_prop decode_ByteString cap_response_info cap_response_info_update acc src
      else if prop_id = PT_SERVER_REF
        then read_prop decode_ByteString cap_server_reference cap_server_reference_update acc src
      else if prop_id = PT_AUTH_METHOD
        then read_prop decode_ByteString cap_auth_method cap_auth_method_update acc src
      else if prop_id = PT_AUTH_DATA
        then read_prop decode_Bytes cap_auth_data cap_auth_data_update acc src
      else Err MalformedPacket)"

definition decode_connack :: "bytes \<Rightarrow> v5_connect_ack dres" where
  "decode_connack src =
     bind_res (ensure (2 \<le> length src) InvalidLength) (\<lambda>_.
     bind_res (get_u8 src) (\<lambda>(fb, src).
     bind_res (ok_or (flags_from_bits SESSION_PRESENT fb) ConnAckReservedFlagSet) (\<lambda>flags.
     bind_res (get_u8 src) (\<lambda>(b, src).
     bind_res (connect_ack_reason_try_from b) (\<lambda>reason_code.
     bind_res (take_properties src) (\<lambda>(prop_src, src).
     bind_res (prop_loop connack_prop connack_props0 prop_src) (\<lambda>acc.
     bind_res (ensure (src = []) InvalidLength) (\<lambda>_.
     Ok \<lparr>ca_session_present = contains flags SESSION_PRESENT, ca_reason_code = reason_code,
         ca_session_expiry_interval_secs = cap_session_expiry_interval_secs acc,
         ca_receive_max = unwrap_or (cap_receive_max acc) RECEIVE_MAX_DEFAULT,
         ca_max_qos = unwrap_or (cap_max_qos acc) ExactlyOnce,
         ca_max_packet_size = cap_max_packet_size acc,
         ca_assigned_client_id = cap_assigned_client_id acc,
         ca_topic_alias_max = unwrap_or (cap_topic_alias_max acc) 0,
         ca_retain_available = unwrap_or (cap_retain_available acc) True,
         ca_wildcard_subscription_available = unwrap_or (cap_wildcard_sub_avail acc) True,
         ca_subscription_identifiers_available = unwrap_or (cap_sub_ids_avail acc) True,
         ca_shared_subscription_available = unwrap_or (cap_shared_sub_avail acc) True,
         ca_server_keepalive_sec = cap_server_ka_sec acc, ca_response_info = cap_response_info acc,
         ca_server_reference = cap_server_reference acc, ca_auth_method = cap_auth_method acc,
         ca_auth_data = cap_auth_data acc, ca_reason_string = cap_reason_string acc,
         ca_user_properties = cap_user_properties acc\<rparr>))))))))"

definition connack_properties_len :: "v5_connect_ack \<Rightarrow> nat" where
  "connack_properties_len a =
     encoded_property_size encoded_size_u32 (ca_session_expiry_interval_secs a)
     + encoded_property_size_default encoded_size_u16 (ca_receive_max a) RECEIVE_MAX_DEFAULT
     + (if ca_max_qos a < ExactlyOnce then 1 + 1 else 0)
     + encoded_property_size encoded_size_u32 (ca_max_packet_size a)
     + encoded_property_size encoded_size_Bytes (ca_assigned_client_id a)
     + encoded_property_size_default encoded_size_bool (ca_retain_available a) True
     + encoded_property_size_default encoded_size_bool (ca_wildcard_subscription_available a) True
     + encoded_property_size_default encoded_size_bool (ca_subscription_identifiers_available a) True
     + encoded_property_size_default encoded_size_bool (ca_shared_subscription_available a) True
     + encoded_property_size encoded_size_u16 (ca_server_keepalive_sec a)
     + encoded_property_size encoded_size_Bytes (ca_response_info a)
     + encoded_property_size encoded_size_Bytes (ca_server_reference a)
     + encoded_property_size encoded_size_Bytes (ca_auth_method a)
     + encoded_property_size encoded_size_Bytes (ca_auth_data a)
     + (if 0 < ca_topic_alias_max a then 1 + encoded_size_u16 (ca_topic_alias_max a) else 0)"

definition encoded_size_connack :: "v5_connect_ack \<Rightarrow> u32 \<Rightarrow> nat" where
  "encoded_size_connack a limit =
     (let header_len = 2;
          prop_len = connack_properties_len a;
          diag_len = encoded_size_opt_props (ca_user_properties a) (ca_reason_string a)
            (reduce_limit limit (header_len + 4 + prop_len));
          prop_len = prop_len + diag_len
      in header_len + unat (var_int_len prop_len) + prop_len)"

definition encode_connack :: "v5_connect_ack \<Rightarrow> u32 \<Rightarrow> encoder" where
  "encode_connack a sz = at_len (\<lambda>start_len.
     seq_w (put [if ca_session_present a then 1 else 0, connect_ack_reason_to_u8 (ca_reason_code a)])
     (seq_w (write_variable_length (var_int_len_from_size (sz - 2)))
     (seq_w (encode_property encode_u32 (ca_session_expiry_interval_secs a) PT_SESS_EXPIRY_INT)
     (seq_w (encode_property_default encode_NonZeroU16 (ca_receive_max a) RECEIVE_MAX_DEFAULT PT_RECEIVE_MAX)
     (seq_w (if ca_max_qos a < ExactlyOnce then put [PT_MAX_QOS, qos_value (ca_max_qos a)] else skip_w)
     (seq_w (encode_property_default encode_bool (ca_retain_available a) True PT_RETAIN_AVAIL)
     (seq_w (encode_property encode_u32 (ca_max_packet_size a) PT_MAX_PACKET_SIZE)
     (seq_w (encode_property encode_ByteString (ca_assigned_client_id a) PT_ASSND_CLIENT_ID)
     (seq_w (encode_property_default encode_u16 (ca_topic_alias_max a) 0 PT_TOPIC_ALIAS_MAX)
     (seq_w (encode_property_default encode_bool (ca_wildcard_subscription_available a) True PT_WILDCARD_SUB_AVAIL)
     (seq_w (encode_property_default encode_bool (ca_subscription_identifiers_available a) True PT_SUB_IDS_AVAIL)
     (seq_w (encode_property_default encode_bool (ca_shared_subscription_available a) True PT_SHARED_SUB_AVAIL)
     (seq_w (encode_property encode_u16 (ca_server_keepalive_sec a) PT_SERVER_KA)
     (seq_w (encode_property encode_ByteString (ca_response_info a) PT_RESP_INFO)
     (seq_w (encode_property encode_ByteString (ca_server_reference a) PT_SERVER_REF)
     (seq_w (encode_property encode_ByteString (ca_auth_method a) PT_AUTH_METHOD)
     (seq_w (encode_property encode_Bytes (ca_auth_data a) PT_AUTH_DATA)
     (at_len (\<lambda>len. encode_opt_props (ca_user_properties a) (ca_reason_string a)
        (sz - of_nat (len - start_len)))))))))))))))))))))"

section \<open>All packets (decode.rs, encode.rs)\<close>

definition v5_decode_packet :: "bytes \<Rightarrow> u8 \<Rightarrow> v5_packet dres" where
  "v5_decode_packet src fb =
     (if PUBLISH_START \<le> fb \<and> fb \<le> PUBLISH_END
        then map_res V5_Publish (decode_publish src (fb AND 0b00001111))
      else if fb = PUBACK then map_res V5_PublishAck (decode_publish_ack src)
      else if fb = PINGREQ then Ok V5_PingRequest
      else if fb = PINGRESP then Ok V5_PingResponse
      else if fb = SUBSCRIBE then map_res V5_Subscribe (decode_subscribe src)
      else if fb = SUBACK then map_res V5_SubscribeAck (decode_subscribe_ack src)
      else if fb = UNSUBSCRIBE then map_res V5_Unsubscribe (decode_unsubscribe src)
      else if fb = UNSUBACK then map_res V5_UnsubscribeAck (decode_unsubscribe_ack src)
      else if fb = CONNECT then map_res V5_Connect (decode_connect src)
      else if fb = CONNACK then map_res V5_ConnectAck (decode_connack src)
      else if fb = DISCONNECT then map_res V5_Disconnect (decode_disconnect src)
      else if fb = AUTH then map_res V5_Auth (decode_auth src)
      else if fb = PUBREC then map_res V5_PublishReceived (decode_publish_ack src)
      else if fb = PUBREL then map_res V5_PublishRelease (decode_publish_ack2 src)
      else if fb = PUBCOMP then map_res V5_PublishComplete (decode_publish_ack2 src)
      else Err UnsupportedPacketType)"

fun v5_encoded_size :: "v5_packet \<Rightarrow> u32 \<Rightarrow> nat" where
  "v5_encoded_size (V5_Connect c) limit = encoded_size_connect c"
| "v5_encoded_size (V5_Publish p) limit = encoded_size_publish p"
| "v5_encoded_size (V5_ConnectAck a) limit = encoded_size_connack a limit"
| "v5_encoded_size (V5_PublishAck a) limit = encoded_size_publish_ack a limit"
| "v5_encoded_size (V5_PublishReceived a) limit = encoded_size_publish_ack a limit"
| "v5_encoded_size (V5_PublishRelease a) limit = encoded_size_publish_ack a limit"
| "v5_encoded_size (V5_PublishComplete a) limit = encoded_size_publish_ack a limit"
| "v5_encoded_size (V5_Subscribe p) limit = encoded_size_subscribe p"
| "v5_encoded_size (V5_SubscribeAck a) limit = encoded_size_subscribe_ack a limit"
| "v5_encoded_size (V5_Unsubscribe p) limit = encoded_size_unsubscribe p"
| "v5_encoded_size (V5_UnsubscribeAck a) limit = encoded_size_unsubscribe_ack a limit"
| "v5_encoded_size V5_PingRequest limit = 0"
| "v5_encoded_size V5_PingResponse limit = 0"
| "v5_encoded_size (V5_Disconnect d) limit = encoded_size_disconnect d limit"
| "v5_encoded_size (V5_Auth a) limit = encoded_size_auth a limit"

fun v5_encode :: "v5_packet \<Rightarrow> u32 \<Rightarrow> encoder" where
  "v5_encode (V5_Connect c) check_size =
     seq_w (put_u8 CONNECT) (seq_w (write_variable_length check_size) (encode_connect c))"
| "v5_encode (V5_ConnectAck a) check_size =
     seq_w (put_u8 CONNACK) (seq_w (write_variable_length check_size) (encode_connack a check_size))"
| "v5_encode (V5_Publish p) check_size =
     seq_w (put_u8 (publish_first_byte p)) (seq_w (write_variable_length check_size) (encode_publish p check_size))"
| "v5_encode (V5_PublishAck a) check_size =
     seq_w (put_u8 PUBACK) (seq_w (write_variable_length check_size)
       (encode_publish_ack publish_ack_reason_to_u8 a check_size))"
| "v5_encode (V5_PublishReceived a) check_size =
     seq_w (put_u8 PUBREC) (seq_w (write_variable_length check_size)
       (encode_publish_ack publish_ack_reason_to_u8 a check_size))"
| "v5_encode (V5_PublishRelease a) check_size =
     seq_w (put_u8 PUBREL) (seq_w (write_variable_length check_size)
       (encode_publish_ack publish_ack2_reason_to_u8 a check_size))"
| "v5_encode (V5_PublishComplete a) check_size =
     seq_w (put_u8 PUBCOMP) (seq_w (write_variable_length check_size)
       (encode_publish_ack publish_ack2_reason_to_u8 a check_size))"
| "v5_encode (V5_Subscribe p) check_size =
     seq_w (put_u8 SUBSCRIBE) (seq_w (write_variable_length check_size) (encode_subscribe p))"
| "v5_encode (V5_SubscribeAck a) check_size =
     seq_w (put_u8 SUBACK) (seq_w (write_variable_length check_size)
       (encode_status_ack subscribe_ack_reason_to_u8 a check_size))"
| "v5_encode (V5_Unsubscribe p) check_size =
     seq_w (put_u8 UNSUBSCRIBE) (seq_w (write_variable_length check_size) (encode_unsubscribe p))"
| "v5_encode (V5_UnsubscribeAck a) check_size =
     seq_w (put_u8 UNSUBACK) (seq_w (write_variable_length check_size)
       (encode_status_ack unsubscribe_ack_reason_to_u8 a check_size))"
| "v5_encode V5_PingRequest check_size = put [PINGREQ, 0]"
| "v5_encode V5_PingResponse check_size = put [PINGRESP, 0]"
| "v5_encode (V5_Disconnect d) check_size =
     seq_w (put_u8 DISCONNECT) (seq_w (write_variable_length check_size) (encode_disconnect d check_size))"
| "v5_encode (V5_Auth a) check_size =
     seq_w (put_u8 AUTH) (seq_w (write_variable_length check_size) (encode_auth a check_size))"

end
