(* ===== verification/V5_Decode.thy ===== *)
theory V5_Decode
  imports V5_Packets
begin

text \<open>
  The MQTT 5 decoder on arbitrary input: it never panics, and the packets it returns are well formed
  (texts are UTF-8 of at most 65535 bytes, identifiers are not zero, subscription identifiers fit a
  variable-length integer).  Every property loop interprets the locale \<open>property_reader\<close>.
\<close>

unbundle bit_operations_syntax

section \<open>The readers of properties\<close>

interpretation wqos: wire_type "\<lambda>q. put_u8 (qos_value q)" "\<lambda>_. 1" decode_qos "\<lambda>_. True" "\<lambda>q. [qos_value q]"
  by unfold_locales
    (auto simp: decode_qos_def get_u8_Ok neq_Nil_conv intro: writes_intros)

lemmas v5_prop_no_panics [simp] = wqos.read_prop_no_panic

lemmas v5_prop_shrinks = prop_shrinks wqos.read_prop_shrinks

lemmas v5_prop_Oks = prop_Oks wqos.read_prop_Ok

interpretation authp: property_reader auth_prop
  by unfold_locales (auto simp: auth_prop_def split: if_splits dest: v5_prop_shrinks)

interpretation discp: property_reader disconnect_prop
  by unfold_locales (auto simp: disconnect_prop_def split: if_splits dest: v5_prop_shrinks)

interpretation pubp: property_reader publish_prop
  by unfold_locales (auto simp: publish_prop_def split: if_splits dest: v5_prop_shrinks)

interpretation subp: property_reader subscribe_prop
  by unfold_locales (auto simp: subscribe_prop_def split: if_splits dest: v5_prop_shrinks)

interpretation unsubp: property_reader unsubscribe_prop
  by unfold_locales (auto simp: unsubscribe_prop_def split: if_splits dest: v5_prop_shrinks)

interpretation willp: property_reader last_will_prop
  by unfold_locales (auto simp: last_will_prop_def split: if_splits dest: v5_prop_shrinks)

interpretation connp: property_reader connect_prop
  by unfold_locales (auto simp: connect_prop_def split: if_splits dest: v5_prop_shrinks)

interpretation cackp: property_reader connack_prop
  by unfold_locales (auto simp: connack_prop_def split: if_splits dest: v5_prop_shrinks)

lemmas prop_loops_no_panic [simp] =
  ackp.prop_loop_no_panic authp.prop_loop_no_panic discp.prop_loop_no_panic pubp.prop_loop_no_panic
  subp.prop_loop_no_panic unsubp.prop_loop_no_panic willp.prop_loop_no_panic
  connp.prop_loop_no_panic cackp.prop_loop_no_panic

section \<open>Absence of panics\<close>

lemma decode_subscription_options_no_panic [simp]: "decode_subscription_options src \<noteq> Panic"
  by (auto simp: decode_subscription_options_def)

interpretation filter5: consuming decode_topic_filter
  by unfold_locales
    (auto simp: decode_topic_filter_def decode_subscription_options_def get_u8_Ok neq_Nil_conv
      dest!: wtext.dec_consumes)

lemma decode_topic_filter_no_panic [simp]: "decode_topic_filter src \<noteq> Panic"
  by (auto simp: decode_topic_filter_def)

lemma many_topic_filter_no_panic [simp]: "many decode_topic_filter src \<noteq> Panic"
  by (rule filter5.many_no_panic) simp

lemma decode_ack_packet_no_panic:
  "(\<And>b. try_from b \<noteq> Panic) \<Longrightarrow> decode_ack_packet dflt try_from src \<noteq> Panic"
  by (auto simp: decode_ack_packet_def split: if_splits)

lemma decode_status_ack_no_panic:
  "(\<And>b. try_from b \<noteq> Panic) \<Longrightarrow> decode_status_ack try_from src \<noteq> Panic"
  by (auto simp: decode_status_ack_def collect_res_no_panic)

lemma v5_decode_last_will_no_panic [simp]: "v5_decode_last_will flags src \<noteq> Panic"
  by (auto simp: v5_decode_last_will_def)

lemma decode_connect_no_panic: "decode_connect src \<noteq> Panic"
proof (cases "10 \<le> length src")
  case True
  then obtain a b s where src: "src = a # b # s" and s: "8 \<le> length s"
    by (cases src rule: get_u16.cases) auto
  have "name_matches (of_be16 a b) MQTT s \<noteq> Panic"
    using s by (auto intro!: name_matches_no_panic simp: MQTT_def)
  moreover obtain c d e f t where "drop 4 s = c # d # e # f # t"
    using s by (cases "drop 4 s" rule: get_u32.cases) (auto dest: arg_cong [where f = length])
  moreover have "decode_if c (v5_decode_last_will fl) s' \<noteq> Panic" for c fl s'
    by (rule decode_if_no_panic) simp
  ultimately show ?thesis
    using s src by (auto simp: decode_connect_def)
qed (simp add: decode_connect_def)

lemma decode_connack_no_panic: "decode_connack src \<noteq> Panic"
  by (cases src rule: get_u16.cases) (auto simp: decode_connack_def)

lemma parse_publish_properties_no_panic [simp]: "parse_publish_properties src \<noteq> Panic"
  by (auto simp: parse_publish_properties_def)

lemma v5_decode_packet_no_panic: "v5_decode_packet src fb \<noteq> Panic"
proof -
  have "decode_publish_ack s \<noteq> Panic" "decode_publish_ack2 s \<noteq> Panic" for s
    by (simp_all add: decode_publish_ack_def decode_publish_ack2_def decode_ack_packet_no_panic)
  moreover have "decode_subscribe_ack s \<noteq> Panic" "decode_unsubscribe_ack s \<noteq> Panic" for s
    by (simp_all add: decode_subscribe_ack_def decode_unsubscribe_ack_def decode_status_ack_no_panic)
  moreover have "decode_auth s \<noteq> Panic" "decode_disconnect s \<noteq> Panic" for s
    by (auto simp: decode_auth_def decode_disconnect_def split: if_splits)
  moreover have "decode_publish s fl \<noteq> Panic" "decode_subscribe s \<noteq> Panic" "decode_unsubscribe s \<noteq> Panic" for s fl
    by (auto simp: decode_publish_def decode_subscribe_def decode_unsubscribe_def)
  ultimately show ?thesis
    by (simp add: v5_decode_packet_def decode_connect_no_panic decode_connack_no_panic)
qed

section \<open>Well-formed packets\<close>

definition wf_auth :: "auth \<Rightarrow> bool" where
  "wf_auth a \<longleftrightarrow> pred_option is_text (au_auth_method a) \<and> pred_option short (au_auth_data a)
     \<and> wf_diag (au_user_properties a, au_reason_string a)"

definition wf_disconnect :: "v5_disconnect \<Rightarrow> bool" where
  "wf_disconnect d \<longleftrightarrow> pred_option is_text (di_server_reference d)
     \<and> wf_diag (di_user_properties d, di_reason_string d)"

definition wf_publish_ack :: "'r publish_ack \<Rightarrow> bool" where
  "wf_publish_ack a \<longleftrightarrow> ack_packet_id a \<noteq> 0 \<and> wf_diag (ack_properties a, ack_reason_string a)"

definition wf_publish_properties :: "publish_properties \<Rightarrow> bool" where
  "wf_publish_properties p \<longleftrightarrow> pp_topic_alias p \<noteq> Some 0 \<and> pred_option short (pp_correlation_data p)
     \<and> pp_message_expiry_interval p \<noteq> Some 0 \<and> pred_option is_text (pp_content_type p)
     \<and> wf_users (pp_user_properties p) \<and> pred_option is_text (pp_response_topic p)
     \<and> list_all (\<lambda>i. i \<noteq> 0 \<and> i \<le> 268435455) (pp_subscription_ids p)"

definition wf_publish :: "publish \<Rightarrow> bool" where
  "wf_publish p \<longleftrightarrow> is_text (pub_topic p) \<and> (pub_packet_id p = None \<longleftrightarrow> pub_qos p = AtMostOnce)
     \<and> pub_packet_id p \<noteq> Some 0 \<and> pred_option wf_publish_properties (pub_properties p)"

definition wf_subscribe :: "v5_subscribe \<Rightarrow> bool" where
  "wf_subscribe p \<longleftrightarrow> sb_packet_id p \<noteq> 0 \<and> pred_option (\<lambda>i. i \<noteq> 0 \<and> i \<le> 268435455) (sb_id p)
     \<and> wf_users (sb_user_properties p) \<and> list_all (\<lambda>tf. is_text (fst tf)) (sb_topic_filters p)"

definition wf_status_ack :: "'r status_ack \<Rightarrow> bool" where
  "wf_status_ack a \<longleftrightarrow> sa_packet_id a \<noteq> 0 \<and> wf_diag (sa_properties a, sa_reason_string a)"

definition wf_unsubscribe :: "v5_unsubscribe \<Rightarrow> bool" where
  "wf_unsubscribe p \<longleftrightarrow> us_packet_id p \<noteq> 0 \<and> wf_users (us_user_properties p)
     \<and> list_all is_text (us_topic_filters p)"

definition wf_last_will :: "v5_last_will \<Rightarrow> bool" where
  "wf_last_will w \<longleftrightarrow> is_text (lw_topic w) \<and> short (lw_message w)
     \<and> pred_option short (lw_correlation_data w) \<and> lw_message_expiry_interval w \<noteq> Some 0
     \<and> pred_option is_text (lw_content_type w) \<and> wf_users (lw_user_properties w)
     \<and> pred_option is_text (lw_response_topic w)"

definition wf_connect :: "v5_connect \<Rightarrow> bool" where
  "wf_connect c \<longleftrightarrow> pred_option is_text (cn_auth_method c) \<and> pred_option short (cn_auth_data c)
     \<and> cn_receive_max c \<noteq> Some 0 \<and> wf_users (cn_user_properties c) \<and> cn_max_packet_size c \<noteq> Some 0
     \<and> pred_option wf_last_will (cn_last_will c) \<and> is_text (cn_client_id c)
     \<and> (cn_client_id c \<noteq> [] \<or> cn_clean_start c) \<and> pred_option is_text (cn_username c)
     \<and> pred_option short (cn_password c) \<and> cn_cert c = None"

definition wf_connack :: "v5_connect_ack \<Rightarrow> bool" where
  "wf_connack a \<longleftrightarrow> ca_receive_max a \<noteq> 0 \<and> pred_option is_text (ca_assigned_client_id a)
     \<and> pred_option is_text (ca_response_info a) \<and> pred_option is_text (ca_server_reference a)
     \<and> pred_option is_text (ca_auth_method a) \<and> pred_option short (ca_auth_data a)
     \<and> wf_diag (ca_user_properties a, ca_reason_string a)"

fun v5_wf :: "v5_packet \<Rightarrow> bool" where
  "v5_wf (V5_Connect c) \<longleftrightarrow> wf_connect c"
| "v5_wf (V5_ConnectAck a) \<longleftrightarrow> wf_connack a"
| "v5_wf (V5_Publish p) \<longleftrightarrow> wf_publish p"
| "v5_wf (V5_PublishAck a) \<longleftrightarrow> wf_publish_ack a"
| "v5_wf (V5_PublishReceived a) \<longleftrightarrow> wf_publish_ack a"
| "v5_wf (V5_PublishRelease a) \<longleftrightarrow> wf_publish_ack a"
| "v5_wf (V5_PublishComplete a) \<longleftrightarrow> wf_publish_ack a"
| "v5_wf (V5_Subscribe p) \<longleftrightarrow> wf_subscribe p"
| "v5_wf (V5_SubscribeAck a) \<longleftrightarrow> wf_status_ack a"
| "v5_wf (V5_Unsubscribe p) \<longleftrightarrow> wf_unsubscribe p"
| "v5_wf (V5_UnsubscribeAck a) \<longleftrightarrow> wf_status_ack a"
| "v5_wf V5_PingRequest \<longleftrightarrow> True"
| "v5_wf V5_PingResponse \<longleftrightarrow> True"
| "v5_wf (V5_Disconnect d) \<longleftrightarrow> wf_disconnect d"
| "v5_wf (V5_Auth a) \<longleftrightarrow> wf_auth a"

section \<open>Invariants of the property loops\<close>

definition wf_auth_props :: "auth_props \<Rightarrow> bool" where
  "wf_auth_props a \<longleftrightarrow> pred_option is_text (aup_auth_method a) \<and> pred_option short (aup_auth_data a)
     \<and> wf_diag (aup_user_properties a, aup_reason_string a)"

definition wf_disconnect_props :: "disconnect_props \<Rightarrow> bool" where
  "wf_disconnect_props d \<longleftrightarrow> pred_option is_text (dip_server_reference d)
     \<and> wf_diag (dip_user_properties d, dip_reason_string d)"

definition wf_publish_props :: "publish_props \<Rightarrow> bool" where
  "wf_publish_props p \<longleftrightarrow> pbp_topic_alias p \<noteq> Some 0 \<and> pred_option short (pbp_correlation_data p)
     \<and> pbp_message_expiry_interval p \<noteq> Some 0 \<and> pred_option is_text (pbp_content_type p)
     \<and> wf_users (pbp_user_props p) \<and> pred_option is_text (pbp_response_topic p)
     \<and> list_all (\<lambda>i. i \<noteq> 0 \<and> i \<le> 268435455) (pbp_subscription_ids p)"

definition wf_last_will_props :: "last_will_props \<Rightarrow> bool" where
  "wf_last_will_props w \<longleftrightarrow> pred_option short (lwp_correlation_data w)
     \<and> lwp_message_expiry_interval w \<noteq> Some 0 \<and> pred_option is_text (lwp_content_type w)
     \<and> wf_users (lwp_user_properties w) \<and> pred_option is_text (lwp_response_topic w)"

definition wf_connect_props :: "connect_props \<Rightarrow> bool" where
  "wf_connect_props c \<longleftrightarrow> pred_option is_text (cnp_auth_method c) \<and> pred_option short (cnp_auth_data c)
     \<and> cnp_receive_max c \<noteq> Some 0 \<and> wf_users (cnp_user_properties c) \<and> cnp_max_packet_size c \<noteq> Some 0"

definition wf_connack_props :: "connack_props \<Rightarrow> bool" where
  "wf_connack_props a \<longleftrightarrow> cap_receive_max a \<noteq> Some 0 \<and> pred_option is_text (cap_assigned_client_id a)
     \<and> pred_option is_text (cap_response_info a) \<and> pred_option is_text (cap_server_reference a)
     \<and> pred_option is_text (cap_auth_method a) \<and> pred_option short (cap_auth_data a)
     \<and> wf_diag (cap_user_properties a, cap_reason_string a)"

lemma ack_props_wf: "prop_loop ack_prop ([], None) src = Ok d \<Longrightarrow> wf_diag d"
  by (erule ackp.loop_inv [where Q = wf_diag])
    (auto simp: wf_diag_def ack_prop_def split: if_splits dest!: v5_prop_Oks)

lemma ack_props_decode_wf: "ack_props_decode src = Ok (d, rest) \<Longrightarrow> wf_diag d"
  by (auto simp: ack_props_decode_def dest: ack_props_wf)

lemma auth_props_wf: "prop_loop auth_prop auth_props0 src = Ok a \<Longrightarrow> wf_auth_props a"
  by (erule authp.loop_inv)
    (auto simp: wf_auth_props_def auth_props0_def wf_diag_def auth_prop_def split: if_splits dest!: v5_prop_Oks)

lemma disconnect_props_wf: "prop_loop disconnect_prop disconnect_props0 src = Ok a \<Longrightarrow> wf_disconnect_props a"
  by (erule discp.loop_inv)
    (auto simp: wf_disconnect_props_def disconnect_props0_def wf_diag_def disconnect_prop_def
      split: if_splits dest!: v5_prop_Oks)

lemma publish_props_wf: "prop_loop publish_prop publish_props0 src = Ok a \<Longrightarrow> wf_publish_props a"
  by (erule pubp.loop_inv)
    (auto simp: wf_publish_props_def publish_props0_def publish_prop_def split: if_splits dest!: v5_prop_Oks)

lemma last_will_props_wf: "prop_loop last_will_prop last_will_props0 src = Ok a \<Longrightarrow> wf_last_will_props a"
  by (erule willp.loop_inv)
    (auto simp: wf_last_will_props_def last_will_props0_def last_will_prop_def
      split: if_splits dest!: v5_prop_Oks)

lemma connect_props_wf: "prop_loop connect_prop connect_props0 src = Ok a \<Longrightarrow> wf_connect_props a"
  by (erule connp.loop_inv)
    (auto simp: wf_connect_props_def connect_props0_def connect_prop_def split: if_splits dest!: v5_prop_Oks)

lemma connack_props_wf: "prop_loop connack_prop connack_props0 src = Ok a \<Longrightarrow> wf_connack_props a"
  by (erule cackp.loop_inv)
    (auto simp: wf_connack_props_def connack_props0_def wf_diag_def connack_prop_def
      split: if_splits dest!: v5_prop_Oks)

lemma subscribe_props_wf:
  "prop_loop subscribe_prop (None, []) src = Ok a \<Longrightarrow>
   pred_option (\<lambda>i. i \<noteq> 0 \<and> i \<le> 268435455) (fst a) \<and> wf_users (snd a)"
  by (erule subp.loop_inv)
    (auto simp: subscribe_prop_def split: if_splits dest!: v5_prop_Oks)

lemma unsubscribe_props_wf: "prop_loop unsubscribe_prop [] src = Ok us \<Longrightarrow> wf_users us"
  by (erule unsubp.loop_inv)
    (auto simp: unsubscribe_prop_def split: if_splits dest!: v5_prop_Oks)

section \<open>Decoded packets are well formed\<close>

lemma decode_auth_wf: "decode_auth src = Ok a \<Longrightarrow> wf_auth a"
  by (auto simp: decode_auth_def wf_auth_def auth_default_def wf_diag_def wf_auth_props_def
      split: if_splits dest!: auth_props_wf)

lemma decode_disconnect_wf: "decode_disconnect src = Ok d \<Longrightarrow> wf_disconnect d"
  by (auto simp: decode_disconnect_def wf_disconnect_def v5_disconnect_default_def wf_diag_def
      wf_disconnect_props_def split: if_splits dest!: disconnect_props_wf)

lemma decode_ack_packet_wf:
  assumes "decode_ack_packet dflt try_from src = Ok a"
    and "ack_properties dflt = []" and "ack_reason_string dflt = None"
  shows "wf_publish_ack a"
  using assms
  by (auto simp: decode_ack_packet_def wf_publish_ack_def split: if_splits
      dest: wnz16.dec_wf ack_props_decode_wf) (simp_all add: wf_diag_def)

lemma decode_publish_acks_wf:
  "decode_publish_ack src = Ok a \<Longrightarrow> wf_publish_ack a"
  "decode_publish_ack2 src = Ok a2 \<Longrightarrow> wf_publish_ack a2"
  by (simp_all add: decode_publish_ack_def decode_publish_ack2_def publish_ack_default_def
      publish_ack2_default_def decode_ack_packet_wf)

lemma decode_status_ack_wf: "decode_status_ack try_from src = Ok a \<Longrightarrow> wf_status_ack a"
  by (auto simp: decode_status_ack_def wf_status_ack_def dest: wnz16.dec_wf ack_props_decode_wf)

lemma parse_publish_properties_wf:
  "parse_publish_properties src = Ok (p, rest) \<Longrightarrow> wf_publish_properties p"
  by (auto simp: parse_publish_properties_def wf_publish_properties_def wf_publish_props_def
      dest!: publish_props_wf)

lemma decode_publish_wf: "decode_publish src fl = Ok p \<Longrightarrow> wf_publish p"
  by (auto simp: decode_publish_def wf_publish_def decode_packet_id_def
      split: if_splits dest: wtext.dec_wf wnz16.dec_wf parse_publish_properties_wf)

lemma many_topic_filter_wf:
  "many decode_topic_filter src = Ok tfs \<Longrightarrow> list_all (\<lambda>tf. is_text (fst tf)) tfs"
  by (auto elim!: many_Ball simp: decode_topic_filter_def dest: wtext.dec_wf)

lemma decode_subscribe_wf: "decode_subscribe src = Ok p \<Longrightarrow> wf_subscribe p"
  by (auto simp: decode_subscribe_def wf_subscribe_def
      dest: wnz16.dec_wf subscribe_props_wf many_topic_filter_wf)

lemma decode_unsubscribe_wf: "decode_unsubscribe src = Ok p \<Longrightarrow> wf_unsubscribe p"
  by (auto simp: decode_unsubscribe_def wf_unsubscribe_def
      dest: wnz16.dec_wf unsubscribe_props_wf v3_decode_lists_wf)

lemma v5_decode_last_will_wf: "v5_decode_last_will fl src = Ok (w, rest) \<Longrightarrow> wf_last_will w"
  by (auto simp: v5_decode_last_will_def wf_last_will_def wf_last_will_props_def
      dest!: last_will_props_wf wtext.dec_wf wbytes.dec_wf)

lemma decode_if_pred:
  "decode_if c dec src = Ok (v, rest) \<Longrightarrow> (\<And>s x r. dec s = Ok (x, r) \<Longrightarrow> Q x) \<Longrightarrow> pred_option Q v"
  by (auto simp: decode_if_def split: if_splits)

lemma decode_connect_wf:
  assumes "decode_connect src = Ok c"
  shows "wf_connect c"
proof -
  obtain flags s0 acc s1 cid s2 lw s3 user s4 pass s5 ps ka where d:
    "prop_loop connect_prop connect_props0 ps = Ok acc"
    "decode_ByteString s1 = Ok (cid, s2)" "cid \<noteq> [] \<or> contains flags CLEAN_START"
    "decode_if (contains flags WILL) (v5_decode_last_will flags) s2 = Ok (lw, s3)"
    "decode_if (contains flags USERNAME) decode_ByteString s3 = Ok (user, s4)"
    "decode_if (contains flags PASSWORD) decode_Bytes s4 = Ok (pass, s5)"
    "c = \<lparr>cn_clean_start = contains flags CLEAN_START, cn_keep_alive = ka,
         cn_session_expiry_interval_secs = unwrap_or (cnp_session_expiry_interval_secs acc) 0,
         cn_auth_method = cnp_auth_method acc, cn_auth_data = cnp_auth_data acc,
         cn_request_problem_info = unwrap_or (cnp_request_problem_info acc) True,
         cn_request_response_info = unwrap_or (cnp_request_response_info acc) False,
         cn_receive_max = cnp_receive_max acc,
         cn_topic_alias_max = unwrap_or (cnp_topic_alias_max acc) 0,
         cn_user_properties = cnp_user_properties acc, cn_max_packet_size = cnp_max_packet_size acc,
         cn_last_will = lw, cn_client_id = cid, cn_username = user,
         cn_password = pass, cn_cert = None\<rparr>"
    using assms unfolding decode_connect_def
    by (clarsimp simp del: CLEAN_START_def USERNAME_def PASSWORD_def WILL_def)
  have "pred_option wf_last_will lw" "pred_option is_text user" "pred_option short pass"
    by (rule decode_if_pred [OF d(4)] decode_if_pred [OF d(5)] decode_if_pred [OF d(6)],
        erule v5_decode_last_will_wf wtext.dec_wf wbytes.dec_wf)+
  with d(7) d(3) connect_props_wf [OF d(1)] wtext.dec_wf [OF d(2)] show ?thesis
    by (simp add: wf_connect_def wf_connect_props_def)
qed

lemma decode_connack_wf:
  assumes "decode_connack src = Ok a"
  shows "wf_connack a"
proof -
  have "unwrap_or v RECEIVE_MAX_DEFAULT \<noteq> 0" if "v \<noteq> Some 0" for v :: "u16 option"
    using that by (cases v) (auto simp: unwrap_or_def RECEIVE_MAX_DEFAULT_def)
  with assms show ?thesis
    by (auto simp: decode_connack_def wf_connack_def wf_connack_props_def dest!: connack_props_wf)
qed

lemma v5_decode_packet_wf:
  assumes "v5_decode_packet src fb = Ok p"
  shows "v5_wf p"
  using assms
  by (auto simp: v5_decode_packet_def decode_subscribe_ack_def decode_unsubscribe_ack_def split: if_splits
      dest: decode_auth_wf decode_disconnect_wf decode_publish_acks_wf decode_status_ack_wf decode_publish_wf
        decode_subscribe_wf decode_unsubscribe_wf decode_connect_wf decode_connack_wf)

end
