(* ===== verification/V5_Encode.thy ===== *)
theory V5_Encode
  imports V5_Decode
begin

text \<open>
  The MQTT 5 encoder: \<open>v5_body\<close> is the representation of a packet, \<open>v5_trim\<close> the packet that is sent
  under a size limit (its diagnostics cut to fit).  The announced size of every packet is the length of
  the representation of the trimmed packet, the encoder appends exactly that representation, and the
  decoder reads it back.
\<close>

unbundle bit_operations_syntax

section \<open>Writers that read the length of their buffer\<close>

definition writes_at :: "nat \<Rightarrow> (unit, 'e) writer \<Rightarrow> bytes \<Rightarrow> bool" where
  "writes_at n w bs \<longleftrightarrow> (\<forall>dst. length dst = n \<longrightarrow> w dst = (Ok (), dst @ bs))"

lemma writes_iff_at: "writes w bs \<longleftrightarrow> (\<forall>n. writes_at n w bs)"
  by (auto simp: writes_def writes_at_def)

lemma writes_at_seq:
  "writes_at n w1 as \<Longrightarrow> writes_at (n + length as) w2 bs \<Longrightarrow> writes_at n (seq_w w1 w2) (as @ bs)"
  by (simp add: writes_at_def seq_w_def)

lemma writes_at_len: "writes_at n (f n) bs \<Longrightarrow> writes_at n (at_len f) bs"
  by (simp add: writes_at_def at_len_def)

lemma writes_atI: "writes w bs \<Longrightarrow> writes_at n w bs"
  by (simp add: writes_iff_at)

lemma seq_w_assoc: "seq_w (seq_w a b) c = seq_w a (seq_w b c)"
  by (simp add: seq_w_def fun_eq_iff split: prod.splits res.splits)

lemma unat_small: "n < 268435456 \<Longrightarrow> unat (of_nat n :: u32) = n"
  by (simp add: unat_of_nat)

lemma small_le: "n < 268435456 \<Longrightarrow> (of_nat n :: u32) \<le> 268435455"
  using unat_small [of n] by (simp add: word_le_nat_alt)

lemma of_nat_diff_u32: "m \<le> n \<Longrightarrow> (of_nat n :: u32) - of_nat m = of_nat (n - m)"
  by (simp add: of_nat_diff)

text \<open>
  The packets with diagnostics write a header, the size of their properties, the other properties and
  the diagnostics, to which they give what is left of the announced size.
\<close>

lemma diag_packet_writes:
  assumes h: "writes hdr hb" and p: "writes fixed ps" and wf: "wf_diag (ups, reason)"
    and d: "d = diag_bytes (fit_props ups reason limit)"
    and sz: "sz = of_nat (length hb + length (props_bytes (ps @ d)))"
    and small: "length (props_bytes (ps @ d)) < 268435456" and k: "k = of_nat (length hb)"
    and lim: "length (ps @ d) < 268435456"
  shows "writes (at_len (\<lambda>start. seq_w hdr (seq_w (write_variable_length (var_int_len_from_size (sz - k)))
    (seq_w fixed (at_len (\<lambda>len. encode_opt_props ups reason (sz - of_nat (len - start))))))))
    (hb @ props_bytes (ps @ d))"
proof -
  define L where "L = length (ps @ d)"
  have len: "length (props_bytes (ps @ d)) = vlen L + L" and L: "L < 268435456"
    using lim length_props_bytes [OF lim] by (simp_all add: L_def)
  have vb: "length (varlen_bytes (of_nat L)) = vlen L"
    using L by (rule length_varlen_bytes)
  have v: "var_int_len_from_size (sz - k) = of_nat L"
    using small var_int_len_from_size_inverse [of L] unfolding sz k len by (simp add: add.commute)
  have "sz - of_nat (length hb + vlen L + length ps) = of_nat (length d)"
    unfolding sz len by (subst of_nat_diff_u32) (simp_all add: L_def)
  then have u: "unat (sz - of_nat (length hb + (vlen L + length ps))) = length d"
    using lim by (simp add: unat_small add.assoc)
  have "writes_at n (at_len (\<lambda>start. seq_w hdr (seq_w (write_variable_length (of_nat L))
      (seq_w fixed (at_len (\<lambda>len. encode_opt_props ups reason (sz - of_nat (len - start))))))))
      (hb @ varlen_bytes (of_nat L) @ ps @ d)" for n
    using h p u small_le [OF L] unfolding d
    by (intro writes_at_len writes_at_seq writes_atI writes_variable_length encode_opt_props_fit [OF wf])
      (simp_all add: vb add.assoc)
  then show ?thesis
    unfolding v props_bytes_def L_def [symmetric] by (simp add: writes_iff_at)
qed

lemma diag_size:
  assumes "length (ps @ d) < 268435456"
  shows "unat (var_int_len (length ps + length d)) + (length ps + length d) = length (props_bytes (ps @ d))"
  using assms length_props_bytes [OF assms] by (simp add: var_int_len_vlen unat_vlen)

lemmas property_sizes =
  wbool.encoded_property_size_length wu16.encoded_property_size_length
  wu32.encoded_property_size_length wnz16.encoded_property_size_length
  wnz32.encoded_property_size_length wbytes.encoded_property_size_length
  wtext.encoded_property_size_length

lemmas property_writes =
  wbool.encode_property_writes wu16.encode_property_writes wu32.encode_property_writes
  wnz16.encode_property_writes wnz32.encode_property_writes wbytes.encode_property_writes
  wtext.encode_property_writes

lemma read_prop_byte:
  "fld acc = None \<Longrightarrow> read_prop decode_bool fld upd acc (1 # rest) = Ok (upd (\<lambda>_. Some True) acc, rest)"
  "fld acc = None \<Longrightarrow> read_prop decode_bool fld upd acc (0 # rest) = Ok (upd (\<lambda>_. Some False) acc, rest)"
  "fq acc = None \<Longrightarrow> read_prop decode_qos fq uq acc (qos_value q # rest) = Ok (uq (\<lambda>_. Some q) acc, rest)"
  using wbool.read_prop_repr [where v = True and field = fld]
    wbool.read_prop_repr [where v = False and field = fld]
    wqos.read_prop_repr [where v = q and field = fq] by simp_all

lemmas v5_prop_reprs = prop_reprs read_prop_byte

lemmas property_ids =
  PT_UTF8_PAYLOAD_def PT_MSG_EXPIRY_INT_def PT_CONTENT_TYPE_def PT_RESP_TOPIC_def
  PT_CORR_DATA_def PT_SUB_ID_def PT_SESS_EXPIRY_INT_def PT_ASSND_CLIENT_ID_def
  PT_SERVER_KA_def PT_AUTH_METHOD_def PT_AUTH_DATA_def PT_REQ_PROB_INFO_def
  PT_WILL_DELAY_INT_def PT_REQ_RESP_INFO_def PT_RESP_INFO_def PT_SERVER_REF_def
  PT_REASON_STRING_def PT_RECEIVE_MAX_def PT_TOPIC_ALIAS_MAX_def PT_TOPIC_ALIAS_def
  PT_MAX_QOS_def PT_RETAIN_AVAIL_def PT_USER_def PT_MAX_PACKET_SIZE_def
  PT_WILDCARD_SUB_AVAIL_def PT_SUB_IDS_AVAIL_def PT_SHARED_SUB_AVAIL_def

lemma wf_diag_pred: "wf_diag (us, r) \<longleftrightarrow> wf_users us \<and> pred_option is_text r"
  by (cases r) (simp_all add: wf_diag_def)

lemma diag_bytes_def2: "diag_bytes (us, r) = user_bytes us @ opt_prop PT_REASON_STRING prefixed r @ []"
  by (simp add: diag_bytes_def)

lemma props_bytes_not_Nil: "length ps < 268435456 \<Longrightarrow> props_bytes ps \<noteq> []"
  using length_props_bytes [of ps] vlen_bounds [of "length ps"] by auto

section \<open>AUTH\<close>

definition auth_fixed :: "auth \<Rightarrow> bytes" where
  "auth_fixed a = opt_prop PT_AUTH_METHOD prefixed (au_auth_method a)
     @ opt_prop PT_AUTH_DATA prefixed (au_auth_data a)"

definition auth_body :: "auth \<Rightarrow> bytes" where
  "auth_body a = [auth_reason_code_to_u8 (au_reason_code a)]
     @ props_bytes (auth_fixed a @ diag_bytes (au_user_properties a, au_reason_string a))"

definition auth_diag :: "u32 \<Rightarrow> auth \<Rightarrow> user_properties \<times> bytes option" where
  "auth_diag limit a = fit_props (au_user_properties a) (au_reason_string a)
     (unat (reduce_limit limit (length (auth_fixed a) + 1 + 4)))"

definition trim_auth :: "u32 \<Rightarrow> auth \<Rightarrow> auth" where
  "trim_auth limit a = a\<lparr>au_user_properties := fst (auth_diag limit a),
     au_reason_string := snd (auth_diag limit a)\<rparr>"

lemma auth_body_trim:
  "auth_body (trim_auth limit a) = [auth_reason_code_to_u8 (au_reason_code a)]
     @ props_bytes (auth_fixed a @ diag_bytes (auth_diag limit a))"
  by (simp add: auth_body_def trim_auth_def auth_fixed_def)

lemma auth_fixed_size:
  "wf_auth a \<Longrightarrow> encoded_property_size encoded_size_Bytes (au_auth_method a)
     + encoded_property_size encoded_size_Bytes (au_auth_data a) = length (auth_fixed a)"
  by (auto simp: wf_auth_def auth_fixed_def opt_prop_def opt_bytes_def encoded_property_size_def
      encoded_size_Bytes_def split: option.splits)

lemma encoded_size_auth_eq:
  "wf_auth a \<Longrightarrow> encoded_size_auth a limit = 1 + unat (var_int_len (length (auth_fixed a)
     + length (diag_bytes (auth_diag limit a)))) + (length (auth_fixed a) + length (diag_bytes (auth_diag limit a)))"
  by (simp add: encoded_size_auth_def auth_fixed_size Let_def encoded_size_opt_props_fit auth_diag_def)

lemma auth_encode:
  assumes "wf_auth a" and "encoded_size_auth a limit < 268435456"
  shows "encoded_size_auth a limit = length (auth_body (trim_auth limit a))"
    and "writes (encode_auth a (of_nat (encoded_size_auth a limit))) (auth_body (trim_auth limit a))"
proof -
  let ?d = "diag_bytes (auth_diag limit a)"
  have l: "length (auth_fixed a @ ?d) < 268435456"
    using assms by (simp add: encoded_size_auth_eq)
  then have e: "encoded_size_auth a limit = 1 + length (props_bytes (auth_fixed a @ ?d))"
    using assms by (simp add: encoded_size_auth_eq diag_size [OF l])
  then show "encoded_size_auth a limit = length (auth_body (trim_auth limit a))"
    by (simp add: auth_body_trim)
  have f: "writes (seq_w (encode_property encode_ByteString (au_auth_method a) PT_AUTH_METHOD)
     (encode_property encode_Bytes (au_auth_data a) PT_AUTH_DATA)) (auth_fixed a)"
    unfolding auth_fixed_def using assms(1)
    by (intro writes_intros property_writes) (auto simp: wf_auth_def)
  show "writes (encode_auth a (of_nat (encoded_size_auth a limit))) (auth_body (trim_auth limit a))"
    unfolding auth_body_trim encode_auth_def
    using assms e l
    by (intro diag_packet_writes [OF writes_put_u8 f, unfolded seq_w_assoc])
      (auto simp: auth_diag_def wf_auth_def)
qed

lemma auth_reads:
  "aup_auth_method acc = None \<Longrightarrow> pred_option is_text s \<Longrightarrow>
     prop_loop auth_prop acc (opt_prop PT_AUTH_METHOD prefixed s @ rest) =
     prop_loop auth_prop (aup_auth_method_update (\<lambda>_. s) acc) rest"
  "aup_auth_data acc = None \<Longrightarrow> pred_option short b \<Longrightarrow>
     prop_loop auth_prop acc (opt_prop PT_AUTH_DATA prefixed b @ rest) =
     prop_loop auth_prop (aup_auth_data_update (\<lambda>_. b) acc) rest"
  "aup_reason_string acc = None \<Longrightarrow> pred_option is_text s \<Longrightarrow>
     prop_loop auth_prop acc (opt_prop PT_REASON_STRING prefixed s @ rest) =
     prop_loop auth_prop (aup_reason_string_update (\<lambda>_. s) acc) rest"
  "wf_users us \<Longrightarrow>
     prop_loop auth_prop acc (user_bytes us @ rest) =
     prop_loop auth_prop (aup_user_properties_update (\<lambda>xs. xs @ us) acc) rest"
  by (rule authp.loop_opt authp.loop_many;
      auto simp: auth_prop_def v5_prop_reprs list_all_iff)+

lemma auth_loop:
  "wf_auth a \<Longrightarrow>
   prop_loop auth_prop auth_props0 (auth_fixed a @ diag_bytes (au_user_properties a, au_reason_string a)) =
     Ok \<lparr>aup_auth_method = au_auth_method a, aup_auth_data = au_auth_data a,
         aup_reason_string = au_reason_string a, aup_user_properties = au_user_properties a\<rparr>"
  by (simp add: wf_auth_def auth_fixed_def auth_props0_def diag_bytes_def2 wf_diag_pred auth_reads
      del: property_ids append_Nil2)

lemma auth_decode:
  assumes "wf_auth a" and "length (auth_body a) < 268435456"
  shows "decode_auth (auth_body a) = Ok a"
proof -
  let ?ps = "auth_fixed a @ diag_bytes (au_user_properties a, au_reason_string a)"
  have "length ?ps < 268435456"
    using assms(2) by (simp add: auth_body_def props_bytes_def)
  then show ?thesis
    using assms(1) props_bytes_not_Nil [of ?ps] by (simp add: decode_auth_def auth_body_def auth_loop)
qed

section \<open>DISCONNECT\<close>

definition disconnect_fixed :: "v5_disconnect \<Rightarrow> bytes" where
  "disconnect_fixed d = opt_prop PT_SESS_EXPIRY_INT be32 (di_session_expiry_interval_secs d)
     @ opt_prop PT_SERVER_REF prefixed (di_server_reference d)"

definition disconnect_body :: "v5_disconnect \<Rightarrow> bytes" where
  "disconnect_body d = [disconnect_reason_code_to_u8 (di_reason_code d)]
     @ props_bytes (disconnect_fixed d @ diag_bytes (di_user_properties d, di_reason_string d))"

definition disconnect_diag :: "u32 \<Rightarrow> v5_disconnect \<Rightarrow> user_properties \<times> bytes option" where
  "disconnect_diag limit d = fit_props (di_user_properties d) (di_reason_string d)
     (unat (reduce_limit limit (length (disconnect_fixed d) + 1 + 4)))"

definition trim_disconnect :: "u32 \<Rightarrow> v5_disconnect \<Rightarrow> v5_disconnect" where
  "trim_disconnect limit d = d\<lparr>di_user_properties := fst (disconnect_diag limit d),
     di_reason_string := snd (disconnect_diag limit d)\<rparr>"

lemma disconnect_body_trim:
  "disconnect_body (trim_disconnect limit d) = [disconnect_reason_code_to_u8 (di_reason_code d)]
     @ props_bytes (disconnect_fixed d @ diag_bytes (disconnect_diag limit d))"
  by (simp add: disconnect_body_def trim_disconnect_def disconnect_fixed_def)

lemma disconnect_fixed_size:
  "encoded_property_size encoded_size_u32 (di_session_expiry_interval_secs d)
     + encoded_property_size encoded_size_Bytes (di_server_reference d) = length (disconnect_fixed d)"
  by (auto simp: disconnect_fixed_def opt_prop_def opt_bytes_def encoded_property_size_def
      encoded_size_Bytes_def encoded_size_u32_def split: option.splits)

lemma encoded_size_disconnect_eq:
  "encoded_size_disconnect d limit = 1 + unat (var_int_len (length (disconnect_fixed d)
     + length (diag_bytes (disconnect_diag limit d))))
     + (length (disconnect_fixed d) + length (diag_bytes (disconnect_diag limit d)))"
  by (simp add: encoded_size_disconnect_def disconnect_fixed_size Let_def encoded_size_opt_props_fit
      disconnect_diag_def)

lemma disconnect_encode:
  assumes "wf_disconnect d" and "encoded_size_disconnect d limit < 268435456"
  shows "encoded_size_disconnect d limit = length (disconnect_body (trim_disconnect limit d))"
    and "writes (encode_disconnect d (of_nat (encoded_size_disconnect d limit)))
      (disconnect_body (trim_disconnect limit d))"
proof -
  let ?d = "diag_bytes (disconnect_diag limit d)"
  have l: "length (disconnect_fixed d @ ?d) < 268435456"
    using assms by (simp add: encoded_size_disconnect_eq)
  then have e: "encoded_size_disconnect d limit = 1 + length (props_bytes (disconnect_fixed d @ ?d))"
    by (simp add: encoded_size_disconnect_eq diag_size [OF l])
  then show "encoded_size_disconnect d limit = length (disconnect_body (trim_disconnect limit d))"
    by (simp add: disconnect_body_trim)
  have f: "writes (seq_w (encode_property encode_u32 (di_session_expiry_interval_secs d) PT_SESS_EXPIRY_INT)
     (encode_property encode_ByteString (di_server_reference d) PT_SERVER_REF)) (disconnect_fixed d)"
    unfolding disconnect_fixed_def using assms(1)
    by (intro writes_intros property_writes) (auto simp: wf_disconnect_def)
  show "writes (encode_disconnect d (of_nat (encoded_size_disconnect d limit)))
      (disconnect_body (trim_disconnect limit d))"
    unfolding disconnect_body_trim encode_disconnect_def
    using assms e l
    by (intro diag_packet_writes [OF writes_put_u8 f, unfolded seq_w_assoc])
      (auto simp: disconnect_diag_def wf_disconnect_def)
qed

lemma disconnect_reads:
  "dip_session_exp_secs acc = None \<Longrightarrow>
     prop_loop disconnect_prop acc (opt_prop PT_SESS_EXPIRY_INT be32 w @ rest) =
     prop_loop disconnect_prop (dip_session_exp_secs_update (\<lambda>_. w) acc) rest"
  "dip_reason_string acc = None \<Longrightarrow> pred_option is_text s \<Longrightarrow>
     prop_loop disconnect_prop acc (opt_prop PT_REASON_STRING prefixed s @ rest) =
     prop_loop disconnect_prop (dip_reason_string_update (\<lambda>_. s) acc) rest"
  "wf_users us \<Longrightarrow>
     prop_loop disconnect_prop acc (user_bytes us @ rest) =
     prop_loop disconnect_prop (dip_user_properties_update (\<lambda>xs. xs @ us) acc) rest"
  "dip_server_reference acc = None \<Longrightarrow> pred_option is_text s \<Longrightarrow>
     prop_loop disconnect_prop acc (opt_prop PT_SERVER_REF prefixed s @ rest) =
     prop_loop disconnect_prop (dip_server_reference_update (\<lambda>_. s) acc) rest"
  by (rule discp.loop_opt discp.loop_many;
      auto simp: disconnect_prop_def v5_prop_reprs list_all_iff)+

lemma disconnect_loop:
  "wf_disconnect d \<Longrightarrow>
   prop_loop disconnect_prop disconnect_props0
     (disconnect_fixed d @ diag_bytes (di_user_properties d, di_reason_string d)) =
   Ok \<lparr>dip_session_exp_secs = di_session_expiry_interval_secs d,
       dip_server_reference = di_server_reference d, dip_reason_string = di_reason_string d,
       dip_user_properties = di_user_properties d\<rparr>"
  by (simp add: wf_disconnect_def disconnect_fixed_def disconnect_props0_def diag_bytes_def2 wf_diag_pred
      disconnect_reads del: property_ids append_Nil2)

lemma disconnect_decode:
  assumes "wf_disconnect d" and "length (disconnect_body d) < 268435456"
  shows "decode_disconnect (disconnect_body d) = Ok d"
proof -
  let ?ps = "disconnect_fixed d @ diag_bytes (di_user_properties d, di_reason_string d)"
  have "length ?ps < 268435456"
    using assms(2) by (simp add: disconnect_body_def props_bytes_def)
  then show ?thesis
    using assms(1) props_bytes_not_Nil [of ?ps]
    by (simp add: decode_disconnect_def disconnect_body_def disconnect_loop)
qed

section \<open>PUBACK, PUBREC, PUBREL, PUBCOMP\<close>

definition publish_ack_body :: "('r \<Rightarrow> u8) \<Rightarrow> 'r publish_ack \<Rightarrow> bytes" where
  "publish_ack_body to_u8 a = be16 (ack_packet_id a) @ [to_u8 (ack_reason_code a)]
     @ props_bytes (diag_bytes (ack_properties a, ack_reason_string a))"

definition publish_ack_diag :: "u32 \<Rightarrow> 'r publish_ack \<Rightarrow> user_properties \<times> bytes option" where
  "publish_ack_diag limit a = ack_fit (ack_properties a) (ack_reason_string a) (limit - HEADER_LEN - 4)"

definition trim_publish_ack :: "u32 \<Rightarrow> 'r publish_ack \<Rightarrow> 'r publish_ack" where
  "trim_publish_ack limit a = a\<lparr>ack_properties := fst (publish_ack_diag limit a),
     ack_reason_string := snd (publish_ack_diag limit a)\<rparr>"

lemma publish_ack_encode:
  assumes "wf_publish_ack a" and "encoded_size_publish_ack a limit < 268435456"
  shows "encoded_size_publish_ack a limit = length (publish_ack_body to_u8 (trim_publish_ack limit a))"
    and "writes (encode_publish_ack to_u8 a (of_nat (encoded_size_publish_ack a limit)))
      (publish_ack_body to_u8 (trim_publish_ack limit a))"
proof -
  let ?n = "ack_props_encoded_size (ack_properties a) (ack_reason_string a) (limit - HEADER_LEN - 4)"
  have n: "encoded_size_publish_ack a limit = 3 + ?n"
    by (simp add: encoded_size_publish_ack_def)
  have "length (diag_bytes (publish_ack_diag limit a)) < 268435456"
    using ack_props_encoded_size_ge [of "ack_properties a" "ack_reason_string a" "limit - HEADER_LEN - 4"]
      assms(2) n unfolding publish_ack_diag_def by linarith
  then show "encoded_size_publish_ack a limit = length (publish_ack_body to_u8 (trim_publish_ack limit a))"
    using ack_props_encoded_size_length [of "ack_properties a" "ack_reason_string a" "limit - HEADER_LEN - 4"]
    unfolding n by (simp add: publish_ack_body_def trim_publish_ack_def publish_ack_diag_def)
  have "writes (ack_props_encode (ack_properties a) (ack_reason_string a)
      (of_nat (encoded_size_publish_ack a limit) - HEADER_LEN)) (props_bytes (diag_bytes (publish_ack_diag limit a)))"
    unfolding publish_ack_diag_def using assms
    by (intro ack_props_encode_writes) (auto simp: n wf_publish_ack_def)
  from writes_seq [OF wu16.enc_writes [OF TrueI] writes_seq [OF writes_put_u8 this]]
  show "writes (encode_publish_ack to_u8 a (of_nat (encoded_size_publish_ack a limit)))
      (publish_ack_body to_u8 (trim_publish_ack limit a))"
    by (simp add: encode_publish_ack_def publish_ack_body_def trim_publish_ack_def)
qed

context prim_enum
begin

lemma publish_ack_decode:
  assumes "wf_publish_ack a" and "length (publish_ack_body to_u8 a) < 268435456"
  shows "decode_ack_packet dflt try_from (publish_ack_body to_u8 a) = Ok a"
proof -
  let ?d = "diag_bytes (ack_properties a, ack_reason_string a)"
  have l: "length ?d < 268435456"
    using assms(2) by (simp add: publish_ack_body_def props_bytes_def)
  have "ack_props_decode (props_bytes ?d) = Ok ((ack_properties a, ack_reason_string a), [])"
    using ack_props_roundtrip [of "(ack_properties a, ack_reason_string a)" "[]"] assms(1) l
    by (simp add: wf_publish_ack_def)
  then show ?thesis
    using assms(1) props_bytes_not_Nil [OF l]
    by (simp add: decode_ack_packet_def publish_ack_body_def wf_publish_ack_def try_from_to_u8)
qed

end

section \<open>SUBACK, UNSUBACK\<close>

definition status_ack_body :: "('r \<Rightarrow> u8) \<Rightarrow> 'r status_ack \<Rightarrow> bytes" where
  "status_ack_body to_u8 a = be16 (sa_packet_id a)
     @ props_bytes (diag_bytes (sa_properties a, sa_reason_string a)) @ map to_u8 (sa_status a)"

definition trim_status_ack :: "u32 \<Rightarrow> 'r status_ack \<Rightarrow> 'r status_ack" where
  "trim_status_ack limit a =
     (let d = ack_fit (sa_properties a) (sa_reason_string a) limit
      in a\<lparr>sa_properties := fst d, sa_reason_string := snd d\<rparr>)"

definition suback_limit :: "'r status_ack \<Rightarrow> u32 \<Rightarrow> u32" where
  "suback_limit a limit = limit - 2 - of_nat (length (sa_status a))"

definition unsuback_limit :: "'r status_ack \<Rightarrow> u32 \<Rightarrow> u32" where
  "unsuback_limit a limit = reduce_limit limit (2 + length (sa_status a))"

lemma writes_status: "writes (each_w (\<lambda>r. put_u8 (to_u8 r)) xs) (map to_u8 xs)"
  using writes_each [of xs "\<lambda>r. put_u8 (to_u8 r)" "\<lambda>r. [to_u8 r]"] by (simp add: writes_put_u8)

lemma status_ack_encode:
  assumes "wf_status_ack a" and n: "n = 2 + ack_props_encoded_size (sa_properties a) (sa_reason_string a) l
      + length (sa_status a)" and "n < 268435456"
  shows "n = length (status_ack_body to_u8 (trim_status_ack l a))"
    and "writes (encode_status_ack to_u8 a (of_nat n)) (status_ack_body to_u8 (trim_status_ack l a))"
proof -
  let ?d = "diag_bytes (ack_fit (sa_properties a) (sa_reason_string a) l)"
  have "length ?d < 268435456"
    using ack_props_encoded_size_ge [of "sa_properties a" "sa_reason_string a" l] assms(3) n by linarith
  then show "n = length (status_ack_body to_u8 (trim_status_ack l a))"
    by (simp add: n ack_props_encoded_size_length status_ack_body_def trim_status_ack_def Let_def)
  have "writes (ack_props_encode (sa_properties a) (sa_reason_string a) (of_nat n - 2 - of_nat (length (sa_status a))))
      (props_bytes ?d)"
    using assms by (intro ack_props_encode_writes) (auto simp: wf_status_ack_def)
  from writes_seq [OF wnz16.enc_writes writes_seq [OF this writes_status [of to_u8 "sa_status a"]], of "sa_packet_id a"]
  show "writes (encode_status_ack to_u8 a (of_nat n)) (status_ack_body to_u8 (trim_status_ack l a))"
    using assms(1)
    by (simp add: encode_status_ack_def status_ack_body_def trim_status_ack_def Let_def wf_status_ack_def)
qed

lemma suback_encode:
  assumes "wf_status_ack a" and "encoded_size_subscribe_ack a limit < 268435456"
  defines "a' \<equiv> trim_status_ack (suback_limit a limit) a"
  shows "encoded_size_subscribe_ack a limit = length (status_ack_body subscribe_ack_reason_to_u8 a')"
    and "writes (encode_status_ack subscribe_ack_reason_to_u8 a (of_nat (encoded_size_subscribe_ack a limit)))
      (status_ack_body subscribe_ack_reason_to_u8 a')"
proof -
  have "encoded_size_subscribe_ack a limit = 2 + ack_props_encoded_size (sa_properties a) (sa_reason_string a)
      (suback_limit a limit) + length (sa_status a)"
    using assms(2) by (simp add: encoded_size_subscribe_ack_def suback_limit_def Let_def split: if_splits)
  from status_ack_encode [OF assms(1) this assms(2)]
  show "encoded_size_subscribe_ack a limit = length (status_ack_body subscribe_ack_reason_to_u8 a')"
    and "writes (encode_status_ack subscribe_ack_reason_to_u8 a (of_nat (encoded_size_subscribe_ack a limit)))
      (status_ack_body subscribe_ack_reason_to_u8 a')"
    by (simp_all add: a'_def)
qed

lemma unsuback_encode:
  assumes "wf_status_ack a" and "encoded_size_unsubscribe_ack a limit < 268435456"
  defines "a' \<equiv> trim_status_ack (unsuback_limit a limit) a"
  shows "encoded_size_unsubscribe_ack a limit = length (status_ack_body unsubscribe_ack_reason_to_u8 a')"
    and "writes (encode_status_ack unsubscribe_ack_reason_to_u8 a (of_nat (encoded_size_unsubscribe_ack a limit)))
      (status_ack_body unsubscribe_ack_reason_to_u8 a')"
proof -
  have "encoded_size_unsubscribe_ack a limit = 2 + ack_props_encoded_size (sa_properties a) (sa_reason_string a)
      (unsuback_limit a limit) + length (sa_status a)"
    by (simp add: encoded_size_unsubscribe_ack_def unsuback_limit_def Let_def)
  from status_ack_encode [OF assms(1) this assms(2)]
  show "encoded_size_unsubscribe_ack a limit = length (status_ack_body unsubscribe_ack_reason_to_u8 a')"
    and "writes (encode_status_ack unsubscribe_ack_reason_to_u8 a (of_nat (encoded_size_unsubscribe_ack a limit)))
      (status_ack_body unsubscribe_ack_reason_to_u8 a')"
    by (simp_all add: a'_def)
qed

context prim_enum
begin

lemma status_ack_decode:
  assumes "wf_status_ack a" and "length (status_ack_body to_u8 a) < 268435456"
  shows "decode_status_ack try_from (status_ack_body to_u8 a) = Ok a"
proof -
  have "length (diag_bytes (sa_properties a, sa_reason_string a)) < 268435456"
    using assms(2) by (simp add: status_ack_body_def props_bytes_def)
  then show ?thesis
    using assms(1) by (simp add: decode_status_ack_def status_ack_body_def ack_props_roundtrip
        wf_status_ack_def collect_status)
qed

end

section \<open>SUBSCRIBE, UNSUBSCRIBE\<close>

definition subscribe_fixed :: "v5_subscribe \<Rightarrow> bytes" where
  "subscribe_fixed p = opt_prop PT_SUB_ID varlen_bytes (sb_id p) @ user_bytes (sb_user_properties p)"

definition filter_bytes :: "bytes \<times> subscription_options \<Rightarrow> bytes" where
  "filter_bytes tf = prefixed (fst tf) @ [subscription_options_byte (snd tf)]"

definition subscribe_body :: "v5_subscribe \<Rightarrow> bytes" where
  "subscribe_body p = be16 (sb_packet_id p) @ props_bytes (subscribe_fixed p)
     @ concat (map filter_bytes (sb_topic_filters p))"

definition unsubscribe_body :: "v5_unsubscribe \<Rightarrow> bytes" where
  "unsubscribe_body p = be16 (us_packet_id p) @ props_bytes (user_bytes (us_user_properties p))
     @ concat (map prefixed (us_topic_filters p))"

lemma writes_props:
  assumes "length ps < 268435456" and "writes w ps"
  shows "writes (seq_w (write_variable_length (of_nat (length ps))) w) (props_bytes ps)"
  unfolding props_bytes_def using assms small_le [OF assms(1)] by (intro writes_seq writes_variable_length)

lemma sub_id_size:
  "pred_option (\<lambda>i. i \<noteq> 0 \<and> i \<le> 268435455) v \<Longrightarrow>
   (case v of None \<Rightarrow> 0 | Some i \<Rightarrow> 1 + unat (var_int_len (unat i))) = length (opt_prop PT_SUB_ID varlen_bytes v)"
  "pred_option (\<lambda>i. i \<noteq> 0 \<and> i \<le> 268435455) v \<Longrightarrow>
   (case v of None \<Rightarrow> 0 | Some i \<Rightarrow> 1 + var_int_len (unat i)) = of_nat (length (opt_prop PT_SUB_ID varlen_bytes v))"
proof -
  have "var_int_len (unat i) = of_nat (length (varlen_bytes i))" if "i \<noteq> 0 \<and> i \<le> 268435455" for i
    using arg_cong [OF wsubid.esize_repr [OF that], of "of_nat :: nat \<Rightarrow> u32"] by simp
  then show "pred_option (\<lambda>i. i \<noteq> 0 \<and> i \<le> 268435455) v \<Longrightarrow>
   (case v of None \<Rightarrow> 0 | Some i \<Rightarrow> 1 + var_int_len (unat i)) = of_nat (length (opt_prop PT_SUB_ID varlen_bytes v))"
    by (cases v) (simp_all add: opt_prop_def opt_bytes_def)
  show "pred_option (\<lambda>i. i \<noteq> 0 \<and> i \<le> 268435455) v \<Longrightarrow>
   (case v of None \<Rightarrow> 0 | Some i \<Rightarrow> 1 + unat (var_int_len (unat i))) = length (opt_prop PT_SUB_ID varlen_bytes v)"
    by (cases v) (simp_all add: opt_prop_def opt_bytes_def wsubid.esize_repr)
qed

lemma subscribe_fixed_size:
  assumes "wf_subscribe p"
  shows "(case sb_id p of None \<Rightarrow> 0 | Some v \<Rightarrow> 1 + unat (var_int_len (unat v)))
      + encoded_size_UserProperties (sb_user_properties p) = length (subscribe_fixed p)"
    and "(case sb_id p of None \<Rightarrow> 0 | Some v \<Rightarrow> 1 + var_int_len (unat v))
      + of_nat (encoded_size_UserProperties (sb_user_properties p)) = of_nat (length (subscribe_fixed p))"
  using assms sub_id_size [of "sb_id p"]
  by (simp_all add: subscribe_fixed_def wf_subscribe_def encoded_size_UserProperties_length)

lemma length_filters:
  "foldl (\<lambda>acc (flt, opts). acc + encoded_size_Bytes flt + 1) n tfs = n + length (concat (map filter_bytes tfs))"
  by (induction tfs arbitrary: n) (auto simp: filter_bytes_def encoded_size_Bytes_def)

lemma length_names5:
  "foldl (\<lambda>acc flt. acc + 2 + length flt) n fs = n + length (concat (map prefixed fs))"
  by (induction fs arbitrary: n) auto

lemma subscribe_encode:
  assumes "wf_subscribe p" and "encoded_size_subscribe p < 268435456"
  shows "encoded_size_subscribe p = length (subscribe_body p)"
    and "writes (encode_subscribe p) (subscribe_body p)"
proof -
  have l: "length (subscribe_fixed p) < 268435456"
    using assms by (simp add: encoded_size_subscribe_def subscribe_fixed_size Let_def)
  then show "encoded_size_subscribe p = length (subscribe_body p)"
    using diag_size [of "subscribe_fixed p" "[]"] assms(1)
    by (simp add: encoded_size_subscribe_def subscribe_fixed_size Let_def subscribe_body_def length_filters [simplified]
        encoded_size_u16_def)
  have f: "writes (seq_w (opt_w (\<lambda>i. seq_w (put_u8 PT_SUB_ID) (write_variable_length i)) (sb_id p))
      (encode_UserProperties (sb_user_properties p))) (subscribe_fixed p)"
    unfolding subscribe_fixed_def opt_prop_def
    using assms(1) writes_seq [OF writes_put_u8 writes_variable_length]
    by (intro writes_seq writes_opt_bytes encode_UserProperties_writes) (auto simp: wf_subscribe_def)
  have g: "writes (each_w (\<lambda>(flt, opts). seq_w (encode_ByteString flt) (encode_subscription_options opts))
      (sb_topic_filters p)) (concat (map filter_bytes (sb_topic_filters p)))"
    using assms(1)
    by (intro writes_each) (auto simp: filter_bytes_def encode_subscription_options_def wf_subscribe_def
        list_all_iff intro!: writes_intros)
  have "writes (encode_NonZeroU16 (sb_packet_id p)) (be16 (sb_packet_id p))"
    using assms(1) by (intro wnz16.enc_writes) (simp add: wf_subscribe_def)
  from writes_seq [OF this writes_seq [OF writes_props [OF l f] g]]
  show "writes (encode_subscribe p) (subscribe_body p)"
    by (simp add: encode_subscribe_def subscribe_fixed_size [OF assms(1)] subscribe_body_def Let_def seq_w_assoc)
qed

lemma unsubscribe_encode:
  assumes "wf_unsubscribe p" and "encoded_size_unsubscribe p < 268435456"
  shows "encoded_size_unsubscribe p = length (unsubscribe_body p)"
    and "writes (encode_unsubscribe p) (unsubscribe_body p)"
proof -
  have l: "length (user_bytes (us_user_properties p)) < 268435456"
    using assms by (simp add: encoded_size_unsubscribe_def encoded_size_UserProperties_length Let_def)
  then show "encoded_size_unsubscribe p = length (unsubscribe_body p)"
    using diag_size [of "user_bytes (us_user_properties p)" "[]"]
    by (simp add: encoded_size_unsubscribe_def encoded_size_UserProperties_length Let_def
        unsubscribe_body_def length_names5 [simplified])
  have "writes (each_w encode_ByteString (us_topic_filters p)) (concat (map prefixed (us_topic_filters p)))"
    using assms(1) by (intro writes_each wtext.enc_writes) (auto simp: wf_unsubscribe_def list_all_iff)
  moreover have "writes (encode_NonZeroU16 (us_packet_id p)) (be16 (us_packet_id p))"
    using assms(1) by (intro wnz16.enc_writes) (simp add: wf_unsubscribe_def)
  moreover have "writes (encode_UserProperties (us_user_properties p)) (user_bytes (us_user_properties p))"
    using assms(1) by (intro encode_UserProperties_writes) (simp add: wf_unsubscribe_def)
  ultimately have "writes (seq_w (encode_NonZeroU16 (us_packet_id p))
      (seq_w (seq_w (write_variable_length (of_nat (length (user_bytes (us_user_properties p)))))
        (encode_UserProperties (us_user_properties p))) (each_w encode_ByteString (us_topic_filters p))))
      (unsubscribe_body p)"
    unfolding unsubscribe_body_def by (intro writes_seq writes_props [OF l])
  then show "writes (encode_unsubscribe p) (unsubscribe_body p)"
    by (simp add: encode_unsubscribe_def encoded_size_UserProperties_length Let_def seq_w_assoc)
qed

lemma subscribe_loop:
  assumes "wf_subscribe p"
  shows "prop_loop subscribe_prop (None, []) (subscribe_fixed p) = Ok (sb_id p, sb_user_properties p)"
proof -
  have "prop_loop subscribe_prop (None, []) (subscribe_fixed p @ []) =
      prop_loop subscribe_prop (sb_id p, []) (user_bytes (sb_user_properties p) @ [])"
    unfolding subscribe_fixed_def append_assoc using assms
    by (intro subp.loop_opt) (auto simp: subscribe_prop_def prop_reprs wf_subscribe_def)
  also have "\<dots> = prop_loop subscribe_prop (apsnd (\<lambda>us. us @ sb_user_properties p) (sb_id p, [])) []"
    using assms by (intro subp.loop_many)
      (auto simp: subscribe_prop_def prop_reprs wf_subscribe_def list_all_iff)
  finally show ?thesis by simp
qed

lemma unsubscribe_loop:
  "wf_users us \<Longrightarrow> prop_loop unsubscribe_prop [] (user_bytes us) = Ok us"
  using unsubp.loop_many [of us PT_USER prefixed2 "\<lambda>f. f" "[]" "[]"]
  by (auto simp: unsubscribe_prop_def prop_reprs list_all_iff)

lemma decode_subscription_options_byte:
  "decode_subscription_options (subscription_options_byte opts # rest) = Ok (opts, rest)"
proof (cases opts)
  case (fields q nl rap rh)
  then show ?thesis
    by (cases q; cases rh; cases nl; cases rap)
      (simp_all add: decode_subscription_options_def subscription_options_byte_def qos_try_from_def
        retain_handling_try_from_def prim_enum_try_from_def)
qed

lemma decode_topic_filter_repr:
  "is_text (fst tf) \<Longrightarrow> decode_topic_filter (filter_bytes tf @ rest) = Ok (tf, rest)"
  by (cases tf) (simp add: decode_topic_filter_def filter_bytes_def decode_subscription_options_byte)

lemma subscribe_decode:
  assumes "wf_subscribe p" and "length (subscribe_body p) < 268435456"
  shows "decode_subscribe (subscribe_body p) = Ok p"
proof -
  have "length (subscribe_fixed p) < 268435456"
    using assms(2) by (simp add: subscribe_body_def props_bytes_def)
  moreover have "many decode_topic_filter (concat (map filter_bytes (sb_topic_filters p))) = Ok (sb_topic_filters p)"
    using assms(1) by (intro filter5.many_repr decode_topic_filter_repr) (auto simp: wf_subscribe_def list_all_iff)
  ultimately show ?thesis
    using assms(1) subscribe_loop [OF assms(1)]
    by (simp add: decode_subscribe_def subscribe_body_def wf_subscribe_def)
qed

lemma unsubscribe_decode:
  assumes "wf_unsubscribe p" and "length (unsubscribe_body p) < 268435456"
  shows "decode_unsubscribe (unsubscribe_body p) = Ok p"
proof -
  have "length (user_bytes (us_user_properties p)) < 268435456"
    using assms(2) by (simp add: unsubscribe_body_def props_bytes_def)
  moreover have "many decode_ByteString (concat (map prefixed (us_topic_filters p))) = Ok (us_topic_filters p)"
    using assms(1) by (intro text3.many_repr wire_reprs) (auto simp: wf_unsubscribe_def list_all_iff)
  ultimately show ?thesis
    using assms(1) by (simp add: decode_unsubscribe_def unsubscribe_body_def wf_unsubscribe_def
        unsubscribe_loop [unfolded PT_USER_def])
qed

section \<open>PUBLISH\<close>

abbreviation bool_bytes :: "bool \<Rightarrow> bytes" where
  "bool_bytes \<equiv> (\<lambda>b. [if b then 1 else 0])"

definition publish_fixed :: "publish_properties \<Rightarrow> bytes" where
  "publish_fixed p = opt_prop PT_TOPIC_ALIAS be16 (pp_topic_alias p)
     @ opt_prop PT_CORR_DATA prefixed (pp_correlation_data p)
     @ opt_prop PT_MSG_EXPIRY_INT be32 (pp_message_expiry_interval p)
     @ opt_prop PT_CONTENT_TYPE prefixed (pp_content_type p)
     @ opt_prop PT_UTF8_PAYLOAD bool_bytes (nondefault False (pp_is_utf8_payload p))
     @ opt_prop PT_RESP_TOPIC prefixed (pp_response_topic p)
     @ many_props PT_SUB_ID varlen_bytes (pp_subscription_ids p)
     @ user_bytes (pp_user_properties p)"

definition publish_body :: "publish \<Rightarrow> bytes" where
  "publish_body p = prefixed (pub_topic p) @ opt_bytes be16 (pub_packet_id p)
     @ props_bytes (publish_fixed (publish_props_of p)) @ pub_payload p"

text \<open>A packet without properties is sent with empty properties.\<close>

definition with_properties :: "publish \<Rightarrow> publish" where
  "with_properties p = p\<lparr>pub_properties := Some (publish_props_of p)\<rparr>"

lemma publish_props_of_wf: "wf_publish p \<Longrightarrow> wf_publish_properties (publish_props_of p)"
  by (cases "pub_properties p")
    (auto simp: wf_publish_def publish_props_of_def publish_properties_default_def wf_publish_properties_def)

lemma length_sub_ids:
  "list_all (\<lambda>i. i \<noteq> 0 \<and> i \<le> 268435455) ids \<Longrightarrow>
   foldl (\<lambda>acc i. acc + 1 + unat (var_int_len (unat i))) n ids = n + length (many_props t varlen_bytes ids)"
  by (induction ids arbitrary: n) (auto simp: wsubid.esize_repr)

lemma length_opt_prop:
  "length (opt_prop t prefixed b) = encoded_property_size encoded_size_Bytes b"
  "length (opt_prop t be16 h) = encoded_property_size encoded_size_u16 h"
  "length (opt_prop t be32 w) = encoded_property_size encoded_size_u32 w"
  "length (opt_prop t bool_bytes f) = encoded_property_size encoded_size_bool f"
  by (auto simp: opt_prop_def opt_bytes_def encoded_property_size_def encoded_size_Bytes_def
      encoded_size_u16_def encoded_size_u32_def encoded_size_bool_def split: option.splits)

lemmas fixed_sizes = length_opt_prop encoded_property_size_default_eq encoded_size_UserProperties_length

lemma publish_fixed_size:
  "wf_publish_properties p \<Longrightarrow>
   encoded_size_publish_properties p = length (publish_fixed p) + unat (var_int_len (length (publish_fixed p)))"
  using length_sub_ids [of "pp_subscription_ids p" 0 PT_SUB_ID]
  by (simp add: encoded_size_publish_properties_def publish_fixed_def fixed_sizes wf_publish_properties_def
      Let_def add.assoc)

lemma publish_properties_size:
  assumes "wf_publish_properties p" and "length (publish_fixed p) < 268435456"
  shows "encoded_size_publish_properties p = length (props_bytes (publish_fixed p))"
  using assms diag_size [of "publish_fixed p" "[]"] by (simp add: publish_fixed_size)

lemma encode_publish_properties_writes:
  assumes wf: "wf_publish_properties p" and l: "length (props_bytes (publish_fixed p)) < 268435456"
    and lim: "length (publish_fixed p) < 268435456"
  shows "writes (encode_publish_properties p (of_nat (length (props_bytes (publish_fixed p)))))
    (props_bytes (publish_fixed p))"
proof -
  have v: "var_int_len_from_size (of_nat (length (props_bytes (publish_fixed p)))) = of_nat (length (publish_fixed p))"
    using l var_int_len_from_size_inverse [of "length (publish_fixed p)"]
    by (simp add: length_props_bytes [OF lim] add.commute)
  have ids: "writes (each_w (\<lambda>sub_id. seq_w (put_u8 PT_SUB_ID) (write_variable_length sub_id)) (pp_subscription_ids p))
      (many_props PT_SUB_ID varlen_bytes (pp_subscription_ids p))"
    using wf writes_seq [OF writes_put_u8 writes_variable_length]
    by (intro writes_many_props) (auto simp: wf_publish_properties_def list_all_iff)
  show ?thesis
    unfolding encode_publish_properties_def v encode_property_default_eq
    using wf small_le [OF lim] ids
    by (simp only: props_bytes_def publish_fixed_def)
      (intro writes_seq property_writes encode_UserProperties_writes writes_variable_length,
        auto simp: wf_publish_properties_def)
qed

lemma publish_encode:
  assumes wf: "wf_publish p" and sz: "encoded_size_publish p < 268435456"
  shows "encoded_size_publish p = length (publish_body p)"
    and "writes (encode_publish p (of_nat (encoded_size_publish p))) (publish_body p)"
proof -
  let ?ps = "publish_props_of p"
  note wfp = publish_props_of_wf [OF wf]
  have e: "encoded_size_publish p = 2 + length (pub_topic p) + length (opt_bytes be16 (pub_packet_id p))
      + encoded_size_publish_properties ?ps + length (pub_payload p)"
    using wf by (auto simp: encoded_size_publish_def Let_def encoded_size_Bytes_def wf_publish_def opt_bytes_def
        split: option.splits)
  have l: "length (publish_fixed ?ps) < 268435456"
    using sz e publish_fixed_size [OF wfp] by linarith
  note q = publish_properties_size [OF wfp l]
  show n: "encoded_size_publish p = length (publish_body p)"
    unfolding e q by (simp add: publish_body_def)
  have small: "length (props_bytes (publish_fixed ?ps)) < 268435456"
    using sz e q by linarith
  have "of_nat (encoded_size_publish p) - of_nat (2 + length (pub_topic p)
      + length (opt_bytes be16 (pub_packet_id p)) + length (pub_payload p))
      = (of_nat (length (props_bytes (publish_fixed ?ps))) :: u32)"
    unfolding e q by simp
  then have "writes (encode_publish_properties ?ps (of_nat (encoded_size_publish p) - of_nat (2 + length (pub_topic p)
      + length (opt_bytes be16 (pub_packet_id p)) + length (pub_payload p)))) (props_bytes (publish_fixed ?ps))"
    using encode_publish_properties_writes [OF wfp small l] by simp
  moreover have "writes (encode_ByteString (pub_topic p)) (prefixed (pub_topic p))"
    using wf by (intro wtext.enc_writes) (simp add: wf_publish_def)
  moreover have "writes (encode_publish_packet_id p) (opt_bytes be16 (pub_packet_id p))"
    using wf by (cases "pub_packet_id p")
      (auto simp: wf_publish_def encode_publish_packet_id_def opt_bytes_def intro: writes_intros)
  ultimately have "writes_at k (encode_publish p (of_nat (encoded_size_publish p))) (publish_body p)" for k
    unfolding encode_publish_def publish_body_def
    by (intro writes_at_len writes_at_seq writes_put [THEN writes_atI])
      (simp_all add: writes_iff_at)
  then show "writes (encode_publish p (of_nat (encoded_size_publish p))) (publish_body p)"
    by (simp add: writes_iff_at)
qed

lemma publish_reads:
  "pbp_is_utf8_payload acc = None \<Longrightarrow>
     prop_loop publish_prop acc (opt_prop PT_UTF8_PAYLOAD (\<lambda>b. [if b then 1 else 0]) t @ rest) =
     prop_loop publish_prop (pbp_is_utf8_payload_update (\<lambda>_. t) acc) rest"
  "pbp_message_expiry_interval acc = None \<Longrightarrow> pred_option (\<lambda>x. x \<noteq> 0) nw \<Longrightarrow>
     prop_loop publish_prop acc (opt_prop PT_MSG_EXPIRY_INT be32 nw @ rest) =
     prop_loop publish_prop (pbp_message_expiry_interval_update (\<lambda>_. nw) acc) rest"
  "pbp_content_type acc = None \<Longrightarrow> pred_option is_text s \<Longrightarrow>
     prop_loop publish_prop acc (opt_prop PT_CONTENT_TYPE prefixed s @ rest) =
     prop_loop publish_prop (pbp_content_type_update (\<lambda>_. s) acc) rest"
  "pbp_response_topic acc = None \<Longrightarrow> pred_option is_text s \<Longrightarrow>
     prop_loop publish_prop acc (opt_prop PT_RESP_TOPIC prefixed s @ rest) =
     prop_loop publish_prop (pbp_response_topic_update (\<lambda>_. s) acc) rest"
  "pbp_correlation_data acc = None \<Longrightarrow> pred_option short b \<Longrightarrow>
     prop_loop publish_prop acc (opt_prop PT_CORR_DATA prefixed b @ rest) =
     prop_loop publish_prop (pbp_correlation_data_update (\<lambda>_. b) acc) rest"
  "list_all (\<lambda>i. i \<noteq> 0 \<and> i \<le> 268435455) ids \<Longrightarrow>
     prop_loop publish_prop acc (many_props PT_SUB_ID varlen_bytes ids @ rest) =
     prop_loop publish_prop (pbp_subscription_ids_update (\<lambda>xs. xs @ ids) acc) rest"
  "pbp_topic_alias acc = None \<Longrightarrow> pred_option (\<lambda>x. x \<noteq> 0) nh \<Longrightarrow>
     prop_loop publish_prop acc (opt_prop PT_TOPIC_ALIAS be16 nh @ rest) =
     prop_loop publish_prop (pbp_topic_alias_update (\<lambda>_. nh) acc) rest"
  "wf_users us \<Longrightarrow>
     prop_loop publish_prop acc (user_bytes us @ rest) =
     prop_loop publish_prop (pbp_user_props_update (\<lambda>xs. xs @ us) acc) rest"
  by (rule pubp.loop_opt pubp.loop_many;
      auto simp: publish_prop_def v5_prop_reprs list_all_iff)+

lemma pred_option_neq: "pred_option (\<lambda>x. x \<noteq> a) v \<longleftrightarrow> v \<noteq> Some a"
  by (cases v) auto

lemma publish_loop:
  "wf_publish_properties p \<Longrightarrow>
   prop_loop publish_prop publish_props0 (publish_fixed p @ []) =
   Ok \<lparr>pbp_message_expiry_interval = pp_message_expiry_interval p, pbp_topic_alias = pp_topic_alias p,
       pbp_content_type = pp_content_type p, pbp_correlation_data = pp_correlation_data p,
       pbp_subscription_ids = pp_subscription_ids p, pbp_response_topic = pp_response_topic p,
       pbp_is_utf8_payload = nondefault False (pp_is_utf8_payload p),
       pbp_user_props = pp_user_properties p\<rparr>"
  by (simp add: wf_publish_properties_def publish_fixed_def publish_props0_def publish_reads
      pred_option_neq del: property_ids append_Nil2)

lemma parse_publish_properties_repr:
  assumes "wf_publish_properties p" and "length (publish_fixed p) < 268435456"
  shows "parse_publish_properties (props_bytes (publish_fixed p) @ rest) = Ok (p, rest)"
  using assms publish_loop [OF assms(1)] by (simp add: parse_publish_properties_def)

lemma publish_flags:
  "(publish_first_byte p AND 0b00001111) AND 0b0110 = push_bit 1 (qos_value (pub_qos p))"
  "((publish_first_byte p AND 0b00001111) AND 0b1000 = 0b1000) = pub_dup p"
  "((publish_first_byte p AND 0b00001111) AND 0b0001 = 0b0001) = pub_retain p"
  "PUBLISH_START \<le> publish_first_byte p \<and> publish_first_byte p \<le> PUBLISH_END"
  "drop_bit 1 (push_bit 1 (qos_value (pub_qos p))) = qos_value (pub_qos p)"
  by (cases "pub_qos p"; cases "pub_dup p"; cases "pub_retain p";
      simp add: publish_first_byte_def word_le_nat_alt)+

lemma publish_decode:
  assumes "wf_publish p" and "length (publish_body p) < 268435456"
  shows "decode_publish (publish_body p) (publish_first_byte p AND 0b00001111) = Ok (with_properties p)"
proof -
  have "length (publish_fixed (publish_props_of p)) < 268435456"
    using assms(2) by (simp add: publish_body_def props_bytes_def)
  with assms(1) have "parse_publish_properties (props_bytes (publish_fixed (publish_props_of p)) @ rest)
      = Ok (publish_props_of p, rest)" for rest
    by (intro parse_publish_properties_repr publish_props_of_wf)
  moreover have "decode_packet_id (pub_qos p) (opt_bytes be16 (pub_packet_id p) @ rest)
      = Ok (pub_packet_id p, rest)" for rest
    using assms by (cases "pub_packet_id p") (auto simp: decode_packet_id_def opt_bytes_def wf_publish_def)
  ultimately show ?thesis
    using assms(1) unfolding decode_publish_def publish_flags
    by (simp add: publish_body_def wf_publish_def with_properties_def)
qed

section \<open>CONNACK\<close>

abbreviation qos_bytes :: "qos \<Rightarrow> bytes" where
  "qos_bytes \<equiv> (\<lambda>q. [qos_value q])"

definition connack_fixed :: "v5_connect_ack \<Rightarrow> bytes" where
  "connack_fixed a = opt_prop PT_SESS_EXPIRY_INT be32 (ca_session_expiry_interval_secs a)
     @ opt_prop PT_RECEIVE_MAX be16 (nondefault RECEIVE_MAX_DEFAULT (ca_receive_max a))
     @ opt_prop PT_MAX_QOS qos_bytes (nondefault ExactlyOnce (ca_max_qos a))
     @ opt_prop PT_RETAIN_AVAIL bool_bytes (nondefault True (ca_retain_available a))
     @ opt_prop PT_MAX_PACKET_SIZE be32 (ca_max_packet_size a)
     @ opt_prop PT_ASSND_CLIENT_ID prefixed (ca_assigned_client_id a)
     @ opt_prop PT_TOPIC_ALIAS_MAX be16 (nondefault 0 (ca_topic_alias_max a))
     @ opt_prop PT_WILDCARD_SUB_AVAIL bool_bytes (nondefault True (ca_wildcard_subscription_available a))
     @ opt_prop PT_SUB_IDS_AVAIL bool_bytes (nondefault True (ca_subscription_identifiers_available a))
     @ opt_prop PT_SHARED_SUB_AVAIL bool_bytes (nondefault True (ca_shared_subscription_available a))
     @ opt_prop PT_SERVER_KA be16 (ca_server_keepalive_sec a)
     @ opt_prop PT_RESP_INFO prefixed (ca_response_info a)
     @ opt_prop PT_SERVER_REF prefixed (ca_server_reference a)
     @ opt_prop PT_AUTH_METHOD prefixed (ca_auth_method a)
     @ opt_prop PT_AUTH_DATA prefixed (ca_auth_data a)"

definition connack_body :: "v5_connect_ack \<Rightarrow> bytes" where
  "connack_body a = [if ca_session_present a then 1 else 0, connect_ack_reason_to_u8 (ca_reason_code a)]
     @ props_bytes (connack_fixed a @ diag_bytes (ca_user_properties a, ca_reason_string a))"

definition connack_diag :: "u32 \<Rightarrow> v5_connect_ack \<Rightarrow> user_properties \<times> bytes option" where
  "connack_diag limit a = fit_props (ca_user_properties a) (ca_reason_string a)
     (unat (reduce_limit limit (2 + 4 + length (connack_fixed a))))"

definition trim_connack :: "u32 \<Rightarrow> v5_connect_ack \<Rightarrow> v5_connect_ack" where
  "trim_connack limit a = a\<lparr>ca_user_properties := fst (connack_diag limit a),
     ca_reason_string := snd (connack_diag limit a)\<rparr>"

lemma connack_body_trim:
  "connack_body (trim_connack limit a) =
     [if ca_session_present a then 1 else 0, connect_ack_reason_to_u8 (ca_reason_code a)]
     @ props_bytes (connack_fixed a @ diag_bytes (connack_diag limit a))"
  by (simp add: connack_body_def trim_connack_def connack_fixed_def)

lemma max_qos_property:
  "length (opt_prop t qos_bytes (nondefault ExactlyOnce q)) = (if q < ExactlyOnce then 1 + 1 else 0)"
  "writes (if q < ExactlyOnce then put [t, qos_value q] else skip_w) (opt_prop t qos_bytes (nondefault ExactlyOnce q))"
  by (cases q; simp add: opt_prop_def opt_bytes_def nondefault_def less_qos_def word_less_nat_alt
      writes_put writes_skip)+

lemma topic_alias_property:
  "encoded_property_size encoded_size_u16 (nondefault 0 h) = (if 0 < h then 1 + encoded_size_u16 h else 0)"
  by (simp add: encoded_property_size_def nondefault_def word_neq_0_conv)

lemma connack_fixed_size: "connack_properties_len a = length (connack_fixed a)"
  by (simp add: connack_properties_len_def connack_fixed_def fixed_sizes max_qos_property
      topic_alias_property)

lemma encoded_size_connack_eq:
  "encoded_size_connack a limit = 2 + unat (var_int_len (length (connack_fixed a)
     + length (diag_bytes (connack_diag limit a))))
     + (length (connack_fixed a) + length (diag_bytes (connack_diag limit a)))"
  by (simp add: encoded_size_connack_def connack_fixed_size Let_def encoded_size_opt_props_fit connack_diag_def)

lemma connack_fixed_writes:
  assumes "wf_connack a"
  shows "writes (seq_w (encode_property encode_u32 (ca_session_expiry_interval_secs a) PT_SESS_EXPIRY_INT)
     (seq_w (encode_property_default encode_NonZeroU16 (ca_receive_max a) RECEIVE_MAX_DEFAULT PT_RECEIVE_MAX)
     (seq_w (if ca_max_qos a < ExactlyOnce then put [PT_MAX_QOS, qos_value (ca_max_qos a)] else skip_w)
     (seq_w (encode_property_default encode_bool (ca_retain_available a) True PT_RETAIN_AVAIL)
     (seq_w (encode_property encode_u32 (ca_max_packet_size a) PT_MAX_PACKET_SIZE)
     (seq_w (encode_property encode_ByteString (ca_assigned_client_id a) PT_ASSND_CLIENT_ID)
     (seq_w (encode_property_default encode_u16 (ca_topic_alias_max a) 0 PT_TOPIC_ALIAS_MAX)
     (seq_w (encode_property_default encode_bool (ca_wildcard_subscription_available a) True PT_WILDCARD_SUB_AVAIL)
     (seq_w (encode_property_default encode_bool (ca_subscription_identifiers_available a) True PT_SUB_IDS_AVAIL)
     (seq_w (encode_property_default encode_bool (ca_shared_subscription_available a) True PT_SHARED_SUB_AVAIL)
     (seq_w (encode_property encode_u16 (ca_server_keepalive_sec a) PT_SERVER_KA)
     (seq_w (encode_property encode_ByteString (ca_response_info a) PT_RESP_INFO)
     (seq_w (encode_property encode_ByteString (ca_server_reference a) PT_SERVER_REF)
     (seq_w (encode_property encode_ByteString (ca_auth_method a) PT_AUTH_METHOD)
            (encode_property encode_Bytes (ca_auth_data a) PT_AUTH_DATA))))))))))))))) (connack_fixed a)"
  unfolding connack_fixed_def encode_property_default_eq
  using assms by (intro writes_seq max_qos_property property_writes)
    (auto simp: wf_connack_def nondefault_Some)

lemma connack_encode:
  assumes "wf_connack a" and "encoded_size_connack a limit < 268435456"
  shows "encoded_size_connack a limit = length (connack_body (trim_connack limit a))"
    and "writes (encode_connack a (of_nat (encoded_size_connack a limit))) (connack_body (trim_connack limit a))"
proof -
  let ?d = "diag_bytes (connack_diag limit a)"
  have l: "length (connack_fixed a @ ?d) < 268435456"
    using assms by (simp add: encoded_size_connack_eq)
  then have e: "encoded_size_connack a limit = 2 + length (props_bytes (connack_fixed a @ ?d))"
    by (simp add: encoded_size_connack_eq diag_size [OF l])
  then show "encoded_size_connack a limit = length (connack_body (trim_connack limit a))"
    by (simp add: connack_body_trim)
  show "writes (encode_connack a (of_nat (encoded_size_connack a limit))) (connack_body (trim_connack limit a))"
    unfolding connack_body_trim encode_connack_def
    using assms e l
    by (intro diag_packet_writes [OF writes_put connack_fixed_writes [OF assms(1)], unfolded seq_w_assoc])
      (auto simp: connack_diag_def wf_connack_def)
qed

lemma connack_reads:
  "cap_session_expiry_interval_secs acc = None \<Longrightarrow>
     prop_loop connack_prop acc (opt_prop PT_SESS_EXPIRY_INT be32 w @ rest) =
     prop_loop connack_prop (cap_session_expiry_interval_secs_update (\<lambda>_. w) acc) rest"
  "cap_receive_max acc = None \<Longrightarrow> pred_option (\<lambda>x. x \<noteq> 0) nh \<Longrightarrow>
     prop_loop connack_prop acc (opt_prop PT_RECEIVE_MAX be16 nh @ rest) =
     prop_loop connack_prop (cap_receive_max_update (\<lambda>_. nh) acc) rest"
  "cap_max_qos acc = None \<Longrightarrow>
     prop_loop connack_prop acc (opt_prop PT_MAX_QOS (\<lambda>q. [qos_value q]) q @ rest) =
     prop_loop connack_prop (cap_max_qos_update (\<lambda>_. q) acc) rest"
  "cap_retain_available acc = None \<Longrightarrow>
     prop_loop connack_prop acc (opt_prop PT_RETAIN_AVAIL (\<lambda>b. [if b then 1 else 0]) t @ rest) =
     prop_loop connack_prop (cap_retain_available_update (\<lambda>_. t) acc) rest"
  "cap_max_packet_size acc = None \<Longrightarrow>
     prop_loop connack_prop acc (opt_prop PT_MAX_PACKET_SIZE be32 w @ rest) =
     prop_loop connack_prop (cap_max_packet_size_update (\<lambda>_. w) acc) rest"
  "cap_assigned_client_id acc = None \<Longrightarrow> pred_option is_text s \<Longrightarrow>
     prop_loop connack_prop acc (opt_prop PT_ASSND_CLIENT_ID prefixed s @ rest) =
     prop_loop connack_prop (cap_assigned_client_id_update (\<lambda>_. s) acc) rest"
  "cap_topic_alias_max acc = None \<Longrightarrow>
     prop_loop connack_prop acc (opt_prop PT_TOPIC_ALIAS_MAX be16 h @ rest) =
     prop_loop connack_prop (cap_topic_alias_max_update (\<lambda>_. h) acc) rest"
  "cap_reason_string acc = None \<Longrightarrow> pred_option is_text s \<Longrightarrow>
     prop_loop connack_prop acc (opt_prop PT_REASON_STRING prefixed s @ rest) =
     prop_loop connack_prop (cap_reason_string_update (\<lambda>_. s) acc) rest"
  "wf_users us \<Longrightarrow>
     prop_loop connack_prop acc (user_bytes us @ rest) =
     prop_loop connack_prop (cap_user_properties_update (\<lambda>xs. xs @ us) acc) rest"
  "cap_wildcard_sub_avail acc = None \<Longrightarrow>
     prop_loop connack_prop acc (opt_prop PT_WILDCARD_SUB_AVAIL (\<lambda>b. [if b then 1 else 0]) t @ rest) =
     prop_loop connack_prop (cap_wildcard_sub_avail_update (\<lambda>_. t) acc) rest"
  "cap_sub_ids_avail acc = None \<Longrightarrow>
     prop_loop connack_prop acc (opt_prop PT_SUB_IDS_AVAIL (\<lambda>b. [if b then 1 else 0]) t @ rest) =
     prop_loop connack_prop (cap_sub_ids_avail_update (\<lambda>_. t) acc) rest"
  "cap_shared_sub_avail acc = None \<Longrightarrow>
     prop_loop connack_prop acc (opt_prop PT_SHARED_SUB_AVAIL (\<lambda>b. [if b then 1 else 0]) t @ rest) =
     prop_loop connack_prop (cap_shared_sub_avail_update (\<lambda>_. t) acc) rest"
  "cap_server_ka_sec acc = None \<Longrightarrow>
     prop_loop connack_prop acc (opt_prop PT_SERVER_KA be16 h @ rest) =
     prop_loop connack_prop (cap_server_ka_sec_update (\<lambda>_. h) acc) rest"
  "cap_response_info acc = None \<Longrightarrow> pred_option is_text s \<Longrightarrow>
     prop_loop connack_prop acc (opt_prop PT_RESP_INFO prefixed s @ rest) =
     prop_loop connack_prop (cap_response_info_update (\<lambda>_. s) acc) rest"
  "cap_server_reference acc = None \<Longrightarrow> pred_option is_text s \<Longrightarrow>
     prop_loop connack_prop acc (opt_prop PT_SERVER_REF prefixed s @ rest) =
     prop_loop connack_prop (cap_server_reference_update (\<lambda>_. s) acc) rest"
  "cap_auth_method acc = None \<Longrightarrow> pred_option is_text s \<Longrightarrow>
     prop_loop connack_prop acc (opt_prop PT_AUTH_METHOD prefixed s @ rest) =
     prop_loop connack_prop (cap_auth_method_update (\<lambda>_. s) acc) rest"
  "cap_auth_data acc = None \<Longrightarrow> pred_option short b \<Longrightarrow>
     prop_loop connack_prop acc (opt_prop PT_AUTH_DATA prefixed b @ rest) =
     prop_loop connack_prop (cap_auth_data_update (\<lambda>_. b) acc) rest"
  by (rule cackp.loop_opt cackp.loop_many;
      auto simp: connack_prop_def v5_prop_reprs list_all_iff)+

lemma pred_option_nondefault: "P v \<Longrightarrow> pred_option P (nondefault d v)"
  by (simp add: nondefault_def)

lemma connack_loop:
  "wf_connack a \<Longrightarrow>
   prop_loop connack_prop connack_props0 (connack_fixed a @ diag_bytes (ca_user_properties a, ca_reason_string a)) =
   Ok \<lparr>cap_session_expiry_interval_secs = ca_session_expiry_interval_secs a,
       cap_receive_max = nondefault RECEIVE_MAX_DEFAULT (ca_receive_max a),
       cap_max_qos = nondefault ExactlyOnce (ca_max_qos a),
       cap_retain_available = nondefault True (ca_retain_available a),
       cap_max_packet_size = ca_max_packet_size a, cap_assigned_client_id = ca_assigned_client_id a,
       cap_topic_alias_max = nondefault 0 (ca_topic_alias_max a), cap_reason_string = ca_reason_string a,
       cap_user_properties = ca_user_properties a,
       cap_wildcard_sub_avail = nondefault True (ca_wildcard_subscription_available a),
       cap_sub_ids_avail = nondefault True (ca_subscription_identifiers_available a),
       cap_shared_sub_avail = nondefault True (ca_shared_subscription_available a),
       cap_server_ka_sec = ca_server_keepalive_sec a, cap_response_info = ca_response_info a,
       cap_server_reference = ca_server_reference a, cap_auth_method = ca_auth_method a,
       cap_auth_data = ca_auth_data a\<rparr>"
  by (simp add: wf_connack_def connack_fixed_def connack_props0_def diag_bytes_def2 wf_diag_pred
      connack_reads pred_option_nondefault del: property_ids append_Nil2)

lemma connack_decode:
  assumes "wf_connack a" and "length (connack_body a) < 268435456"
  shows "decode_connack (connack_body a) = Ok a"
proof -
  have "length (connack_fixed a @ diag_bytes (ca_user_properties a, ca_reason_string a)) < 268435456"
    using assms(2) by (simp add: connack_body_def props_bytes_def)
  then show ?thesis
    using assms(1)
    by (simp add: decode_connack_def connack_body_def connack_loop flags_from_bits_def contains_def)
qed

section \<open>CONNECT\<close>

definition will_fixed :: "v5_last_will \<Rightarrow> bytes" where
  "will_fixed w = opt_prop PT_WILL_DELAY_INT be32 (lw_will_delay_interval_sec w)
     @ opt_prop PT_UTF8_PAYLOAD bool_bytes (lw_is_utf8_payload w)
     @ opt_prop PT_MSG_EXPIRY_INT be32 (lw_message_expiry_interval w)
     @ opt_prop PT_CONTENT_TYPE prefixed (lw_content_type w)
     @ opt_prop PT_RESP_TOPIC prefixed (lw_response_topic w)
     @ opt_prop PT_CORR_DATA prefixed (lw_correlation_data w)
     @ user_bytes (lw_user_properties w)"

definition will_bytes :: "v5_last_will \<Rightarrow> bytes" where
  "will_bytes w = props_bytes (will_fixed w) @ prefixed (lw_topic w) @ prefixed (lw_message w)"

definition connect_fixed :: "v5_connect \<Rightarrow> bytes" where
  "connect_fixed c = opt_prop PT_SESS_EXPIRY_INT be32 (nondefault 0 (cn_session_expiry_interval_secs c))
     @ opt_prop PT_AUTH_METHOD prefixed (cn_auth_method c)
     @ opt_prop PT_AUTH_DATA prefixed (cn_auth_data c)
     @ opt_prop PT_REQ_PROB_INFO bool_bytes (nondefault True (cn_request_problem_info c))
     @ opt_prop PT_REQ_RESP_INFO bool_bytes (nondefault False (cn_request_response_info c))
     @ opt_prop PT_RECEIVE_MAX be16 (cn_receive_max c)
     @ opt_prop PT_MAX_PACKET_SIZE be32 (cn_max_packet_size c)
     @ opt_prop PT_TOPIC_ALIAS_MAX be16 (nondefault 0 (cn_topic_alias_max c))
     @ user_bytes (cn_user_properties c)"

definition connect_body :: "v5_connect \<Rightarrow> bytes" where
  "connect_body c = prefixed MQTT @ [MQTT_LEVEL_5, v5_connect_flags c] @ be16 (cn_keep_alive c)
     @ props_bytes (connect_fixed c) @ prefixed (cn_client_id c) @ opt_bytes will_bytes (cn_last_will c)
     @ opt_bytes prefixed (cn_username c) @ opt_bytes prefixed (cn_password c)"

lemma will_fixed_size: "last_will_properties_len w = length (will_fixed w)"
  by (simp add: last_will_properties_len_def will_fixed_def fixed_sizes)

lemma connect_fixed_size: "connect_properties_len c = length (connect_fixed c)"
  by (simp add: connect_properties_len_def connect_fixed_def fixed_sizes)

lemma will_size:
  "length (will_fixed w) < 268435456 \<Longrightarrow>
   (let prop_len = last_will_properties_len w
    in unat (var_int_len prop_len) + prop_len + encoded_size_Bytes (lw_topic w) + encoded_size_Bytes (lw_message w))
   = length (will_bytes w)"
  using diag_size [of "will_fixed w" "[]"]
  by (simp add: will_fixed_size will_bytes_def encoded_size_Bytes_def)

lemma encode_last_will_writes:
  assumes "wf_last_will w" and "length (will_fixed w) < 268435456"
  shows "writes (encode_last_will w) (will_bytes w)"
proof -
  have f: "writes (seq_w (encode_property encode_u32 (lw_will_delay_interval_sec w) PT_WILL_DELAY_INT)
     (seq_w (encode_property encode_bool (lw_is_utf8_payload w) PT_UTF8_PAYLOAD)
     (seq_w (encode_property encode_NonZeroU32 (lw_message_expiry_interval w) PT_MSG_EXPIRY_INT)
     (seq_w (encode_property encode_ByteString (lw_content_type w) PT_CONTENT_TYPE)
     (seq_w (encode_property encode_ByteString (lw_response_topic w) PT_RESP_TOPIC)
     (seq_w (encode_property encode_Bytes (lw_correlation_data w) PT_CORR_DATA)
            (encode_UserProperties (lw_user_properties w)))))))) (will_fixed w)"
    unfolding will_fixed_def using assms(1)
    by (intro writes_seq property_writes encode_UserProperties_writes) (auto simp: wf_last_will_def)
  have "writes (seq_w (encode_ByteString (lw_topic w)) (encode_Bytes (lw_message w)))
      (prefixed (lw_topic w) @ prefixed (lw_message w))"
    using assms(1) by (intro writes_seq wtext.enc_writes wbytes.enc_writes) (auto simp: wf_last_will_def)
  from writes_seq [OF writes_props [OF assms(2) f] this] show ?thesis
    by (simp add: encode_last_will_def will_bytes_def will_fixed_size seq_w_assoc)
qed

lemma connect_encode:
  assumes wf: "wf_connect c" and sz: "encoded_size_connect c < 268435456"
  shows "encoded_size_connect c = length (connect_body c)"
    and "writes (encode_connect c) (connect_body c)"
proof -
  have l: "length (connect_fixed c) < 268435456"
    using sz by (simp add: encoded_size_connect_def connect_fixed_size Let_def)
  have w: "length (will_fixed w) < 268435456" if "cn_last_will c = Some w" for w
    using sz that by (simp add: encoded_size_connect_def will_fixed_size Let_def)
  show "encoded_size_connect c = length (connect_body c)"
    using diag_size [of "connect_fixed c" "[]"] l w will_size
    by (auto simp: encoded_size_connect_def connect_fixed_size connect_body_def encoded_size_Bytes_def
        opt_bytes_def Let_def split: option.splits)
  have f: "writes (seq_w (encode_property_default encode_u32 (cn_session_expiry_interval_secs c) 0 PT_SESS_EXPIRY_INT)
     (seq_w (encode_property encode_ByteString (cn_auth_method c) PT_AUTH_METHOD)
     (seq_w (encode_property encode_Bytes (cn_auth_data c) PT_AUTH_DATA)
     (seq_w (encode_property_default encode_bool (cn_request_problem_info c) True PT_REQ_PROB_INFO)
     (seq_w (encode_property_default encode_bool (cn_request_response_info c) False PT_REQ_RESP_INFO)
     (seq_w (encode_property encode_NonZeroU16 (cn_receive_max c) PT_RECEIVE_MAX)
     (seq_w (encode_property encode_NonZeroU32 (cn_max_packet_size c) PT_MAX_PACKET_SIZE)
     (seq_w (encode_property_default encode_u16 (cn_topic_alias_max c) 0 PT_TOPIC_ALIAS_MAX)
            (encode_UserProperties (cn_user_properties c)))))))))) (connect_fixed c)"
    unfolding connect_fixed_def encode_property_default_eq using wf
    by (intro writes_seq property_writes encode_UserProperties_writes) (auto simp: wf_connect_def)
  have r: "writes (seq_w (encode_ByteString (cn_client_id c)) (seq_w (opt_w encode_last_will (cn_last_will c))
      (seq_w (opt_w encode_ByteString (cn_username c)) (opt_w encode_Bytes (cn_password c)))))
      (prefixed (cn_client_id c) @ opt_bytes will_bytes (cn_last_will c)
       @ opt_bytes prefixed (cn_username c) @ opt_bytes prefixed (cn_password c))"
    using wf w by (intro writes_seq writes_opt_bytes wtext.enc_writes wbytes.enc_writes encode_last_will_writes)
      (auto simp: wf_connect_def)
  have m: "writes (encode_Bytes MQTT) (prefixed MQTT)"
    by (intro wbytes.enc_writes) (simp add: short_def)
  from writes_seq [OF m writes_seq [OF writes_put [of "[MQTT_LEVEL_5, v5_connect_flags c]"]
    writes_seq [OF wu16.enc_writes [OF TrueI, of "cn_keep_alive c"] writes_seq [OF writes_props [OF l f] r]]]]
  show "writes (encode_connect c) (connect_body c)"
    by (simp add: encode_connect_def connect_body_def connect_fixed_size seq_w_assoc)
qed

lemma last_will_reads:
  "lwp_will_delay_interval_sec acc = None \<Longrightarrow>
     prop_loop last_will_prop acc (opt_prop PT_WILL_DELAY_INT be32 w @ rest) =
     prop_loop last_will_prop (lwp_will_delay_interval_sec_update (\<lambda>_. w) acc) rest"
  "lwp_correlation_data acc = None \<Longrightarrow> pred_option short b \<Longrightarrow>
     prop_loop last_will_prop acc (opt_prop PT_CORR_DATA prefixed b @ rest) =
     prop_loop last_will_prop (lwp_correlation_data_update (\<lambda>_. b) acc) rest"
  "lwp_message_expiry_interval acc = None \<Longrightarrow> pred_option (\<lambda>x. x \<noteq> 0) nw \<Longrightarrow>
     prop_loop last_will_prop acc (opt_prop PT_MSG_EXPIRY_INT be32 nw @ rest) =
     prop_loop last_will_prop (lwp_message_expiry_interval_update (\<lambda>_. nw) acc) rest"
  "lwp_content_type acc = None \<Longrightarrow> pred_option is_text s \<Longrightarrow>
     prop_loop last_will_prop acc (opt_prop PT_CONTENT_TYPE prefixed s @ rest) =
     prop_loop last_will_prop (lwp_content_type_update (\<lambda>_. s) acc) rest"
  "lwp_is_utf8_payload acc = None \<Longrightarrow>
     prop_loop last_will_prop acc (opt_prop PT_UTF8_PAYLOAD (\<lambda>b. [if b then 1 else 0]) t @ rest) =
     prop_loop last_will_prop (lwp_is_utf8_payload_update (\<lambda>_. t) acc) rest"
  "lwp_response_topic acc = None \<Longrightarrow> pred_option is_text s \<Longrightarrow>
     prop_loop last_will_prop acc (opt_prop PT_RESP_TOPIC prefixed s @ rest) =
     prop_loop last_will_prop (lwp_response_topic_update (\<lambda>_. s) acc) rest"
  "wf_users us \<Longrightarrow>
     prop_loop last_will_prop acc (user_bytes us @ rest) =
     prop_loop last_will_prop (lwp_user_properties_update (\<lambda>xs. xs @ us) acc) rest"
  by (rule willp.loop_opt willp.loop_many;
      auto simp: last_will_prop_def v5_prop_reprs list_all_iff)+

lemma connect_reads:
  "cnp_session_expiry_interval_secs acc = None \<Longrightarrow>
     prop_loop connect_prop acc (opt_prop PT_SESS_EXPIRY_INT be32 w @ rest) =
     prop_loop connect_prop (cnp_session_expiry_interval_secs_update (\<lambda>_. w) acc) rest"
  "cnp_auth_method acc = None \<Longrightarrow> pred_option is_text s \<Longrightarrow>
     prop_loop connect_prop acc (opt_prop PT_AUTH_METHOD prefixed s @ rest) =
     prop_loop connect_prop (cnp_auth_method_update (\<lambda>_. s) acc) rest"
  "cnp_auth_data acc = None \<Longrightarrow> pred_option short b \<Longrightarrow>
     prop_loop connect_prop acc (opt_prop PT_AUTH_DATA prefixed b @ rest) =
     prop_loop connect_prop (cnp_auth_data_update (\<lambda>_. b) acc) rest"
  "cnp_request_problem_info acc = None \<Longrightarrow>
     prop_loop connect_prop acc (opt_prop PT_REQ_PROB_INFO (\<lambda>b. [if b then 1 else 0]) t @ rest) =
     prop_loop connect_prop (cnp_request_problem_info_update (\<lambda>_. t) acc) rest"
  "cnp_request_response_info acc = None \<Longrightarrow>
     prop_loop connect_prop acc (opt_prop PT_REQ_RESP_INFO (\<lambda>b. [if b then 1 else 0]) t @ rest) =
     prop_loop connect_prop (cnp_request_response_info_update (\<lambda>_. t) acc) rest"
  "cnp_receive_max acc = None \<Longrightarrow> pred_option (\<lambda>x. x \<noteq> 0) nh \<Longrightarrow>
     prop_loop connect_prop acc (opt_prop PT_RECEIVE_MAX be16 nh @ rest) =
     prop_loop connect_prop (cnp_receive_max_update (\<lambda>_. nh) acc) rest"
  "cnp_topic_alias_max acc = None \<Longrightarrow>
     prop_loop connect_prop acc (opt_prop PT_TOPIC_ALIAS_MAX be16 h @ rest) =
     prop_loop connect_prop (cnp_topic_alias_max_update (\<lambda>_. h) acc) rest"
  "wf_users us \<Longrightarrow>
     prop_loop connect_prop acc (user_bytes us @ rest) =
     prop_loop connect_prop (cnp_user_properties_update (\<lambda>xs. xs @ us) acc) rest"
  "cnp_max_packet_size acc = None \<Longrightarrow> pred_option (\<lambda>x. x \<noteq> 0) nw \<Longrightarrow>
     prop_loop connect_prop acc (opt_prop PT_MAX_PACKET_SIZE be32 nw @ rest) =
     prop_loop connect_prop (cnp_max_packet_size_update (\<lambda>_. nw) acc) rest"
  by (rule connp.loop_opt connp.loop_many;
      auto simp: connect_prop_def v5_prop_reprs list_all_iff)+

lemma last_will_loop:
  "wf_last_will w \<Longrightarrow>
   prop_loop last_will_prop last_will_props0 (will_fixed w @ []) =
   Ok \<lparr>lwp_will_delay_interval_sec = lw_will_delay_interval_sec w,
       lwp_correlation_data = lw_correlation_data w,
       lwp_message_expiry_interval = lw_message_expiry_interval w, lwp_content_type = lw_content_type w,
       lwp_user_properties = lw_user_properties w, lwp_is_utf8_payload = lw_is_utf8_payload w,
       lwp_response_topic = lw_response_topic w\<rparr>"
  by (simp add: wf_last_will_def will_fixed_def last_will_props0_def last_will_reads pred_option_neq
      del: property_ids append_Nil2)

lemma connect_loop:
  "wf_connect c \<Longrightarrow>
   prop_loop connect_prop connect_props0 (connect_fixed c @ []) =
   Ok \<lparr>cnp_session_expiry_interval_secs = nondefault 0 (cn_session_expiry_interval_secs c),
       cnp_auth_method = cn_auth_method c, cnp_auth_data = cn_auth_data c,
       cnp_request_problem_info = nondefault True (cn_request_problem_info c),
       cnp_request_response_info = nondefault False (cn_request_response_info c),
       cnp_receive_max = cn_receive_max c, cnp_topic_alias_max = nondefault 0 (cn_topic_alias_max c),
       cnp_user_properties = cn_user_properties c, cnp_max_packet_size = cn_max_packet_size c\<rparr>"
  by (simp add: wf_connect_def connect_fixed_def connect_props0_def connect_reads pred_option_neq
      del: property_ids append_Nil2)

text \<open>The flags are computed as in MQTT 3, whose lemmas carry over.\<close>

definition v3_view :: "v5_connect \<Rightarrow> v3_connect" where
  "v3_view c = \<lparr>c3_protocol = 5, c3_clean_session = cn_clean_start c, c3_keep_alive = cn_keep_alive c,
     c3_last_will = map_option (\<lambda>w. \<lparr>lw3_qos = lw_qos w, lw3_retain = lw_retain w, lw3_topic = lw_topic w,
       lw3_message = lw_message w\<rparr>) (cn_last_will c),
     c3_client_id = cn_client_id c, c3_username = cn_username c, c3_password = cn_password c, c3_cert = None\<rparr>"

lemma v5_connect_flags_view: "v5_connect_flags c = v3_connect_flags (v3_view c)"
  by (simp add: v5_connect_flags_def v3_connect_flags_def v3_view_def split: option.splits)

lemma v5_flags:
  "flags_from_bits connect_flags_all (v5_connect_flags c) = Some (v5_connect_flags c)"
  "contains (v5_connect_flags c) USERNAME \<longleftrightarrow> cn_username c \<noteq> None"
  "contains (v5_connect_flags c) PASSWORD \<longleftrightarrow> cn_password c \<noteq> None"
  "contains (v5_connect_flags c) WILL \<longleftrightarrow> cn_last_will c \<noteq> None"
  "contains (v5_connect_flags c) CLEAN_START \<longleftrightarrow> cn_clean_start c"
  unfolding v5_connect_flags_view v3_flags_accepted v3_flags_contains by (simp_all add: v3_view_def)

lemma v5_flags_will:
  assumes "cn_last_will c = Some w"
  shows "contains (v5_connect_flags c) WILL_RETAIN \<longleftrightarrow> lw_retain w"
    and "drop_bit WILL_QOS_SHIFT (v5_connect_flags c AND WILL_QOS) = qos_value (lw_qos w)"
proof -
  obtain w3 where "c3_last_will (v3_view c) = Some w3" "lw3_retain w3 = lw_retain w" "lw3_qos w3 = lw_qos w"
    using assms by (simp add: v3_view_def)
  then show "contains (v5_connect_flags c) WILL_RETAIN \<longleftrightarrow> lw_retain w"
    and "drop_bit WILL_QOS_SHIFT (v5_connect_flags c AND WILL_QOS) = qos_value (lw_qos w)"
    using v3_flags_will [of "v3_view c" w3] unfolding v5_connect_flags_view by simp_all
qed

lemma v5_decode_last_will_repr:
  assumes "cn_last_will c = Some w" and "wf_last_will w" and "length (will_fixed w) < 268435456"
  shows "v5_decode_last_will (v5_connect_flags c) (will_bytes w @ rest) = Ok (w, rest)"
  using assms last_will_loop [OF assms(2)]
  by (simp add: v5_decode_last_will_def will_bytes_def v5_flags_will wf_last_will_def
      del: WILL_def WILL_QOS_def WILL_RETAIN_def WILL_QOS_SHIFT_def drop_bit_and)

lemma connect_decode:
  assumes wf: "wf_connect c" and len: "length (connect_body c) < 268435456"
  shows "decode_connect (connect_body c) = Ok c"
proof -
  have l: "length (connect_fixed c) < 268435456"
    using len by (simp add: connect_body_def props_bytes_def)
  have w: "length (will_fixed w) < 268435456" if "cn_last_will c = Some w" for w
    using len that by (simp add: connect_body_def will_bytes_def props_bytes_def opt_bytes_def)
  have will: "decode_if (contains (v5_connect_flags c) WILL) (v5_decode_last_will (v5_connect_flags c))
      (opt_bytes will_bytes (cn_last_will c) @ rest) = Ok (cn_last_will c, rest)" for rest
    unfolding v5_flags using wf w
    by (intro decode_if_opt_bytes v5_decode_last_will_repr) (auto simp: wf_connect_def)
  have username: "decode_if (contains (v5_connect_flags c) USERNAME) decode_ByteString
      (opt_bytes prefixed (cn_username c) @ rest) = Ok (cn_username c, rest)" for rest
    unfolding v5_flags using wf by (intro decode_if_opt_bytes) (auto simp: wf_connect_def)
  have password: "decode_if (contains (v5_connect_flags c) PASSWORD) decode_Bytes
      (opt_bytes prefixed (cn_password c)) = Ok (cn_password c, [])"
    unfolding v5_flags using wf
    by (cases "cn_password c") (simp_all add: decode_if_def opt_bytes_def wf_connect_def)
  note loop = connect_loop [OF wf, unfolded append_Nil2]
  show ?thesis
    using wf
    by (simp add: decode_connect_def connect_body_def get_u16_prefixed name_matches_name l loop will username
        password v5_flags(1,5) wf_connect_def del: USERNAME_def PASSWORD_def WILL_def CLEAN_START_def)
qed

section \<open>All packets\<close>

fun v5_first_byte :: "v5_packet \<Rightarrow> u8" where
  "v5_first_byte (V5_Publish p) = publish_first_byte p"
| "v5_first_byte p = v5_packet_type p"

fun v5_body :: "v5_packet \<Rightarrow> bytes" where
  "v5_body (V5_Connect c) = connect_body c"
| "v5_body (V5_ConnectAck a) = connack_body a"
| "v5_body (V5_Publish p) = publish_body p"
| "v5_body (V5_PublishAck a) = publish_ack_body publish_ack_reason_to_u8 a"
| "v5_body (V5_PublishReceived a) = publish_ack_body publish_ack_reason_to_u8 a"
| "v5_body (V5_PublishRelease a) = publish_ack_body publish_ack2_reason_to_u8 a"
| "v5_body (V5_PublishComplete a) = publish_ack_body publish_ack2_reason_to_u8 a"
| "v5_body (V5_Subscribe p) = subscribe_body p"
| "v5_body (V5_SubscribeAck a) = status_ack_body subscribe_ack_reason_to_u8 a"
| "v5_body (V5_Unsubscribe p) = unsubscribe_body p"
| "v5_body (V5_UnsubscribeAck a) = status_ack_body unsubscribe_ack_reason_to_u8 a"
| "v5_body V5_PingRequest = []"
| "v5_body V5_PingResponse = []"
| "v5_body (V5_Disconnect d) = disconnect_body d"
| "v5_body (V5_Auth a) = auth_body a"

text \<open>The packet that is sent when the body may have \<open>limit\<close> bytes.\<close>

fun v5_trim :: "u32 \<Rightarrow> v5_packet \<Rightarrow> v5_packet" where
  "v5_trim limit (V5_ConnectAck a) = V5_ConnectAck (trim_connack limit a)"
| "v5_trim limit (V5_Publish p) = V5_Publish (with_properties p)"
| "v5_trim limit (V5_PublishAck a) = V5_PublishAck (trim_publish_ack limit a)"
| "v5_trim limit (V5_PublishReceived a) = V5_PublishReceived (trim_publish_ack limit a)"
| "v5_trim limit (V5_PublishRelease a) = V5_PublishRelease (trim_publish_ack limit a)"
| "v5_trim limit (V5_PublishComplete a) = V5_PublishComplete (trim_publish_ack limit a)"
| "v5_trim limit (V5_SubscribeAck a) = V5_SubscribeAck (trim_status_ack (suback_limit a limit) a)"
| "v5_trim limit (V5_UnsubscribeAck a) = V5_UnsubscribeAck (trim_status_ack (unsuback_limit a limit) a)"
| "v5_trim limit (V5_Disconnect d) = V5_Disconnect (trim_disconnect limit d)"
| "v5_trim limit (V5_Auth a) = V5_Auth (trim_auth limit a)"
| "v5_trim limit p = p"

lemma with_properties_simps [simp]:
  "publish_body (with_properties p) = publish_body p" "wf_publish p \<Longrightarrow> wf_publish (with_properties p)"
  "with_properties (with_properties p) = with_properties p"
  "publish_first_byte (with_properties p) = publish_first_byte p"
  using publish_props_of_wf [of p]
  by (simp_all add: with_properties_def publish_body_def publish_props_of_def wf_publish_def publish_first_byte_def)

lemma v5_trim_wf: "v5_wf p \<Longrightarrow> v5_wf (v5_trim limit p)"
  using fit_props_wf ack_fit_wf
  by (cases p) (auto simp: wf_connack_def trim_connack_def connack_diag_def wf_publish_ack_def
      trim_publish_ack_def publish_ack_diag_def wf_status_ack_def trim_status_ack_def Let_def
      wf_disconnect_def trim_disconnect_def disconnect_diag_def wf_auth_def trim_auth_def auth_diag_def)

lemma v5_first_byte_trim [simp]: "v5_first_byte (v5_trim limit p) = v5_first_byte p"
  by (cases p) simp_all

lemma v5_size_body:
  assumes "v5_wf p" and "v5_encoded_size p limit < 268435456"
  shows "v5_encoded_size p limit = length (v5_body (v5_trim limit p))"
  using assms
  by (cases p) (auto intro: connect_encode connack_encode publish_encode publish_ack_encode subscribe_encode
      suback_encode unsubscribe_encode unsuback_encode disconnect_encode auth_encode)

lemma v5_encode_writes:
  assumes "v5_wf p" and "v5_encoded_size p limit < 268435456"
  shows "writes (v5_encode p (of_nat (v5_encoded_size p limit)))
    (v5_first_byte p # varlen_bytes (of_nat (v5_encoded_size p limit)) @ v5_body (v5_trim limit p))"
  using assms small_le [OF assms(2)]
  by (cases p) (auto intro!: writes_framed connect_encode connack_encode publish_encode publish_ack_encode
      subscribe_encode suback_encode unsubscribe_encode unsuback_encode disconnect_encode auth_encode
      simp: writes_ping)

lemma v5_decode_body:
  assumes "v5_wf p" and "length (v5_body p) < 268435456"
  shows "v5_decode_packet (v5_body p) (v5_first_byte p) =
    Ok (case p of V5_Publish q \<Rightarrow> V5_Publish (with_properties q) | _ \<Rightarrow> p)"
proof (cases p)
  case (V5_Publish q)
  with assms show ?thesis
    using publish_decode [of q] publish_flags(4) [of q]
    by (simp add: v5_decode_packet_def del: PUBLISH_START_def PUBLISH_END_def)
qed (use assms in \<open>simp_all add: v5_decode_packet_def word_le_nat_alt connect_decode connack_decode
      decode_publish_ack_def decode_publish_ack2_def e_puback.publish_ack_decode e_puback2.publish_ack_decode
      subscribe_decode decode_subscribe_ack_def decode_unsubscribe_ack_def e_suback.status_ack_decode
      e_unsuback.status_ack_decode unsubscribe_decode disconnect_decode auth_decode\<close>)

lemma v5_decode_trimmed:
  assumes "v5_wf p" and "v5_encoded_size p limit < 268435456"
  shows "v5_decode_packet (v5_body (v5_trim limit p)) (v5_first_byte p) = Ok (v5_trim limit p)"
  using v5_decode_body [OF v5_trim_wf [OF assms(1), of limit]] assms v5_size_body [OF assms]
  by (cases p) simp_all

end
