(* ===== verification/V5_Codec.thy ===== *)
theory V5_Codec
  imports V5_Encode
begin

text \<open>
  The MQTT 5 codec (\<^verbatim>\<open>codec/v5/codec.rs\<close>): the framing of the packets, the size limits negotiated
  with the peer and the suppression of diagnostics the peer did not ask for.  The codec interprets the
  locale \<open>framed\<close>, as the MQTT 3 codec does.
\<close>

unbundle bit_operations_syntax

section \<open>The codec (codec.rs)\<close>

record v5_codec =
  v5_state :: decode_state
  v5_max_in_size :: u32
  v5_max_out_size :: u32
  v5_flags :: u8

definition NO_PROBLEM_INFO :: u8 where [simp]: "NO_PROBLEM_INFO = 0b00000001"
definition NO_RETAIN :: u8 where [simp]: "NO_RETAIN = 0b00000010"
definition NO_SUB_IDS :: u8 where [simp]: "NO_SUB_IDS = 0b00001000"

text \<open>\<^verbatim>\<open>flags.set(flag, value)\<close> of the macro \<^verbatim>\<open>bitflags!\<close>.\<close>

definition flags_set :: "u8 \<Rightarrow> bool \<Rightarrow> u8 \<Rightarrow> u8" where
  "flags_set flag val flags = (if val then flags OR flag else flags AND NOT flag)"

definition v5_codec_new :: "u32 \<Rightarrow> u32 \<Rightarrow> v5_codec" where
  "v5_codec_new max_in_size max_out_size = \<lparr>v5_state = FrameHeader, v5_max_in_size = max_in_size,
     v5_max_out_size = max_out_size, v5_flags = 0\<rparr>"

definition v5_codec_default :: v5_codec where
  "v5_codec_default = v5_codec_new 0 0"

definition v5_set_max_inbound_size :: "u32 \<Rightarrow> v5_codec \<Rightarrow> v5_codec" where
  "v5_set_max_inbound_size sz c = c\<lparr>v5_max_in_size := sz\<rparr>"

definition v5_set_max_outbound_size :: "u32 \<Rightarrow> v5_codec \<Rightarrow> v5_codec" where
  "v5_set_max_outbound_size sz c = c\<lparr>v5_max_out_size := (if 5 < sz then sz - 5 else sz)\<rparr>"

definition v5_retain_available :: "v5_codec \<Rightarrow> bool" where
  "v5_retain_available c \<longleftrightarrow> \<not> contains (v5_flags c) NO_RETAIN"

definition v5_sub_ids_available :: "v5_codec \<Rightarrow> bool" where
  "v5_sub_ids_available c \<longleftrightarrow> \<not> contains (v5_flags c) NO_SUB_IDS"

definition v5_set_retain_available :: "bool \<Rightarrow> v5_codec \<Rightarrow> v5_codec" where
  "v5_set_retain_available val c = c\<lparr>v5_flags := flags_set NO_RETAIN (\<not> val) (v5_flags c)\<rparr>"

definition v5_set_sub_ids_available :: "bool \<Rightarrow> v5_codec \<Rightarrow> v5_codec" where
  "v5_set_sub_ids_available val c = c\<lparr>v5_flags := flags_set NO_SUB_IDS (\<not> val) (v5_flags c)\<rparr>"

fun v5_received :: "v5_packet \<Rightarrow> v5_codec \<Rightarrow> v5_codec" where
  "v5_received (V5_Connect pkt) c =
     c\<lparr>v5_flags := flags_set NO_PROBLEM_INFO (\<not> cn_request_problem_info pkt) (v5_flags c)\<rparr>"
| "v5_received _ c = c"

function v5_codec_decode :: "v5_codec \<Rightarrow> bytes \<Rightarrow> (v5_packet, v5_codec) decode_result" where
  "v5_codec_decode c src = (case v5_state c of
     FrameHeader \<Rightarrow>
       if length src < 2 then (Ok None, c, src)
       else (case decode_variable_length (tl src) of
           Ok (Some (len, consumed)) \<Rightarrow>
             if v5_max_in_size c \<noteq> 0 \<and> v5_max_in_size c < len
             then (Err (MaxSizeExceeded len (v5_max_in_size c)), c, src)
             else let src' = drop (consumed + 1) src;
                      c' = c\<lparr>v5_state := Frame \<lparr>first_byte = hd src, remaining_length = len\<rparr>\<rparr>
                  in if length src' < unat len then (Ok None, c', src') else v5_codec_decode c' src'
         | Ok None \<Rightarrow> (Ok None, c, src)
         | Err e \<Rightarrow> (Err e, c, src)
         | Panic \<Rightarrow> (Panic, c, src))
   | Frame fixed \<Rightarrow>
       if length src < unat (remaining_length fixed) then (Ok None, c, src)
       else let packet_buf = take (unat (remaining_length fixed)) src;
                src' = drop (unat (remaining_length fixed)) src
            in (case v5_decode_packet packet_buf (first_byte fixed) of
                Ok p \<Rightarrow> (Ok (Some (p, remaining_length fixed)),
                          v5_received p (c\<lparr>v5_state := FrameHeader\<rparr>), src')
              | Err e \<Rightarrow> (Err e, c, src')
              | Panic \<Rightarrow> (Panic, c, src')))"
  by pat_completeness auto
termination
  by (relation "measure (\<lambda>(c, src). case v5_state c of FrameHeader \<Rightarrow> 1 | Frame _ \<Rightarrow> 0)") auto

declare v5_codec_decode.simps [simp del]

text \<open>The diagnostics that are cleared for a peer that asked for no problem information.\<close>

fun strip_diagnostics :: "v5_packet \<Rightarrow> v5_packet" where
  "strip_diagnostics (V5_PublishAck pkt) = V5_PublishAck (pkt\<lparr>ack_properties := [], ack_reason_string := None\<rparr>)"
| "strip_diagnostics (V5_PublishReceived pkt) = V5_PublishReceived (pkt\<lparr>ack_properties := [], ack_reason_string := None\<rparr>)"
| "strip_diagnostics (V5_PublishRelease pkt) = V5_PublishRelease (pkt\<lparr>ack_properties := [], ack_reason_string := None\<rparr>)"
| "strip_diagnostics (V5_PublishComplete pkt) = V5_PublishComplete (pkt\<lparr>ack_properties := [], ack_reason_string := None\<rparr>)"
| "strip_diagnostics (V5_Subscribe pkt) = V5_Subscribe (pkt\<lparr>sb_user_properties := []\<rparr>)"
| "strip_diagnostics (V5_SubscribeAck pkt) = V5_SubscribeAck (pkt\<lparr>sa_properties := [], sa_reason_string := None\<rparr>)"
| "strip_diagnostics (V5_Unsubscribe pkt) = V5_Unsubscribe (pkt\<lparr>us_user_properties := []\<rparr>)"
| "strip_diagnostics (V5_UnsubscribeAck pkt) = V5_UnsubscribeAck (pkt\<lparr>sa_properties := [], sa_reason_string := None\<rparr>)"
| "strip_diagnostics (V5_Auth pkt) = V5_Auth (pkt\<lparr>au_user_properties := [], au_reason_string := None\<rparr>)"
| "strip_diagnostics p = p"

definition v5_item :: "v5_codec \<Rightarrow> v5_packet \<Rightarrow> v5_packet" where
  "v5_item c item = (if contains (v5_flags c) NO_PROBLEM_INFO then strip_diagnostics item else item)"

definition v5_max_size :: "v5_codec \<Rightarrow> u32" where
  "v5_max_size c = (if v5_max_out_size c \<noteq> 0 then v5_max_out_size c else MAX_PACKET_SIZE)"

definition v5_codec_encode :: "v5_codec \<Rightarrow> v5_packet \<Rightarrow> encoder" where
  "v5_codec_encode c item dst =
     (let item = v5_item c item;
          max_size = v5_max_size c;
          content_size = v5_encoded_size item max_size
      in if unat max_size < content_size
         then (Err (OverMaxPacketSize (of_nat content_size) max_size), dst)
         else v5_encode item (of_nat content_size) dst)"

section \<open>The framing contract\<close>

interpretation v5: framed v5_codec_decode v5_state "\<lambda>s c. c\<lparr>v5_state := s\<rparr>" v5_max_in_size
  v5_decode_packet v5_received
proof
  show "v5_state c = FrameHeader \<Longrightarrow> v5_codec_decode c src =
      (if length src < 2 then (Ok None, c, src)
       else case decode_variable_length (tl src) of
           Ok (Some (len, consumed)) \<Rightarrow>
             if v5_max_in_size c \<noteq> 0 \<and> v5_max_in_size c < len
             then (Err (MaxSizeExceeded len (v5_max_in_size c)), c, src)
             else let src' = drop (consumed + 1) src;
                      c' = c\<lparr>v5_state := Frame \<lparr>first_byte = hd src, remaining_length = len\<rparr>\<rparr>
                  in if length src' < unat len then (Ok None, c', src') else v5_codec_decode c' src'
         | Ok None \<Rightarrow> (Ok None, c, src)
         | Err e \<Rightarrow> (Err e, c, src)
         | Panic \<Rightarrow> (Panic, c, src))" for c src
    by (subst v5_codec_decode.simps) simp
qed (simp_all add: v5_codec_decode.simps cong: res.case_cong)

lemma v5_received_state [simp]: "v5_state (v5_received p c) = v5_state c"
  by (cases p) simp_all

section \<open>What is sent\<close>

lemma strip_diagnostics_wf: "v5_wf p \<Longrightarrow> v5_wf (strip_diagnostics p)"
  by (cases p) (auto simp: wf_publish_ack_def wf_diag_def wf_subscribe_def wf_status_ack_def wf_unsubscribe_def wf_auth_def)

lemma v5_item_wf: "v5_wf p \<Longrightarrow> v5_wf (v5_item c p)"
  by (simp add: v5_item_def strip_diagnostics_wf)

text \<open>The packet a peer receives when \<open>p\<close> is given to the encoder, and its announced size.\<close>

definition v5_sent :: "v5_codec \<Rightarrow> v5_packet \<Rightarrow> v5_packet" where
  "v5_sent c p = v5_trim (v5_max_size c) (v5_item c p)"

definition v5_sent_size :: "v5_codec \<Rightarrow> v5_packet \<Rightarrow> nat" where
  "v5_sent_size c p = v5_encoded_size (v5_item c p) (v5_max_size c)"

definition v5_frame :: "v5_codec \<Rightarrow> v5_packet \<Rightarrow> bytes" where
  "v5_frame c p = v5_first_byte (v5_item c p) # varlen_bytes (of_nat (v5_sent_size c p)) @ v5_body (v5_sent c p)"

lemma v5_codec_encode_cases:
  assumes "v5_wf p" and "v5_max_out_size c \<le> 268435455"
  shows "v5_codec_encode c p dst =
    (if unat (v5_max_size c) < v5_sent_size c p
     then (Err (OverMaxPacketSize (of_nat (v5_sent_size c p)) (v5_max_size c)), dst)
     else (Ok (), dst @ v5_frame c p))"
proof -
  have "v5_max_size c \<le> 268435455"
    using assms(2) by (simp add: v5_max_size_def)
  then have "v5_sent_size c p < 268435456" if "\<not> unat (v5_max_size c) < v5_sent_size c p"
    using that by (simp add: word_le_nat_alt)
  then show ?thesis
    using writesD [OF v5_encode_writes [OF v5_item_wf [OF assms(1), of c], of "v5_max_size c"]]
    by (simp add: v5_codec_encode_def v5_sent_size_def v5_frame_def v5_sent_def Let_def)
qed

lemma v5_decode_sent:
  assumes "v5_wf p" and "v5_max_out_size c \<le> 268435455" and "v5_sent_size c p \<le> unat (v5_max_size c)"
    and "v5_state d = FrameHeader"
    and "v5_max_in_size d = 0 \<or> v5_sent_size c p \<le> unat (v5_max_in_size d)"
  shows "v5_codec_decode d (v5_frame c p @ rest) =
    (Ok (Some (v5_sent c p, of_nat (v5_sent_size c p))), v5_received (v5_sent c p) d, rest)"
proof -
  have "v5_max_size c \<le> 268435455"
    using assms(2) by (simp add: v5_max_size_def)
  then have n: "v5_sent_size c p < 268435456"
    using assms(3) by (simp add: word_le_nat_alt)
  note u = unat_small [OF n] small_le [OF n]
  have b: "length (v5_body (v5_sent c p)) = unat (of_nat (v5_sent_size c p) :: u32)"
    using v5_size_body [OF v5_item_wf [OF assms(1), of c], of "v5_max_size c"] n u(1)
    by (simp add: v5_sent_size_def v5_sent_def)
  have dec: "v5_decode_packet (v5_body (v5_sent c p)) (v5_first_byte (v5_item c p)) = Ok (v5_sent c p)"
    using v5_decode_trimmed [OF v5_item_wf [OF assms(1), of c], of "v5_max_size c"] n
    by (simp add: v5_sent_size_def v5_sent_def)
  have m: "v5_max_in_size d = 0 \<or> of_nat (v5_sent_size c p) \<le> v5_max_in_size d"
    using assms(5) u(1) by (auto simp: word_le_nat_alt)
  have "d\<lparr>v5_state := s, v5_state := FrameHeader\<rparr> = d" for s
    using assms(4) by (cases d) simp
  then show ?thesis
    using v5.whole_frame [OF assms(4) u(2) m b dec, of rest] by (simp add: v5_frame_def)
qed

section \<open>Packets that fit are not changed\<close>

fun v5_complete :: "v5_packet \<Rightarrow> v5_packet" where
  "v5_complete (V5_Publish p) = V5_Publish (with_properties p)"
| "v5_complete p = p"

lemma reduce_limit_ge:
  "n + d \<le> unat limit \<Longrightarrow> d \<le> unat (reduce_limit limit n)"
  by (simp add: reduce_limit_def unat_sub_nat)

lemma ack_fit_all:
  assumes "length (diag_bytes (ups, reason)) + 4 \<le> unat limit"
  shows "ack_fit ups reason limit = (ups, reason)"
proof -
  have "unat (limit - 4) = unat limit - 4"
    using assms unat_sub_nat [of 4 limit] by simp
  then show ?thesis
    using assms by (simp add: ack_fit_def word_less_nat_alt fit_props_all)
qed

lemma trim_publish_ack_all:
  assumes "length (publish_ack_body f a) + 8 \<le> unat limit"
  shows "trim_publish_ack limit a = a"
proof -
  have "unat (limit - HEADER_LEN - 4) = unat limit - 7"
    using assms unat_sub_nat [of 7 limit] by (simp add: diff_diff_eq)
  then have "length (diag_bytes (ack_properties a, ack_reason_string a)) + 4 \<le> unat (limit - HEADER_LEN - 4)"
    using assms by (simp add: publish_ack_body_def props_bytes_def)
  from ack_fit_all [OF this] show ?thesis
    by (simp add: trim_publish_ack_def publish_ack_diag_def)
qed

lemma trim_status_ack_all:
  assumes "length (status_ack_body f a) + 8 \<le> unat limit"
  shows "trim_status_ack (suback_limit a limit) a = a" and "trim_status_ack (unsuback_limit a limit) a = a"
proof -
  let ?n = "length (sa_status a)"
  have s: "unat (suback_limit a limit) = unat limit - (2 + ?n)"
    using assms unat_sub_nat [of "2 + ?n" limit] by (simp add: suback_limit_def status_ack_body_def diff_diff_eq)
  have d: "length (diag_bytes (sa_properties a, sa_reason_string a)) + 4 + (2 + ?n) \<le> unat limit"
    using assms by (simp add: status_ack_body_def props_bytes_def)
  from ack_fit_all [of _ _ "suback_limit a limit"] d s show "trim_status_ack (suback_limit a limit) a = a"
    by (simp add: trim_status_ack_def)
  have "length (diag_bytes (sa_properties a, sa_reason_string a)) + 4 \<le> unat (unsuback_limit a limit)"
    unfolding unsuback_limit_def using d by (intro reduce_limit_ge) simp
  from ack_fit_all [OF this] show "trim_status_ack (unsuback_limit a limit) a = a"
    by (simp add: trim_status_ack_def)
qed

lemma trim_connack_all: "length (connack_body a) + 8 \<le> unat limit \<Longrightarrow> trim_connack limit a = a"
  by (simp add: trim_connack_def connack_diag_def fit_props_all reduce_limit_ge connack_body_def props_bytes_def)

lemma trim_disconnect_all: "length (disconnect_body d) + 8 \<le> unat limit \<Longrightarrow> trim_disconnect limit d = d"
  by (simp add: trim_disconnect_def disconnect_diag_def fit_props_all reduce_limit_ge disconnect_body_def
      props_bytes_def)

lemma trim_auth_all: "length (auth_body a) + 8 \<le> unat limit \<Longrightarrow> trim_auth limit a = a"
  by (simp add: trim_auth_def auth_diag_def fit_props_all reduce_limit_ge auth_body_def props_bytes_def)

lemma v5_trim_all: "length (v5_body p) + 8 \<le> unat limit \<Longrightarrow> v5_trim limit p = v5_complete p"
  by (cases p) (auto intro: trim_publish_ack_all trim_status_ack_all trim_connack_all trim_disconnect_all trim_auth_all)

section \<open>Properties\<close>


definition v5_sample :: v5_packet where
  "v5_sample = V5_PublishAck \<lparr>ack_packet_id = 7, ack_reason_code = PAR_QuotaExceeded,
     ack_properties = [([0x61], [0x62])], ack_reason_string = Some [0x63]\<rparr>"




text \<open>The diagnostics of the packets the suppression covers.\<close>

fun diagnostics :: "v5_packet \<Rightarrow> user_properties \<times> bytes option" where
  "diagnostics (V5_PublishAck pkt) = (ack_properties pkt, ack_reason_string pkt)"
| "diagnostics (V5_PublishReceived pkt) = (ack_properties pkt, ack_reason_string pkt)"
| "diagnostics (V5_PublishRelease pkt) = (ack_properties pkt, ack_reason_string pkt)"
| "diagnostics (V5_PublishComplete pkt) = (ack_properties pkt, ack_reason_string pkt)"
| "diagnostics (V5_Subscribe pkt) = (sb_user_properties pkt, None)"
| "diagnostics (V5_SubscribeAck pkt) = (sa_properties pkt, sa_reason_string pkt)"
| "diagnostics (V5_Unsubscribe pkt) = (us_user_properties pkt, None)"
| "diagnostics (V5_UnsubscribeAck pkt) = (sa_properties pkt, sa_reason_string pkt)"
| "diagnostics (V5_Auth pkt) = (au_user_properties pkt, au_reason_string pkt)"
| "diagnostics _ = ([], None)"

lemma ack_fit_empty: "ack_fit [] None limit = ([], None)"
  by (simp add: ack_fit_def)

lemma diagnostics_stripped: "diagnostics (v5_trim limit (strip_diagnostics p)) = ([], None)"
  by (cases p) (simp_all add: trim_publish_ack_def publish_ack_diag_def trim_status_ack_def ack_fit_empty
      trim_auth_def auth_diag_def Let_def)

lemma contains_flags_set: "contains (flags_set NO_PROBLEM_INFO True f) NO_PROBLEM_INFO"
  by (simp add: contains_def flags_set_def bit_eq_iff bit_simps)

text \<open>
  Once a codec has received a CONNECT packet that declines problem information, every packet it
  sends afterwards reaches the peer without reason string and without user properties, for all packet
  types the protocol lets the server drop them from.
\<close>

theorem v5_problem_info:
  assumes "v5_codec_decode c src = (Ok (Some (V5_Connect pkt, len)), c', src')"
    and "\<not> cn_request_problem_info pkt" and "v5_wf p" and "v5_max_out_size c' \<le> 268435455"
    and "v5_codec_encode c' p dst = (Ok (), dst @ frame)"
    and "v5_state d = FrameHeader" and "v5_max_in_size d = 0"
  shows "\<exists>q n d'. v5_codec_decode d frame = (Ok (Some (q, n)), d', []) \<and> diagnostics q = ([], None)"
proof -
  have flag: "contains (v5_flags c') NO_PROBLEM_INFO"
    using v5.decoded [OF assms(1)] assms(2) contains_flags_set by auto
  have ok: "\<not> unat (v5_max_size c') < v5_sent_size c' p" "frame = v5_frame c' p"
    using assms(5) v5_codec_encode_cases [OF assms(3,4)] by (auto split: if_splits)
  have "v5_codec_decode d (v5_frame c' p @ []) =
      (Ok (Some (v5_sent c' p, of_nat (v5_sent_size c' p))), v5_received (v5_sent c' p) d, [])"
    using assms(3,4,6,7) ok by (intro v5_decode_sent) auto
  moreover have "diagnostics (v5_sent c' p) = ([], None)"
    using flag by (simp add: v5_sent_def v5_item_def diagnostics_stripped)
  ultimately show ?thesis
    using ok(2) by auto
qed

definition quiet_connect :: bytes where
  "quiet_connect = [0x10, 0x10, 0x00, 0x04, 0x4D, 0x51, 0x54, 0x54, 0x05, 0x02, 0x00, 0x00,
     0x02, 0x17, 0x00, 0x00, 0x01, 0x61]"

lemma quiet_connect_decode:
  "v5_codec_decode v5_codec_default quiet_connect =
    (Ok (Some (V5_Connect (v5_connect_default\<lparr>cn_clean_start := True, cn_client_id := [0x61],
       cn_request_problem_info := False\<rparr>), 16)), v5_codec_default\<lparr>v5_flags := 1\<rparr>, [])"
  by (simp add: quiet_connect_def v5_codec_decode.simps v5_codec_default_def v5_codec_new_def
      decode_variable_length_def decode_variable_length_cursor_def v5_decode_packet_def word_le_nat_alt
      word_less_nat_alt decode_connect_def name_matches_def slice_def MQTT_def of_be16_def flags_from_bits_def
      connect_flags_all_def take_properties_def connp.prop_loop_unfold connect_prop_def read_prop_def read_value_def
      decode_bool_def decode_ByteString_def decode_Bytes_def decode_u16_def connect_props0_def decode_if_def
      contains_def unwrap_or_def v5_connect_default_def flags_set_def)

theorem v5_problem_info_witness:
  "\<exists>q n d' frame. v5_codec_decode v5_codec_default frame = (Ok (Some (q, n)), d', [])
     \<and> diagnostics q = ([], None)"
proof -
  let ?c = "v5_codec_default\<lparr>v5_flags := 1\<rparr>"
  have wf: "v5_wf v5_sample"
    by (simp add: v5_sample_def wf_publish_ack_def wf_diag_def is_text2_def is_text_def short_def)
  have m: "v5_max_out_size ?c \<le> 268435455"
    by (simp add: v5_codec_default_def v5_codec_new_def)
  have "v5_sent_size ?c v5_sample = 4"
    by (simp add: v5_sample_def v5_sent_size_def v5_item_def v5_codec_default_def v5_codec_new_def contains_def
        v5_max_size_def encoded_size_publish_ack_def ack_props_encoded_size_def encoded_size_opt_props_def
        word_less_nat_alt var_int_len_vlen vlen_def Let_def)
  then have e: "v5_codec_encode ?c v5_sample [] = (Ok (), [] @ v5_frame ?c v5_sample)"
    using v5_codec_encode_cases [OF wf m, of "[]"]
    by (simp add: v5_max_size_def v5_codec_default_def v5_codec_new_def)
  show ?thesis
    using v5_problem_info [OF quiet_connect_decode _ wf m e, of v5_codec_default]
    by (auto simp: v5_codec_default_def v5_codec_new_def)
qed

text \<open>
  C29: no sequence of bytes received from the network makes the MQTT 5 codec panic, in whatever state it
  is; every input is answered by a packet, a request for more input or an error.
\<close>

theorem v5_decode_total: "fst (v5_codec_decode c src) \<noteq> Panic"
  by (rule v5.no_panic) (rule v5_decode_packet_no_panic)

text \<open>
  C30: the MQTT 5 packets obtained from a stream do not depend on how the network cuts it into reads.
\<close>

theorem v5_decode_chunks:
  assumes "yields v5_codec_decode c src ps c1 src1"
    and "yields v5_codec_decode c1 (src1 @ ext) qs c2 src2"
  shows "yields v5_codec_decode c (src @ ext) (ps @ qs) c2 src2"
  using assms by (rule v5.yields_chunks)

theorem v5_decode_chunks_witness:
  "yields v5_codec_decode v5_codec_default ([0xC0, 0x00] @ [0xD0] @ [0x00])
     ([(V5_PingRequest, 0)] @ [(V5_PingResponse, 0)]) v5_codec_default []"
proof -
  have a: "yields v5_codec_decode v5_codec_default [0xC0, 0x00, 0xD0]
      [(V5_PingRequest, 0)] v5_codec_default [0xD0]"
    by (rule yields.packet [where ?c1.0 = v5_codec_default and ?src1.0 = "[0xD0]"];
        (rule yields.more_input)?)
      (simp_all add: v5_codec_decode.simps v5_codec_default_def v5_codec_new_def decode_variable_length_def
        decode_variable_length_cursor_def v5_decode_packet_def word_le_nat_alt)
  have b: "yields v5_codec_decode v5_codec_default ([0xD0] @ [0x00])
      [(V5_PingResponse, 0)] v5_codec_default []"
    by (rule yields.packet [where ?c1.0 = v5_codec_default and ?src1.0 = "[]"];
        (rule yields.more_input)?)
      (simp_all add: v5_codec_decode.simps v5_codec_default_def v5_codec_new_def decode_variable_length_def
        decode_variable_length_cursor_def v5_decode_packet_def word_le_nat_alt)
  show ?thesis
    using v5_decode_chunks [OF a b] by simp
qed

text \<open>
  C31: the MQTT 5 decoder only produces well-formed packets: texts are UTF-8 of at most 65535 bytes,
  packet identifiers, topic aliases, receive maxima and subscription identifiers are not zero, and a
  packet identifier is present exactly for quality of service 1 and 2.  The codec then waits for the
  next header.
\<close>

theorem v5_decode_well_formed:
  assumes "v5_codec_decode c src = (Ok (Some (p, len)), c', src')"
  shows "v5_wf p \<and> v5_state c' = FrameHeader"
  using v5.decoded [OF assms] by (auto intro: v5_decode_packet_wf)

theorem v5_decode_well_formed_witness:
  "v5_wf (V5_Connect (v5_connect_default\<lparr>cn_clean_start := True, cn_client_id := [0x61],
     cn_request_problem_info := False\<rparr>))"
  using v5_decode_well_formed [OF quiet_connect_decode] by simp

text \<open>
  A non-zero maximum inbound size of the MQTT 5 codec is enforced: every packet returned has a body
  of at most that size, and a larger announced size is refused before the body is read, leaving the
  codec and its buffer unchanged.
\<close>

theorem v5_max_size_enforced:
  assumes "v5_state c = FrameHeader" and "v5_max_in_size c \<noteq> 0"
  shows "(v5_codec_decode c src = (Ok (Some (p, len)), c', src') \<longrightarrow> len \<le> v5_max_in_size c) \<and>
    (decode_variable_length (tl src) = Ok (Some (len, n)) \<and> v5_max_in_size c < len \<longrightarrow>
      v5_codec_decode c src = (Err (MaxSizeExceeded len (v5_max_in_size c)), c, src))"
proof (intro conjI impI)
  show "v5_codec_decode c src = (Ok (Some (p, len)), c', src') \<Longrightarrow> len \<le> v5_max_in_size c"
    using assms by (rule v5.max_size_enforced)
  assume v: "decode_variable_length (tl src) = Ok (Some (len, n)) \<and> v5_max_in_size c < len"
  then have "\<not> length src < 2"
    using decode_variable_length_bound [of "tl src" len n] by (cases src) auto
  with v assms show "v5_codec_decode c src = (Err (MaxSizeExceeded len (v5_max_in_size c)), c, src)"
    using v5.decode_header [of c src] by simp
qed

theorem v5_max_size_enforced_witness:
  "v5_codec_decode (v5_codec_new 5 5) [0x00, 0x09] = (Err (MaxSizeExceeded 9 5), v5_codec_new 5 5, [0x00, 0x09])"
  using v5_max_size_enforced [of "v5_codec_new 5 5" "[0x00, 0x09]" _ 9 _ _ 1]
  by (simp add: v5_codec_new_def decode_variable_length_def decode_variable_length_cursor_def word_less_nat_alt)

end
