(* ===== verification/Circuit_Breaker.thy ===== *)
theory Circuit_Breaker
  imports Prelude
begin

text \<open>
  The circuit breaker (\<^verbatim>\<open>utils/circuit_breaker.rs\<close>): a state machine on atomic cells that stops calls to a
  failing service and probes it again after a timeout.  The clock \<^verbatim>\<open>timestamp_millis\<close> is an argument of the
  operations that read it.  An operation is modelled as one step; the two stores that open the breaker
  are definitions of their own, for the lemma on what another thread may see between them.
\<close>

section \<open>States and configuration\<close>

definition CLOSED :: u8 where "CLOSED = 0"
definition OPEN :: u8 where "OPEN = 1"
definition HALF_OPEN :: u8 where "HALF_OPEN = 2"

lemma breaker_states [simp]:
  "CLOSED \<noteq> OPEN" "OPEN \<noteq> CLOSED" "CLOSED \<noteq> HALF_OPEN" "HALF_OPEN \<noteq> CLOSED" "OPEN \<noteq> HALF_OPEN" "HALF_OPEN \<noteq> OPEN"
  by (simp_all add: CLOSED_def OPEN_def HALF_OPEN_def)

datatype circuit_state = CS_Closed | CS_Open | CS_HalfOpen

text \<open>\<^verbatim>\<open>Duration\<close> is a number of nanoseconds.\<close>

record circuit_breaker_config =
  enabled :: bool
  failure_threshold :: u64
  reset_timeout :: nat
  half_open_success_threshold :: u64

definition circuit_breaker_config_default :: circuit_breaker_config where
  "circuit_breaker_config_default = \<lparr>enabled = False, failure_threshold = 5, reset_timeout = 30 * 10 ^ 9,
     half_open_success_threshold = 1\<rparr>"

record circuit_breaker =
  cell_state :: u8
  failure_count :: u64
  opened_at :: i64
  success_count :: u64
  config :: circuit_breaker_config

section \<open>Operations\<close>

definition circuit_breaker_new :: "circuit_breaker_config \<Rightarrow> circuit_breaker" where
  "circuit_breaker_new cfg = \<lparr>cell_state = CLOSED, failure_count = 0, opened_at = 0, success_count = 0, config = cfg\<rparr>"

definition reset_ms :: "circuit_breaker_config \<Rightarrow> u64" where
  "reset_ms cfg = of_nat (reset_timeout cfg div 10 ^ 6)"

definition is_blocked :: "i64 \<Rightarrow> circuit_breaker \<Rightarrow> bool \<times> circuit_breaker" where
  "is_blocked now b =
    (if \<not> enabled (config b) then (False, b)
     else if cell_state b = CLOSED then (False, b)
     else if cell_state b = HALF_OPEN then (False, b)
     else if cell_state b = OPEN then
       (let elapsed_ms = now - opened_at b in
        if reset_ms (config b) \<le> elapsed_ms then (False, b\<lparr>success_count := 0, cell_state := HALF_OPEN\<rparr>)
        else (True, b))
     else (False, b))"

definition record_success :: "circuit_breaker \<Rightarrow> circuit_breaker" where
  "record_success b =
    (if cell_state b = CLOSED then b\<lparr>failure_count := 0\<rparr>
     else if cell_state b = HALF_OPEN then
       (let c = success_count b + 1; b = b\<lparr>success_count := c\<rparr> in
        if half_open_success_threshold (config b) \<le> c then b\<lparr>cell_state := CLOSED, failure_count := 0, success_count := 0\<rparr>
        else b)
     else b)"

definition publish_open :: "circuit_breaker \<Rightarrow> circuit_breaker" where
  "publish_open b = b\<lparr>cell_state := OPEN\<rparr>"

definition stamp_opened :: "i64 \<Rightarrow> circuit_breaker \<Rightarrow> circuit_breaker" where
  "stamp_opened now b = b\<lparr>opened_at := now\<rparr>"

definition record_failure :: "i64 \<Rightarrow> circuit_breaker \<Rightarrow> circuit_breaker" where
  "record_failure now b =
    (if cell_state b = CLOSED then
       (let c = failure_count b + 1; b = b\<lparr>failure_count := c\<rparr> in
        if failure_threshold (config b) \<le> c then stamp_opened now (publish_open b) else b)
     else if cell_state b = HALF_OPEN then stamp_opened now (publish_open b)
     else b)"

text \<open>\<^verbatim>\<open>unreachable!\<close> is a panic.\<close>

definition breaker_state :: "circuit_breaker \<Rightarrow> (circuit_state, unit) res" where
  "breaker_state b =
    (if cell_state b = CLOSED then Ok CS_Closed else if cell_state b = OPEN then Ok CS_Open
     else if cell_state b = HALF_OPEN then Ok CS_HalfOpen else Panic)"

definition breaker_reset :: "circuit_breaker \<Rightarrow> circuit_breaker" where
  "breaker_reset b = b\<lparr>cell_state := CLOSED, failure_count := 0, success_count := 0, opened_at := 0\<rparr>"

section \<open>Runs of a breaker\<close>

datatype breaker_event = Ev_Blocked i64 | Ev_Success | Ev_Failure i64 | Ev_Reset

fun breaker_step :: "breaker_event \<Rightarrow> circuit_breaker \<Rightarrow> circuit_breaker" where
  "breaker_step (Ev_Blocked now) b = snd (is_blocked now b)"
| "breaker_step Ev_Success b = record_success b"
| "breaker_step (Ev_Failure now) b = record_failure now b"
| "breaker_step Ev_Reset b = breaker_reset b"

inductive breaker_reachable :: "circuit_breaker_config \<Rightarrow> circuit_breaker \<Rightarrow> bool" for cfg where
  start: "breaker_reachable cfg (circuit_breaker_new cfg)"
| step: "breaker_reachable cfg b \<Longrightarrow> breaker_reachable cfg (breaker_step e b)"

definition breaker_inv :: "circuit_breaker_config \<Rightarrow> circuit_breaker \<Rightarrow> bool" where
  "breaker_inv cfg b \<longleftrightarrow> config b = cfg \<and> cell_state b \<in> {CLOSED, OPEN, HALF_OPEN} \<and>
     (cell_state b = CLOSED \<longrightarrow> failure_count b = 0 \<or> failure_count b < failure_threshold cfg) \<and>
     (cell_state b = HALF_OPEN \<longrightarrow> success_count b = 0 \<or> success_count b < half_open_success_threshold cfg)"

lemmas breaker_ops = is_blocked_def record_success_def record_failure_def breaker_reset_def publish_open_def stamp_opened_def
  Let_def

lemma breaker_inv_step: "breaker_inv cfg b \<Longrightarrow> breaker_inv cfg (breaker_step e b)"
  by (cases e) (auto simp: breaker_inv_def breaker_ops)

lemma breaker_reachable_inv: "breaker_reachable cfg b \<Longrightarrow> breaker_inv cfg b"
  by (induction rule: breaker_reachable.induct) (auto simp: breaker_inv_step, simp add: breaker_inv_def circuit_breaker_new_def)

lemma unat_succ_below:
  assumes "(x :: u64) = 0 \<or> x < y" shows "unat (x + 1) = Suc (unat x)"
proof -
  have "unat y < 2 ^ 64" using unsigned_less [of y] by simp
  then have "Suc (unat x) < 2 ^ LENGTH(64)" using assms by (auto simp: word_less_nat_alt)
  then show ?thesis by (simp add: unat_word_ariths)
qed

lemma word_le_succ:
  assumes "(x :: u64) = 0 \<or> x < y" shows "z \<le> x + 1 \<longleftrightarrow> unat z \<le> Suc (unat x)"
  using unat_succ_below [OF assms] by (simp add: word_le_nat_alt)

section \<open>The promised machine\<close>

text \<open>
  What the breaker promises, with unbounded counts: closed with the number of failures since the last
  success, open since a time, or probing with the number of successes so far.
\<close>

datatype phase = Counting nat | Denying i64 | Probing nat

fun phase_step :: "circuit_breaker_config \<Rightarrow> breaker_event \<Rightarrow> phase \<Rightarrow> phase" where
  "phase_step cfg (Ev_Blocked now) (Denying t) =
    (if enabled cfg \<and> reset_ms cfg \<le> now - t then Probing 0 else Denying t)"
| "phase_step cfg Ev_Success (Counting n) = Counting 0"
| "phase_step cfg Ev_Success (Probing n) =
    (if unat (half_open_success_threshold cfg) \<le> Suc n then Counting 0 else Probing (Suc n))"
| "phase_step cfg (Ev_Failure now) (Counting n) =
    (if unat (failure_threshold cfg) \<le> Suc n then Denying now else Counting (Suc n))"
| "phase_step cfg (Ev_Failure now) (Probing n) = Denying now"
| "phase_step cfg Ev_Reset p = Counting 0"
| "phase_step cfg e p = p"

definition phase_blocked :: "circuit_breaker_config \<Rightarrow> i64 \<Rightarrow> phase \<Rightarrow> bool" where
  "phase_blocked cfg now p = (enabled cfg \<and> (case p of Denying t \<Rightarrow> now - t < reset_ms cfg | _ \<Rightarrow> False))"

definition phase_of :: "circuit_breaker \<Rightarrow> phase" where
  "phase_of b =
    (if cell_state b = CLOSED then Counting (unat (failure_count b))
     else if cell_state b = OPEN then Denying (opened_at b) else Probing (unat (success_count b)))"

lemma phase_step_refines:
  assumes "breaker_inv cfg b"
  shows "phase_of (breaker_step e b) = phase_step cfg e (phase_of b)"
proof -
  from assms have cfg: "config b = cfg" and
    f: "cell_state b = CLOSED \<Longrightarrow> failure_count b = 0 \<or> failure_count b < failure_threshold cfg" and
    s: "cell_state b = HALF_OPEN \<Longrightarrow> success_count b = 0 \<or> success_count b < half_open_success_threshold cfg"
    by (simp_all add: breaker_inv_def)
  from assms consider "cell_state b = CLOSED" | "cell_state b = OPEN" | "cell_state b = HALF_OPEN"
    by (auto simp: breaker_inv_def)
  then show ?thesis
  proof cases
    case 1
    from word_le_succ [OF f [OF 1]] unat_succ_below [OF f [OF 1]] 1 cfg show ?thesis
      by (cases e) (simp_all add: phase_of_def breaker_ops)
  next
    case 2
    with cfg show ?thesis by (cases e) (simp_all add: phase_of_def breaker_ops)
  next
    case 3
    from word_le_succ [OF s [OF 3]] unat_succ_below [OF s [OF 3]] 3 cfg show ?thesis
      by (cases e) (simp_all add: phase_of_def breaker_ops)
  qed
qed

lemma phase_blocked_refines: "breaker_inv cfg b \<Longrightarrow> fst (is_blocked now b) = phase_blocked cfg now (phase_of b)"
  by (auto simp: breaker_inv_def is_blocked_def phase_blocked_def phase_of_def Let_def not_le)

lemma breaker_run_inv: "breaker_inv cfg b \<Longrightarrow> breaker_inv cfg (fold breaker_step es b)"
  by (induction es arbitrary: b) (simp_all add: breaker_inv_step)

lemma breaker_run_refines: "breaker_inv cfg b \<Longrightarrow> phase_of (fold breaker_step es b) = fold (phase_step cfg) es (phase_of b)"
  by (induction es arbitrary: b) (simp_all add: breaker_inv_step phase_step_refines)

lemma breaker_inv_new [simp]: "breaker_inv cfg (circuit_breaker_new cfg)"
  by (simp add: breaker_inv_def circuit_breaker_new_def)

lemma phase_of_new [simp]: "phase_of (circuit_breaker_new cfg) = Counting 0"
  by (simp add: phase_of_def circuit_breaker_new_def)

text \<open>Clock readings after 1970 are ordered as signed and as unsigned words.\<close>

lemma elapsed_unat: "unat t \<le> unat now \<Longrightarrow> unat (now - t :: i64) = unat now - unat t"
  by (simp add: unat_sub word_le_nat_alt)

lemma failures_open:
  "ts \<noteq> [] \<Longrightarrow> n + length ts = max 1 (unat (failure_threshold cfg)) \<Longrightarrow>
   fold (phase_step cfg) (map Ev_Failure ts) (Counting n) = Denying (last ts)"
proof (induction ts arbitrary: n)
  case (Cons t ts)
  then show ?case by (cases "ts = []") (auto simp: neq_Nil_conv max_def split: if_splits)
qed simp

lemma failures_count:
  "n + length ts < unat (failure_threshold cfg) \<Longrightarrow>
   fold (phase_step cfg) (map Ev_Failure ts) (Counting n) = Counting (n + length ts)"
  by (induction ts arbitrary: n) auto

lemma successes_count:
  "n + k < max 1 (unat (half_open_success_threshold cfg)) \<Longrightarrow>
   (phase_step cfg Ev_Success ^^ k) (Probing n) = Probing (n + k)"
  by (induction k arbitrary: n) (auto simp: max_def funpow_swap1 split: if_splits)

lemma successes_close:
  "0 < k \<Longrightarrow> n + k = max 1 (unat (half_open_success_threshold cfg)) \<Longrightarrow>
   (phase_step cfg Ev_Success ^^ k) (Probing n) = Counting 0"
proof (induction k arbitrary: n)
  case (Suc k)
  then show ?case by (cases "k = 0") (auto simp: max_def funpow_swap1 split: if_splits)
qed simp

lemma failure_events: "fold breaker_step (map Ev_Failure ts) b = fold record_failure ts b"
  by (induction ts arbitrary: b) simp_all

lemma success_events: "breaker_step Ev_Success = record_success"
  by (rule ext) simp

lemma phase_of_state:
  "breaker_inv cfg b \<Longrightarrow> breaker_state b =
     Ok (case phase_of b of Counting _ \<Rightarrow> CS_Closed | Denying _ \<Rightarrow> CS_Open | Probing _ \<Rightarrow> CS_HalfOpen)"
  by (auto simp: breaker_inv_def breaker_state_def phase_of_def)

lemma denying_kept:
  assumes "\<forall>e \<in> set es. case e of Ev_Blocked now \<Rightarrow> now - t < reset_ms cfg | Ev_Reset \<Rightarrow> False | _ \<Rightarrow> True"
  shows "fold (phase_step cfg) es (Denying t) = Denying t"
  using assms
proof (induction es)
  case (Cons e es)
  then show ?case by (cases e) (auto simp: not_le)
qed simp

section \<open>Properties\<close>


text \<open>
  An open breaker of any history blocks every caller until the reset timeout has passed since it
  opened: no sequence of successes, failures and calls of \<^verbatim>\<open>is_blocked\<close> within that time lets a call
  through or changes the time it counts from; only a manual reset ends it early.
\<close>

theorem breaker_stays_open:
  assumes "breaker_reachable cfg b" and "enabled cfg" and "breaker_state b = Ok CS_Open"
    and "\<forall>e \<in> set es. case e of Ev_Blocked now \<Rightarrow> now - opened_at b < reset_ms cfg | Ev_Reset \<Rightarrow> False | _ \<Rightarrow> True"
    and "now - opened_at b < reset_ms cfg"
  shows "fst (is_blocked now (fold breaker_step es b)) \<and> breaker_state (fold breaker_step es b) = Ok CS_Open \<and>
    opened_at (fold breaker_step es b) = opened_at b"
proof -
  define b' where "b' = fold breaker_step es b"
  have inv: "breaker_inv cfg b" by (rule breaker_reachable_inv) fact
  have p: "phase_of b = Denying (opened_at b)"
    using assms(3) by (auto simp: breaker_state_def phase_of_def split: if_splits)
  have inv': "breaker_inv cfg b'" unfolding b'_def by (rule breaker_run_inv) (rule inv)
  have p': "phase_of b' = Denying (opened_at b)"
    unfolding b'_def breaker_run_refines [OF inv] p by (rule denying_kept) fact
  have "opened_at b' = opened_at b" using p' by (simp add: phase_of_def split: if_splits)
  then show ?thesis
    using phase_blocked_refines [OF inv'] phase_of_state [OF inv'] p' assms(2, 5)
    by (simp add: phase_blocked_def flip: b'_def)
qed

definition tripped :: circuit_breaker where
  "tripped = record_failure 1000 (circuit_breaker_new (circuit_breaker_config_default\<lparr>enabled := True, failure_threshold := 1\<rparr>))"

lemmas breaker_eval = tripped_def circuit_breaker_new_def circuit_breaker_config_default_def breaker_ops breaker_state_def
  CLOSED_def OPEN_def HALF_OPEN_def reset_ms_def

theorem breaker_stays_open_witness:
  "fst (is_blocked 30999 (fold breaker_step [Ev_Success, Ev_Blocked 2000, Ev_Failure 3000] tripped))"
proof -
  have "breaker_reachable (circuit_breaker_config_default\<lparr>enabled := True, failure_threshold := 1\<rparr>) tripped"
    using breaker_reachable.step [OF breaker_reachable.start, of _ "Ev_Failure 1000"] by (simp add: tripped_def)
  from breaker_stays_open [OF this, of "[Ev_Success, Ev_Blocked 2000, Ev_Failure 3000]" 30999]
  show ?thesis by (simp add: breaker_eval)
qed

text \<open>
  A breaker of any history that is closed with some failures counted stays closed for every number
  of further failures below the threshold, opens at the failure that reaches it, blocks until the reset
  timeout has passed since then and at every later time admits a call; then the promised number of
  successes closes it again with its counters at zero, and fewer successes do not.
\<close>

theorem breaker_trips_and_recovers:
  assumes "breaker_reachable cfg b" and "enabled cfg" and "breaker_state b = Ok CS_Closed"
    and "ts \<noteq> []" and "unat (failure_count b) + length ts = max 1 (unat (failure_threshold cfg))"
    and "k = max 1 (unat (half_open_success_threshold cfg))"
  shows "let run = \<lambda>ts. fold record_failure ts b; opened = run ts in
    (\<forall>i < length ts. breaker_state (run (take i ts)) = Ok CS_Closed) \<and>
    breaker_state opened = Ok CS_Open \<and>
    (\<forall>now. unat (last ts) \<le> unat now \<longrightarrow>
      (let (blocked, probing) = is_blocked now opened in
       blocked = (unat now < unat (last ts) + unat (reset_ms cfg)) \<and>
       (\<not> blocked \<longrightarrow>
         (\<forall>i < k. breaker_state ((record_success ^^ i) probing) = Ok CS_HalfOpen) \<and>
         breaker_state ((record_success ^^ k) probing) = Ok CS_Closed \<and>
         failure_count ((record_success ^^ k) probing) = 0)))"
proof -
  have inv: "breaker_inv cfg b" by (rule breaker_reachable_inv) fact
  have p: "phase_of b = Counting (unat (failure_count b))"
    using assms(3) by (auto simp: breaker_state_def phase_of_def split: if_splits)
  have run: "breaker_inv cfg (fold record_failure us b)"
    "phase_of (fold record_failure us b) = fold (phase_step cfg) (map Ev_Failure us) (phase_of b)" for us
    using breaker_run_inv [OF inv, of "map Ev_Failure us"] breaker_run_refines [OF inv, of "map Ev_Failure us"]
    by (simp_all add: failure_events)
  have closed: "breaker_state (fold record_failure (take i ts) b) = Ok CS_Closed" if "i < length ts" for i
  proof -
    from that assms(5) consider "i = 0" | "unat (failure_count b) + length (take i ts) < unat (failure_threshold cfg)"
      by (auto simp: max_def split: if_splits)
    then show ?thesis
      by cases (use assms(3) phase_of_state [OF run(1), of "take i ts"] in \<open>simp_all add: run p failures_count\<close>)
  qed
  define d where "d = fold record_failure ts b"
  have dinv: "breaker_inv cfg d" and dp: "phase_of d = Denying (last ts)"
    using run [of ts] assms(4, 5) by (simp_all add: d_def p failures_open)
  have blocked: "fst (is_blocked now d) = (unat now < unat (last ts) + unat (reset_ms cfg))"
    if "unat (last ts) \<le> unat now" for now
    using phase_blocked_refines [OF dinv] elapsed_unat [OF that] that assms(2)
    by (auto simp: phase_blocked_def dp word_less_nat_alt)
  have k: "0 < k" using assms(6) by simp
  have probing: "breaker_state ((record_success ^^ i) (snd (is_blocked now d))) = Ok CS_HalfOpen" (is ?probing)
    "breaker_state ((record_success ^^ k) (snd (is_blocked now d))) = Ok CS_Closed \<and>
     failure_count ((record_success ^^ k) (snd (is_blocked now d))) = 0" (is ?closed)
    if "\<not> fst (is_blocked now d)" "i < k" for i now
  proof -
    have inv': "breaker_inv cfg ((record_success ^^ j) (snd (is_blocked now d)))" for j
      using breaker_run_inv [OF breaker_inv_step [OF dinv, of "Ev_Blocked now"], of "replicate j Ev_Success"]
      by (simp add: success_events)
    have ph: "phase_of ((record_success ^^ j) (snd (is_blocked now d))) =
        (phase_step cfg Ev_Success ^^ j) (Probing 0)" for j
      using breaker_run_refines [OF dinv, of "Ev_Blocked now # replicate j Ev_Success"] that(1)
        phase_blocked_refines [OF dinv] assms(2)
      by (simp add: success_events dp phase_blocked_def not_less)
    show ?probing using phase_of_state [OF inv'] that(2) assms(6) by (simp add: ph successes_count)
    have "phase_of ((record_success ^^ k) (snd (is_blocked now d))) = Counting 0"
      using assms(6) by (simp add: ph successes_close)
    then show ?closed using phase_of_state [OF inv', of k] by (auto simp: phase_of_def unsigned_eq_0_iff split: if_splits)
  qed
  show ?thesis
    using closed blocked probing(1) probing(2) [OF _ k] phase_of_state [OF dinv]
    by (auto simp: Let_def case_prod_unfold dp simp flip: d_def)
qed

theorem breaker_trips_and_recovers_witness:
  "let cfg = \<lparr>enabled = True, failure_threshold = 2, reset_timeout = 10 ^ 9, half_open_success_threshold = 2\<rparr>;
       opened = fold record_failure [5, 7] (circuit_breaker_new cfg); (blocked, probing) = is_blocked 1007 opened in
   breaker_state opened = Ok CS_Open \<and> \<not> blocked \<and> breaker_state ((record_success ^^ 2) probing) = Ok CS_Closed"
proof -
  let ?cfg = "\<lparr>enabled = True, failure_threshold = 2, reset_timeout = 10 ^ 9, half_open_success_threshold = 2\<rparr>"
  let ?opened = "fold record_failure [5, 7] (circuit_breaker_new ?cfg)"
  have closed: "breaker_state (circuit_breaker_new ?cfg) = Ok CS_Closed" by (simp add: breaker_eval)
  have counts: "unat (failure_count (circuit_breaker_new ?cfg)) + length [5, 7 :: i64] = max 1 (unat (failure_threshold ?cfg))"
    "2 = max 1 (unat (half_open_success_threshold ?cfg))"
    by (simp_all add: circuit_breaker_new_def)
  have timeout: "unat (last [5, 7 :: i64]) \<le> unat (1007 :: i64)"
    "\<not> unat (1007 :: i64) < unat (last [5, 7 :: i64]) + unat (reset_ms ?cfg)"
    by (simp_all add: reset_ms_def)
  note result = breaker_trips_and_recovers [OF breaker_reachable.start _ closed _ counts(1) counts(2),
    unfolded Let_def case_prod_unfold, simplified circuit_breaker_config.select_convs, OF TrueI list.distinct(2)]
  from result [THEN conjunct2, THEN conjunct2, rule_format, OF timeout(1)] result timeout(2)
  show ?thesis unfolding Let_def case_prod_unfold by blast
qed

section \<open>The window between the two stores\<close>

text \<open>
  \<^verbatim>\<open>record_failure\<close> stores the state before the time.  A call of \<^verbatim>\<open>is_blocked\<close> on another thread between
  the two stores reads the time of the previous opening, 0 for the first one, and lets its caller through.
\<close>

lemma opening_window:
  assumes "breaker_reachable cfg b" "enabled cfg" "cell_state b = CLOSED" "opened_at b = 0" "reset_ms cfg \<le> now"
    and "failure_threshold cfg \<le> failure_count b + 1"
  shows "let seen = publish_open (b\<lparr>failure_count := failure_count b + 1\<rparr>) in
    record_failure now b = stamp_opened now seen \<and> \<not> fst (is_blocked now seen) \<and>
    breaker_state (stamp_opened now (snd (is_blocked now seen))) = Ok CS_HalfOpen"
  using breaker_reachable_inv [OF assms(1)] assms(2-)
  by (simp add: breaker_inv_def breaker_ops breaker_state_def)

text \<open>A clock that is set back makes the elapsed time negative, which as an unsigned number is past every timeout.\<close>

lemma clock_set_back: "unat now < unat t \<Longrightarrow> unat t < 2 ^ 63 \<Longrightarrow> 2 ^ 63 < unat (now - t :: i64)"
  by (simp add: unat_sub_if_size word_size word_le_nat_alt)

end
