(* ===== verification/Reasons.thy ===== *)
theory Reasons
  imports V5_Types
begin

text \<open>
  Errors and reasons of the broker: \<^verbatim>\<open>MqttError\<close> (\<^verbatim>\<open>net/error.rs\<close>), \<^verbatim>\<open>Reason\<close>, \<^verbatim>\<open>PublishResult\<close> and the two
  results of an access check (\<^verbatim>\<open>types.rs\<close>), with the conversions that turn a failure of any layer into the
  code of a DISCONNECT packet or the result of a publish.
\<close>

section \<open>Texts\<close>

definition text_bytes :: "string \<Rightarrow> bytes" where
  "text_bytes s = map of_char s"

fun show_nat :: "nat \<Rightarrow> bytes" where
  "show_nat n = (if n < 10 then [48 + of_nat n] else show_nat (n div 10) @ [48 + of_nat (n mod 10)])"

declare show_nat.simps [simp del]

section \<open>Errors\<close>

datatype mqtt_error =
    ME_Handshake handshake_error
  | ME_Protocol protocol_error
  | ME_Decode decode_error
  | ME_Encode encode_error
  | ME_SendPacket send_packet_error
  | ME_ReadTimeout
  | ME_WriteTimeout
  | ME_FlushTimeout
  | ME_CloseTimeout
  | ME_PublishAckReason publish_ack_reason bytes
  | ME_ServiceUnavailable
  | ME_InvalidProtocol
  | ME_TooManySubscriptions
  | ME_TooManyTopicLevels
  | ME_SubscribeLimited bytes
  | ME_IdentifierRejected
  | ME_PacketIdInUse u16
  | ME_None

fun mqtt_error_to_reason_code :: "mqtt_error \<Rightarrow> disconnect_reason_code" where
  "mqtt_error_to_reason_code (ME_Handshake e) = handshake_error_to_reason_code e"
| "mqtt_error_to_reason_code (ME_Protocol e) = protocol_error_to_reason_code e"
| "mqtt_error_to_reason_code (ME_Decode e) = decode_error_to_reason_code e"
| "mqtt_error_to_reason_code (ME_Encode e) = encode_error_to_reason_code e"
| "mqtt_error_to_reason_code (ME_SendPacket e) = send_packet_error_to_reason_code e"
| "mqtt_error_to_reason_code ME_ReadTimeout = DRC_KeepAliveTimeout"
| "mqtt_error_to_reason_code ME_WriteTimeout = DRC_KeepAliveTimeout"
| "mqtt_error_to_reason_code ME_FlushTimeout = DRC_KeepAliveTimeout"
| "mqtt_error_to_reason_code ME_CloseTimeout = DRC_KeepAliveTimeout"
| "mqtt_error_to_reason_code (ME_PublishAckReason _ _) = DRC_ImplementationSpecificError"
| "mqtt_error_to_reason_code ME_ServiceUnavailable = DRC_ServerBusy"
| "mqtt_error_to_reason_code ME_InvalidProtocol = DRC_ProtocolError"
| "mqtt_error_to_reason_code ME_TooManySubscriptions = DRC_QuotaExceeded"
| "mqtt_error_to_reason_code ME_TooManyTopicLevels = DRC_TopicNameInvalid"
| "mqtt_error_to_reason_code (ME_SubscribeLimited _) = DRC_QuotaExceeded"
| "mqtt_error_to_reason_code ME_IdentifierRejected = DRC_NotAuthorized"
| "mqtt_error_to_reason_code (ME_PacketIdInUse _) = DRC_UnspecifiedError"
| "mqtt_error_to_reason_code ME_None = DRC_UnspecifiedError"

text \<open>An \<^verbatim>\<open>anyhow::Error\<close> holds an error of the broker, which a downcast recovers, or another error with a text.\<close>

datatype any_error = E_Mqtt mqtt_error | E_Other bytes

section \<open>Results\<close>

record publish_result =
  pr_reason_code :: publish_ack_reason
  pr_properties :: user_properties
  pr_reason_string :: "bytes option"
  pr_disconnect :: bool

definition publish_result_default :: publish_result where
  "publish_result_default = \<lparr>pr_reason_code = PAR_Success, pr_properties = [], pr_reason_string = None, pr_disconnect = False\<rparr>"

definition publish_result_success :: publish_result where
  "publish_result_success = publish_result_default\<lparr>pr_reason_code := PAR_Success\<rparr>"

definition publish_result_reason_code :: "publish_ack_reason \<Rightarrow> bytes option \<Rightarrow> bool \<Rightarrow> publish_result" where
  "publish_result_reason_code code s d =
    publish_result_default\<lparr>pr_reason_code := code, pr_reason_string := s, pr_disconnect := d\<rparr>"

definition publish_result_is_success :: "publish_result \<Rightarrow> bool" where
  "publish_result_is_success r \<longleftrightarrow> pr_reason_code r = PAR_Success"

datatype disconnect = D_V3 | D_V5 v5_disconnect | D_Other bytes

fun disconnect_reason_code_of :: "disconnect \<Rightarrow> disconnect_reason_code option" where
  "disconnect_reason_code_of D_V3 = None"
| "disconnect_reason_code_of (D_V5 d) = Some (di_reason_code d)"
| "disconnect_reason_code_of (D_Other _) = None"

fun disconnect_reason :: "disconnect \<Rightarrow> bytes option" where
  "disconnect_reason D_V3 = None"
| "disconnect_reason (D_V5 d) = di_reason_string d"
| "disconnect_reason (D_Other r) = Some r"

section \<open>Reasons\<close>

datatype reason =
    R_ConnectDisconnect "disconnect option"
  | R_ConnectReadWriteTimeout
  | R_ConnectReadWriteError
  | R_ConnectRemoteClose
  | R_ConnectKeepaliveTimeout
  | R_ConnectKicked bool
  | R_HandshakeRateExceeded
  | R_SessionExpiration
  | R_SubscribeFailed "bytes option"
  | R_UnsubscribeFailed "bytes option"
  | R_PublishResult publish_result
  | R_SubscribeRefused
  | R_DelayedPublishRefused
  | R_MessageExpiration
  | R_MessageQueueFull
  | R_InflightWindowFull
  | R_ProtocolError bytes
  | R_Error bytes
  | R_MqttError mqtt_error
  | R_Reasons "reason list"
  | R_Unknown

fun is_kicked :: "bool \<Rightarrow> reason \<Rightarrow> bool" where
  "is_kicked admin_opt (R_ConnectKicked a) = (a = admin_opt)"
| "is_kicked admin_opt _ = False"

fun is_kicked_by_admin :: "reason \<Rightarrow> bool" where
  "is_kicked_by_admin (R_ConnectKicked True) = True"
| "is_kicked_by_admin _ = False"

definition reason_of_str :: "bytes \<Rightarrow> reason" where
  "reason_of_str s = R_Error s"

definition reason_of_mqtt_error :: "mqtt_error \<Rightarrow> reason" where
  "reason_of_mqtt_error e = R_MqttError e"

fun reason_of_error :: "any_error \<Rightarrow> reason" where
  "reason_of_error (E_Mqtt e) = R_MqttError e"
| "reason_of_error (E_Other s) = R_Error s"

definition publish_failure :: "publish_ack_reason \<Rightarrow> bytes \<Rightarrow> bool \<Rightarrow> publish_result" where
  "publish_failure code s d = \<lparr>pr_reason_code = code, pr_properties = [], pr_reason_string = Some s, pr_disconnect = d\<rparr>"

fun publish_result_of_reason :: "reason \<Rightarrow> publish_result" where
  "publish_result_of_reason (R_PublishResult r) = r"
| "publish_result_of_reason R_MessageQueueFull =
    publish_failure PAR_QuotaExceeded (text_bytes ''Message queue full'') False"
| "publish_result_of_reason R_InflightWindowFull =
    publish_failure PAR_QuotaExceeded (text_bytes ''Inflight window full'') False"
| "publish_result_of_reason R_SubscribeRefused =
    publish_failure PAR_ImplementationSpecificError (text_bytes ''Publish refused'') False"
| "publish_result_of_reason R_DelayedPublishRefused =
    publish_failure PAR_ImplementationSpecificError (text_bytes ''Publish refused'') False"
| "publish_result_of_reason R_MessageExpiration =
    publish_failure PAR_UnspecifiedError (text_bytes ''Message expired'') True"
| "publish_result_of_reason (R_ProtocolError msg) =
    publish_failure PAR_UnspecifiedError (text_bytes ''Protocol error: '' @ msg) True"
| "publish_result_of_reason (R_Error msg) = publish_failure PAR_ImplementationSpecificError msg True"
| "publish_result_of_reason (R_MqttError _) =
    publish_failure PAR_UnspecifiedError (text_bytes ''MQTT internal error'') True"
| "publish_result_of_reason _ =
    publish_failure PAR_UnspecifiedError (text_bytes ''Connection or session related error'') True"

fun reason_to_reason_code :: "reason \<Rightarrow> disconnect_reason_code" where
  "reason_to_reason_code (R_ConnectDisconnect (Some (D_V5 d))) = di_reason_code d"
| "reason_to_reason_code (R_ConnectDisconnect _) = NormalDisconnection"
| "reason_to_reason_code R_ConnectReadWriteTimeout = DRC_KeepAliveTimeout"
| "reason_to_reason_code R_ConnectReadWriteError = DRC_UnspecifiedError"
| "reason_to_reason_code R_ConnectRemoteClose = DRC_ServerShuttingDown"
| "reason_to_reason_code R_ConnectKeepaliveTimeout = DRC_KeepAliveTimeout"
| "reason_to_reason_code (R_ConnectKicked is_admin) =
    (if is_admin then DRC_AdministrativeAction else DRC_NotAuthorized)"
| "reason_to_reason_code R_HandshakeRateExceeded = DRC_ConnectionRateExceeded"
| "reason_to_reason_code R_SessionExpiration = DRC_SessionTakenOver"
| "reason_to_reason_code (R_SubscribeFailed _) = DRC_UnspecifiedError"
| "reason_to_reason_code (R_UnsubscribeFailed _) = DRC_UnspecifiedError"
| "reason_to_reason_code R_SubscribeRefused = DRC_NotAuthorized"
| "reason_to_reason_code (R_PublishResult r) = publish_ack_reason_to_reason_code (pr_reason_code r)"
| "reason_to_reason_code R_DelayedPublishRefused = DRC_NotAuthorized"
| "reason_to_reason_code R_MessageExpiration = DRC_MessageRateTooHigh"
| "reason_to_reason_code R_MessageQueueFull = DRC_QuotaExceeded"
| "reason_to_reason_code R_InflightWindowFull = DRC_ReceiveMaximumExceeded"
| "reason_to_reason_code (R_ProtocolError _) = DRC_ProtocolError"
| "reason_to_reason_code (R_Error _) = DRC_UnspecifiedError"
| "reason_to_reason_code (R_MqttError e) = mqtt_error_to_reason_code e"
| "reason_to_reason_code (R_Reasons (r # _)) = reason_to_reason_code r"
| "reason_to_reason_code (R_Reasons []) = DRC_UnspecifiedError"
| "reason_to_reason_code R_Unknown = DRC_UnspecifiedError"

end
