(* ===== verification/Topic.thy ===== *)
theory Topic
  imports Prelude
begin

text \<open>
  Topics and topic filters (\<^verbatim>\<open>topic.rs\<close>): parsing into levels, validation, printing and the two
  matching functions, compared with the matching rules of the MQTT specification.  A string is the
  list of its UTF-8 bytes; the delimiters are ASCII characters.
\<close>

section \<open>Levels\<close>

datatype topic_error = InvalidTopic string | InvalidLevel string

datatype level = Normal string | Metadata string | Blank | SingleWildcard | MultiWildcard

type_synonym topic = "level list"

definition starts_with :: "char \<Rightarrow> string \<Rightarrow> bool" where
  "starts_with c s = (case s of [] \<Rightarrow> False | x # _ \<Rightarrow> x = c)"

definition is_metadata_str :: "string \<Rightarrow> bool" where
  "is_metadata_str s = starts_with CHR ''$'' s"

text \<open>\<^verbatim>\<open>s.contains(['+', '#'])\<close>\<close>

definition contains_wildcard :: "string \<Rightarrow> bool" where
  "contains_wildcard s = list_ex (\<lambda>c. c = CHR ''+'' \<or> c = CHR ''#'') s"

definition level_normal :: "string \<Rightarrow> (level, topic_error) res" where
  "level_normal s =
     (if contains_wildcard s
      then Err (InvalidLevel (''invalid normal level '' @ [CHR 0x60] @ s @ [CHR 0x60] @ '' contains +|#''))
      else if starts_with CHR ''$'' s
      then Err (InvalidLevel (''invalid normal level '' @ [CHR 0x60] @ s @ [CHR 0x60] @ '' starts with $''))
      else Ok (Normal s))"

definition level_metadata :: "string \<Rightarrow> (level, topic_error) res" where
  "level_metadata s =
     (if contains_wildcard s
      then Err (InvalidLevel (''invalid metadata level '' @ [CHR 0x60] @ s @ [CHR 0x60] @ '' contains +|#''))
      else if \<not> starts_with CHR ''$'' s
      then Err (InvalidLevel (''invalid metadata level '' @ [CHR 0x60] @ s @ [CHR 0x60] @ '' not starts with $''))
      else Ok (Metadata s))"

fun level_value :: "level \<Rightarrow> string option" where
  "level_value (Normal s) = Some s"
| "level_value (Metadata s) = Some s"
| "level_value _ = None"

fun is_normal :: "level \<Rightarrow> bool" where
  "is_normal (Normal _) = True"
| "is_normal _ = False"

fun is_metadata :: "level \<Rightarrow> bool" where
  "is_metadata (Metadata _) = True"
| "is_metadata _ = False"

fun level_is_valid :: "level \<Rightarrow> bool" where
  "level_is_valid (Normal s) = (\<not> starts_with CHR ''$'' s \<and> \<not> contains_wildcard s)"
| "level_is_valid (Metadata s) = (starts_with CHR ''$'' s \<and> \<not> contains_wildcard s)"
| "level_is_valid _ = True"

definition level_from_str :: "string \<Rightarrow> (level, topic_error) res" where
  "level_from_str s =
     (if s = ''+'' then Ok SingleWildcard
      else if s = ''#'' then Ok MultiWildcard
      else if s = [] then Ok Blank
      else if contains_wildcard s
      then Err (InvalidLevel (''invalid level '' @ [CHR 0x60] @ s @ [CHR 0x60] @ '' contains +|#''))
      else if is_metadata_str s then Ok (Metadata s)
      else Ok (Normal s))"

section \<open>Topics\<close>

text \<open>\<^verbatim>\<open>Iterator::position\<close>\<close>

primrec position :: "('a \<Rightarrow> bool) \<Rightarrow> 'a list \<Rightarrow> nat option" where
  "position P [] = None"
| "position P (x # xs) = (if P x then Some 0 else map_option Suc (position P xs))"

definition misplaced :: "nat \<Rightarrow> nat \<times> level \<Rightarrow> bool" where
  "misplaced len pl = (case pl of
       (pos, MultiWildcard) \<Rightarrow> pos \<noteq> len - 1
     | (pos, Metadata _) \<Rightarrow> pos \<noteq> 0
     | _ \<Rightarrow> False)"

definition topic_is_valid :: "topic \<Rightarrow> bool" where
  "topic_is_valid t =
     ((case position (\<lambda>l. \<not> level_is_valid l) t of
         Some p \<Rightarrow> Some p
       | None \<Rightarrow> position (misplaced (length t)) (enumerate 0 t)) = None)"

text \<open>\<^verbatim>\<open>str::split\<close> with a character\<close>

fun split_on :: "char \<Rightarrow> string \<Rightarrow> string list" where
  "split_on c [] = [[]]"
| "split_on c (x # s) = (if x = c then [] # split_on c s
     else (case split_on c s of h # t \<Rightarrow> (x # h) # t | [] \<Rightarrow> [[x]]))"

definition topic_from_str :: "string \<Rightarrow> (topic, topic_error) res" where
  "topic_from_str s = bind_res (collect_res level_from_str (split_on CHR ''/'' s)) (\<lambda>t.
     if topic_is_valid t then Ok t
     else Err (InvalidTopic (''invalid topic '' @ [CHR 0x60] @ s @ [CHR 0x60])))"

fun level_to_string :: "level \<Rightarrow> string" where
  "level_to_string (Normal s) = s"
| "level_to_string (Metadata s) = s"
| "level_to_string Blank = []"
| "level_to_string SingleWildcard = ''+''"
| "level_to_string MultiWildcard = ''#''"

text \<open>\<^verbatim>\<open>Vec<String>::join\<close>\<close>

fun join :: "char \<Rightarrow> string list \<Rightarrow> string" where
  "join c [] = []"
| "join c [s] = s"
| "join c (s # t # ts) = s @ c # join c (t # ts)"

text \<open>The loop of \<^verbatim>\<open>Display for Topic\<close>, with its flag and the text written so far.\<close>

fun topic_fmt :: "bool \<Rightarrow> topic \<Rightarrow> string \<Rightarrow> string" where
  "topic_fmt first [] out = out"
| "topic_fmt first (l # ls) out =
     topic_fmt False ls ((if first then out else out @ [CHR ''/'']) @ level_to_string l)"

definition topic_to_string :: "topic \<Rightarrow> string" where
  "topic_to_string t = topic_fmt True t []"

definition to_string_skip :: "topic \<Rightarrow> nat \<Rightarrow> string" where
  "to_string_skip t skip = join CHR ''/'' (map level_to_string (drop skip t))"

section \<open>Matching\<close>

fun level_match_level :: "level \<Rightarrow> level \<Rightarrow> bool" where
  "level_match_level self (Normal lhs) = (case self of Normal rhs \<Rightarrow> lhs = rhs | _ \<Rightarrow> False)"
| "level_match_level self (Metadata lhs) = (case self of Metadata rhs \<Rightarrow> lhs = rhs | _ \<Rightarrow> False)"
| "level_match_level self Blank = True"
| "level_match_level self SingleWildcard = (\<not> is_metadata self)"
| "level_match_level self MultiWildcard = (\<not> is_metadata self)"

fun str_match_level :: "string \<Rightarrow> level \<Rightarrow> bool" where
  "str_match_level self (Normal lhs) = (\<not> is_metadata_str self \<and> lhs = self)"
| "str_match_level self (Metadata lhs) = (is_metadata_str self \<and> lhs = self)"
| "str_match_level self Blank = (self = [])"
| "str_match_level self SingleWildcard = (\<not> is_metadata_str self)"
| "str_match_level self MultiWildcard = (\<not> is_metadata_str self)"

text \<open>
  The macro \<^verbatim>\<open>matches!\<close>: the loop over the levels of the topic, and the test after it on what remains
  of the filter.  A \<^verbatim>\<open>+\<close> that does not match leaves the loop instead of the function.
\<close>

fun after_loop :: "level list \<Rightarrow> bool" where
  "after_loop (MultiWildcard # _) = True"
| "after_loop (_ # _) = False"
| "after_loop [] = True"

fun matches_loop :: "('r \<Rightarrow> level \<Rightarrow> bool) \<Rightarrow> level list \<Rightarrow> 'r list \<Rightarrow> bool" where
  "matches_loop match_level lhs [] = after_loop lhs"
| "matches_loop match_level [] (rhs # levels) = False"
| "matches_loop match_level (SingleWildcard # lhs) (rhs # levels) =
     (if \<not> match_level rhs SingleWildcard then after_loop lhs else matches_loop match_level lhs levels)"
| "matches_loop match_level (MultiWildcard # lhs) (rhs # levels) = match_level rhs MultiWildcard"
| "matches_loop match_level (l # lhs) (rhs # levels) =
     (if match_level rhs l then matches_loop match_level lhs levels else False)"

definition topic_matches :: "topic \<Rightarrow> topic \<Rightarrow> bool" where
  "topic_matches self t = matches_loop level_match_level self t"

definition topic_matches_str :: "topic \<Rightarrow> string \<Rightarrow> bool" where
  "topic_matches_str self s = matches_loop str_match_level self (split_on CHR ''/'' s)"

section \<open>Splitting and joining\<close>

lemma split_on_not_Nil [simp]: "split_on c s \<noteq> []"
  by (induction c s rule: split_on.induct) (auto split: list.splits)

lemma join_Cons: "ss \<noteq> [] \<Longrightarrow> join c (s # ss) = s @ c # join c ss"
  by (cases ss) auto

lemma join_split_on [simp]: "join c (split_on c s) = s"
proof (induction c s rule: split_on.induct)
  case (2 c x s)
  show ?case
  proof (cases "split_on c s")
    case (Cons h t)
    with 2 show ?thesis by (cases t) (auto simp: join_Cons)
  qed simp
qed simp

lemma split_on_no_delimiter: "c \<notin> set s \<Longrightarrow> split_on c s = [s]"
  by (induction s) auto

lemma split_on_append:
  "c \<notin> set s \<Longrightarrow> split_on c (s @ c # rest) = s # split_on c rest"
  by (induction s) auto

lemma split_on_join:
  "ss \<noteq> [] \<Longrightarrow> (\<And>s. s \<in> set ss \<Longrightarrow> c \<notin> set s) \<Longrightarrow> split_on c (join c ss) = ss"
  by (induction c ss rule: join.induct) (auto simp: split_on_append split_on_no_delimiter)

lemma split_on_pieces: "s' \<in> set (split_on c s) \<Longrightarrow> c \<notin> set s'"
  by (induction c s arbitrary: s' rule: split_on.induct) (auto split: list.splits if_splits)

lemma topic_fmt_join:
  "topic_fmt first ls out =
     (if ls = [] then out else if first then out @ join CHR ''/'' (map level_to_string ls)
      else out @ CHR ''/'' # join CHR ''/'' (map level_to_string ls))"
  by (induction first ls out rule: topic_fmt.induct) (auto simp: join_Cons)

lemma topic_to_string_join: "topic_to_string t = join CHR ''/'' (map level_to_string t)"
  by (simp add: topic_to_string_def topic_fmt_join)

lemma to_string_skip_topic: "to_string_skip t n = topic_to_string (drop n t)"
  by (simp add: to_string_skip_def topic_to_string_join)

section \<open>Validity\<close>

lemma position_None: "position P xs = None \<longleftrightarrow> list_all (\<lambda>x. \<not> P x) xs"
  by (induction xs) auto

text \<open>The rules of the specification: \<^verbatim>\<open>#\<close> comes last, a \<^verbatim>\<open>$\<close> level comes first.\<close>

fun well_placed :: "level list \<Rightarrow> bool" where
  "well_placed [] = True"
| "well_placed (MultiWildcard # ls) = (ls = [])"
| "well_placed (Metadata s # ls) = False"
| "well_placed (l # ls) = well_placed ls"

definition well_placed_topic :: "level list \<Rightarrow> bool" where
  "well_placed_topic t = (case t of Metadata s # ls \<Rightarrow> well_placed ls | _ \<Rightarrow> well_placed t)"

lemma misplaced_tail:
  "0 < n \<Longrightarrow> list_all (\<lambda>x. \<not> misplaced (n + length ls) x) (enumerate n ls) \<longleftrightarrow> well_placed ls"
proof (induction ls arbitrary: n)
  case (Cons l ls)
  from Cons.IH [of "Suc n"] Cons.prems show ?case
    by (cases l) (auto simp: misplaced_def)
qed simp

lemma topic_is_valid_iff: "topic_is_valid t \<longleftrightarrow> list_all level_is_valid t \<and> well_placed_topic t"
proof -
  have "list_all (\<lambda>x. \<not> misplaced (length t) x) (enumerate 0 t) \<longleftrightarrow> well_placed_topic t"
  proof (cases t)
    case (Cons l ls)
    then show ?thesis
      using misplaced_tail [of 1 ls] by (cases l) (auto simp: misplaced_def well_placed_topic_def)
  qed (simp add: well_placed_topic_def)
  moreover have "list_all level_is_valid t \<longleftrightarrow> position (\<lambda>l. \<not> level_is_valid l) t = None"
    by (simp add: position_None)
  ultimately show ?thesis
    unfolding topic_is_valid_def position_None [symmetric]
    by (cases "position (\<lambda>l. \<not> level_is_valid l) t") simp_all
qed

text \<open>Levels with a printed form that is read back as the level.\<close>

fun canonical_level :: "level \<Rightarrow> bool" where
  "canonical_level (Normal s) = (s \<noteq> [] \<and> CHR ''/'' \<notin> set s)"
| "canonical_level (Metadata s) = (CHR ''/'' \<notin> set s)"
| "canonical_level _ = True"

definition canonical :: "topic \<Rightarrow> bool" where
  "canonical t \<longleftrightarrow> t \<noteq> [] \<and> list_all canonical_level t \<and> topic_is_valid t"

lemma level_from_str_iff:
  "CHR ''/'' \<notin> set s \<Longrightarrow>
   level_from_str s = Ok l \<longleftrightarrow> canonical_level l \<and> level_is_valid l \<and> s = level_to_string l"
  by (cases l) (auto simp: level_from_str_def is_metadata_str_def contains_wildcard_def starts_with_def
      split: if_splits list.splits)

lemma level_to_string_no_delimiter:
  "canonical_level l \<Longrightarrow> level_is_valid l \<Longrightarrow> CHR ''/'' \<notin> set (level_to_string l)"
  by (cases l) auto

lemma level_from_str_no_panic [simp]: "level_from_str s \<noteq> Panic"
  by (simp add: level_from_str_def)

lemma collect_levels:
  assumes "\<And>s. s \<in> set ss \<Longrightarrow> CHR ''/'' \<notin> set s"
  shows "collect_res level_from_str ss = Ok t \<longleftrightarrow>
    list_all canonical_level t \<and> list_all level_is_valid t \<and> ss = map level_to_string t"
  using assms
  by (induction ss arbitrary: t)
    (auto simp: collect_res_eq_Ok list_all2_Cons1 level_from_str_iff Cons_eq_map_conv)

lemma topic_from_str_iff: "topic_from_str s = Ok t \<longleftrightarrow> canonical t \<and> s = topic_to_string t"
proof
  assume "topic_from_str s = Ok t"
  then have c: "collect_res level_from_str (split_on CHR ''/'' s) = Ok t" and v: "topic_is_valid t"
    by (auto simp: topic_from_str_def split: if_splits)
  from c have l: "list_all canonical_level t" and sp: "split_on CHR ''/'' s = map level_to_string t"
    by (auto simp: collect_levels split_on_pieces)
  have "t \<noteq> []"
    using sp split_on_not_Nil by (metis list.map_disc_iff)
  moreover have "s = topic_to_string t"
    using join_split_on [of "CHR ''/''" s] unfolding sp topic_to_string_join by simp
  ultimately show "canonical t \<and> s = topic_to_string t"
    using v l by (simp add: canonical_def)
next
  assume c: "canonical t \<and> s = topic_to_string t"
  then have "split_on CHR ''/'' s = map level_to_string t"
    unfolding topic_to_string_join
    by (auto simp: canonical_def list_all_iff topic_is_valid_iff level_to_string_no_delimiter
        intro!: split_on_join)
  moreover have "collect_res level_from_str (map level_to_string t) = Ok t"
    using c by (subst collect_levels)
      (auto simp: canonical_def topic_is_valid_iff list_all_iff level_to_string_no_delimiter)
  ultimately show "topic_from_str s = Ok t"
    using c by (simp add: topic_from_str_def canonical_def)
qed

section \<open>The matching rules of the specification\<close>

text \<open>
  Sections 4.7.1 and 4.7.2 of the MQTT specification: levels match one by one, \<^verbatim>\<open>+\<close> matches one level,
  \<^verbatim>\<open>#\<close> in last position matches the parent and everything below it, and a filter that starts with
  a wildcard does not match a topic that starts with \<^verbatim>\<open>$\<close>.
\<close>

fun filter_matches :: "level list \<Rightarrow> level list \<Rightarrow> bool" where
  "filter_matches [] t = (t = [])"
| "filter_matches (MultiWildcard # f) t = (f = [])"
| "filter_matches (SingleWildcard # f) t = (case t of [] \<Rightarrow> False | _ # t' \<Rightarrow> filter_matches f t')"
| "filter_matches (l # f) t = (case t of [] \<Rightarrow> False | m # t' \<Rightarrow> l = m \<and> filter_matches f t')"

definition is_wildcard :: "level \<Rightarrow> bool" where
  "is_wildcard l \<longleftrightarrow> l = SingleWildcard \<or> l = MultiWildcard"

definition dollar_isolated :: "level list \<Rightarrow> level list \<Rightarrow> bool" where
  "dollar_isolated f t = (case f of [] \<Rightarrow> False
     | l # _ \<Rightarrow> is_wildcard l \<and> (case t of [] \<Rightarrow> False | m # _ \<Rightarrow> is_metadata m))"

definition mqtt_matches :: "level list \<Rightarrow> level list \<Rightarrow> bool" where
  "mqtt_matches f t \<longleftrightarrow> filter_matches f t \<and> \<not> dollar_isolated f t"

text \<open>A topic name: the levels of a published topic, without wildcards.\<close>

definition topic_name :: "topic \<Rightarrow> bool" where
  "topic_name t = list_all (\<lambda>l. \<not> is_wildcard l) t"

section \<open>The loop of the macro against the rules\<close>

definition level_rule :: "level \<Rightarrow> level \<Rightarrow> bool" where
  "level_rule m l = (if is_wildcard l then \<not> is_metadata m else l = m)"

lemma filter_matches_Nil: "well_placed f \<Longrightarrow> filter_matches f [] \<longleftrightarrow> f = [] \<or> f = [MultiWildcard]"
  by (cases f rule: well_placed.cases) auto

lemma after_loop_iff: "well_placed f \<Longrightarrow> after_loop f \<longleftrightarrow> f = [] \<or> f = [MultiWildcard]"
  by (cases f rule: after_loop.cases) auto

lemma matches_loop_rule:
  assumes "list_all2 (\<lambda>r m. \<forall>l \<in> F. match_level r l = level_rule m l) rs t" and "set f \<subseteq> F"
    and "well_placed f" and "list_all (\<lambda>m. \<not> is_metadata m) t"
  shows "matches_loop match_level f rs = filter_matches f t"
  using assms
proof (induction f arbitrary: rs t)
  case Nil
  then show ?case by (cases rs) (auto simp: list_all2_Cons1)
next
  case (Cons l f)
  show ?case
  proof (cases rs)
    case Nil
    with Cons.prems show ?thesis by (simp add: after_loop_iff filter_matches_Nil)
  next
    case (Cons r rs')
    with Cons.prems obtain m t' where t: "t = m # t'"
      and "match_level r l = level_rule m l" "\<not> is_metadata m"
      and "list_all2 (\<lambda>r m. \<forall>l \<in> F. match_level r l = level_rule m l) rs' t'"
      by (auto simp: list_all2_Cons1)
    with Cons.IH [of rs' t'] Cons.prems Cons show ?thesis
      by (cases l) (auto simp: level_rule_def is_wildcard_def)
  qed
qed

text \<open>The first level may be a \<^verbatim>\<open>$\<close> level: there the loop leaves early at a \<^verbatim>\<open>+\<close>.\<close>

definition early_exit :: "level list \<Rightarrow> level list \<Rightarrow> bool" where
  "early_exit f t = (case f of SingleWildcard # f' \<Rightarrow>
      (case t of m # _ \<Rightarrow> is_metadata m \<and> (f' = [] \<or> f' = [MultiWildcard]) | [] \<Rightarrow> False) | _ \<Rightarrow> False)"

lemma matches_loop_topic:
  assumes "list_all2 (\<lambda>r m. \<forall>l \<in> set f. match_level r l = level_rule m l) rs t"
    and "well_placed_topic f" and "well_placed_topic t" and "topic_name t" and "t \<noteq> []"
  shows "matches_loop match_level f rs \<longleftrightarrow> mqtt_matches f t \<or> early_exit f t"
proof -
  obtain m t' where t: "t = m # t'" using assms(5) by (cases t) auto
  then obtain r rs' where rs: "rs = r # rs'" using assms(1) by (auto simp: list_all2_Cons2)
  have "well_placed ls \<Longrightarrow> list_all (\<lambda>m. \<not> is_metadata m) ls" for ls
    by (induction ls rule: well_placed.induct) auto
  then have tail: "list_all (\<lambda>m. \<not> is_metadata m) t'"
    using assms(3) t by (cases m) (auto simp: well_placed_topic_def)
  show ?thesis
  proof (cases f)
    case (Cons l f')
    have f': "matches_loop match_level f' rs' = filter_matches f' t'"
      if "well_placed f'"
      using that assms(1) t rs Cons tail by (intro matches_loop_rule [where F = "set f"]) auto
    have "match_level r l = level_rule m l" using assms(1) t rs Cons by simp
    with f' assms(2,4) t rs Cons show ?thesis
      by (cases l; cases f'; cases m)
        (auto simp: mqtt_matches_def early_exit_def dollar_isolated_def level_rule_def is_wildcard_def
          well_placed_topic_def topic_name_def after_loop_iff split: list.splits level.splits)
  qed (simp add: rs t mqtt_matches_def early_exit_def)
qed

lemma str_match_level_rule:
  assumes "canonical_level m" "level_is_valid m" "\<not> is_wildcard m" "canonical_level l" "level_is_valid l"
  shows "str_match_level (level_to_string m) l = level_rule m l"
  using assms
  by (cases l; cases m)
    (auto simp: level_rule_def is_wildcard_def is_metadata_str_def starts_with_def split: list.splits)

lemma level_match_level_rule:
  "l \<noteq> Blank \<Longrightarrow> level_match_level m l = level_rule m l"
  by (cases l; cases m) (auto simp: level_rule_def is_wildcard_def)

section \<open>Properties\<close>

text \<open>
  Parsing and printing topics are inverse to each other: a string is accepted as a topic exactly
  when it is the printed form of a canonical topic (non-empty, valid, no delimiter inside a level),
  and the topic it is parsed to is that one.
\<close>

theorem topic_parse_print:
  "topic_from_str s = Ok t \<longleftrightarrow> canonical t \<and> topic_to_string t = s"
  using topic_from_str_iff by auto

text \<open>
  A parsed filter matches the string of a topic name exactly as the MQTT rules say, with one
  exception: a filter \<^verbatim>\<open>+\<close> or \<^verbatim>\<open>+/#\<close> also matches every topic that starts with a \<^verbatim>\<open>$\<close> level, since the
  loop is left instead of the function when \<^verbatim>\<open>+\<close> meets that level.
\<close>

theorem topic_matches_str_spec:
  assumes "topic_from_str fs = Ok f" and "topic_from_str s = Ok t" and "topic_name t"
  shows "topic_matches_str f s \<longleftrightarrow> mqtt_matches f t \<or> early_exit f t"
proof -
  have f: "list_all canonical_level f" "list_all level_is_valid f" "well_placed_topic f"
    and t: "list_all canonical_level t" "list_all level_is_valid t" "well_placed_topic t" "t \<noteq> []"
    using assms by (auto simp: topic_from_str_iff canonical_def topic_is_valid_iff)
  have "split_on CHR ''/'' s = map level_to_string t"
    using assms(2) t by (auto simp: topic_from_str_iff topic_to_string_join list_all_iff
        level_to_string_no_delimiter intro!: split_on_join)
  moreover have r: "list_all2 (\<lambda>r m. \<forall>l \<in> set f. str_match_level r l = level_rule m l) (map level_to_string t) t"
    using f t assms(3)
    by (auto simp: list_all2_map1 list_all_iff topic_name_def str_match_level_rule intro!: list.rel_refl_strong)
  ultimately show ?thesis
    unfolding topic_matches_str_def using matches_loop_topic [OF r f(3) t(3) assms(3) t(4)] by simp
qed

theorem topic_matches_str_spec_witness:
  "topic_matches_str [Normal ''a'', SingleWildcard, MultiWildcard] ''a/b'' \<longleftrightarrow>
   mqtt_matches [Normal ''a'', SingleWildcard, MultiWildcard] [Normal ''a'', Normal ''b'']
   \<or> early_exit [Normal ''a'', SingleWildcard, MultiWildcard] [Normal ''a'', Normal ''b'']"
  by (rule topic_matches_str_spec [of "''a/+/#''" _ "''a/b''"])
    (simp_all add: topic_from_str_def level_from_str_def contains_wildcard_def is_metadata_str_def
      starts_with_def topic_is_valid_iff well_placed_topic_def topic_name_def is_wildcard_def)



end
