(* ===== verification/Broker_Types.thy ===== *)
theory Broker_Types
  imports Reasons Topic
begin

text \<open>
  Types the parts of the broker share (\<^verbatim>\<open>types.rs\<close>): client identities, the origin of a message, the message
  as the broker carries it, subscription options and the parser of shared and limited topic filters.
  Client identifiers, filters and groups are strings, as in the theory of topics.
\<close>

section \<open>Identities and messages\<close>

type_synonym node_id = u64
type_synonym client_id = string
type_synonym socket_addr = "bytes \<times> u16"

text \<open>\<^verbatim>\<open>Id\<close> compares all fields of \<^verbatim>\<open>_Id\<close>, as the equality of the record does.\<close>

record ident =
  id_node_id :: node_id
  id_lid :: u16
  id_local_addr :: "socket_addr option"
  id_remote_addr :: "socket_addr option"
  id_client_id :: client_id
  id_username :: "string option"
  id_create_time :: i64

definition ident_new :: "node_id \<Rightarrow> u16 \<Rightarrow> socket_addr option \<Rightarrow> socket_addr option \<Rightarrow> client_id \<Rightarrow> string option \<Rightarrow> i64 \<Rightarrow> ident" where
  "ident_new node lid local remote cid user now =
    \<lparr>id_node_id = node, id_lid = lid, id_local_addr = local, id_remote_addr = remote, id_client_id = cid,
     id_username = user, id_create_time = now\<rparr>"

definition ident_from :: "node_id \<Rightarrow> client_id \<Rightarrow> i64 \<Rightarrow> ident" where
  "ident_from node cid now = ident_new node 0 None None cid None now"

datatype from_type = FT_Custom | FT_Admin | FT_System | FT_LastWill | FT_Bridge

record msg_from =
  from_typ :: from_type
  from_id :: ident

definition from_custom :: "ident \<Rightarrow> msg_from" where "from_custom i = \<lparr>from_typ = FT_Custom, from_id = i\<rparr>"
definition from_admin :: "ident \<Rightarrow> msg_from" where "from_admin i = \<lparr>from_typ = FT_Admin, from_id = i\<rparr>"
definition from_bridge :: "ident \<Rightarrow> msg_from" where "from_bridge i = \<lparr>from_typ = FT_Bridge, from_id = i\<rparr>"
definition from_system :: "ident \<Rightarrow> msg_from" where "from_system i = \<lparr>from_typ = FT_System, from_id = i\<rparr>"
definition from_lastwill :: "ident \<Rightarrow> msg_from" where "from_lastwill i = \<lparr>from_typ = FT_LastWill, from_id = i\<rparr>"

definition from_is_system :: "msg_from \<Rightarrow> bool" where "from_is_system f \<longleftrightarrow> from_typ f = FT_System"
definition from_is_custom :: "msg_from \<Rightarrow> bool" where "from_is_custom f \<longleftrightarrow> from_typ f = FT_Custom"

text \<open>The message of the broker: the packet of the codec with what the broker adds.\<close>

record mpublish =
  mp_inner :: publish
  mp_target_clientid :: "client_id option"
  mp_delay_interval :: "u32 option"
  mp_create_time :: "i64 option"

abbreviation mp_packet_id :: "mpublish \<Rightarrow> u16 option" where
  "mp_packet_id p \<equiv> pub_packet_id (mp_inner p)"

section \<open>Subscription options\<close>

record sub_options_v3 =
  so3_qos :: qos
  so3_shared_group :: "string option"
  so3_limit_subs :: "nat option"

record sub_options_v5 =
  so5_qos :: qos
  so5_shared_group :: "string option"
  so5_limit_subs :: "nat option"
  so5_no_local :: bool
  so5_retain_as_published :: bool
  so5_retain_handling :: retain_handling
  so5_id :: "u32 option"

datatype subscription_options_mqtt = SO_V3 sub_options_v3 | SO_V5 sub_options_v5

definition subscription_options_mqtt_default :: subscription_options_mqtt where
  "subscription_options_mqtt_default = SO_V3 \<lparr>so3_qos = AtMostOnce, so3_shared_group = None, so3_limit_subs = None\<rparr>"

fun no_local :: "subscription_options_mqtt \<Rightarrow> bool option" where
  "no_local (SO_V3 _) = None"
| "no_local (SO_V5 opts) = Some (so5_no_local opts)"

fun retain_as_published :: "subscription_options_mqtt \<Rightarrow> bool option" where
  "retain_as_published (SO_V3 _) = None"
| "retain_as_published (SO_V5 opts) = Some (so5_retain_as_published opts)"

fun opts_retain_handling :: "subscription_options_mqtt \<Rightarrow> retain_handling option" where
  "opts_retain_handling (SO_V3 _) = None"
| "opts_retain_handling (SO_V5 opts) = Some (so5_retain_handling opts)"

fun subscription_identifier :: "subscription_options_mqtt \<Rightarrow> u32 option" where
  "subscription_identifier (SO_V3 _) = None"
| "subscription_identifier (SO_V5 opts) = so5_id opts"

fun opts_qos :: "subscription_options_mqtt \<Rightarrow> qos" where
  "opts_qos (SO_V3 opts) = so3_qos opts"
| "opts_qos (SO_V5 opts) = so5_qos opts"

definition opts_qos_value :: "subscription_options_mqtt \<Rightarrow> u8" where
  "opts_qos_value opts = qos_value (opts_qos opts)"

fun set_qos :: "qos \<Rightarrow> subscription_options_mqtt \<Rightarrow> subscription_options_mqtt" where
  "set_qos q (SO_V3 opts) = SO_V3 (opts\<lparr>so3_qos := q\<rparr>)"
| "set_qos q (SO_V5 opts) = SO_V5 (opts\<lparr>so5_qos := q\<rparr>)"

fun shared_group :: "subscription_options_mqtt \<Rightarrow> string option" where
  "shared_group (SO_V3 opts) = so3_shared_group opts"
| "shared_group (SO_V5 opts) = so5_shared_group opts"

definition has_shared_group :: "subscription_options_mqtt \<Rightarrow> bool" where
  "has_shared_group opts \<longleftrightarrow> shared_group opts \<noteq> None"

fun limit_subs :: "subscription_options_mqtt \<Rightarrow> nat option" where
  "limit_subs (SO_V3 opts) = so3_limit_subs opts"
| "limit_subs (SO_V5 opts) = so5_limit_subs opts"

definition has_limit_subs :: "subscription_options_mqtt \<Rightarrow> bool" where
  "has_limit_subs opts \<longleftrightarrow> limit_subs opts \<noteq> None"

fun opts_is_v3 :: "subscription_options_mqtt \<Rightarrow> bool" where
  "opts_is_v3 (SO_V3 _) = True"
| "opts_is_v3 (SO_V5 _) = False"

end
