(* ===== verification/Fitter.thy ===== *)
theory Fitter
  imports Broker_Types V3_Codec
begin

text \<open>
  What a connection negotiates (\<^verbatim>\<open>fitter.rs\<close>, with \<^verbatim>\<open>ConnectInfo\<close> of \<^verbatim>\<open>types.rs\<close> and the limits of a listener
  from \<^verbatim>\<open>net/builder.rs\<close>): keep alive, inflight window, expiry of sessions and messages, topic aliases.
  Durations are nanoseconds.  The keep alive factor is a 32-bit float, which is a fraction
  \<open>m / 2 ^ k\<close> with \<open>m < 2 ^ 24\<close>, not negative; its product with an integer is rounded to 24 bits, ties to even.
\<close>

section \<open>Connections\<close>

datatype connect_info = CI_V3 ident v3_connect | CI_V5 ident v5_connect

fun ci_id :: "connect_info \<Rightarrow> ident" where
  "ci_id (CI_V3 i _) = i"
| "ci_id (CI_V5 i _) = i"

definition ci_client_id :: "connect_info \<Rightarrow> client_id" where
  "ci_client_id c = id_client_id (ci_id c)"

fun ci_keep_alive :: "connect_info \<Rightarrow> u16" where
  "ci_keep_alive (CI_V3 _ c) = c3_keep_alive c"
| "ci_keep_alive (CI_V5 _ c) = cn_keep_alive c"

fun ci_username :: "connect_info \<Rightarrow> bytes option" where
  "ci_username (CI_V3 _ c) = c3_username c"
| "ci_username (CI_V5 _ c) = cn_username c"

fun ci_password :: "connect_info \<Rightarrow> bytes option" where
  "ci_password (CI_V3 _ c) = c3_password c"
| "ci_password (CI_V5 _ c) = cn_password c"

definition ci_ipaddress :: "connect_info \<Rightarrow> socket_addr option" where
  "ci_ipaddress c = id_remote_addr (ci_id c)"

fun ci_clean_start :: "connect_info \<Rightarrow> bool" where
  "ci_clean_start (CI_V3 _ c) = c3_clean_session c"
| "ci_clean_start (CI_V5 _ c) = cn_clean_start c"

fun proto_ver :: "connect_info \<Rightarrow> u8" where
  "proto_ver (CI_V3 _ c) = c3_protocol c"
| "proto_ver (CI_V5 _ _) = MQTT_LEVEL_5"

fun ci_max_packet_size :: "connect_info \<Rightarrow> u32 option" where
  "ci_max_packet_size (CI_V5 _ c) = cn_max_packet_size c"
| "ci_max_packet_size (CI_V3 _ _) = None"

fun ci_auth_method :: "connect_info \<Rightarrow> bytes option" where
  "ci_auth_method (CI_V5 _ c) = cn_auth_method c"
| "ci_auth_method (CI_V3 _ _) = None"

fun ci_cert :: "connect_info \<Rightarrow> cert_info option" where
  "ci_cert (CI_V3 _ c) = c3_cert c"
| "ci_cert (CI_V5 _ c) = cn_cert c"

section \<open>Limits of a listener\<close>

record listener_limits =
  min_keepalive :: u16
  max_keepalive :: u16
  allow_zero_keepalive :: bool
  keepalive_backoff :: "nat \<times> nat"
  max_inflight :: u16
  handshake_timeout :: nat
  send_timeout :: nat
  max_mqueue_len :: nat
  mqueue_rate_limit :: "u32 \<times> nat"
  max_clientid_len :: nat
  max_qos_allowed :: qos
  max_topic_levels :: nat
  session_expiry_interval :: nat
  max_session_expiry_interval :: nat
  message_retry_interval :: nat
  message_expiry_interval :: nat
  max_subscriptions :: nat
  max_topic_aliases :: u16
  limit_subscription :: bool
  delayed_publish :: bool

record fitter =
  conn_info :: connect_info
  listen_cfg :: listener_limits

definition fitter_new :: "connect_info \<Rightarrow> ident \<Rightarrow> listener_limits \<Rightarrow> fitter" where
  "fitter_new c i cfg = \<lparr>conn_info = c, listen_cfg = cfg\<rparr>"

section \<open>Floats\<close>

fun bit_size :: "nat \<Rightarrow> nat" where
  "bit_size n = (if n = 0 then 0 else Suc (bit_size (n div 2)))"

declare bit_size.simps [simp del]

definition round24 :: "nat \<Rightarrow> nat" where
  "round24 p =
    (if bit_size p \<le> 24 then p
     else
       (let s = bit_size p - 24; q = p div 2 ^ s; r = p mod 2 ^ s in
        (if 2 ^ (s - 1) < r \<or> r = 2 ^ (s - 1) \<and> odd q then q + 1 else q) * 2 ^ s))"

text \<open>\<^verbatim>\<open>((keep_alive as f32 * backoff) * 2.0) as u16\<close>; the cast truncates and saturates.\<close>

definition backoff_secs :: "nat \<times> nat \<Rightarrow> u16 \<Rightarrow> u16" where
  "backoff_secs b keep_alive = (case b of (m, k) \<Rightarrow> of_nat (min 65535 (2 * round24 (unat keep_alive * m) div 2 ^ k)))"

section \<open>Negotiation\<close>

definition keepalive_zero_error :: any_error where
  "keepalive_zero_error = E_Other (text_bytes ''Keepalive must be greater than 0'')"

definition keepalive_small_error :: "u16 \<Rightarrow> any_error" where
  "keepalive_small_error mn = E_Other (text_bytes ''Keepalive is too small and cannot be less than '' @ show_nat (unat mn))"

definition keepalive_large_error :: "u16 \<Rightarrow> any_error" where
  "keepalive_large_error mx = E_Other (text_bytes ''Keepalive is too large and cannot be greater than '' @ show_nat (unat mx))"

definition keepalive_timeout :: "nat \<times> nat \<Rightarrow> u16 \<Rightarrow> u16" where
  "keepalive_timeout b keep_alive = (if keep_alive < 6 then keep_alive + 3 else backoff_secs b keep_alive)"

text \<open>The timeout, and the keep alive as \<^verbatim>\<open>keep_alive\<close> leaves it.\<close>

definition keep_alive :: "u16 \<Rightarrow> fitter \<Rightarrow> (u16, any_error) res \<times> u16" where
  "keep_alive ka f =
    (let cfg = listen_cfg f in
     if proto_ver (conn_info f) = MQTT_LEVEL_5 then
       (if ka = 0 then (if allow_zero_keepalive cfg then Ok 0 else Err keepalive_zero_error, ka)
        else
          (let ka = (if ka < min_keepalive cfg then min_keepalive cfg
                     else if ka > max_keepalive cfg then max_keepalive cfg else ka)
           in (Ok (keepalive_timeout (keepalive_backoff cfg) ka), ka)))
     else if ka = 0 then (if allow_zero_keepalive cfg then Ok 0 else Err keepalive_zero_error, ka)
     else if ka < min_keepalive cfg then (Err (keepalive_small_error (min_keepalive cfg)), ka)
     else if ka > max_keepalive cfg then (Err (keepalive_large_error (max_keepalive cfg)), ka)
     else (Ok (keepalive_timeout (keepalive_backoff cfg) ka), ka))"

definition fitter_max_mqueue_len :: "fitter \<Rightarrow> nat" where
  "fitter_max_mqueue_len f = max_mqueue_len (listen_cfg f)"

definition fitter_mqueue_rate_limit :: "fitter \<Rightarrow> u32 \<times> nat" where
  "fitter_mqueue_rate_limit f = mqueue_rate_limit (listen_cfg f)"

definition fitter_max_inflight :: "fitter \<Rightarrow> u16" where
  "fitter_max_inflight f =
    (let receive_max = (case conn_info f of CI_V5 _ c \<Rightarrow> cn_receive_max c | CI_V3 _ _ \<Rightarrow> None) in
     case receive_max of
       Some rm \<Rightarrow> min (max_inflight (listen_cfg f)) rm
     | None \<Rightarrow> max_inflight (listen_cfg f))"

definition from_secs :: "u32 \<Rightarrow> nat" where
  "from_secs s = unat s * 10 ^ 9"

definition fitter_session_expiry_interval :: "disconnect option \<Rightarrow> fitter \<Rightarrow> nat" where
  "fitter_session_expiry_interval d f =
    (let expiry_interval = (case conn_info f of
           CI_V5 _ c \<Rightarrow> from_secs (cn_session_expiry_interval_secs c)
         | CI_V3 _ _ \<Rightarrow> session_expiry_interval (listen_cfg f));
         interval = (case d of
           Some (D_V5 d) \<Rightarrow> (case di_session_expiry_interval_secs d of Some s \<Rightarrow> from_secs s | None \<Rightarrow> expiry_interval)
         | _ \<Rightarrow> expiry_interval)
     in if max_session_expiry_interval (listen_cfg f) = 0 then interval
        else min interval (max_session_expiry_interval (listen_cfg f)))"

definition fitter_message_expiry_interval :: "publish \<Rightarrow> fitter \<Rightarrow> nat" where
  "fitter_message_expiry_interval p f =
    (case Option.bind (pub_properties p) (\<lambda>pr. map_option from_secs (pp_message_expiry_interval pr)) of
       Some i \<Rightarrow> i
     | None \<Rightarrow> message_expiry_interval (listen_cfg f))"

definition max_client_topic_aliases :: "fitter \<Rightarrow> u16" where
  "max_client_topic_aliases f = (case conn_info f of CI_V5 _ _ \<Rightarrow> max_topic_aliases (listen_cfg f) | CI_V3 _ _ \<Rightarrow> 0)"

definition max_server_topic_aliases :: "fitter \<Rightarrow> u16" where
  "max_server_topic_aliases f =
    (case conn_info f of CI_V5 _ c \<Rightarrow> min (cn_topic_alias_max c) (max_topic_aliases (listen_cfg f)) | CI_V3 _ _ \<Rightarrow> 0)"

section \<open>Properties\<close>

lemma bit_size_bound: "n < 2 ^ k \<Longrightarrow> bit_size n \<le> k"
proof (induction n arbitrary: k rule: bit_size.induct)
  case (1 n)
  then show ?case by (cases k) (auto simp: bit_size.simps [of n] bit_size.simps [of 0] less_mult_imp_div_less)
qed

text \<open>With the default factor of 0.75 nothing is rounded: the timeout is one and a half times the keep alive.\<close>

lemma backoff_default: "backoff_secs (3, 2) ka = of_nat (min 65535 (unat ka + unat ka div 2))"
proof -
  have "bit_size (unat ka * 3) \<le> 24"
    by (rule bit_size_bound, rule order.strict_trans1 [OF mult_le_mono1 [OF unat_u16_le]]) simp
  moreover have "2 * (unat ka * 3) div 4 = unat ka + unat ka div 2" by presburger
  ultimately show ?thesis by (simp add: backoff_secs_def round24_def)
qed

lemma timeout_default: "ka \<noteq> 0 \<Longrightarrow> min 65535 (unat ka + unat ka div 2) \<le> unat (keepalive_timeout (3, 2) ka)"
proof (cases "ka < 6")
  case True
  then have "unat ka < 6" by (simp add: word_less_nat_alt)
  then have "unat (ka + 3) = unat ka + 3" by (simp add: unat_word_ariths)
  with True \<open>unat ka < 6\<close> show ?thesis by (simp add: keepalive_timeout_def)
next
  case False
  have "unat (of_nat (min 65535 (unat ka + unat ka div 2)) :: u16) = min 65535 (unat ka + unat ka div 2)"
    by (simp add: unsigned_of_nat take_bit_nat_eq_self)
  with False show ?thesis by (simp add: keepalive_timeout_def backoff_default)
qed

text \<open>
  The negotiated values respect both ends.  With a listener whose keep alive bounds are in order and
  whose factor is the default: an accepted keep alive is zero only if that is allowed and otherwise
  within the bounds, and the timeout leaves the client one and a half times its keep alive, up to the
  largest timeout of 65535 seconds; MQTT 5 clients are never refused for a keep alive above zero; the
  inflight window exceeds neither the listener's nor the client's, and a session lives no longer than the
  listener's maximum; the aliases for messages to a client exceed neither side's maximum.
\<close>

theorem fitter_respects_limits:
  assumes "min_keepalive (listen_cfg f) \<le> max_keepalive (listen_cfg f)" and "0 < max_keepalive (listen_cfg f)" and "keepalive_backoff (listen_cfg f) = (3, 2)"
  shows "(case keep_alive ka f of
      (Ok t, ka') \<Rightarrow>
        (if ka = 0 then ka' = 0 \<and> t = 0 \<and> allow_zero_keepalive (listen_cfg f)
         else ka' \<noteq> 0 \<and> min_keepalive (listen_cfg f) \<le> ka' \<and> ka' \<le> max_keepalive (listen_cfg f) \<and> min 65535 (unat ka' + unat ka' div 2) \<le> unat t) \<and>
        (min_keepalive (listen_cfg f) \<le> ka \<and> ka \<le> max_keepalive (listen_cfg f) \<longrightarrow> ka' = ka)
    | (Err e, ka') \<Rightarrow> ka' = ka \<and> (ka = 0 \<and> \<not> allow_zero_keepalive (listen_cfg f) \<or>
        proto_ver (conn_info f) \<noteq> 5 \<and> (ka < min_keepalive (listen_cfg f) \<or> max_keepalive (listen_cfg f) < ka))
    | (Panic, _) \<Rightarrow> False) \<and>
    fitter_max_inflight f \<le> max_inflight (listen_cfg f) \<and>
    (\<forall>i c rm. conn_info f = CI_V5 i c \<and> cn_receive_max c = Some rm \<longrightarrow> fitter_max_inflight f \<le> rm) \<and>
    (max_session_expiry_interval (listen_cfg f) \<noteq> 0 \<longrightarrow>
      fitter_session_expiry_interval d f \<le> max_session_expiry_interval (listen_cfg f)) \<and>
    max_server_topic_aliases f \<le> max_topic_aliases (listen_cfg f) \<and>
    (\<forall>i c. conn_info f = CI_V5 i c \<longrightarrow> max_server_topic_aliases f \<le> cn_topic_alias_max c)"
proof (intro conjI)
  let ?mn = "min_keepalive (listen_cfg f)" and ?mx = "max_keepalive (listen_cfg f)"
  have clamp: "?mn \<le> (if ka < ?mn then ?mn else if ?mx < ka then ?mx else ka)" "(if ka < ?mn then ?mn else if ?mx < ka then ?mx else ka) \<le> ?mx"
    "ka \<noteq> 0 \<Longrightarrow> (if ka < ?mn then ?mn else if ?mx < ka then ?mx else ka) \<noteq> 0"
    using assms(1, 2) by (auto simp: not_less)
  show "case keep_alive ka f of
      (Ok t, ka') \<Rightarrow>
        (if ka = 0 then ka' = 0 \<and> t = 0 \<and> allow_zero_keepalive (listen_cfg f)
         else ka' \<noteq> 0 \<and> ?mn \<le> ka' \<and> ka' \<le> ?mx \<and> min 65535 (unat ka' + unat ka' div 2) \<le> unat t) \<and>
        (?mn \<le> ka \<and> ka \<le> ?mx \<longrightarrow> ka' = ka)
    | (Err e, ka') \<Rightarrow> ka' = ka \<and> (ka = 0 \<and> \<not> allow_zero_keepalive (listen_cfg f) \<or>
        proto_ver (conn_info f) \<noteq> 5 \<and> (ka < ?mn \<or> ?mx < ka))
    | (Panic, _) \<Rightarrow> False"
  proof (cases "proto_ver (conn_info f) = 5 \<and> ka \<noteq> 0")
    case True
    define c where "c = (if ka < ?mn then ?mn else if ?mx < ka then ?mx else ka)"
    have "keep_alive ka f = (Ok (keepalive_timeout (3, 2) c), c)"
      using True assms(3) by (simp add: keep_alive_def c_def Let_def)
    moreover have "?mn \<le> c" "c \<le> ?mx" "c \<noteq> 0" "?mn \<le> ka \<and> ka \<le> ?mx \<longrightarrow> c = ka"
      using clamp True unfolding c_def by auto
    ultimately show ?thesis using True timeout_default [of c] by simp
  next
    case False
    then show ?thesis using timeout_default [of ka] assms(3) by (auto simp: keep_alive_def Let_def not_less)
  qed
qed (auto simp: fitter_max_inflight_def fitter_session_expiry_interval_def max_server_topic_aliases_def Let_def split: connect_info.splits option.splits)

definition sample_limits :: listener_limits where
  "sample_limits = \<lparr>min_keepalive = 0, max_keepalive = 65535, allow_zero_keepalive = True, keepalive_backoff = (3, 2), max_inflight = 16,
     handshake_timeout = 15 * 10 ^ 9, send_timeout = 5 * 10 ^ 9, max_mqueue_len = 1000, mqueue_rate_limit = (4294967295, 10 ^ 9),
     max_clientid_len = 65535, max_qos_allowed = ExactlyOnce, max_topic_levels = 0, session_expiry_interval = 7200 * 10 ^ 9,
     max_session_expiry_interval = 0, message_retry_interval = 20 * 10 ^ 9, message_expiry_interval = 300 * 10 ^ 9,
     max_subscriptions = 0, max_topic_aliases = 0, limit_subscription = False, delayed_publish = False\<rparr>"

theorem fitter_respects_limits_witness:
  "case keep_alive 60 (fitter_new (CI_V5 (ident_from 1 ''c'' 0) v5_connect_default) (ident_from 1 ''c'' 0) sample_limits) of
     (Ok t, ka) \<Rightarrow> ka = 60 \<and> 90 \<le> unat t
   | _ \<Rightarrow> False"
proof -
  let ?f = "fitter_new (CI_V5 (ident_from 1 ''c'' 0) v5_connect_default) (ident_from 1 ''c'' 0) sample_limits"
  have cfg: "listen_cfg ?f = sample_limits" "proto_ver (conn_info ?f) = 5" by (simp_all add: fitter_new_def)
  have "min_keepalive (listen_cfg ?f) \<le> max_keepalive (listen_cfg ?f)" "0 < max_keepalive (listen_cfg ?f)" "keepalive_backoff (listen_cfg ?f) = (3, 2)"
    unfolding cfg by (simp_all add: sample_limits_def)
  from fitter_respects_limits [OF this, of 60 None] show ?thesis
    unfolding cfg by (auto simp: sample_limits_def split: res.splits prod.splits)
qed

section \<open>Long keep alives\<close>

text \<open>Above 43690 seconds the timeout saturates and leaves less than one and a half times the keep alive.\<close>

lemma keepalive_saturates: "43690 < unat ka \<Longrightarrow> unat (keepalive_timeout (3, 2) ka) = 65535"
  by (simp add: keepalive_timeout_def backoff_default word_less_nat_alt unsigned_of_nat take_bit_nat_eq_self min_def)

end
