(* ===== verification/Counter.thy ===== *)
theory Counter
  imports Prelude
begin

text \<open>
  The statistics counter (\<^verbatim>\<open>utils/counter.rs\<close>): a current value and the largest value it has had, both
  atomic integers of the width of a pointer (64 bits).  Besides the operations as a single thread sees
  them, the theory models their atomic accesses one by one, interleaved between threads.
\<close>

section \<open>Atomic integers\<close>

text \<open>Two's complement wrap-around of \<^verbatim>\<open>isize\<close>, which \<^verbatim>\<open>fetch_add\<close> and \<^verbatim>\<open>fetch_sub\<close> have.\<close>

definition isize :: "int \<Rightarrow> int" where
  "isize x = signed_take_bit 63 x"

definition is_isize :: "int \<Rightarrow> bool" where
  "is_isize x \<longleftrightarrow> - (2 ^ 63) \<le> x \<and> x < 2 ^ 63"

lemma isize_id [simp]: "is_isize x \<Longrightarrow> isize x = x"
  by (simp add: isize_def is_isize_def signed_take_bit_int_eq_self)

section \<open>The counter\<close>

datatype stats_merge_mode = SMM_None | SMM_Sum | SMM_Average | SMM_Max | SMM_Min

record counter =
  current :: int
  maximum :: int
  merge_mode :: stats_merge_mode

definition counter_new :: counter where
  "counter_new = \<lparr>current = 0, maximum = 0, merge_mode = SMM_None\<rparr>"

definition counter_new_with :: "int \<Rightarrow> int \<Rightarrow> stats_merge_mode \<Rightarrow> counter" where
  "counter_new_with c mx md = \<lparr>current = c, maximum = mx, merge_mode = md\<rparr>"

text \<open>The two atomic accesses of \<^verbatim>\<open>incs\<close>.\<close>

definition fetch_add :: "int \<Rightarrow> counter \<Rightarrow> int \<times> counter" where
  "fetch_add c s = (current s, s\<lparr>current := isize (current s + c)\<rparr>)"

definition max_max :: "int \<Rightarrow> counter \<Rightarrow> counter" where
  "max_max mx s = s\<lparr>maximum := max (maximum s) mx\<rparr>"

definition incs :: "int \<Rightarrow> counter \<Rightarrow> counter" where
  "incs c s = (let (prev, s) = fetch_add c s in max_max (isize (prev + c)) s)"

definition inc :: "counter \<Rightarrow> counter" where
  "inc s = incs 1 s"

definition current_incs :: "int \<Rightarrow> counter \<Rightarrow> counter" where
  "current_incs c s = snd (fetch_add c s)"

definition current_inc :: "counter \<Rightarrow> counter" where
  "current_inc s = current_incs 1 s"

definition current_set :: "int \<Rightarrow> counter \<Rightarrow> counter" where
  "current_set c s = s\<lparr>current := c\<rparr>"

definition sets :: "int \<Rightarrow> counter \<Rightarrow> counter" where
  "sets c s = max_max c (current_set c s)"

definition decs :: "int \<Rightarrow> counter \<Rightarrow> counter" where
  "decs c s = s\<lparr>current := isize (current s - c)\<rparr>"

definition dec :: "counter \<Rightarrow> counter" where
  "dec s = decs 1 s"

definition count_min :: "int \<Rightarrow> counter \<Rightarrow> counter" where
  "count_min c s = s\<lparr>current := min (current s) c\<rparr>"

definition count_max :: "int \<Rightarrow> counter \<Rightarrow> counter" where
  "count_max c s = s\<lparr>current := max (current s) c\<rparr>"

definition max_min :: "int \<Rightarrow> counter \<Rightarrow> counter" where
  "max_min mx s = s\<lparr>maximum := min (maximum s) mx\<rparr>"

definition counter_add :: "counter \<Rightarrow> counter \<Rightarrow> counter" where
  "counter_add s other = s\<lparr>current := isize (current s + current other),
     maximum := isize (maximum s + maximum other)\<rparr>"

definition counter_set :: "counter \<Rightarrow> counter \<Rightarrow> counter" where
  "counter_set s other = s\<lparr>current := current other, maximum := maximum other\<rparr>"

fun stats_merge :: "stats_merge_mode \<Rightarrow> counter \<Rightarrow> counter \<Rightarrow> counter" where
  "stats_merge SMM_None c other = c"
| "stats_merge SMM_Sum c other = counter_add c other"
| "stats_merge SMM_Max c other = max_max (maximum other) (count_max (current other) c)"
| "stats_merge SMM_Min c other = max_min (maximum other) (count_min (current other) c)"
| "stats_merge SMM_Average c other = c"

definition counter_merge :: "counter \<Rightarrow> counter \<Rightarrow> counter" where
  "counter_merge s other = stats_merge (merge_mode s) s other"

lemmas counter_defs = counter_new_def counter_new_with_def fetch_add_def max_max_def incs_def inc_def
  current_incs_def current_inc_def current_set_def sets_def decs_def dec_def count_min_def
  count_max_def max_min_def counter_add_def counter_set_def counter_merge_def

text \<open>The maximum is at least the current value.\<close>

definition counter_inv :: "counter \<Rightarrow> bool" where
  "counter_inv s \<longleftrightarrow> current s \<le> maximum s \<and> is_isize (current s) \<and> is_isize (maximum s)"

lemma counter_new_inv: "counter_inv counter_new"
  by (simp add: counter_inv_def counter_new_def is_isize_def)

lemma incs_inv: "counter_inv s \<Longrightarrow> is_isize (current s + c) \<Longrightarrow> counter_inv (incs c s)"
  by (auto simp: counter_inv_def counter_defs is_isize_def)

lemma decs_inv: "counter_inv s \<Longrightarrow> 0 \<le> c \<Longrightarrow> is_isize (current s - c) \<Longrightarrow> counter_inv (decs c s)"
  by (auto simp: counter_inv_def counter_defs)

lemma sets_inv: "counter_inv s \<Longrightarrow> is_isize c \<Longrightarrow> counter_inv (sets c s)"
  by (auto simp: counter_inv_def counter_defs is_isize_def)

section \<open>Interleaved use\<close>

text \<open>
  Several threads use one counter.  An increment is two atomic accesses: \<open>Add\<close> reads and increases the
  current value, and leaves a pending \<open>Publish\<close> of the value it computed, which some later step
  performs.  \<open>peak\<close> is a history variable: the largest value the current value has had.
\<close>

record shared_counter =
  cell :: counter
  pending :: "int list"
  peak :: int

inductive counter_step :: "shared_counter \<Rightarrow> shared_counter \<Rightarrow> bool" where
  Add: "0 \<le> c \<Longrightarrow> is_isize (current (cell s) + c) \<Longrightarrow> fetch_add c (cell s) = (prev, k) \<Longrightarrow>
    counter_step s \<lparr>cell = k, pending = isize (prev + c) # pending s, peak = max (peak s) (current k)\<rparr>"
| Publish: "pending s = xs @ v # ys \<Longrightarrow>
    counter_step s \<lparr>cell = max_max v (cell s), pending = xs @ ys, peak = peak s\<rparr>"
| Sub: "0 \<le> c \<Longrightarrow> is_isize (current (cell s) - c) \<Longrightarrow>
    counter_step s \<lparr>cell = decs c (cell s), pending = pending s, peak = peak s\<rparr>"

inductive_cases counter_stepE: "counter_step s s'"

definition shared_start :: shared_counter where
  "shared_start = \<lparr>cell = counter_new, pending = [], peak = 0\<rparr>"

text \<open>Nothing is lost: the published maximum together with the pending values is the peak.\<close>

definition shared_inv :: "shared_counter \<Rightarrow> bool" where
  "shared_inv s \<longleftrightarrow> current (cell s) \<le> peak s \<and>
     Max (insert (maximum (cell s)) (set (pending s))) = peak s"

lemma shared_inv_start: "shared_inv shared_start"
  by (simp add: shared_inv_def shared_start_def counter_new_def)

lemma shared_inv_step: "counter_step s s' \<Longrightarrow> shared_inv s \<Longrightarrow> shared_inv s'"
proof (induction rule: counter_step.induct)
  case (Add c s prev k)
  let ?v = "current (cell s) + c"
  have "Max (insert (maximum (cell s)) (insert ?v (set (pending s)))) =
      max ?v (Max (insert (maximum (cell s)) (set (pending s))))"
    by (subst insert_commute) (simp del: Max_insert add: Max_insert [of "insert _ _"])
  with Add show ?case
    by (auto simp: shared_inv_def fetch_add_def max.commute simp del: Max_insert)
next
  case (Publish s xs v ys)
  then have "Max (insert (maximum (cell s)) (insert v (set xs \<union> set ys))) = peak s"
    by (simp add: shared_inv_def)
  then have "Max (insert (max (maximum (cell s)) v) (set xs \<union> set ys)) = peak s"
    by (cases "set xs \<union> set ys = {}") (auto simp: max.assoc)
  with Publish show ?case
    by (simp add: shared_inv_def max_max_def)
next
  case (Sub c s)
  then show ?case
    by (auto simp: shared_inv_def decs_def)
qed

lemma shared_inv_reachable: "counter_step\<^sup>*\<^sup>* shared_start s \<Longrightarrow> shared_inv s"
  by (induction rule: rtranclp_induct) (auto intro: shared_inv_start shared_inv_step)

section \<open>Properties\<close>

text \<open>
  However the increments and decrements of several threads interleave, no update of the maximum is
  lost: as soon as no increment is half done, the maximum is exactly the largest value the counter has
  ever had, and the current value does not exceed it.
\<close>

theorem counter_interleaved:
  assumes "counter_step\<^sup>*\<^sup>* shared_start s" and "pending s = []"
  shows "maximum (cell s) = peak s \<and> current (cell s) \<le> maximum (cell s)"
  using shared_inv_reachable [OF assms(1)] assms(2) by (simp add: shared_inv_def)

theorem counter_interleaved_witness:
  "maximum (cell \<lparr>cell = max_max 1 (snd (fetch_add 1 counter_new)), pending = [], peak = 1\<rparr>) = 1"
proof -
  let ?s1 = "\<lparr>cell = snd (fetch_add 1 counter_new), pending = [1], peak = 1\<rparr>"
  let ?s2 = "\<lparr>cell = max_max 1 (snd (fetch_add 1 counter_new)), pending = [], peak = 1\<rparr>"
  have "counter_step shared_start ?s1"
    using counter_step.Add [of 1 shared_start 0 "snd (fetch_add 1 counter_new)"]
    by (simp add: shared_start_def counter_defs is_isize_def)
  moreover have "counter_step ?s1 ?s2"
    using counter_step.Publish [of ?s1 "[]" 1 "[]"] by simp
  ultimately have "counter_step\<^sup>*\<^sup>* shared_start ?s2"
    by (blast intro: converse_rtranclp_into_rtranclp)
  from counter_interleaved [OF this] show ?thesis by simp
qed

end
