(* ===== verification/Maps.thy ===== *)
theory Maps
  imports Main "HOL-Library.AList"
begin

text \<open>
  Hash maps as association lists with distinct keys: the lemmas on updating and deleting an entry that
  the components of the broker share.
\<close>

lemma update_fresh: "map_of xs k = None \<Longrightarrow> AList.update k v xs = xs @ [(k, v)]"
  by (induction xs) (auto split: if_splits)

lemma length_update: "length (AList.update k v xs) = (if map_of xs k = None then Suc (length xs) else length xs)"
  by (induction xs) auto

lemma delete_filter: "AList.delete k xs = filter (\<lambda>(k', m). k' \<noteq> k) xs"
  by (induction xs) auto

lemma map_of_delete: "map_of (AList.delete k xs) = (map_of xs)(k := None)"
  by (induction xs) auto

lemma sum_update:
  fixes f :: "'v \<Rightarrow> nat"
  shows "distinct (map fst xs) \<Longrightarrow>
    sum_list (map (\<lambda>(_, v). f v) (AList.update k w xs)) + (case map_of xs k of Some v \<Rightarrow> f v | None \<Rightarrow> 0) =
    sum_list (map (\<lambda>(_, v). f v) xs) + f w"
  by (induction xs) (auto split: option.splits)

lemma sum_delete:
  fixes f :: "'v \<Rightarrow> nat"
  shows "distinct (map fst xs) \<Longrightarrow>
    sum_list (map (\<lambda>(_, v). f v) (AList.delete k xs)) + (case map_of xs k of Some v \<Rightarrow> f v | None \<Rightarrow> 0) =
    sum_list (map (\<lambda>(_, v). f v) xs)"
proof (induction xs)
  case (Cons x xs)
  obtain k' v where x: "x = (k', v)" by fastforce
  show ?case
  proof (cases "k' = k")
    case True
    with Cons.prems x have "map_of xs k = None" by (simp add: map_of_eq_None_iff)
    with True x Cons show ?thesis by simp
  qed (use Cons x in simp)
qed simp

lemma length_delete: "distinct (map fst xs) \<Longrightarrow> map_of xs k = Some v \<Longrightarrow> Suc (length (AList.delete k xs)) = length xs"
  using sum_delete [of xs "\<lambda>_. 1" k] by (simp add: case_prod_unfold sum_list_triv)

end
