(* ===== verification/Texts.thy ===== *)
theory Texts
  imports Reasons "HOL-Library.Sublist"
begin

text \<open>
  The functions of \<^verbatim>\<open>str\<close> the broker uses on topics and configuration texts: splitting into at most \<^verbatim>\<open>n\<close> parts,
  trimming and replacing a pattern, and parsing unsigned integers.  A text is a list of characters; the
  topic of a packet is a list of bytes, and the two correspond byte by byte.
\<close>

section \<open>Bytes and characters\<close>

definition bytes_text :: "bytes \<Rightarrow> string" where
  "bytes_text bs = map (\<lambda>b. char_of (unat b)) bs"

lemma text_bytes_bytes_text [simp]: "text_bytes (bytes_text bs) = bs"
proof -
  have "(of_char (char_of (unat b) :: char) :: u8) = b" for b :: u8
    using of_nat_of_char [of "char_of (unat b)", where ?'a = u8] by simp
  then show ?thesis by (simp add: text_bytes_def bytes_text_def comp_def)
qed

lemma bytes_text_text_bytes [simp]: "bytes_text (text_bytes s) = s"
proof -
  have "char_of (unat (of_char c :: u8)) = c" for c :: char
    unfolding of_nat_of_char [where ?'a = u8, symmetric] unsigned_of_nat
    by (simp add: take_bit_nat_eq_self del: of_nat_of_char)
  then show ?thesis by (simp add: text_bytes_def bytes_text_def comp_def)
qed

section \<open>Splitting\<close>

text \<open>\<^verbatim>\<open>splitn\<close>: the last part keeps the separators that are left.\<close>

fun splitn :: "nat \<Rightarrow> 'a \<Rightarrow> 'a list \<Rightarrow> 'a list list" where
  "splitn 0 c s = []"
| "splitn (Suc 0) c s = [s]"
| "splitn (Suc (Suc n)) c s =
    (case dropWhile (\<lambda>x. x \<noteq> c) s of
       [] \<Rightarrow> [s]
     | _ # rest \<Rightarrow> takeWhile (\<lambda>x. x \<noteq> c) s # splitn (Suc n) c rest)"

lemma splitn_part [simp]: "c \<notin> set a \<Longrightarrow> splitn (Suc (Suc n)) c (a @ c # rest) = a # splitn (Suc n) c rest"
proof -
  assume "c \<notin> set a"
  then have "\<And>x. x \<in> set a \<Longrightarrow> x \<noteq> c" by auto
  then show ?thesis by (simp add: dropWhile_append2 takeWhile_append2)
qed

lemma splitn_whole [simp]: "c \<notin> set s \<Longrightarrow> splitn (Suc n) c s = [s]"
proof (cases n)
  case (Suc m)
  assume "c \<notin> set s"
  then have "dropWhile (\<lambda>x. x \<noteq> c) s = []" by auto
  then show ?thesis unfolding Suc splitn.simps(3) by (simp only: list.case)
qed simp

lemma splitn_three: "c \<notin> set a \<Longrightarrow> c \<notin> set b \<Longrightarrow> splitn 3 c (a @ c # b @ c # rest) = [a, b, rest]"
  by (simp add: numeral_3_eq_3 del: splitn.simps(3))

lemma splitn_two_cases:
  obtains (whole) "c \<notin> set s" "splitn (Suc (Suc n)) c s = [s]"
  | (part) a rest where "s = a @ c # rest" "c \<notin> set a" "splitn (Suc (Suc n)) c s = a # splitn (Suc n) c rest"
proof (cases "c \<in> set s")
  case True
  then obtain a rest where "s = a @ c # rest" "c \<notin> set a" by (meson split_list_first)
  then show thesis using part [of a rest] by (simp only: splitn_part not_False_eq_True simp_thms)
next
  case False
  then show thesis by (intro whole splitn_whole)
qed

section \<open>Patterns\<close>

definition starts_with_text :: "'a list \<Rightarrow> 'a list \<Rightarrow> bool" where
  "starts_with_text p s \<longleftrightarrow> take (length p) s = p"

lemma starts_with_text_iff [simp]: "starts_with_text p s \<longleftrightarrow> prefix p s"
  by (auto simp: starts_with_text_def prefix_def) (metis append_take_drop_id)

text \<open>\<^verbatim>\<open>trim_start_matches\<close> takes the pattern off as often as it is there; the pattern is not empty.\<close>

function trim_start_matches :: "'a list \<Rightarrow> 'a list \<Rightarrow> 'a list" where
  "trim_start_matches p s =
    (if p \<noteq> [] \<and> starts_with_text p s then trim_start_matches p (drop (length p) s) else s)"
  by auto
termination by (relation "measure (\<lambda>(p, s). length s)") (auto simp: prefix_def)

declare trim_start_matches.simps [simp del]

text \<open>\<^verbatim>\<open>contains\<close> and \<^verbatim>\<open>replace\<close> with a pattern that is not empty: matches are found from the left and do not overlap.\<close>

fun contains_text :: "'a list \<Rightarrow> 'a list \<Rightarrow> bool" where
  "contains_text p [] = (p = [])"
| "contains_text p (x # s) = (starts_with_text p (x # s) \<or> contains_text p s)"

function replace_text :: "'a list \<Rightarrow> 'a list \<Rightarrow> 'a list \<Rightarrow> 'a list" where
  "replace_text p r [] = []"
| "replace_text p r (x # s) =
    (if p \<noteq> [] \<and> starts_with_text p (x # s) then r @ replace_text p r (drop (length p) (x # s))
     else x # replace_text p r s)"
  by pat_completeness auto
termination by (relation "measure (\<lambda>(p, r, s). length s)") (auto simp: prefix_def)

lemma replace_text_absent: "\<not> contains_text p s \<Longrightarrow> replace_text p r s = s"
  by (induction p r s rule: replace_text.induct) auto

section \<open>Unsigned integers\<close>

definition digit_value :: "char \<Rightarrow> nat option" where
  "digit_value c = (let n = of_char c in if 48 \<le> n \<and> n \<le> 57 then Some (n - 48) else None)"

fun digits_value :: "nat \<Rightarrow> string \<Rightarrow> nat option" where
  "digits_value acc [] = Some acc"
| "digits_value acc (c # s) = (case digit_value c of Some d \<Rightarrow> digits_value (10 * acc + d) s | None \<Rightarrow> None)"

text \<open>\<^verbatim>\<open>parse\<close> to an unsigned type of \<^verbatim>\<open>w\<close> bits: one plus sign, then digits; a value that does not fit is an error.\<close>

definition parse_uint :: "nat \<Rightarrow> string \<Rightarrow> nat option" where
  "parse_uint w s =
    (let ds = (case s of c # d # rest \<Rightarrow> if c = CHR ''+'' then d # rest else s | _ \<Rightarrow> s) in
     if ds = [] then None
     else case digits_value 0 ds of Some n \<Rightarrow> (if n < 2 ^ w then Some n else None) | None \<Rightarrow> None)"

lemma parse_uint_bound: "parse_uint w s = Some n \<Longrightarrow> n < 2 ^ w"
  by (auto simp: parse_uint_def Let_def split: if_splits option.splits)

end
