(* ===== verification/Subscriptions.thy ===== *)
theory Subscriptions
  imports Broker_Types Counter Maps Texts
begin

text \<open>
  Subscription requests (\<^verbatim>\<open>types.rs\<close>): the parser of the prefixes \<^verbatim>\<open>$share\<close>, \<^verbatim>\<open>$limit\<close> and \<^verbatim>\<open>$exclusive\<close> of a topic
  filter, the requests made from the packets of both protocol versions, the answer to a request, and the
  table of the subscriptions of a session, which keeps the counters of all subscriptions up to date.
\<close>

section \<open>Topic filters\<close>

text \<open>The errors quote the filter in their text; here they carry it.\<close>

datatype filter_error = Illegal_Filter string | Shared_Disabled string | Limit_Disabled string

definition parse_prefixed :: "string \<Rightarrow> bool \<Rightarrow> bool \<Rightarrow> (string \<times> string option \<times> nat option, filter_error) res" where
  "parse_prefixed topic_filter shared limit =
    (let levels = splitn 3 CHR ''/'' topic_filter in
     if hd levels = ''$share'' then
       (if shared then
          (case tl levels of
             [g, tf] \<Rightarrow> Ok (tf, Some g, None)
           | _ \<Rightarrow> Err (Illegal_Filter topic_filter))
        else Err (Shared_Disabled topic_filter))
     else if hd levels = ''$limit'' then
       (if limit then
          (case tl levels of
             [n, tf] \<Rightarrow>
               (case parse_uint 64 n of
                  Some n \<Rightarrow> Ok (tf, None, Some n)
                | None \<Rightarrow> Err (Illegal_Filter topic_filter))
           | _ \<Rightarrow> Err (Illegal_Filter topic_filter))
        else Err (Limit_Disabled topic_filter))
     else if hd levels = ''$exclusive'' then
       (if limit then Ok (trim_start_matches ''$exclusive/'' topic_filter, None, Some 1)
        else Err (Limit_Disabled topic_filter))
     else Ok (topic_filter, None, None))"

definition parse_topic_filter :: "string \<Rightarrow> bool \<Rightarrow> bool \<Rightarrow> (string \<times> string option \<times> nat option, filter_error) res" where
  "parse_topic_filter topic_filter shared limit =
    bind_res (if shared \<or> limit then parse_prefixed topic_filter shared limit else Ok (topic_filter, None, None))
      (\<lambda>(topic, g, n). if topic = [] then Err (Illegal_Filter topic_filter) else Ok (topic, g, n))"

section \<open>Requests and answers\<close>

definition options_v3 :: "qos \<Rightarrow> string option \<Rightarrow> nat option \<Rightarrow> subscription_options_mqtt" where
  "options_v3 q g n = SO_V3 \<lparr>so3_qos = q, so3_shared_group = g, so3_limit_subs = n\<rparr>"

definition options_v5 :: "subscription_options \<Rightarrow> string option \<Rightarrow> nat option \<Rightarrow> u32 option \<Rightarrow> subscription_options_mqtt" where
  "options_v5 opts g n i = SO_V5 \<lparr>so5_qos = so_qos opts, so5_shared_group = g, so5_limit_subs = n,
     so5_no_local = so_no_local opts, so5_retain_as_published = so_retain_as_published opts,
     so5_retain_handling = so_retain_handling opts, so5_id = i\<rparr>"

record subscribe =
  sub_topic_filter :: string
  sub_opts :: subscription_options_mqtt

definition subscribe_from_v3 :: "string \<Rightarrow> qos \<Rightarrow> bool \<Rightarrow> bool \<Rightarrow> (subscribe, filter_error) res" where
  "subscribe_from_v3 topic_filter q shared limit =
    map_res (\<lambda>(tf, g, n). \<lparr>sub_topic_filter = tf, sub_opts = options_v3 q g n\<rparr>) (parse_topic_filter topic_filter shared limit)"

definition subscribe_from_v5 :: "string \<Rightarrow> subscription_options \<Rightarrow> bool \<Rightarrow> bool \<Rightarrow> u32 option \<Rightarrow> (subscribe, filter_error) res" where
  "subscribe_from_v5 topic_filter opts shared limit sub_id =
    map_res (\<lambda>(tf, g, n). \<lparr>sub_topic_filter = tf, sub_opts = options_v5 opts g n sub_id\<rparr>) (parse_topic_filter topic_filter shared limit)"

definition subscribe_is_shared :: "subscribe \<Rightarrow> bool" where
  "subscribe_is_shared s \<longleftrightarrow> has_shared_group (sub_opts s)"

record unsubscribe =
  unsub_topic_filter :: string
  unsub_shared_group :: "string option"

definition unsubscribe_from :: "string \<Rightarrow> bool \<Rightarrow> bool \<Rightarrow> (unsubscribe, filter_error) res" where
  "unsubscribe_from topic_filter shared limit =
    map_res (\<lambda>(tf, g, _). \<lparr>unsub_topic_filter = tf, unsub_shared_group = g\<rparr>) (parse_topic_filter topic_filter shared limit)"

definition unsubscribe_is_shared :: "unsubscribe \<Rightarrow> bool" where
  "unsubscribe_is_shared u \<longleftrightarrow> unsub_shared_group u \<noteq> None"

record subscribe_return =
  ack_reason :: subscribe_ack_reason
  prev_opts :: "subscription_options_mqtt option"

fun granted :: "qos \<Rightarrow> subscribe_ack_reason" where
  "granted AtMostOnce = SAR_GrantedQos0"
| "granted AtLeastOnce = SAR_GrantedQos1"
| "granted ExactlyOnce = SAR_GrantedQos2"

definition return_success :: "qos \<Rightarrow> subscription_options_mqtt option \<Rightarrow> subscribe_return" where
  "return_success q prev = \<lparr>ack_reason = granted q, prev_opts = prev\<rparr>"

definition return_failure :: "subscribe_ack_reason \<Rightarrow> subscribe_return" where
  "return_failure r = \<lparr>ack_reason = r, prev_opts = None\<rparr>"

definition return_granted :: "subscribe_return \<Rightarrow> qos option" where
  "return_granted r = (case ack_reason r of
     SAR_GrantedQos0 \<Rightarrow> Some AtMostOnce
   | SAR_GrantedQos1 \<Rightarrow> Some AtLeastOnce
   | SAR_GrantedQos2 \<Rightarrow> Some ExactlyOnce
   | _ \<Rightarrow> None)"

definition return_failed :: "subscribe_return \<Rightarrow> bool" where
  "return_failed r \<longleftrightarrow> ack_reason r \<notin> {SAR_GrantedQos0, SAR_GrantedQos1, SAR_GrantedQos2}"

lemma return_granted_success [simp]: "return_granted (return_success q prev) = Some q"
  by (cases q) (simp_all add: return_granted_def return_success_def)

lemma return_failed_iff: "return_failed r \<longleftrightarrow> return_granted r = None"
  by (cases "ack_reason r") (simp_all add: return_failed_def return_granted_def)

section \<open>The subscriptions of a session\<close>

text \<open>The counters are those of the broker: one of all subscriptions, one of the shared ones.\<close>

type_synonym session_subs = "(string \<times> subscription_options_mqtt) list"

record sub_stats =
  st_subscriptions :: counter
  st_subscriptions_shared :: counter

abbreviation count_sub :: "(counter \<Rightarrow> counter) \<Rightarrow> sub_stats \<Rightarrow> sub_stats" where
  "count_sub f st \<equiv> st\<lparr>st_subscriptions := f (st_subscriptions st)\<rparr>"

abbreviation count_shared :: "(counter \<Rightarrow> counter) \<Rightarrow> sub_stats \<Rightarrow> sub_stats" where
  "count_shared f st \<equiv> st\<lparr>st_subscriptions_shared := f (st_subscriptions_shared st)\<rparr>"

definition subs_add :: "string \<Rightarrow> subscription_options_mqtt \<Rightarrow> session_subs \<times> sub_stats \<Rightarrow>
    subscription_options_mqtt option \<times> session_subs \<times> sub_stats" where
  "subs_add tf opts = (\<lambda>(subs, st).
    let is_shared = has_shared_group opts;
        prev = map_of subs tf
    in (prev, AList.update tf opts subs,
        case prev of
          Some p \<Rightarrow>
            (if has_shared_group p \<and> \<not> is_shared then count_shared dec st
             else if \<not> has_shared_group p \<and> is_shared then count_shared inc st
             else st)
        | None \<Rightarrow> (let st = count_sub inc st in if is_shared then count_shared inc st else st)))"

definition subs_remove :: "string \<Rightarrow> session_subs \<times> sub_stats \<Rightarrow>
    (string \<times> subscription_options_mqtt) option \<times> session_subs \<times> sub_stats" where
  "subs_remove tf = (\<lambda>(subs, st).
    case map_of subs tf of
      Some opts \<Rightarrow>
        (Some (tf, opts), AList.delete tf subs,
         let st = count_sub dec st in if has_shared_group opts then count_shared dec st else st)
    | None \<Rightarrow> (None, subs, st))"

fun subs_remove_all :: "string list \<Rightarrow> session_subs \<times> sub_stats \<Rightarrow> session_subs \<times> session_subs \<times> sub_stats" where
  "subs_remove_all [] s = ([], s)"
| "subs_remove_all (tf # tfs) s =
    (let (r, s) = subs_remove tf s; (rs, s) = subs_remove_all tfs s in
     ((case r of Some sub \<Rightarrow> sub # rs | None \<Rightarrow> rs), s))"

definition subs_drain :: "session_subs \<times> sub_stats \<Rightarrow> session_subs \<times> session_subs \<times> sub_stats" where
  "subs_drain s = subs_remove_all (map fst (fst s)) s"

fun subs_extend :: "session_subs \<Rightarrow> session_subs \<times> sub_stats \<Rightarrow> session_subs \<times> sub_stats" where
  "subs_extend [] s = s"
| "subs_extend ((tf, opts) # subs) s = subs_extend subs (snd (subs_add tf opts s))"

definition subs_clear :: "session_subs \<times> sub_stats \<Rightarrow> session_subs \<times> sub_stats" where
  "subs_clear = (\<lambda>(subs, st).
    ([], fold (\<lambda>opts st. let st = count_sub dec st in if has_shared_group opts then count_shared dec st else st)
       (map snd subs) st))"

definition subs_len :: "session_subs \<Rightarrow> nat" where
  "subs_len subs = length subs"

definition subs_shared_len :: "session_subs \<Rightarrow> nat" where
  "subs_shared_len subs = length (filter (\<lambda>(_, opts). has_shared_group opts) subs)"

definition to_topic_filters :: "session_subs \<Rightarrow> string list" where
  "to_topic_filters subs = map fst subs"

section \<open>What the parser gives\<close>

lemma trim_exclusive_once:
  "\<not> prefix ''$exclusive/'' f \<Longrightarrow> trim_start_matches ''$exclusive/'' (''$exclusive/'' @ f) = f"
  by (subst trim_start_matches.simps, subst trim_start_matches.simps) simp

lemma parse_topic_filter_cases:
  assumes "CHR ''/'' \<notin> set g" and "f \<noteq> []"
  shows "parse_topic_filter tf shared limit \<noteq> Panic"
    and "parse_topic_filter tf shared limit = Ok (t, r) \<Longrightarrow> t \<noteq> []"
    and "hd (splitn 3 CHR ''/'' f) \<notin> {''$share'', ''$limit'', ''$exclusive''} \<or> \<not> shared \<and> \<not> limit \<Longrightarrow>
      parse_topic_filter f shared limit = Ok (f, None, None)"
    and "parse_topic_filter (''$share/'' @ g @ ''/'' @ f) shared limit =
      (if shared then Ok (f, Some g, None) else if limit then Err (Shared_Disabled (''$share/'' @ g @ ''/'' @ f))
       else Ok (''$share/'' @ g @ ''/'' @ f, None, None))"
    and "parse_topic_filter (''$limit/'' @ g @ ''/'' @ f) shared limit =
      (if limit then
         (case parse_uint 64 g of Some n \<Rightarrow> Ok (f, None, Some n) | None \<Rightarrow> Err (Illegal_Filter (''$limit/'' @ g @ ''/'' @ f)))
       else if shared then Err (Limit_Disabled (''$limit/'' @ g @ ''/'' @ f)) else Ok (''$limit/'' @ g @ ''/'' @ f, None, None))"
    and "\<not> prefix ''$exclusive/'' f \<Longrightarrow> parse_topic_filter (''$exclusive/'' @ f) shared limit =
      (if limit then Ok (f, None, Some 1) else if shared then Err (Limit_Disabled (''$exclusive/'' @ f))
       else Ok (''$exclusive/'' @ f, None, None))"
proof -
  have split: "splitn 3 CHR ''/'' (p @ CHR ''/'' # g @ CHR ''/'' # f) = [p, g, f]" if "CHR ''/'' \<notin> set p" for p
    using that assms(1) by (rule splitn_three)
  show "parse_topic_filter tf shared limit \<noteq> Panic"
    by (auto simp: parse_topic_filter_def parse_prefixed_def Let_def split: list.splits option.splits if_splits)
  show "t \<noteq> []" if "parse_topic_filter tf shared limit = Ok (t, r)"
    using that by (auto simp: parse_topic_filter_def split: if_splits)
  show "parse_topic_filter f shared limit = Ok (f, None, None)"
    if "hd (splitn 3 CHR ''/'' f) \<notin> {''$share'', ''$limit'', ''$exclusive''} \<or> \<not> shared \<and> \<not> limit"
    using that assms(2) by (auto simp: parse_topic_filter_def parse_prefixed_def Let_def)
  show "parse_topic_filter (''$share/'' @ g @ ''/'' @ f) shared limit =
      (if shared then Ok (f, Some g, None) else if limit then Err (Shared_Disabled (''$share/'' @ g @ ''/'' @ f))
       else Ok (''$share/'' @ g @ ''/'' @ f, None, None))"
    using split [of "''$share''"] assms(2) by (simp add: parse_topic_filter_def parse_prefixed_def Let_def)
  show "parse_topic_filter (''$limit/'' @ g @ ''/'' @ f) shared limit =
      (if limit then
         (case parse_uint 64 g of Some n \<Rightarrow> Ok (f, None, Some n) | None \<Rightarrow> Err (Illegal_Filter (''$limit/'' @ g @ ''/'' @ f)))
       else if shared then Err (Limit_Disabled (''$limit/'' @ g @ ''/'' @ f)) else Ok (''$limit/'' @ g @ ''/'' @ f, None, None))"
    using split [of "''$limit''"] assms(2)
    by (simp add: parse_topic_filter_def parse_prefixed_def Let_def split: option.split)
  have "hd (splitn 3 CHR ''/'' (''$exclusive'' @ CHR ''/'' # f)) = ''$exclusive''"
    by (subst numeral_3_eq_3, subst splitn_part) simp_all
  then show "parse_topic_filter (''$exclusive/'' @ f) shared limit =
      (if limit then Ok (f, None, Some 1) else if shared then Err (Limit_Disabled (''$exclusive/'' @ f))
       else Ok (''$exclusive/'' @ f, None, None))" if "\<not> prefix ''$exclusive/'' f"
    using trim_exclusive_once [OF that] assms(2) by (simp add: parse_topic_filter_def parse_prefixed_def Let_def)
qed

text \<open>
  The parser of topic filters: a filter is never empty; without a special first level, or with both
  features off, it is taken as it is; \<^verbatim>\<open>$share/g/f\<close> is \<^verbatim>\<open>f\<close> in group \<^verbatim>\<open>g\<close>, \<^verbatim>\<open>$limit/n/f\<close> is \<^verbatim>\<open>f\<close> for \<^verbatim>\<open>n\<close> subscribers and
  \<^verbatim>\<open>$exclusive/f\<close> is \<^verbatim>\<open>f\<close> for one; a prefix whose feature is off is refused, and the parser never panics.
\<close>

theorem parse_topic_filter_spec:
  "parse_topic_filter tf shared limit \<noteq> Panic \<and>
   (\<forall>t r. parse_topic_filter tf shared limit = Ok (t, r) \<longrightarrow> t \<noteq> []) \<and>
   (\<forall>f g. f \<noteq> [] \<longrightarrow> CHR ''/'' \<notin> set g \<longrightarrow>
     (hd (splitn 3 CHR ''/'' f) \<notin> {''$share'', ''$limit'', ''$exclusive''} \<or> \<not> shared \<and> \<not> limit \<longrightarrow>
        parse_topic_filter f shared limit = Ok (f, None, None)) \<and>
     parse_topic_filter (''$share/'' @ g @ ''/'' @ f) shared limit =
       (if shared then Ok (f, Some g, None) else if limit then Err (Shared_Disabled (''$share/'' @ g @ ''/'' @ f))
        else Ok (''$share/'' @ g @ ''/'' @ f, None, None)) \<and>
     parse_topic_filter (''$limit/'' @ g @ ''/'' @ f) shared limit =
       (if limit then
          (case parse_uint 64 g of Some n \<Rightarrow> Ok (f, None, Some n) | None \<Rightarrow> Err (Illegal_Filter (''$limit/'' @ g @ ''/'' @ f)))
        else if shared then Err (Limit_Disabled (''$limit/'' @ g @ ''/'' @ f)) else Ok (''$limit/'' @ g @ ''/'' @ f, None, None)) \<and>
     (\<not> prefix ''$exclusive/'' f \<longrightarrow> parse_topic_filter (''$exclusive/'' @ f) shared limit =
       (if limit then Ok (f, None, Some 1) else if shared then Err (Limit_Disabled (''$exclusive/'' @ f))
        else Ok (''$exclusive/'' @ f, None, None))))"
  by (intro conjI allI impI; (rule parse_topic_filter_cases; assumption)?)
    (use parse_topic_filter_cases(1, 2) [of "[]" "''a''"] in \<open>simp_all\<close>)

theorem parse_topic_filter_spec_witness:
  "parse_topic_filter ''$share/g/a/+'' True False = Ok (''a/+'', Some ''g'', None)"
proof -
  note all = conjunct2 [OF conjunct2 [OF parse_topic_filter_spec [of "''a''" True False]]]
  have "parse_topic_filter (''$share/'' @ ''g'' @ ''/'' @ ''a/+'') True False = Ok (''a/+'', Some ''g'', None)"
    using all [THEN spec, THEN spec, of "''a/+''" "''g''"] by simp
  then show ?thesis by simp
qed

text \<open>The prefix is taken off as often as it is there, and a filter that is the bare word stays.\<close>

lemma exclusive_repeated: "parse_topic_filter ''$exclusive/$exclusive/a'' False True = Ok (''a'', None, Some 1)"
  by code_simp

lemma shared_group_unchecked: "parse_topic_filter ''$share//a'' True True = Ok (''a'', Some [], None)"
  "parse_topic_filter ''$share/+/a'' True True = Ok (''a'', Some ''+'', None)"
  by code_simp+

text \<open>
  The filter of a request is the key of its subscription: a shared subscription and an ordinary one to the
  same filter replace each other.
\<close>

lemma shared_and_plain_collide:
  "bind_res (subscribe_from_v3 ''$share/g/a'' q True l) (\<lambda>s. Ok (sub_topic_filter s)) =
   bind_res (subscribe_from_v3 ''a'' q True l) (\<lambda>s. Ok (sub_topic_filter s))"
proof -
  have "parse_topic_filter ''$share/g/a'' True l = Ok (''a'', Some ''g'', None)"
    "parse_topic_filter ''a'' True l = Ok (''a'', None, None)" by (cases l; code_simp)+
  then show ?thesis by (simp add: subscribe_from_v3_def)
qed

section \<open>The counters\<close>

text \<open>
  The counters are \<^verbatim>\<open>n\<close> and \<^verbatim>\<open>m\<close> without this session, which adds its subscriptions and its shared subscriptions,
  in the arithmetic of the counters.
\<close>

definition subs_counted :: "int \<Rightarrow> int \<Rightarrow> session_subs \<times> sub_stats \<Rightarrow> bool" where
  "subs_counted n m = (\<lambda>(subs, st). distinct (map fst subs) \<and>
     current (st_subscriptions st) = isize (n + int (subs_len subs)) \<and>
     current (st_subscriptions_shared st) = isize (m + int (subs_shared_len subs)))"

datatype subs_op =
    S_Add string subscription_options_mqtt
  | S_Remove string
  | S_Drain
  | S_Extend session_subs
  | S_Clear

fun subs_step :: "subs_op \<Rightarrow> session_subs \<times> sub_stats \<Rightarrow> session_subs \<times> sub_stats" where
  "subs_step (S_Add tf opts) s = snd (subs_add tf opts s)"
| "subs_step (S_Remove tf) s = snd (subs_remove tf s)"
| "subs_step S_Drain s = snd (subs_drain s)"
| "subs_step (S_Extend subs) s = subs_extend subs s"
| "subs_step S_Clear s = subs_clear s"

lemma current_inc_isize [simp]: "current c = isize n \<Longrightarrow> current (inc c) = isize (n + 1)"
  using signed_take_bit_add [of 63 n 1] by (simp add: counter_defs isize_def)

lemma current_dec_isize [simp]: "current c = isize n \<Longrightarrow> current (dec c) = isize (n - 1)"
  using signed_take_bit_diff [of 63 n 1] by (simp add: counter_defs isize_def)

lemma shared_len_sum: "subs_shared_len subs = sum_list (map (\<lambda>(_, opts). if has_shared_group opts then 1 else 0) subs)"
  by (induction subs) (auto simp: subs_shared_len_def)

lemma subs_add_counted:
  assumes "subs_counted n m (subs, st)"
  shows "subs_counted n m (snd (subs_add tf opts (subs, st)))"
proof -
  let ?f = "\<lambda>opts. if has_shared_group opts then 1 else 0 :: nat"
  have d: "distinct (map fst subs)" using assms by (simp add: subs_counted_def)
  have sh: "subs_shared_len (AList.update tf opts subs) + (case map_of subs tf of Some p \<Rightarrow> ?f p | None \<Rightarrow> 0) = subs_shared_len subs + ?f opts"
    unfolding shared_len_sum by (rule sum_update [OF d])
  show ?thesis
  proof (cases "map_of subs tf")
    case None
    with sh assms show ?thesis
      by (auto simp: subs_counted_def subs_add_def subs_len_def length_update distinct_update Let_def add_ac)
  next
    case (Some p)
    then have "subs_shared_len (AList.update tf opts subs) + ?f p = subs_shared_len subs + ?f opts" using sh by simp
    then have "int (subs_shared_len (AList.update tf opts subs)) = int (subs_shared_len subs) + int (?f opts) - int (?f p)" by linarith
    with Some assms show ?thesis
      by (auto simp: subs_counted_def subs_add_def subs_len_def length_update distinct_update Let_def intro!: arg_cong [where f = isize])
  qed
qed

lemma subs_remove_counted:
  assumes "subs_counted n m (subs, st)"
  shows "subs_counted n m (snd (subs_remove tf (subs, st)))"
proof (cases "map_of subs tf")
  case (Some opts)
  let ?f = "\<lambda>opts. if has_shared_group opts then 1 else 0 :: nat"
  have d: "distinct (map fst subs)" using assms by (simp add: subs_counted_def)
  have "subs_shared_len (AList.delete tf subs) + ?f opts = subs_shared_len subs"
    using sum_delete [OF d, of ?f tf] Some unfolding shared_len_sum by simp
  then have sh: "int (subs_shared_len (AList.delete tf subs)) = int (subs_shared_len subs) - int (?f opts)" by linarith
  have len: "int (subs_len (AList.delete tf subs)) = int (subs_len subs) - 1"
    using length_delete [OF d Some] by (simp add: subs_len_def)
  from assms Some d show ?thesis
    by (auto simp: subs_counted_def subs_remove_def distinct_delete Let_def sh len algebra_simps)
qed (use assms in \<open>simp add: subs_remove_def\<close>)

lemma subs_remove_all_counted: "subs_counted n m s \<Longrightarrow> subs_counted n m (snd (subs_remove_all tfs s))"
proof (induction tfs arbitrary: s)
  case (Cons tf tfs)
  then show ?case using subs_remove_counted [of n m "fst s" "snd s" tf] by (simp add: case_prod_unfold Let_def)
qed simp

lemma subs_remove_all_drains:
  "distinct (map fst subs) \<Longrightarrow> fst (subs_remove_all (map fst subs) (subs, st)) = subs \<and>
   fst (snd (subs_remove_all (map fst subs) (subs, st))) = []"
proof (induction subs arbitrary: st)
  case (Cons x subs)
  obtain tf opts where x: "x = (tf, opts)" by fastforce
  from Cons.prems x have "AList.delete tf subs = subs" by simp
  with Cons x show ?case by (simp add: subs_remove_def case_prod_unfold Let_def)
qed simp

lemma subs_extend_counted: "subs_counted n m s \<Longrightarrow> subs_counted n m (subs_extend subs s)"
proof (induction subs s rule: subs_extend.induct)
  case (2 tf opts subs s)
  then show ?case using subs_add_counted [of n m "fst s" "snd s" tf opts] by simp
qed simp

lemma subs_clear_counted: "subs_counted n m s \<Longrightarrow> subs_counted n m (subs_clear s)"
proof -
  have "subs_counted n m ([], fold (\<lambda>opts st. let st = count_sub dec st in if has_shared_group opts then count_shared dec st else st) (map snd subs) st)"
    if "subs_counted n m (subs, st)" for subs st
    using that
  proof (induction subs arbitrary: st)
    case (Cons x subs)
    then show ?case
      by (cases x) (auto simp: subs_counted_def subs_len_def subs_shared_len_def Let_def algebra_simps intro!: Cons.IH)
  qed simp
  then show "subs_counted n m s \<Longrightarrow> subs_counted n m (subs_clear s)" by (cases s) (simp add: subs_clear_def)
qed

lemma subs_step_counted: "subs_counted n m s \<Longrightarrow> subs_counted n m (subs_step x s)"
  using subs_add_counted [of n m "fst s" "snd s"] subs_remove_counted [of n m "fst s" "snd s"]
  by (cases x) (simp_all add: subs_remove_all_counted subs_drain_def subs_extend_counted subs_clear_counted)

lemma subs_run_counted: "subs_counted n m s \<Longrightarrow> subs_counted n m (fold subs_step ops s)"
  by (induction ops arbitrary: s) (simp_all add: subs_step_counted)

text \<open>
  Over any sequence of operations on the table of subscriptions of a session, a filter has one entry and
  the counters of the broker exceed their values before by exactly the subscriptions and the shared
  subscriptions of the session; draining the table gives all of them and, like clearing it, takes the
  counters back.
\<close>

theorem session_subs_counted:
  assumes "is_isize (current (st_subscriptions st))" and "is_isize (current (st_subscriptions_shared st))"
  shows "case fold subs_step ops ([], st) of (subs, st') \<Rightarrow>
    distinct (map fst subs) \<and>
    current (st_subscriptions st') = isize (current (st_subscriptions st) + int (subs_len subs)) \<and>
    current (st_subscriptions_shared st') = isize (current (st_subscriptions_shared st) + int (subs_shared_len subs)) \<and>
    fst (subs_drain (subs, st')) = subs \<and>
    (\<forall>s \<in> {snd (subs_drain (subs, st')), subs_clear (subs, st')}. fst s = [] \<and>
       current (st_subscriptions (snd s)) = current (st_subscriptions st) \<and>
       current (st_subscriptions_shared (snd s)) = current (st_subscriptions_shared st))"
proof -
  let ?n = "current (st_subscriptions st)" and ?m = "current (st_subscriptions_shared st)"
  have start: "subs_counted ?n ?m ([], st)" using assms by (simp add: subs_counted_def subs_len_def subs_shared_len_def)
  have run: "subs_counted ?n ?m (fold subs_step ops ([], st))"
    by (rule subs_run_counted [OF start])
  obtain subs st' where r: "fold subs_step ops ([], st) = (subs, st')" by fastforce
  from run r have c: "subs_counted ?n ?m (subs, st')" by simp
  then have drained: "fst (subs_drain (subs, st')) = subs" "fst (snd (subs_drain (subs, st'))) = []"
    using subs_remove_all_drains [of subs st'] by (simp_all add: subs_counted_def subs_drain_def)
  have cleared: "fst (subs_clear (subs, st')) = []" by (simp add: subs_clear_def)
  have restored: "current (st_subscriptions (snd s)) = ?n \<and> current (st_subscriptions_shared (snd s)) = ?m"
    if "subs_counted ?n ?m s" "fst s = []" for s
    using that assms by (cases s) (simp add: subs_counted_def subs_len_def subs_shared_len_def)
  have "subs_counted ?n ?m (snd (subs_drain (subs, st')))" "subs_counted ?n ?m (subs_clear (subs, st'))"
    using c by (simp_all add: subs_drain_def subs_remove_all_counted subs_clear_counted)
  then have "\<forall>s \<in> {snd (subs_drain (subs, st')), subs_clear (subs, st')}. fst s = [] \<and>
      current (st_subscriptions (snd s)) = ?n \<and> current (st_subscriptions_shared (snd s)) = ?m"
    using drained restored cleared by simp
  then show ?thesis using c drained by (simp add: r subs_counted_def)
qed

theorem session_subs_counted_witness:
  "case fold subs_step [S_Add ''a'' (options_v3 AtLeastOnce None None), S_Add ''b'' (options_v3 AtMostOnce (Some ''g'') None), S_Remove ''a'']
     ([], \<lparr>st_subscriptions = counter_new, st_subscriptions_shared = counter_new\<rparr>) of (subs, st) \<Rightarrow>
   subs = [(''b'', options_v3 AtMostOnce (Some ''g'') None)] \<and> current (st_subscriptions st) = 1 \<and> current (st_subscriptions_shared st) = 1"
  using session_subs_counted [of "\<lparr>st_subscriptions = counter_new, st_subscriptions_shared = counter_new\<rparr>"
      "[S_Add ''a'' (options_v3 AtLeastOnce None None), S_Add ''b'' (options_v3 AtMostOnce (Some ''g'') None), S_Remove ''a'']"]
  by (simp add: counter_new_def is_isize_def subs_add_def subs_remove_def options_v3_def has_shared_group_def Let_def subs_len_def subs_shared_len_def)

end
