(* ===== verification/Acl.thy ===== *)
theory Acl
  imports Fitter Subscriptions
begin

text \<open>
  The rules a client gets with its authentication (\<^verbatim>\<open>acl.rs\<close>), with the results of hooks that access checks
  give (\<^verbatim>\<open>hook.rs\<close>, \<^verbatim>\<open>types.rs\<close>): rules are read from JSON, with the name of the user and the client
  identifier in place of the placeholders, and the first rule that applies decides.
\<close>

section \<open>JSON values\<close>

text \<open>The values of \<^verbatim>\<open>serde_json\<close>; an object is an association list without duplicate keys, a float is kept as a text.\<close>

datatype json =
    J_Null
  | J_Bool bool
  | J_PosInt u64
  | J_NegInt int
  | J_Float string
  | J_String string
  | J_Array "json list"
  | J_Object "(string \<times> json) list"

fun as_str :: "json \<Rightarrow> string option" where
  "as_str (J_String s) = Some s"
| "as_str _ = None"

fun as_bool :: "json \<Rightarrow> bool option" where
  "as_bool (J_Bool b) = Some b"
| "as_bool _ = None"

fun as_u64 :: "json \<Rightarrow> u64 option" where
  "as_u64 (J_PosInt n) = Some n"
| "as_u64 _ = None"

fun as_array :: "json \<Rightarrow> json list option" where
  "as_array (J_Array vs) = Some vs"
| "as_array _ = None"

fun as_object :: "json \<Rightarrow> (string \<times> json) list option" where
  "as_object (J_Object m) = Some m"
| "as_object _ = None"

section \<open>Rules\<close>

datatype permission = Perm_Allow | Perm_Deny

datatype acl_action = Act_All | Act_Publish | Act_Subscribe

record acl_topic =
  at_eq_topic_filter :: "string option"
  at_topic_filter :: "topic option"

record acl_rule =
  ru_permission :: permission
  ru_action :: acl_action
  ru_qos :: "qos list option"
  ru_retain :: "bool option"
  ru_topic :: acl_topic

record auth_info =
  ai_superuser :: bool
  ai_expire_at :: "nat option"
  ai_rules :: "acl_rule list"

definition auth_is_expired :: "nat \<Rightarrow> auth_info \<Rightarrow> bool" where
  "auth_is_expired now a = (case ai_expire_at a of Some e \<Rightarrow> e < now | None \<Rightarrow> False)"

definition acl_is_match :: "string \<Rightarrow> acl_topic \<Rightarrow> bool" where
  "acl_is_match topic t =
    (case at_eq_topic_filter t of
       Some f \<Rightarrow> f = topic
     | None \<Rightarrow> (case at_topic_filter t of Some f \<Rightarrow> topic_matches_str f topic | None \<Rightarrow> False))"

definition subscribe_hit :: "subscribe \<Rightarrow> acl_rule \<Rightarrow> bool" where
  "subscribe_hit s r =
    (if ru_action r \<notin> {Act_Subscribe, Act_All} then False
     else if \<not> (case ru_qos r of Some qs \<Rightarrow> opts_qos (sub_opts s) \<in> set qs | None \<Rightarrow> True) then False
     else acl_is_match (sub_topic_filter s) (ru_topic r))"

definition publish_hit :: "publish \<Rightarrow> acl_rule \<Rightarrow> bool" where
  "publish_hit p r =
    (if ru_action r \<notin> {Act_Publish, Act_All} then False
     else if \<not> (case ru_qos r of Some qs \<Rightarrow> pub_qos p \<in> set qs | None \<Rightarrow> True) then False
     else acl_is_match (bytes_text (pub_topic p)) (ru_topic r))"

definition publish_allow_hit :: "publish \<Rightarrow> acl_rule \<Rightarrow> bool" where
  "publish_allow_hit p r =
    (case ru_retain r of
       Some retain \<Rightarrow> if \<not> retain \<and> pub_retain p then False else publish_hit p r
     | None \<Rightarrow> publish_hit p r)"

definition publish_deny_hit :: "publish \<Rightarrow> acl_rule \<Rightarrow> bool" where
  "publish_deny_hit p r =
    (case ru_retain r of
       Some retain \<Rightarrow> if retain \<noteq> pub_retain p then False else publish_hit p r
     | None \<Rightarrow> publish_hit p r)"

section \<open>Results\<close>

datatype publish_acl_result = PublishAclResult publish_result

fun pub_res :: "publish_acl_result \<Rightarrow> publish_result" where
  "pub_res (PublishAclResult r) = r"

definition acl_allow :: publish_acl_result where
  "acl_allow = PublishAclResult (publish_result_reason_code PAR_Success None False)"

definition acl_rejected :: "bool \<Rightarrow> bytes option \<Rightarrow> publish_acl_result" where
  "acl_rejected disconnect reason_string =
    PublishAclResult (publish_result_reason_code PAR_NotAuthorized
      (Some (case reason_string of Some s \<Rightarrow> s | None \<Rightarrow> text_bytes ''PublishRefused'')) disconnect)"

definition acl_is_allow :: "publish_acl_result \<Rightarrow> bool" where
  "acl_is_allow r \<longleftrightarrow> pr_reason_code (pub_res r) = PAR_Success"

definition acl_is_rejected :: "publish_acl_result \<Rightarrow> bool" where
  "acl_is_rejected r \<longleftrightarrow> \<not> acl_is_allow r"

datatype connect_ack_code = Ack_V3 v3_connect_ack_reason | Ack_V5 connect_ack_reason

datatype auth_result =
    Auth_Allow bool "auth_info option"
  | Auth_NotFound
  | Auth_BadUsernameOrPassword
  | Auth_NotAuthorized

datatype hook_result =
    HR_UserProperties user_properties
  | HR_AuthResult auth_result
  | HR_ConnectAckReason connect_ack_code
  | HR_TopicFilter "string option"
  | HR_SubscribeAclResult subscribe_return
  | HR_PublishAclResult publish_acl_result
  | HR_Publish mpublish
  | HR_MessageExpiry

type_synonym hook_return = "bool \<times> hook_result option"

section \<open>Checks\<close>

definition subscribe_allowed :: "subscribe \<Rightarrow> hook_return" where
  "subscribe_allowed s = (False, Some (HR_SubscribeAclResult (return_success (opts_qos (sub_opts s)) None)))"

fun subscribe_rules :: "subscribe \<Rightarrow> acl_rule list \<Rightarrow> hook_return option" where
  "subscribe_rules s [] = None"
| "subscribe_rules s (r # rs) =
    (if \<not> subscribe_hit s r then subscribe_rules s rs
     else case ru_permission r of
       Perm_Allow \<Rightarrow> Some (subscribe_allowed s)
     | Perm_Deny \<Rightarrow> Some (False, Some (HR_SubscribeAclResult (return_failure SAR_NotAuthorized))))"

definition subscribe_acl :: "subscribe \<Rightarrow> auth_info \<Rightarrow> hook_return option" where
  "subscribe_acl s a = (if ai_superuser a then Some (subscribe_allowed s) else subscribe_rules s (ai_rules a))"

fun publish_rules :: "publish \<Rightarrow> bool \<Rightarrow> acl_rule list \<Rightarrow> hook_return option" where
  "publish_rules p disconnect [] = None"
| "publish_rules p disconnect (r # rs) =
    (case ru_permission r of
       Perm_Allow \<Rightarrow>
         if publish_allow_hit p r then Some (False, Some (HR_PublishAclResult acl_allow)) else publish_rules p disconnect rs
     | Perm_Deny \<Rightarrow>
         if publish_deny_hit p r then Some (False, Some (HR_PublishAclResult (acl_rejected disconnect None)))
         else publish_rules p disconnect rs)"

definition publish_acl :: "publish \<Rightarrow> bool \<Rightarrow> auth_info \<Rightarrow> hook_return option" where
  "publish_acl p disconnect a =
    (if ai_superuser a then Some (False, Some (HR_PublishAclResult acl_allow)) else publish_rules p disconnect (ai_rules a))"

section \<open>Reading rules\<close>

datatype acl_error =
    Rule_Config
  | Unknown_Permission
  | Unknown_Action
  | Unknown_QoS
  | Bad_QoS decode_error
  | Username_Missing
  | Topic_Config string
  | Bad_Filter topic_error

definition permission_try_from :: "string \<Rightarrow> (permission, acl_error) res" where
  "permission_try_from s =
    (if s = ''allow'' then Ok Perm_Allow else if s = ''deny'' then Ok Perm_Deny else Err Unknown_Permission)"

definition action_try_from :: "string \<Rightarrow> (acl_action, acl_error) res" where
  "action_try_from s =
    (if s = ''all'' then Ok Act_All else if s = ''publish'' then Ok Act_Publish
     else if s = ''subscribe'' then Ok Act_Subscribe else Err Unknown_Action)"

definition PLACEHOLDER_USERNAME :: string where "PLACEHOLDER_USERNAME = ''${username}''"
definition PLACEHOLDER_CLIENTID :: string where "PLACEHOLDER_CLIENTID = ''${clientid}''"

definition replaces :: "string \<Rightarrow> connect_info \<Rightarrow> (string, acl_error) res" where
  "replaces cfg c =
    (let with_client = replace_text PLACEHOLDER_CLIENTID (ci_client_id c) in
     case (contains_text PLACEHOLDER_USERNAME cfg, contains_text PLACEHOLDER_CLIENTID cfg) of
       (True, True) \<Rightarrow>
         (case ci_username c of
            Some u \<Rightarrow> Ok (with_client (replace_text PLACEHOLDER_USERNAME (bytes_text u) cfg))
          | None \<Rightarrow> Err Username_Missing)
     | (True, False) \<Rightarrow>
         (case ci_username c of
            Some u \<Rightarrow> Ok (replace_text PLACEHOLDER_USERNAME (bytes_text u) cfg)
          | None \<Rightarrow> Err Username_Missing)
     | (False, True) \<Rightarrow> Ok (with_client cfg)
     | (False, False) \<Rightarrow> Ok cfg)"

definition acl_topic_try_from :: "string \<Rightarrow> connect_info \<Rightarrow> (acl_topic, acl_error) res" where
  "acl_topic_try_from cfg c =
    (if starts_with_text ''eq '' cfg then
       map_res (\<lambda>t. \<lparr>at_eq_topic_filter = Some t, at_topic_filter = None\<rparr>) (replaces (drop 3 cfg) c)
     else if cfg \<noteq> [] then
       bind_res (replaces cfg c) (\<lambda>t.
         case topic_from_str t of
           Ok f \<Rightarrow> Ok \<lparr>at_eq_topic_filter = None, at_topic_filter = Some f\<rparr>
         | Err e \<Rightarrow> Err (Bad_Filter e)
         | Panic \<Rightarrow> Panic)
     else Err (Topic_Config cfg))"

text \<open>
  The value of \<^verbatim>\<open>qos\<close>: a number is cut to eight bits; \<^verbatim>\<open>flat_map\<close> over the results of an array leaves out what is
  no number.
\<close>

definition qos_of_number :: "u64 \<Rightarrow> (qos, acl_error) res" where
  "qos_of_number n = (case qos_try_from (ucast n) of Ok q \<Rightarrow> Ok q | Err e \<Rightarrow> Err (Bad_QoS e) | Panic \<Rightarrow> Panic)"

fun qos_array :: "json list \<Rightarrow> (qos list, acl_error) res" where
  "qos_array [] = Ok []"
| "qos_array (v # vs) =
    (case as_u64 v of
       Some n \<Rightarrow> bind_res (qos_of_number n) (\<lambda>q. map_res ((#) q) (qos_array vs))
     | None \<Rightarrow> qos_array vs)"

definition qos_cfg :: "json \<Rightarrow> (qos list, acl_error) res" where
  "qos_cfg v =
    (case as_array v of
       Some vs \<Rightarrow> qos_array vs
     | None \<Rightarrow>
         (case as_u64 v of
            Some n \<Rightarrow> map_res (\<lambda>q. [q]) (qos_of_number n)
          | None \<Rightarrow> Err Unknown_QoS))"

definition required :: "(string \<times> json) list \<Rightarrow> string \<Rightarrow> (string \<Rightarrow> ('a, acl_error) res) \<Rightarrow> ('a, acl_error) res" where
  "required obj key parse = (case Option.bind (map_of obj key) as_str of Some s \<Rightarrow> parse s | None \<Rightarrow> Err Rule_Config)"

definition acl_rule_try_from :: "json \<Rightarrow> connect_info \<Rightarrow> (acl_rule, acl_error) res" where
  "acl_rule_try_from cfg c =
    (case as_object cfg of
       Some obj \<Rightarrow>
         bind_res (required obj ''permission'' permission_try_from) (\<lambda>p.
         bind_res (required obj ''action'' action_try_from) (\<lambda>a.
         bind_res (case map_of obj ''qos'' of Some v \<Rightarrow> map_res Some (qos_cfg v) | None \<Rightarrow> Ok None) (\<lambda>q.
         bind_res (required obj ''topic'' (\<lambda>t. acl_topic_try_from t c)) (\<lambda>t.
         Ok \<lparr>ru_permission = p, ru_action = a, ru_qos = q, ru_retain = Option.bind (map_of obj ''retain'') as_bool, ru_topic = t\<rparr>))))
     | None \<Rightarrow> Err Rule_Config)"

section \<open>Properties\<close>

text \<open>When a rule applies to a message: its action, quality of service and retain flag fit, and its topic covers the topic of the message.\<close>

definition topic_covers :: "string \<Rightarrow> topic \<Rightarrow> acl_topic \<Rightarrow> bool" where
  "topic_covers name t at =
    (case at_eq_topic_filter at of
       Some e \<Rightarrow> e = name
     | None \<Rightarrow> (case at_topic_filter at of Some f \<Rightarrow> mqtt_matches f t \<or> early_exit f t | None \<Rightarrow> False))"

definition rule_applies :: "publish \<Rightarrow> topic \<Rightarrow> acl_rule \<Rightarrow> bool" where
  "rule_applies p t r \<longleftrightarrow> ru_action r \<noteq> Act_Subscribe \<and> (\<forall>qs. ru_qos r = Some qs \<longrightarrow> pub_qos p \<in> set qs) \<and>
    (ru_permission r = Perm_Allow \<longrightarrow> ru_retain r = Some False \<longrightarrow> \<not> pub_retain p) \<and>
    (ru_permission r = Perm_Deny \<longrightarrow> ru_retain r \<noteq> Some (\<not> pub_retain p)) \<and>
    topic_covers (bytes_text (pub_topic p)) t (ru_topic r)"

lemma acl_topic_is_match:
  assumes "acl_topic_try_from cfg c = Ok at" and "topic_from_str name = Ok t" and "topic_name t"
  shows "acl_is_match name at = topic_covers name t at"
proof (cases "at_eq_topic_filter at")
  case None
  then have "\<not> starts_with_text ''eq '' cfg" using assms(1) by (auto simp: acl_topic_try_from_def)
  with assms(1) obtain s where
    "(case topic_from_str s of Ok f \<Rightarrow> Ok \<lparr>at_eq_topic_filter = None, at_topic_filter = Some f\<rparr> | Err e \<Rightarrow> Err (Bad_Filter e) | Panic \<Rightarrow> Panic) = Ok at"
    by (auto simp: acl_topic_try_from_def split: if_splits)
  then obtain f where "topic_from_str s = Ok f" "at_topic_filter at = Some f" by (cases "topic_from_str s") auto
  with None topic_matches_str_spec [of s f name t] assms(2, 3) show ?thesis by (simp add: acl_is_match_def topic_covers_def)
qed (simp add: acl_is_match_def topic_covers_def)

lemma publish_hit_applies:
  assumes "acl_is_match (bytes_text (pub_topic p)) (ru_topic r) = topic_covers (bytes_text (pub_topic p)) t (ru_topic r)"
  shows "(case ru_permission r of Perm_Allow \<Rightarrow> publish_allow_hit p r | Perm_Deny \<Rightarrow> publish_deny_hit p r) = rule_applies p t r"
  using assms
  by (cases "ru_permission r"; cases "ru_action r"; cases "ru_retain r"; cases "ru_qos r")
    (auto simp: rule_applies_def publish_allow_hit_def publish_deny_hit_def publish_hit_def)


text \<open>A client, and the configuration of a rule.\<close>

definition acl_client :: "string \<Rightarrow> connect_info" where
  "acl_client cid = CI_V3 (ident_from 1 cid 0) \<lparr>c3_protocol = 4, c3_clean_session = True, c3_keep_alive = 60, c3_last_will = None,
     c3_client_id = text_bytes cid, c3_username = None, c3_password = None, c3_cert = None\<rparr>"

definition show_permission :: "permission \<Rightarrow> string" where
  "show_permission p = (case p of Perm_Allow \<Rightarrow> ''allow'' | Perm_Deny \<Rightarrow> ''deny'')"

definition show_action :: "acl_action \<Rightarrow> string" where
  "show_action a = (case a of Act_All \<Rightarrow> ''all'' | Act_Publish \<Rightarrow> ''publish'' | Act_Subscribe \<Rightarrow> ''subscribe'')"

definition rule_config :: "permission \<Rightarrow> acl_action \<Rightarrow> qos list option \<Rightarrow> bool option \<Rightarrow> string \<Rightarrow> json" where
  "rule_config p a qs retain t = J_Object ([(''permission'', J_String (show_permission p)), (''action'', J_String (show_action a))] @
     (case qs of Some qs \<Rightarrow> [(''qos'', J_Array (map (\<lambda>q. J_PosInt (ucast (qos_value q))) qs))] | None \<Rightarrow> []) @
     (case retain of Some b \<Rightarrow> [(''retain'', J_Bool b)] | None \<Rightarrow> []) @ [(''topic'', J_String t)])"

lemma qos_array_config: "qos_array (map (\<lambda>q. J_PosInt (ucast (qos_value q))) qs) = Ok qs"
proof (induction qs)
  case (Cons q qs)
  have "ucast (ucast (qos_value q) :: u64) = qos_value q" by (cases q) simp_all
  with Cons show ?case by (simp add: qos_of_number_def)
qed simp

lemma rule_config_parsed:
  "acl_rule_try_from (rule_config p a qs retain t) c =
    map_res (\<lambda>at. \<lparr>ru_permission = p, ru_action = a, ru_qos = qs, ru_retain = retain, ru_topic = at\<rparr>) (acl_topic_try_from t c)"
proof -
  have "permission_try_from (show_permission p) = Ok p" "action_try_from (show_action a) = Ok a"
    by (cases p; cases a; simp add: permission_try_from_def show_permission_def action_try_from_def show_action_def)+
  then show ?thesis
    by (cases qs; cases retain; cases "acl_topic_try_from t c")
      (simp_all add: acl_rule_try_from_def rule_config_def required_def qos_cfg_def qos_array_config)
qed

definition acl_message :: "string \<Rightarrow> publish" where
  "acl_message t = \<lparr>pub_dup = False, pub_retain = False, pub_qos = AtLeastOnce, pub_topic = text_bytes t, pub_packet_id = Some 1, pub_payload = [],
     pub_properties = None\<rparr>"


section \<open>Limits of the code\<close>

text \<open>
  The client identifier is put into a filter as it is: a client that calls itself \<^verbatim>\<open>#\<close> passes the rule for the
  topics of its own device with the topics of every device.
\<close>

lemma placeholder_wildcard:
  "\<exists>at. acl_topic_try_from ''dev/${clientid}'' (acl_client ''#'') = Ok at \<and> acl_is_match ''dev/other'' at"
proof -
  have "topic_from_str ''dev/#'' = Ok [Normal ''dev'', MultiWildcard]" "topic_matches_str [Normal ''dev'', MultiWildcard] ''dev/other''"
    by code_simp+
  moreover have "replaces ''dev/${clientid}'' (acl_client ''#'') = Ok ''dev/#''" by code_simp
  ultimately show ?thesis by (simp add: acl_topic_try_from_def acl_is_match_def prefix_def)
qed

text \<open>A quality of service of 256 is read as 0, and what is no number in an array is left out.\<close>

lemma qos_truncated: "qos_cfg (J_Array [J_PosInt 256, J_String ''2'']) = Ok [AtMostOnce]"
  by (simp add: qos_cfg_def qos_of_number_def qos_try_from_def)

text \<open>The name of a user is searched for the placeholder of the client identifier once it is in place.\<close>

lemma username_substituted_again:
  "replace_text PLACEHOLDER_CLIENTID ''c'' (replace_text PLACEHOLDER_USERNAME ''${clientid}'' ''u/${username}/${clientid}'') = ''u/c/c''"
  by code_simp

end
