(* ===== verification/Queue.thy ===== *)
theory Queue
  imports Counter "HOL-Library.Sublist" "HOL-Library.Multiset"
begin

text \<open>
  The bounded delivery queue of a session (\<^verbatim>\<open>queue.rs\<close>): a deque behind a mutex, a sender with an overflow
  policy, and a receiver stream that takes one item for each signal of a channel.  The hooks called on
  push and pop are functions on the state they act on; a session passes the increment and decrement of
  the statistics counter of queued messages.  The signal channel is the \<^verbatim>\<open>mpsc\<close> channel of the
  \<^verbatim>\<open>futures\<close> crate: its two operations are parameters of the definitions that call them.
\<close>

section \<open>The queue\<close>

datatype policy = Policy_Current | Policy_Early

record ('a, 's) queue =
  cap :: nat
  inner :: "'a list"
  on_push_fn :: "('s \<Rightarrow> 's) option"
  on_pop_fn :: "('s \<Rightarrow> 's) option"

definition queue_new :: "nat \<Rightarrow> ('a, 's) queue" where
  "queue_new n = \<lparr>cap = n, inner = [], on_push_fn = None, on_pop_fn = None\<rparr>"

definition on_push :: "('s \<Rightarrow> 's) \<Rightarrow> ('a, 's) queue \<Rightarrow> ('a, 's) queue" where
  "on_push f q = q\<lparr>on_push_fn := Some f\<rparr>"

definition on_pop :: "('s \<Rightarrow> 's) \<Rightarrow> ('a, 's) queue \<Rightarrow> ('a, 's) queue" where
  "on_pop f q = q\<lparr>on_pop_fn := Some f\<rparr>"

definition call_hook :: "('s \<Rightarrow> 's) option \<Rightarrow> 's \<Rightarrow> 's" where
  "call_hook f s = (case f of Some f \<Rightarrow> f s | None \<Rightarrow> s)"

text \<open>\<^verbatim>\<open>push\<close> gives the value back when the queue is full.\<close>

definition queue_push :: "'a \<Rightarrow> ('a, 's) queue \<times> 's \<Rightarrow> 'a option \<times> ('a, 's) queue \<times> 's" where
  "queue_push v = (\<lambda>(q, s).
    if cap q \<le> length (inner q) then (Some v, q, s)
    else (None, q\<lparr>inner := inner q @ [v]\<rparr>, call_hook (on_push_fn q) s))"

definition queue_pop :: "('a, 's) queue \<times> 's \<Rightarrow> 'a option \<times> ('a, 's) queue \<times> 's" where
  "queue_pop = (\<lambda>(q, s). case inner q of
     v # vs \<Rightarrow> (Some v, q\<lparr>inner := vs\<rparr>, call_hook (on_pop_fn q) s)
   | [] \<Rightarrow> (None, q, s))"

definition capacity :: "('a, 's) queue \<Rightarrow> nat" where
  "capacity q = cap q"

definition queue_len :: "('a, 's) queue \<Rightarrow> nat" where
  "queue_len q = length (inner q)"

definition queue_is_empty :: "('a, 's) queue \<Rightarrow> bool" where
  "queue_is_empty q \<longleftrightarrow> queue_len q = 0"

section \<open>Sender and receiver\<close>

text \<open>
  The state a sender and a receiver share: the queue, what the hooks act on and the signal channel.
  \<^verbatim>\<open>try_send\<close> says whether the signal was accepted; \<^verbatim>\<open>poll\<close> is one poll of the channel's receiver.
\<close>

datatype 'x poll = Pending | Ready 'x

record ('a, 's, 'c) chan =
  queue :: "('a, 's) queue"
  hooks :: 's
  signals :: 'c

definition sender_push :: "'a \<Rightarrow> ('a, 's, 'c) chan \<Rightarrow> 'a option \<times> ('a, 's, 'c) chan" where
  "sender_push v c = (let (r, q, s) = queue_push v (queue c, hooks c) in (r, c\<lparr>queue := q, hooks := s\<rparr>))"

definition sender_pop :: "('a, 's, 'c) chan \<Rightarrow> 'a option \<times> ('a, 's, 'c) chan" where
  "sender_pop c = (let (r, q, s) = queue_pop (queue c, hooks c) in (r, c\<lparr>queue := q, hooks := s\<rparr>))"

definition send :: "('c \<Rightarrow> bool \<times> 'c) \<Rightarrow> ('a \<Rightarrow> policy) \<Rightarrow> 'a \<Rightarrow> ('a, 's, 'c) chan \<Rightarrow> (unit, 'a) res \<times> ('a, 's, 'c) chan" where
  "send try_send policy_fn v c =
    (case sender_push v c of
       (Some v, c) \<Rightarrow>
         (case policy_fn v of
            Policy_Current \<Rightarrow> (Err v, c)
          | Policy_Early \<Rightarrow>
              (let (removed, c) = sender_pop c in
               case sender_push v c of
                 (Some v, c) \<Rightarrow> (Err v, c)
               | (None, c) \<Rightarrow> (case removed of Some removed \<Rightarrow> (Err removed, c) | None \<Rightarrow> (Ok (), c))))
     | (None, c) \<Rightarrow> (Ok (), c\<lparr>signals := snd (try_send (signals c))\<rparr>))"

definition poll_next :: "('c \<Rightarrow> unit option poll \<times> 'c) \<Rightarrow> ('a, 's, 'c) chan \<Rightarrow> 'a option option poll \<times> ('a, 's, 'c) chan" where
  "poll_next poll c =
    (let (result, sig) = poll (signals c); c = c\<lparr>signals := sig\<rparr> in
     case result of
       Pending \<Rightarrow> (Pending, c)
     | Ready (Some _) \<Rightarrow> (let (v, c) = sender_pop c in (Ready (Some v), c))
     | Ready None \<Rightarrow> (Ready None, c))"

text \<open>\<^verbatim>\<open>Limiter::channel\<close> signals once for every item that is already queued.\<close>

definition limiter_channel :: "('c \<Rightarrow> bool \<times> 'c) \<Rightarrow> 'c \<Rightarrow> ('a, 's) queue \<Rightarrow> 's \<Rightarrow> ('a, 's, 'c) chan" where
  "limiter_channel try_send tx q s =
    \<lparr>queue = q, hooks = s, signals = ((\<lambda>tx. snd (try_send tx)) ^^ queue_len q) tx\<rparr>"

text \<open>The period of one token of the rate limiter, in nanoseconds; \<^verbatim>\<open>burst\<close> is not zero.\<close>

definition limiter_period :: "u32 \<Rightarrow> nat \<Rightarrow> nat" where
  "limiter_period burst replenish_n_per =
    (let period = unat ((of_nat replenish_n_per :: u64) div ucast burst) in if period > 0 then period else 1)"

section \<open>Runs\<close>

text \<open>
  What the users of a channel do and see: a sender sends or takes back an item, the receiver polls.  A
  step gives the items a sender gets back as rejected and the items that are taken out.
\<close>

datatype 'a chan_op = Op_Send 'a | Op_Pop | Op_Poll

fun chan_step :: "('c \<Rightarrow> bool \<times> 'c) \<Rightarrow> ('c \<Rightarrow> unit option poll \<times> 'c) \<Rightarrow> ('a \<Rightarrow> policy) \<Rightarrow> 'a chan_op \<Rightarrow>
    ('a, 's, 'c) chan \<Rightarrow> 'a list \<times> 'a list \<times> ('a, 's, 'c) chan" where
  "chan_step ts po pf (Op_Send v) c = (case send ts pf v c of (Err x, c) \<Rightarrow> ([x], [], c) | (_, c) \<Rightarrow> ([], [], c))"
| "chan_step ts po pf Op_Pop c = (case sender_pop c of (Some x, c) \<Rightarrow> ([], [x], c) | (None, c) \<Rightarrow> ([], [], c))"
| "chan_step ts po pf Op_Poll c =
    (case poll_next po c of (Ready (Some (Some x)), c) \<Rightarrow> ([], [x], c) | (_, c) \<Rightarrow> ([], [], c))"

fun chan_run :: "('c \<Rightarrow> bool \<times> 'c) \<Rightarrow> ('c \<Rightarrow> unit option poll \<times> 'c) \<Rightarrow> ('a \<Rightarrow> policy) \<Rightarrow> 'a chan_op list \<Rightarrow>
    ('a, 's, 'c) chan \<Rightarrow> 'a list \<times> 'a list \<times> ('a, 's, 'c) chan" where
  "chan_run ts po pf [] c = ([], [], c)"
| "chan_run ts po pf (x # xs) c =
    (let (rej, got, c) = chan_step ts po pf x c; (rejs, gots, c) = chan_run ts po pf xs c in (rej @ rejs, got @ gots, c))"

fun op_sent :: "'a chan_op \<Rightarrow> 'a list" where
  "op_sent (Op_Send v) = [v]"
| "op_sent _ = []"

abbreviation sent :: "'a chan_op list \<Rightarrow> 'a list" where
  "sent ops \<equiv> concat (map op_sent ops)"

abbreviation items :: "('a, 's, 'c) chan \<Rightarrow> 'a list" where
  "items c \<equiv> inner (queue c)"

lemmas chan_defs = send_def sender_push_def sender_pop_def poll_next_def queue_push_def queue_pop_def Let_def case_prod_unfold

abbreviation bounded :: "('a, 's, 'c) chan \<Rightarrow> bool" where
  "bounded c \<equiv> length (items c) \<le> cap (queue c)"

text \<open>The branches of \<^verbatim>\<open>send\<close> and of the receiver, on a queue within its bound.\<close>

lemma send_room:
  "length (items c) < cap (queue c) \<Longrightarrow>
   send ts pf v c = (Ok (), c\<lparr>queue := (queue c)\<lparr>inner := items c @ [v]\<rparr>,
     hooks := call_hook (on_push_fn (queue c)) (hooks c), signals := snd (ts (signals c))\<rparr>)"
  by (simp add: chan_defs)

lemma send_current: "length (items c) = cap (queue c) \<Longrightarrow> pf v = Policy_Current \<Longrightarrow> send ts pf v c = (Err v, c)"
  by (simp add: chan_defs)

lemma send_early:
  "length (items c) = cap (queue c) \<Longrightarrow> pf v = Policy_Early \<Longrightarrow>
   send ts pf v c =
    (case items c of
       [] \<Rightarrow> (Err v, c)
     | x # xs \<Rightarrow> (Err x, c\<lparr>queue := (queue c)\<lparr>inner := xs @ [v]\<rparr>,
         hooks := call_hook (on_push_fn (queue c)) (call_hook (on_pop_fn (queue c)) (hooks c))\<rparr>))"
  by (cases "items c") (simp_all add: chan_defs)

lemma sender_pop_eq:
  "sender_pop c = (case items c of
     [] \<Rightarrow> (None, c)
   | x # xs \<Rightarrow> (Some x, c\<lparr>queue := (queue c)\<lparr>inner := xs\<rparr>, hooks := call_hook (on_pop_fn (queue c)) (hooks c)\<rparr>))"
  by (simp add: chan_defs split: list.split)

text \<open>One step, whatever the signal channel does: the items, their order, the bound and the hooks.\<close>

lemma bounded_cases [consumes 1]:
  assumes "bounded c"
  obtains "length (items c) < cap (queue c)"
  | "length (items c) = cap (queue c)" "pf v = Policy_Current"
  | "length (items c) = cap (queue c)" "pf v = Policy_Early" "items c = []"
  | x xs where "length (items c) = cap (queue c)" "pf v = Policy_Early" "items c = x # xs"
  using assms by (cases "pf v"; cases "items c"; fastforce)

lemma send_items:
  assumes "bounded c" and "chan_step ts po pf (Op_Send v) c = (rej, got, c')"
  shows "mset (items c) + {#v#} = mset rej + mset (items c') \<and> got = [] \<and>
    subseq (items c') (items c @ [v]) \<and> cap (queue c') = cap (queue c) \<and> bounded c'"
  using assms(1)
proof (cases rule: bounded_cases [where pf = pf and v = v])
  case 4
  then show ?thesis using assms(2) by (auto simp: send_early)
qed (use assms(2) in \<open>auto simp: send_room send_current send_early\<close>)

lemma take_items:
  assumes "bounded c" and "chan_step ts po pf x c = (rej, got, c')" and "op_sent x = []"
  shows "items c = got @ items c' \<and> rej = [] \<and> cap (queue c') = cap (queue c) \<and> bounded c'"
  using assms
  by (cases x) (auto simp: poll_next_def sender_pop_eq Let_def split: list.splits poll.splits option.splits prod.splits)

lemma step_items:
  assumes "bounded c" and "chan_step ts po pf x c = (rej, got, c')"
  shows "mset (items c) + mset (op_sent x) = mset rej + mset got + mset (items c') \<and>
    subseq (got @ items c') (items c @ op_sent x) \<and> cap (queue c') = cap (queue c) \<and> bounded c'"
proof (cases x)
  case (Op_Send v)
  then show ?thesis using send_items [of c ts po pf v rej got c'] assms by simp
qed (use take_items [OF assms] in simp_all)

lemma run_items:
  "bounded c \<Longrightarrow> chan_run ts po pf ops c = (rej, got, c') \<Longrightarrow>
   mset (items c) + mset (sent ops) = mset rej + mset got + mset (items c') \<and>
   subseq (got @ items c') (items c @ sent ops) \<and> cap (queue c') = cap (queue c) \<and> bounded c'"
proof (induction ops arbitrary: c rej got)
  case (Cons x xs)
  obtain r g d where step: "chan_step ts po pf x c = (r, g, d)" by (metis prod_cases3)
  obtain rs gs d' where run: "chan_run ts po pf xs d = (rs, gs, d')" by (metis prod_cases3)
  from Cons.prems(2) have eqs: "rej = r @ rs" "got = g @ gs" "c' = d'" by (simp_all add: step run)
  note one = step_items [OF Cons.prems(1) step]
  with Cons.IH [of d rs gs] run eqs(3) have all: "mset (items d) + mset (sent xs) = mset rs + mset gs + mset (items c')"
    "subseq (gs @ items c') (items d @ sent xs)" "cap (queue c') = cap (queue d)" "bounded c'"
    by auto
  have "subseq (g @ gs @ items c') (g @ items d @ sent xs)" using all(2) by (rule list_emb_append_mono [OF subseq_order.order_refl])
  also have "subseq (g @ items d @ sent xs) ((items c @ op_sent x) @ sent xs)"
    using one list_emb_append_mono [of "(=)" "g @ items d" "items c @ op_sent x" "sent xs" "sent xs"] by simp
  finally have order: "subseq (g @ gs @ items c') ((items c @ op_sent x) @ sent xs)" .
  have "mset (items c) + mset (op_sent x) + mset (sent xs) = mset r + mset g + (mset rs + mset gs + mset (items c'))"
    using one unfolding all(1) [symmetric] by (metis add.assoc)
  then have "mset (items c) + mset (sent (x # xs)) = mset rej + mset got + mset (items c')" by (simp add: eqs ac_simps)
  then show ?case using one all eqs order by simp
qed simp

section \<open>Hooks\<close>

text \<open>The hooks a session installs count the queued items in the statistics.\<close>

definition counted :: "int \<Rightarrow> ('a, counter, 'c) chan \<Rightarrow> bool" where
  "counted n c \<longleftrightarrow> on_push_fn (queue c) = Some inc \<and> on_pop_fn (queue c) = Some dec \<and>
     current (hooks c) = n + int (length (items c))"

lemma counted_step:
  assumes "bounded c" "counted n c" "is_isize n" "is_isize (n + int (cap (queue c)))"
    and "chan_step ts po pf x c = (rej, got, c')"
  shows "counted n c'"
proof (cases x)
  case (Op_Send v)
  show ?thesis using assms(1)
    by (cases rule: bounded_cases [where pf = pf and v = v])
      (use assms(2-) Op_Send in \<open>auto simp: send_room send_current send_early counted_def call_hook_def inc_def incs_def
        fetch_add_def max_max_def dec_def decs_def is_isize_def isize_id\<close>)
qed (use assms in \<open>auto simp: poll_next_def sender_pop_eq Let_def counted_def call_hook_def dec_def decs_def is_isize_def
       isize_id split: list.splits poll.splits option.splits prod.splits\<close>)

lemma counted_run:
  "bounded c \<Longrightarrow> counted n c \<Longrightarrow> is_isize n \<Longrightarrow> is_isize (n + int (cap (queue c))) \<Longrightarrow>
   chan_run ts po pf ops c = (rej, got, c') \<Longrightarrow> counted n c'"
proof (induction ops arbitrary: c rej got)
  case (Cons x xs)
  obtain r g d where step: "chan_step ts po pf x c = (r, g, d)" by (metis prod_cases3)
  obtain rs gs d' where run: "chan_run ts po pf xs d = (rs, gs, d')" by (metis prod_cases3)
  show ?case
    using Cons.IH [of d rs gs] Cons.prems step_items [OF Cons.prems(1) step] counted_step [OF Cons.prems(1-4) step] step run
    by auto
qed simp

section \<open>Signals\<close>

text \<open>
  What the channel promises of its pending signals: a clone of the sender has a slot of its own, so its
  \<^verbatim>\<open>try_send\<close> is accepted, and a poll takes one pending signal when there is one.
\<close>

definition signal_laws :: "('c \<Rightarrow> bool \<times> 'c) \<Rightarrow> ('c \<Rightarrow> unit option poll \<times> 'c) \<Rightarrow> ('c \<Rightarrow> nat) \<Rightarrow> bool" where
  "signal_laws ts po waiting \<longleftrightarrow>
    (\<forall>s. fst (ts s) \<and> waiting (snd (ts s)) = Suc (waiting s)) \<and>
    (\<forall>s. 0 < waiting s \<longrightarrow> fst (po s) = Ready (Some ()) \<and> Suc (waiting (snd (po s))) = waiting s) \<and>
    (\<forall>s. waiting s = 0 \<longrightarrow> fst (po s) \<noteq> Ready (Some ()) \<and> waiting (snd (po s)) = 0)"

abbreviation signalled :: "('c \<Rightarrow> nat) \<Rightarrow> ('a, 's, 'c) chan \<Rightarrow> bool" where
  "signalled waiting c \<equiv> length (items c) \<le> waiting (signals c)"

lemma poll_item:
  assumes "signal_laws ts po waiting" "signalled waiting c" "items c = x # xs"
  shows "\<exists>c'. chan_step ts po pf Op_Poll c = ([], [x], c') \<and> fst (poll_next po c) = Ready (Some (Some x)) \<and>
    items c' = xs \<and> signalled waiting c'"
proof -
  obtain r sig where po: "po (signals c) = (r, sig)" by fastforce
  have "0 < waiting (signals c)" using assms(2, 3) by auto
  then have "r = Ready (Some ()) \<and> Suc (waiting sig) = waiting (signals c)"
    using assms(1) po by (auto simp: signal_laws_def dest!: spec [of _ "signals c"])
  then show ?thesis using assms(2, 3) po by (auto simp: poll_next_def sender_pop_eq)
qed

lemma signalled_step:
  assumes "signal_laws ts po waiting" "bounded c" "signalled waiting c" "chan_step ts po pf x c = (rej, got, c')"
  shows "signalled waiting c'"
proof (cases x)
  case (Op_Send v)
  have "waiting (snd (ts (signals c))) = Suc (waiting (signals c))" using assms(1) by (simp add: signal_laws_def)
  with assms(2) show ?thesis
    by (cases rule: bounded_cases [where pf = pf and v = v])
      (use assms(3-) Op_Send in \<open>auto simp: send_room send_current send_early\<close>)
next
  case Op_Poll
  show ?thesis
  proof (cases "items c")
    case Nil
    then show ?thesis
      using Op_Poll assms(4) by (auto simp: poll_next_def sender_pop_eq Let_def split: poll.splits option.splits prod.splits)
  next
    case (Cons y ys)
    then show ?thesis using poll_item [OF assms(1, 3) Cons, of pf] Op_Poll assms(4) by auto
  qed
qed (use assms in \<open>auto simp: sender_pop_eq split: list.splits\<close>)

lemma signalled_run:
  "signal_laws ts po waiting \<Longrightarrow> bounded c \<Longrightarrow> signalled waiting c \<Longrightarrow> chan_run ts po pf ops c = (rej, got, c') \<Longrightarrow>
   signalled waiting c'"
proof (induction ops arbitrary: c rej got)
  case (Cons x xs)
  obtain r g d where step: "chan_step ts po pf x c = (r, g, d)" by (metis prod_cases3)
  obtain rs gs d' where run: "chan_run ts po pf xs d = (rs, gs, d')" by (metis prod_cases3)
  show ?case
    using Cons.IH [of d rs gs] Cons.prems step_items [OF Cons.prems(2) step] signalled_step [OF Cons.prems(1-3) step] step run
    by auto
qed simp

lemma poll_all:
  assumes "signal_laws ts po waiting"
  shows "signalled waiting c \<Longrightarrow>
    \<exists>c'. chan_run ts po pf (replicate (length (items c)) Op_Poll) c = ([], items c, c') \<and> items c' = []"
proof (induction "items c" arbitrary: c)
  case (Cons x xs)
  obtain d where d: "chan_step ts po pf Op_Poll c = ([], [x], d)" "items d = xs" "signalled waiting d"
    using poll_item [OF assms Cons.prems] Cons.hyps(2) by metis
  from Cons.hyps(1) [OF d(2) [symmetric] d(3)] d obtain c' where
    "chan_run ts po pf (replicate (length xs) Op_Poll) d = ([], xs, c')" "items c' = []" by auto
  with d(1) show ?case by (auto simp flip: Cons.hyps(2))
qed simp

lemma channel_signalled:
  assumes "signal_laws ts po waiting"
  shows "signalled waiting (limiter_channel ts tx q s)"
proof -
  have "k \<le> waiting (((\<lambda>tx. snd (ts tx)) ^^ k) tx)" for k
    using assms by (induction k) (auto simp: signal_laws_def)
  then show ?thesis by (simp add: limiter_channel_def queue_len_def)
qed

lemma session_channel:
  "bounded (limiter_channel ts tx (on_pop dec (on_push inc (queue_new n))) s)"
  "counted (current s) (limiter_channel ts tx (on_pop dec (on_push inc (queue_new n))) s)"
  "items (limiter_channel ts tx (on_pop dec (on_push inc (queue_new n))) s) = []"
  "cap (queue (limiter_channel ts tx (on_pop dec (on_push inc (queue_new n))) s)) = n"
  by (simp_all add: limiter_channel_def queue_new_def on_push_def on_pop_def counted_def)

section \<open>Properties\<close>

text \<open>
  C23: Over any sequence of sends, takes and polls on the channel of a session's queue, whatever the
  overflow policy and the signal channel: the queue never exceeds its capacity; every item sent is
  returned to its sender or taken out or still queued, and none is lost or duplicated; what was taken
  out followed by what is queued is in the order of sending; and the statistics count the queued items.
\<close>

theorem queue_fifo_bounded:
  assumes "chan_run ts po pf ops (limiter_channel ts tx (on_pop dec (on_push inc (queue_new n))) s) = (rejected, taken, c)"
    and "is_isize (current s)" and "is_isize (current s + int n)"
  shows "length (items c) \<le> n \<and> mset (sent ops) = mset rejected + mset taken + mset (items c) \<and>
    subseq (taken @ items c) (sent ops) \<and> current (hooks c) = current s + int (length (items c))"
proof -
  have "counted (current s) c"
    by (rule counted_run [OF session_channel(1, 2) assms(2) _ assms(1)]) (simp add: session_channel assms(3))
  then show ?thesis using run_items [OF session_channel(1) assms(1)] by (simp add: session_channel counted_def)
qed

definition counting_send :: "nat \<Rightarrow> bool \<times> nat" where
  "counting_send k = (True, Suc k)"

definition counting_poll :: "nat \<Rightarrow> unit option poll \<times> nat" where
  "counting_poll k = (case k of 0 \<Rightarrow> (Pending, 0) | Suc k \<Rightarrow> (Ready (Some ()), k))"

lemma counting_signals: "signal_laws counting_send counting_poll id"
  by (auto simp: signal_laws_def counting_send_def counting_poll_def split: nat.splits)

definition overflowing :: "nat list \<times> nat list \<times> (nat, counter, nat) chan" where
  "overflowing = chan_run counting_send counting_poll (\<lambda>_. Policy_Early) [Op_Send 1, Op_Send 2, Op_Send 3, Op_Poll]
     (limiter_channel counting_send 0 (on_pop dec (on_push inc (queue_new 2))) counter_new)"

theorem queue_fifo_bounded_witness:
  "fst overflowing = [1] \<and> fst (snd overflowing) = [2] \<and> items (snd (snd overflowing)) = [3] \<and>
   current (hooks (snd (snd overflowing))) = 1"
proof -
  have run: "fst overflowing = [1] \<and> fst (snd overflowing) = [2] \<and> items (snd (snd overflowing)) = [3]" by code_simp
  have ranges: "is_isize (current counter_new)" "is_isize (current counter_new + int 2)"
    by (simp_all add: counter_new_def is_isize_def)
  obtain rejected taken c where c: "overflowing = (rejected, taken, c)" by (metis prod_cases3)
  have "current (hooks c) = current counter_new + int (length (items c))"
    using queue_fifo_bounded [OF c [unfolded overflowing_def]] ranges by blast
  with run show ?thesis by (simp add: c counter_new_def)
qed

text \<open>
  C34: No wake-up is lost: after any sequence of sends, takes and polls on a channel, also one opened on a
  queue that already held items, as many polls as there are queued items deliver them all, in order,
  without waiting for another signal.
\<close>

theorem queue_no_lost_wakeup:
  assumes "signal_laws ts po waiting" and "length (inner q) \<le> cap q"
    and "chan_run ts po pf ops (limiter_channel ts tx q s) = (rejected, taken, c)"
  shows "\<exists>c'. chan_run ts po pf (replicate (length (items c)) Op_Poll) c = ([], items c, c') \<and> items c' = []"
proof -
  have "bounded (limiter_channel ts tx q s)" using assms(2) by (simp add: limiter_channel_def)
  from signalled_run [OF assms(1) this channel_signalled [OF assms(1)] assms(3)]
  show ?thesis by (rule poll_all [OF assms(1)])
qed

definition reopened :: "nat list \<times> nat list \<times> (nat, unit, nat) chan" where
  "reopened = chan_run counting_send counting_poll (\<lambda>_. Policy_Early) [Op_Send 3]
     (limiter_channel counting_send 0 ((queue_new 2)\<lparr>inner := [1, 2]\<rparr>) ())"

theorem queue_no_lost_wakeup_witness:
  "\<exists>c'. chan_run counting_send counting_poll (\<lambda>_. Policy_Early) (replicate 2 Op_Poll) (snd (snd reopened)) = ([], [2, 3], c') \<and>
     items c' = []"
proof -
  have items: "items (snd (snd reopened)) = [2, 3]" by code_simp
  have bound: "length (inner ((queue_new 2)\<lparr>inner := [1, 2 :: nat]\<rparr>)) \<le> cap ((queue_new 2)\<lparr>inner := [1, 2 :: nat]\<rparr>)"
    by (simp add: queue_new_def)
  obtain rejected taken c where c: "reopened = (rejected, taken, c)" by (metis prod_cases3)
  have "\<exists>c'. chan_run counting_send counting_poll (\<lambda>_. Policy_Early) (replicate (length (items c)) Op_Poll) c = ([], items c, c') \<and>
      items c' = []"
    by (rule queue_no_lost_wakeup [OF counting_signals bound c [unfolded reopened_def]])
  then show ?thesis using items unfolding c snd_conv by (simp add: numeral_2_eq_2)
qed

section \<open>Two senders\<close>

text \<open>
  Making room is two locked sections.  When another sender fills the place between them, the second
  push fails, its item is returned, and the item that was evicted for it is neither queued nor returned.
\<close>

lemma eviction_between_two_senders:
  assumes "items c = x # xs" and "length (items c) = cap (queue c)"
  shows "let (full, c1) = sender_push v c; (removed, c2) = sender_pop c1; (other, c3) = sender_push w c2;
       (again, c4) = sender_push v c3
     in full = Some v \<and> removed = Some x \<and> other = None \<and> again = Some v \<and> items c4 = xs @ [w]"
  using assms by (simp add: chan_defs)

end
