(* ===== verification/Inflight.thy ===== *)
theory Inflight
  imports Broker_Types Queue Maps "HOL-Library.DAList"
begin

text \<open>
  The inflight windows of a session (\<^verbatim>\<open>inflight.rs\<close>): outgoing QoS 1 and 2 messages that wait for their
  acknowledgement, with packet identifiers and the retry timer, and the identifiers of incoming QoS 2
  messages.  The ordered map of the outgoing window is \<^verbatim>\<open>DequeBTreeMap\<close> of the crate \<^verbatim>\<open>rust_box\<close>: its
  operations are a parameter.  Times are milliseconds in 64-bit signed integers, written as integers with
  the wrap-around of \<^const>\<open>isize\<close>; the clock is an argument.
\<close>

section \<open>The ordered map\<close>

record ('q, 'm) deque_map =
  dq_empty :: 'q
  dq_insert :: "u16 \<Rightarrow> 'm \<Rightarrow> 'q \<Rightarrow> 'm option \<times> 'q"
  dq_get :: "u16 \<Rightarrow> 'q \<Rightarrow> 'm option"
  dq_modify :: "u16 \<Rightarrow> ('m \<Rightarrow> 'm) \<Rightarrow> 'q \<Rightarrow> 'q"
  dq_remove :: "u16 \<Rightarrow> 'q \<Rightarrow> 'm option \<times> 'q"
  dq_front :: "'q \<Rightarrow> (u16 \<times> 'm) option"
  dq_pop_front :: "'q \<Rightarrow> (u16 \<times> 'm) option \<times> 'q"
  dq_len :: "'q \<Rightarrow> nat"
  dq_contains_key :: "u16 \<Rightarrow> 'q \<Rightarrow> bool"
  dq_iter :: "'q \<Rightarrow> (u16 \<times> 'm) list"

text \<open>
  What the window relies on: a map whose iteration visits every key once, puts a new key last, keeps the
  others in order, and starts with the front.
\<close>

definition deque_laws :: "('q, 'm) deque_map \<Rightarrow> bool" where
  "deque_laws D \<longleftrightarrow>
    dq_iter D (dq_empty D) = [] \<and>
    (\<forall>q. distinct (map fst (dq_iter D q)) \<and> dq_len D q = length (dq_iter D q)) \<and>
    (\<forall>q k. dq_get D k q = map_of (dq_iter D q) k \<and> dq_contains_key D k q = (map_of (dq_iter D q) k \<noteq> None)) \<and>
    (\<forall>q k m. fst (dq_insert D k m q) = map_of (dq_iter D q) k \<and>
       map_of (dq_iter D (snd (dq_insert D k m q))) = (map_of (dq_iter D q))(k \<mapsto> m) \<and>
       (map_of (dq_iter D q) k = None \<longrightarrow> dq_iter D (snd (dq_insert D k m q)) = dq_iter D q @ [(k, m)])) \<and>
    (\<forall>q k f. dq_iter D (dq_modify D k f q) = map (\<lambda>(k', m). (k', if k' = k then f m else m)) (dq_iter D q)) \<and>
    (\<forall>q k. fst (dq_remove D k q) = map_of (dq_iter D q) k \<and>
       dq_iter D (snd (dq_remove D k q)) = filter (\<lambda>(k', m). k' \<noteq> k) (dq_iter D q)) \<and>
    (\<forall>q. dq_front D q = (case dq_iter D q of [] \<Rightarrow> None | x # xs \<Rightarrow> Some x)) \<and>
    (\<forall>q. fst (dq_pop_front D q) = dq_front D q \<and> dq_iter D (snd (dq_pop_front D q)) = tl (dq_iter D q))"

section \<open>Outgoing messages\<close>

datatype moment_status = UnAck | UnReceived | UnComplete

record out_inflight_message =
  oi_publish :: mpublish
  oi_from :: msg_from
  oi_status :: moment_status
  oi_update_time :: int

definition out_inflight_message_new :: "int \<Rightarrow> moment_status \<Rightarrow> msg_from \<Rightarrow> mpublish \<Rightarrow> out_inflight_message" where
  "out_inflight_message_new now st f p = \<lparr>oi_publish = p, oi_from = f, oi_status = st, oi_update_time = now\<rparr>"

definition message_update_status :: "int \<Rightarrow> moment_status \<Rightarrow> out_inflight_message \<Rightarrow> out_inflight_message" where
  "message_update_status now st m = m\<lparr>oi_update_time := now, oi_status := st\<rparr>"

definition message_timeout :: "int \<Rightarrow> int \<Rightarrow> out_inflight_message \<Rightarrow> bool" where
  "message_timeout now interval_millis m \<longleftrightarrow> interval_millis > 0 \<and> isize (now - oi_update_time m) \<ge> interval_millis"

record ('q, 's) out_inflight =
  oi_cap :: nat
  oi_interval :: int
  oi_next :: u16
  oi_queues :: 'q
  oi_on_push_fn :: "('s \<Rightarrow> 's) option"
  oi_on_pop_fn :: "('s \<Rightarrow> 's) option"

definition interval :: "int \<Rightarrow> int \<Rightarrow> int" where
  "interval retry expiry =
    (if retry = 0 \<and> expiry = 0 then 0 else if retry = 0 then expiry else if expiry = 0 then retry else min retry expiry)"

definition out_inflight_new :: "('q, 'm) deque_map \<Rightarrow> nat \<Rightarrow> int \<Rightarrow> int \<Rightarrow> ('q, 's) out_inflight" where
  "out_inflight_new D n retry expiry =
    \<lparr>oi_cap = n, oi_interval = interval retry expiry, oi_next = 1, oi_queues = dq_empty D, oi_on_push_fn = None, oi_on_pop_fn = None\<rparr>"

definition out_on_push :: "('s \<Rightarrow> 's) \<Rightarrow> ('q, 's) out_inflight \<Rightarrow> ('q, 's) out_inflight" where
  "out_on_push f w = w\<lparr>oi_on_push_fn := Some f\<rparr>"

definition out_on_pop :: "('s \<Rightarrow> 's) \<Rightarrow> ('q, 's) out_inflight \<Rightarrow> ('q, 's) out_inflight" where
  "out_on_pop f w = w\<lparr>oi_on_pop_fn := Some f\<rparr>"

type_synonym 'q messages = "('q, out_inflight_message) deque_map"

definition get_timeout :: "'q messages \<Rightarrow> int \<Rightarrow> ('q, 's) out_inflight \<Rightarrow> int option" where
  "get_timeout D now w =
    (if oi_interval w = 0 then None
     else case dq_front D (oi_queues w) of
       Some (_, m) \<Rightarrow>
         (let t = isize (oi_interval w - isize (now - oi_update_time m)) in Some (if t < 1 then 1 else t))
     | None \<Rightarrow> None)"

definition front_timeout :: "'q messages \<Rightarrow> int \<Rightarrow> ('q, 's) out_inflight \<Rightarrow> bool" where
  "front_timeout D now w =
    (if oi_interval w = 0 then False
     else case dq_front D (oi_queues w) of Some (_, m) \<Rightarrow> message_timeout now (oi_interval w) m | None \<Rightarrow> False)"

definition out_get :: "'q messages \<Rightarrow> u16 \<Rightarrow> ('q, 's) out_inflight \<Rightarrow> out_inflight_message option" where
  "out_get D pid w = dq_get D pid (oi_queues w)"

definition out_front :: "'q messages \<Rightarrow> ('q, 's) out_inflight \<Rightarrow> (u16 \<times> out_inflight_message) option" where
  "out_front D w = dq_front D (oi_queues w)"

definition pop_front :: "'q messages \<Rightarrow> ('q, 's) out_inflight \<times> 's \<Rightarrow> out_inflight_message option \<times> ('q, 's) out_inflight \<times> 's" where
  "pop_front D = (\<lambda>(w, s).
    case dq_pop_front D (oi_queues w) of
      (Some (_, m), q) \<Rightarrow> (Some m, w\<lparr>oi_queues := q\<rparr>, call_hook (oi_on_pop_fn w) s)
    | (None, q) \<Rightarrow> (None, w\<lparr>oi_queues := q\<rparr>, s))"

definition pop_front_timeout :: "'q messages \<Rightarrow> int \<Rightarrow> ('q, 's) out_inflight \<times> 's \<Rightarrow> out_inflight_message option \<times> ('q, 's) out_inflight \<times> 's" where
  "pop_front_timeout D now = (\<lambda>(w, s). if front_timeout D now w then pop_front D (w, s) else (None, w, s))"

definition push_back :: "'q messages \<Rightarrow> out_inflight_message \<Rightarrow> ('q, 's) out_inflight \<times> 's \<Rightarrow> u16 option \<times> ('q, 's) out_inflight \<times> 's" where
  "push_back D m = (\<lambda>(w, s).
    case mp_packet_id (oi_publish m) of
      Some packet_id \<Rightarrow>
        (let s = call_hook (oi_on_push_fn w) s;
             (old, q) = dq_insert D packet_id m (oi_queues w);
             s = (if old \<noteq> None then call_hook (oi_on_pop_fn w) s else s)
         in (Option.bind old (\<lambda>old. mp_packet_id (oi_publish old)), w\<lparr>oi_queues := q\<rparr>, s))
    | None \<Rightarrow> (None, w, s))"

definition out_remove :: "'q messages \<Rightarrow> u16 \<Rightarrow> ('q, 's) out_inflight \<times> 's \<Rightarrow> out_inflight_message option \<times> ('q, 's) out_inflight \<times> 's" where
  "out_remove D packet_id = (\<lambda>(w, s).
    case dq_remove D packet_id (oi_queues w) of
      (Some m, q) \<Rightarrow> (Some m, w\<lparr>oi_queues := q\<rparr>, call_hook (oi_on_pop_fn w) s)
    | (None, q) \<Rightarrow> (None, w\<lparr>oi_queues := q\<rparr>, s))"

definition out_update_status :: "'q messages \<Rightarrow> int \<Rightarrow> u16 \<Rightarrow> moment_status \<Rightarrow> ('q, 's) out_inflight \<Rightarrow> ('q, 's) out_inflight" where
  "out_update_status D now packet_id st w = w\<lparr>oi_queues := dq_modify D packet_id (message_update_status now st) (oi_queues w)\<rparr>"

definition out_len :: "'q messages \<Rightarrow> ('q, 's) out_inflight \<Rightarrow> nat" where
  "out_len D w = dq_len D (oi_queues w)"

definition exist :: "'q messages \<Rightarrow> u16 \<Rightarrow> ('q, 's) out_inflight \<Rightarrow> bool" where
  "exist D packet_id w = dq_contains_key D packet_id (oi_queues w)"

text \<open>The difference of two \<^verbatim>\<open>usize\<close> wraps around in a release build.\<close>

definition has_credit :: "'q messages \<Rightarrow> ('q, 's) out_inflight \<Rightarrow> bool" where
  "has_credit D w \<longleftrightarrow> (of_nat (oi_cap w) - of_nat (dq_len D (oi_queues w)) :: u64) > 0"

fun next_id_loop :: "nat \<Rightarrow> (u16 \<Rightarrow> bool) \<Rightarrow> u16 \<Rightarrow> u16 option \<times> u16" where
  "next_id_loop 0 used next = (None, next)"
| "next_id_loop (Suc n) used next =
    (let packet_id = next; next = next + 1 in
     if packet_id = 0 then next_id_loop n used next
     else if \<not> used packet_id then (Some packet_id, next)
     else next_id_loop n used next)"

definition next_id :: "'q messages \<Rightarrow> ('q, 's) out_inflight \<Rightarrow> (u16, any_error) res \<times> ('q, 's) out_inflight" where
  "next_id D w =
    (let (r, nx) = next_id_loop 65535 (\<lambda>k. dq_contains_key D k (oi_queues w)) (oi_next w) in
     (case r of Some packet_id \<Rightarrow> Ok packet_id
        | None \<Rightarrow> Err (E_Other (text_bytes ''no packet_id available, should unreachable!()'')),
      w\<lparr>oi_next := nx\<rparr>))"

partial_function (option) to_inflight_messages :: "'q messages \<Rightarrow> ('q, 's) out_inflight \<times> 's \<Rightarrow>
    (out_inflight_message list \<times> ('q, 's) out_inflight \<times> 's) option" where
  "to_inflight_messages D ws =
    (let (r, ws') = pop_front D ws in
     if r = None then Some ([], ws')
     else Option.bind (to_inflight_messages D ws') (\<lambda>(ms, ws''). Some (the r # ms, ws'')))"

definition clone_inflight_messages :: "'q messages \<Rightarrow> ('q, 's) out_inflight \<Rightarrow> out_inflight_message list" where
  "clone_inflight_messages D w = map snd (dq_iter D (oi_queues w))"

section \<open>The window in a session\<close>

text \<open>
  What a session does with its window (\<^verbatim>\<open>session.rs\<close>): \<^verbatim>\<open>deliver\<close> gives a message its identifier and,
  after it is sent, keeps it in the window; it is called only when there is credit.
\<close>

definition assign_packet_id :: "'q messages \<Rightarrow> mpublish \<Rightarrow> ('q, 's) out_inflight \<Rightarrow> (mpublish, any_error) res \<times> ('q, 's) out_inflight" where
  "assign_packet_id D p w =
    (if pub_qos (mp_inner p) \<noteq> AtMostOnce \<and> (\<not> pub_dup (mp_inner p) \<or> mp_packet_id p = None) then
       (let (r, w) = next_id D w in
        (map_res (\<lambda>k. p\<lparr>mp_inner := (mp_inner p)\<lparr>pub_packet_id := (if k = 0 then None else Some k)\<rparr>\<rparr>) r, w))
     else (Ok p, w))"

definition cache_inflight :: "'q messages \<Rightarrow> int \<Rightarrow> msg_from \<Rightarrow> mpublish \<Rightarrow> ('q, 's) out_inflight \<times> 's \<Rightarrow> ('q, 's) out_inflight \<times> 's" where
  "cache_inflight D now f p ws =
    (case pub_qos (mp_inner p) of
       AtLeastOnce \<Rightarrow> snd (push_back D (out_inflight_message_new now UnAck f p) ws)
     | ExactlyOnce \<Rightarrow> snd (push_back D (out_inflight_message_new now UnReceived f p) ws)
     | AtMostOnce \<Rightarrow> ws)"

definition session_packet_id :: "u16 option \<Rightarrow> (u16, reason) res" where
  "session_packet_id packet_id = ok_or packet_id (R_ProtocolError (text_bytes ''packet_id is None''))"

text \<open>\<^verbatim>\<open>send_rerelease\<close>: the message goes back to the window and the reason code of the PUBREL is chosen.\<close>

definition send_rerelease :: "'q messages \<Rightarrow> int \<Rightarrow> out_inflight_message \<Rightarrow> ('q, 's) out_inflight \<times> 's \<Rightarrow>
    (u16 \<times> publish_ack2_reason, reason) res \<times> ('q, 's) out_inflight \<times> 's" where
  "send_rerelease D now m ws =
    (case session_packet_id (mp_packet_id (oi_publish m)) of
       Ok packet_id \<Rightarrow>
         (let (old_packet_id, ws) = push_back D (out_inflight_message_new now UnComplete (oi_from m) (oi_publish m)) ws in
          (Ok (packet_id, if old_packet_id \<noteq> None then PA2R_SendOnward else PA2R_PacketIdNotFound), ws))
     | Err e \<Rightarrow> (Err e, ws)
     | Panic \<Rightarrow> (Panic, ws))"

datatype window_op =
    W_Deliver int msg_from mpublish
  | W_Acked u16
  | W_Received int u16
  | W_Timeout int

fun window_step :: "'q messages \<Rightarrow> window_op \<Rightarrow> ('q, 's) out_inflight \<times> 's \<Rightarrow> any_error option \<times> ('q, 's) out_inflight \<times> 's" where
  "window_step D (W_Deliver now f p) (w, s) =
    (if has_credit D w then
       (case assign_packet_id D p w of
          (Ok p, w) \<Rightarrow> (None, cache_inflight D now f p (w, s))
        | (Err e, w) \<Rightarrow> (Some e, w, s)
        | (Panic, w) \<Rightarrow> (None, w, s))
     else (None, w, s))"
| "window_step D (W_Acked k) ws = (None, snd (out_remove D k ws))"
| "window_step D (W_Received now k) (w, s) = (None, out_update_status D now k UnComplete w, s)"
| "window_step D (W_Timeout now) ws = (None, snd (pop_front_timeout D now ws))"

fun window_run :: "'q messages \<Rightarrow> window_op list \<Rightarrow> ('q, 's) out_inflight \<times> 's \<Rightarrow> any_error list \<times> ('q, 's) out_inflight \<times> 's" where
  "window_run D [] ws = ([], ws)"
| "window_run D (x # xs) ws =
    (let (e, ws) = window_step D x ws; (es, ws) = window_run D xs ws in
     ((case e of Some e \<Rightarrow> [e] | None \<Rightarrow> []) @ es, ws))"

section \<open>Incoming messages\<close>

record in_inflight =
  cached :: "u16 list"
  in_max_inflight :: u16

text \<open>The set of identifiers is a list without duplicates; the counter of the statistics is passed along.\<close>

definition in_inflight_new :: "u16 \<Rightarrow> in_inflight" where
  "in_inflight_new mx = \<lparr>cached = [], in_max_inflight = mx\<rparr>"

definition in_is_full :: "in_inflight \<Rightarrow> bool" where
  "in_is_full w \<longleftrightarrow> unat (in_max_inflight w) \<le> length (cached w)"

definition in_contains :: "u16 \<Rightarrow> in_inflight \<Rightarrow> bool" where
  "in_contains pid w \<longleftrightarrow> pid \<in> set (cached w)"

definition in_add :: "u16 \<Rightarrow> qos \<Rightarrow> in_inflight \<times> counter \<Rightarrow> (bool, reason) res \<times> in_inflight \<times> counter" where
  "in_add pid q = (\<lambda>(w, c).
    if unat (in_max_inflight w) \<le> length (cached w) then (Err R_InflightWindowFull, w, c)
    else if pid \<notin> set (cached w) then (Ok True, w\<lparr>cached := cached w @ [pid]\<rparr>, inc c)
    else if q = ExactlyOnce then (Err (reason_of_mqtt_error (ME_PacketIdInUse pid)), w, c)
    else (Ok False, w, c))"

definition in_remove :: "u16 \<Rightarrow> in_inflight \<times> counter \<Rightarrow> bool \<times> in_inflight \<times> counter" where
  "in_remove pid = (\<lambda>(w, c).
    if pid \<in> set (cached w) then (True, w\<lparr>cached := removeAll pid (cached w)\<rparr>, dec c) else (False, w, c))"

definition in_drop :: "in_inflight \<times> counter \<Rightarrow> counter" where
  "in_drop = (\<lambda>(w, c). decs (int (length (cached w))) c)"

section \<open>Packet identifiers\<close>

text \<open>The probes of \<^verbatim>\<open>next_id\<close>: the first of the values from the counter on that is free and not zero.\<close>

lemma next_id_loop_result:
  "case next_id_loop n used x of
     (Some k, y) \<Rightarrow> k \<noteq> 0 \<and> \<not> used k \<and> y = k + 1 \<and>
       (\<exists>i < n. k = x + of_nat i \<and> (\<forall>j < i. x + of_nat j = 0 \<or> used (x + of_nat j)))
   | (None, y) \<Rightarrow> y = x + of_nat n \<and> (\<forall>j < n. x + of_nat j = 0 \<or> used (x + of_nat j))"
proof (induction n arbitrary: x)
  case (Suc n)
  show ?case
  proof (cases "x = 0 \<or> used x")
    case False
    then show ?thesis by (auto simp: Let_def intro!: exI [of _ 0])
  next
    case True
    then have step: "next_id_loop (Suc n) used x = next_id_loop n used (x + 1)" by (auto simp: Let_def)
    have all: "(\<forall>j < Suc m. x + of_nat j = 0 \<or> used (x + of_nat j)) \<longleftrightarrow> (\<forall>j < m. x + 1 + of_nat j = 0 \<or> used (x + 1 + of_nat j))" for m
      using True by (auto simp: less_Suc_eq_0_disj add_ac)
    obtain r y where r: "next_id_loop n used (x + 1) = (r, y)" by fastforce
    show ?thesis
    proof (cases r)
      case None
      then show ?thesis using Suc.IH [of "x + 1"] by (simp only: step r prod.case option.case all of_nat_Suc) (simp add: add_ac)
    next
      case (Some k)
      with Suc.IH [of "x + 1"] r obtain i where i: "k \<noteq> 0" "\<not> used k" "y = k + 1" "i < n" "k = x + 1 + of_nat i"
        "\<forall>j < i. x + 1 + of_nat j = 0 \<or> used (x + 1 + of_nat j)" by auto
      then have "\<exists>i' < Suc n. k = x + of_nat i' \<and> (\<forall>j < i'. x + of_nat j = 0 \<or> used (x + of_nat j))"
        by (intro exI [of _ "Suc i"]) (simp only: all, simp add: add_ac)
      with i Some show ?thesis by (simp only: step r prod.case option.case) blast
    qed
  qed
qed simp

lemma probes_cover: "card ((\<lambda>i. (x :: u16) + of_nat i) ` {..< 65535}) = 65535"
proof -
  have "inj_on (\<lambda>i. x + of_nat i) {..< 65535}"
    by (auto simp: inj_on_def word_of_nat_eq_iff take_bit_nat_eq_self)
  then show ?thesis by (simp add: card_image)
qed

lemma next_id_loop_succeeds:
  assumes "finite {k. used k}" and "card {k. used k} < 65534"
  obtains k y where "next_id_loop 65535 used x = (Some k, y)"
proof (cases "next_id_loop 65535 used x")
  case (Pair r y)
  show ?thesis
  proof (cases r)
    case None
    then have "(\<lambda>i. x + of_nat i) ` {..< 65535} \<subseteq> insert 0 {k. used k}"
      using next_id_loop_result [where n = 65535 and used = used and x = x] Pair by auto
    then have "65535 \<le> card (insert 0 {k. used k})"
      using card_mono [of "insert 0 {k. used k}"] assms(1) probes_cover [of x] by (metis finite_insert)
    also have "\<dots> \<le> Suc (card {k. used k})" using assms(1) by (simp add: card_insert_if)
    finally show ?thesis using assms(2) by simp
  qed (use Pair that in blast)
qed

section \<open>What the operations do to the entries\<close>

abbreviation entries :: "'q messages \<Rightarrow> ('q, 's) out_inflight \<Rightarrow> (u16 \<times> out_inflight_message) list" where
  "entries D w \<equiv> dq_iter D (oi_queues w)"

lemma deque_lawsD:
  assumes "deque_laws D"
  shows "dq_iter D (dq_empty D) = []" "distinct (map fst (dq_iter D q))" "dq_len D q = length (dq_iter D q)"
    and "dq_get D k q = map_of (dq_iter D q) k" "dq_contains_key D k q = (map_of (dq_iter D q) k \<noteq> None)"
    and "fst (dq_insert D k m q) = map_of (dq_iter D q) k"
    and "map_of (dq_iter D (snd (dq_insert D k m q))) = (map_of (dq_iter D q))(k \<mapsto> m)"
    and "map_of (dq_iter D q) k = None \<Longrightarrow> dq_iter D (snd (dq_insert D k m q)) = dq_iter D q @ [(k, m)]"
    and "dq_iter D (dq_modify D k f q) = map (\<lambda>(k', m). (k', if k' = k then f m else m)) (dq_iter D q)"
    and "fst (dq_remove D k q) = map_of (dq_iter D q) k"
    and "dq_iter D (snd (dq_remove D k q)) = filter (\<lambda>(k', m). k' \<noteq> k) (dq_iter D q)"
    and "dq_front D q = (case dq_iter D q of [] \<Rightarrow> None | x # xs \<Rightarrow> Some x)"
    and "fst (dq_pop_front D q) = dq_front D q" "dq_iter D (snd (dq_pop_front D q)) = tl (dq_iter D q)"
  using assms unfolding deque_laws_def by blast+

lemma insert_same_length:
  assumes "deque_laws D" and "map_of (dq_iter D q) k \<noteq> None"
  shows "length (dq_iter D (snd (dq_insert D k m q))) = length (dq_iter D q)"
proof -
  have keys: "set (map fst (dq_iter D r)) = dom (map_of (dq_iter D r))" for r
    by (simp add: dom_map_of_conv_image_fst)
  have len: "length (dq_iter D r) = card (dom (map_of (dq_iter D r)))" for r
    using distinct_card [OF deque_lawsD(2) [OF assms(1)], of r] unfolding keys by simp
  show ?thesis unfolding len deque_lawsD(7) [OF assms(1)] using assms(2) by (simp add: dom_def insert_Collect cong: conj_cong)
      (metis (mono_tags, lifting) option.distinct(1) not_None_eq)
qed

lemma pop_front_entries:
  assumes "deque_laws D"
  shows "case entries D w of
      [] \<Rightarrow> \<exists>w'. pop_front D (w, s) = (None, w', s) \<and> w' = w\<lparr>oi_queues := oi_queues w'\<rparr> \<and> entries D w' = []
    | (k, m) # xs \<Rightarrow> \<exists>w'. pop_front D (w, s) = (Some m, w', call_hook (oi_on_pop_fn w) s) \<and>
        w' = w\<lparr>oi_queues := oi_queues w'\<rparr> \<and> entries D w' = xs"
proof -
  obtain r q where pop: "dq_pop_front D (oi_queues w) = (r, q)" by fastforce
  with deque_lawsD(12-14) [OF assms, of "oi_queues w"] have
    "r = (case entries D w of [] \<Rightarrow> None | x # xs \<Rightarrow> Some x)" "dq_iter D q = tl (entries D w)" by simp_all
  with pop show ?thesis by (auto simp: pop_front_def split: list.split)
qed

lemma out_remove_entries:
  assumes "deque_laws D"
  shows "\<exists>w'. out_remove D k (w, s) = (map_of (entries D w) k, w',
      (case map_of (entries D w) k of Some m \<Rightarrow> call_hook (oi_on_pop_fn w) s | None \<Rightarrow> s)) \<and>
    w' = w\<lparr>oi_queues := oi_queues w'\<rparr> \<and> entries D w' = filter (\<lambda>(k', m). k' \<noteq> k) (entries D w)"
proof -
  obtain r q where rem: "dq_remove D k (oi_queues w) = (r, q)" by fastforce
  with deque_lawsD(10, 11) [OF assms, of k "oi_queues w"] have
    "r = map_of (entries D w) k" "dq_iter D q = filter (\<lambda>(k', m). k' \<noteq> k) (entries D w)" by simp_all
  with rem show ?thesis by (auto simp: out_remove_def split: option.split)
qed

lemma filter_key_length:
  "distinct (map fst xs) \<Longrightarrow> map_of xs k \<noteq> None \<Longrightarrow> Suc (length (filter (\<lambda>(k', m). k' \<noteq> k) xs)) = length xs"
proof (induction xs)
  case (Cons x xs)
  obtain k' m where x: "x = (k', m)" by fastforce
  show ?case
  proof (cases "k' = k")
    case True
    with Cons.prems x have "filter (\<lambda>(k', m). k' \<noteq> k) xs = xs" by (intro filter_True) force
    with True x show ?thesis by simp
  qed (use Cons x in auto)
qed simp

lemma filter_key_none: "map_of xs k = None \<Longrightarrow> filter (\<lambda>(k', m). k' \<noteq> k) xs = xs"
  by (induction xs) (auto split: if_splits)

lemma map_of_filter_key: "map_of (filter (\<lambda>(k', m). k' \<noteq> k) xs) = (map_of xs)(k := None)"
  by (induction xs) auto

lemma map_of_modify_key:
  "map_of (map (\<lambda>(k', m). (k', if k' = k then f m else m)) xs) = (\<lambda>j. map_option (if j = k then f else id) (map_of xs j))"
  by (induction xs) auto

lemma push_back_entries:
  assumes "deque_laws D" and "mp_packet_id (oi_publish m) = Some k"
  shows "\<exists>r w'. push_back D m (w, s) = (r, w',
      (case map_of (entries D w) k of
         None \<Rightarrow> call_hook (oi_on_push_fn w) s
       | Some _ \<Rightarrow> call_hook (oi_on_pop_fn w) (call_hook (oi_on_push_fn w) s))) \<and>
    w' = w\<lparr>oi_queues := oi_queues w'\<rparr> \<and> map_of (entries D w') = (map_of (entries D w))(k \<mapsto> m) \<and>
    length (entries D w') = (case map_of (entries D w) k of None \<Rightarrow> Suc (length (entries D w)) | Some _ \<Rightarrow> length (entries D w)) \<and>
    r = Option.bind (map_of (entries D w) k) (\<lambda>old. mp_packet_id (oi_publish old))"
proof -
  obtain old q where ins: "dq_insert D k m (oi_queues w) = (old, q)" by fastforce
  with deque_lawsD(6, 7) [OF assms(1), of k m "oi_queues w"] have
    "old = map_of (entries D w) k" "map_of (dq_iter D q) = (map_of (entries D w))(k \<mapsto> m)" by simp_all
  moreover have "length (dq_iter D q) = (case map_of (entries D w) k of None \<Rightarrow> Suc (length (entries D w)) | Some _ \<Rightarrow> length (entries D w))"
    using insert_same_length [OF assms(1), of "oi_queues w" k m] deque_lawsD(8) [OF assms(1), of "oi_queues w" k m] ins
    by (auto split: option.split)
  ultimately show ?thesis using ins assms(2) by (auto simp: push_back_def split: option.split)
qed

section \<open>The invariant of the window\<close>

text \<open>
  Every message is stored under its own identifier, the window is within its capacity, and the hooks of
  the session keep the statistics equal to the number of messages.
\<close>

definition window_inv :: "'q messages \<Rightarrow> int \<Rightarrow> ('q, counter) out_inflight \<times> counter \<Rightarrow> bool" where
  "window_inv D n = (\<lambda>(w, s).
    (\<forall>k m. map_of (entries D w) k = Some m \<longrightarrow> mp_packet_id (oi_publish m) = Some k) \<and>
    length (entries D w) \<le> oi_cap w \<and> oi_on_push_fn w = Some inc \<and> oi_on_pop_fn w = Some dec \<and>
    current s = n + int (length (entries D w)))"

lemma has_credit_iff:
  assumes "deque_laws D" and "length (entries D w) \<le> oi_cap w" and "oi_cap w < 2 ^ 64"
  shows "has_credit D w \<longleftrightarrow> length (entries D w) < oi_cap w"
proof -
  have "(of_nat (oi_cap w) - of_nat (length (entries D w)) :: u64) = of_nat (oi_cap w - length (entries D w))"
    using assms(2) by (simp add: of_nat_diff)
  moreover have "unat (of_nat (oi_cap w - length (entries D w)) :: u64) = oi_cap w - length (entries D w)"
    using assms(3) by (simp add: unsigned_of_nat take_bit_nat_eq_self)
  ultimately show ?thesis using assms(2) by (simp add: has_credit_def deque_lawsD(3) [OF assms(1)] word_less_nat_alt)
qed

lemma hook_counts:
  "is_isize (current c) \<Longrightarrow> is_isize (current c + 1) \<Longrightarrow> current (inc c) = current c + 1"
  "is_isize (current c - 1) \<Longrightarrow> current (dec c) = current c - 1"
  by (simp_all add: counter_defs)

lemma cached_inv:
  assumes "deque_laws D" "window_inv D n (w, s)" "length (entries D w) < oi_cap w" "is_isize n" "is_isize (n + int (oi_cap w))"
    and "mp_packet_id (oi_publish m) = Some k"
  shows "window_inv D n (snd (push_back D m (w, s))) \<and> oi_cap (fst (snd (push_back D m (w, s)))) = oi_cap w"
proof -
  have ranges: "is_isize (current s)" "is_isize (current s + 1)" using assms(2-5) by (auto simp: window_inv_def is_isize_def)
  then have counts: "current (inc s) = current s + 1" "current (dec (inc s)) = current s" by (simp_all add: hook_counts)
  from push_back_entries [OF assms(1, 6), of w s] obtain r w' where
    pb: "push_back D m (w, s) = (r, w', case map_of (entries D w) k of
         None \<Rightarrow> call_hook (oi_on_push_fn w) s
       | Some _ \<Rightarrow> call_hook (oi_on_pop_fn w) (call_hook (oi_on_push_fn w) s))" and
    w': "w' = w\<lparr>oi_queues := oi_queues w'\<rparr>" and
    ent: "map_of (entries D w') = (map_of (entries D w))(k \<mapsto> m)" and
    len: "length (entries D w') = (case map_of (entries D w) k of None \<Rightarrow> Suc (length (entries D w)) | Some _ \<Rightarrow> length (entries D w))"
    by blast
  have same: "oi_cap w' = oi_cap w" "oi_on_push_fn w' = oi_on_push_fn w" "oi_on_pop_fn w' = oi_on_pop_fn w"
    by (subst w', simp)+
  show ?thesis
    using assms(2, 3, 6) counts by (auto simp: pb window_inv_def ent len same call_hook_def split: option.splits if_splits)
qed

lemma smaller_inv:
  assumes "window_inv D n (w, s)" and "w' = w\<lparr>oi_queues := oi_queues w'\<rparr>" and "map_of (entries D w') \<subseteq>\<^sub>m map_of (entries D w)"
    and "is_isize n" "is_isize (n + int (oi_cap w))"
    and "s' = s \<and> length (entries D w') = length (entries D w) \<or> s' = call_hook (oi_on_pop_fn w) s \<and> Suc (length (entries D w')) = length (entries D w)"
  shows "window_inv D n (w', s') \<and> oi_cap w' = oi_cap w"
proof -
  have same: "oi_cap w' = oi_cap w" "oi_on_push_fn w' = oi_on_push_fn w" "oi_on_pop_fn w' = oi_on_pop_fn w"
    by (subst assms(2), simp)+
  have "length (entries D w) > 0 \<Longrightarrow> is_isize (current s - 1)" using assms(1, 4, 5) by (auto simp: window_inv_def is_isize_def simp del: length_greater_0_conv)
  then have count: "Suc (length (entries D w')) = length (entries D w) \<Longrightarrow> current (dec s) = current s - 1"
    by (metis hook_counts(2) zero_less_Suc)
  have sub: "map_of (entries D w') k = Some m \<Longrightarrow> map_of (entries D w) k = Some m" for k m
    using assms(3) by (auto simp: map_le_def dom_def)
  show ?thesis using assms(6)
  proof (elim disjE conjE)
    assume "s' = call_hook (oi_on_pop_fn w) s" and len: "Suc (length (entries D w')) = length (entries D w)"
    then show ?thesis using assms(1) count [OF len] sub by (simp add: window_inv_def same call_hook_def)
  qed (use assms(1) sub in \<open>simp add: window_inv_def same\<close>)
qed

lemma used_keys:
  assumes "deque_laws D"
  shows "finite {k. dq_contains_key D k q} \<and> card {k. dq_contains_key D k q} = length (dq_iter D q)"
proof -
  have "{k. dq_contains_key D k q} = set (map fst (dq_iter D q))"
    by (auto simp: deque_lawsD(5) [OF assms] map_of_eq_None_iff)
  then show ?thesis using distinct_card [OF deque_lawsD(2) [OF assms], of q] by simp
qed

lemma next_id_cases:
  assumes "deque_laws D" and "length (entries D w) < 65534"
  obtains k where "next_id D w = (Ok k, w\<lparr>oi_next := k + 1\<rparr>)" "k \<noteq> 0" "map_of (entries D w) k = None"
proof -
  let ?used = "\<lambda>k. dq_contains_key D k (oi_queues w)"
  obtain k y where r: "next_id_loop 65535 ?used (oi_next w) = (Some k, y)"
    using next_id_loop_succeeds [of ?used] used_keys [OF assms(1)] assms(2) by metis
  with next_id_loop_result [where n = 65535 and used = ?used and x = "oi_next w"] have
    "k \<noteq> 0" "map_of (entries D w) k = None" "y = k + 1" by (auto simp: deque_lawsD(5) [OF assms(1)])
  then show ?thesis using that [of k] by (simp add: next_id_def r)
qed

lemma deliver_inv:
  assumes "deque_laws D" "window_inv D n (w, s)" "is_isize n" "is_isize (n + int (oi_cap w))" "oi_cap w \<le> 65534"
  shows "\<exists>w' s'. window_step D (W_Deliver now f p) (w, s) = (None, w', s') \<and> window_inv D n (w', s') \<and> oi_cap w' = oi_cap w"
proof (cases "has_credit D w")
  case True
  then have room: "length (entries D w) < oi_cap w"
    using has_credit_iff [OF assms(1), of w] assms(2, 5) by (simp add: window_inv_def)
  obtain k where k: "next_id D w = (Ok k, w\<lparr>oi_next := k + 1\<rparr>)" "k \<noteq> 0" "map_of (entries D w) k = None"
    by (rule next_id_cases [OF assms(1), of w]) (use room assms(5) in auto)
  have inv': "window_inv D n (w\<lparr>oi_next := k + 1\<rparr>, s)" using assms(2) by (simp add: window_inv_def)
  have cached: "window_inv D n (cache_inflight D now f p' (v, s)) \<and> oi_cap (fst (cache_inflight D now f p' (v, s))) = oi_cap w"
    if "v = w \<or> v = w\<lparr>oi_next := k + 1\<rparr>" "pub_qos (mp_inner p') \<noteq> AtMostOnce \<Longrightarrow> mp_packet_id p' \<noteq> None" for v p'
  proof -
    have "window_inv D n (v, s)" "length (entries D v) < oi_cap v" "oi_cap v = oi_cap w" using that(1) inv' assms(2) room by auto
    then show ?thesis
      using cached_inv [OF assms(1), of n v s] assms(3, 4) that(2)
      by (auto simp: cache_inflight_def out_inflight_message_new_def split: qos.split)
  qed
  have p': "assign_packet_id D p w = (Ok p, w) \<and> (pub_qos (mp_inner p) \<noteq> AtMostOnce \<longrightarrow> mp_packet_id p \<noteq> None) \<or>
    (\<exists>p'. assign_packet_id D p w = (Ok p', w\<lparr>oi_next := k + 1\<rparr>) \<and> mp_packet_id p' \<noteq> None)"
    using k by (auto simp: assign_packet_id_def)
  then obtain p' v where v: "assign_packet_id D p w = (Ok p', v)" "v = w \<or> v = w\<lparr>oi_next := k + 1\<rparr>"
    "pub_qos (mp_inner p') \<noteq> AtMostOnce \<Longrightarrow> mp_packet_id p' \<noteq> None" by blast
  obtain w' s' where "cache_inflight D now f p' (v, s) = (w', s')" by fastforce
  with cached [OF v(2, 3)] True v(1) show ?thesis by simp
qed (use assms(2) in auto)

lemma window_step_inv:
  assumes "deque_laws D" "window_inv D n (w, s)" "is_isize n" "is_isize (n + int (oi_cap w))" "oi_cap w \<le> 65534"
  shows "\<exists>w' s'. window_step D x (w, s) = (None, w', s') \<and> window_inv D n (w', s') \<and> oi_cap w' = oi_cap w"
proof (cases x)
  case (W_Deliver now f p)
  then show ?thesis using deliver_inv [OF assms] by blast
next
  case (W_Acked k)
  from out_remove_entries [OF assms(1), of k w s] obtain w' where
    w': "out_remove D k (w, s) = (map_of (entries D w) k, w', case map_of (entries D w) k of Some m \<Rightarrow> call_hook (oi_on_pop_fn w) s | None \<Rightarrow> s)"
    "w' = w\<lparr>oi_queues := oi_queues w'\<rparr>" "entries D w' = filter (\<lambda>(k', m). k' \<noteq> k) (entries D w)" by blast
  have "map_of (entries D w') \<subseteq>\<^sub>m map_of (entries D w)"
    by (simp add: w'(3) map_of_filter_key map_le_def)
  then have "window_inv D n (w', case map_of (entries D w) k of Some m \<Rightarrow> call_hook (oi_on_pop_fn w) s | None \<Rightarrow> s) \<and> oi_cap w' = oi_cap w"
    by (rule smaller_inv [OF assms(2) w'(2) _ assms(3, 4)])
      (use filter_key_length [OF deque_lawsD(2) [OF assms(1), of "oi_queues w"], of k] filter_key_none [of "entries D w" k] in
        \<open>auto simp: w'(3) split: option.split\<close>)
  then show ?thesis using W_Acked w'(1) by simp
next
  case (W_Received now k)
  have "map_of (entries D (out_update_status D now k UnComplete w)) =
    (\<lambda>j. map_option (if j = k then message_update_status now UnComplete else id) (map_of (entries D w) j))"
    by (simp add: out_update_status_def deque_lawsD(9) [OF assms(1)] map_of_modify_key)
  then show ?thesis
    using W_Received assms(2) by (auto simp: window_inv_def out_update_status_def deque_lawsD(9) [OF assms(1)] message_update_status_def)
next
  case (W_Timeout now)
  show ?thesis
  proof (cases "front_timeout D now w")
    case True
    show ?thesis
    proof (cases "entries D w")
      case Nil
      with True show ?thesis by (simp add: front_timeout_def deque_lawsD(12) [OF assms(1)] split: if_splits)
    next
      case (Cons y ys)
      obtain k m where y: "y = (k, m)" by fastforce
      with pop_front_entries [OF assms(1), of w s] Cons obtain w' where
        w': "pop_front D (w, s) = (Some m, w', call_hook (oi_on_pop_fn w) s)" "w' = w\<lparr>oi_queues := oi_queues w'\<rparr>" "entries D w' = ys" by auto
      have "map_of (entries D w') \<subseteq>\<^sub>m map_of (entries D w)"
        using deque_lawsD(2) [OF assms(1), of "oi_queues w"] Cons y w'(3) by (force simp: map_le_def dest: map_of_SomeD)
      then have "window_inv D n (w', call_hook (oi_on_pop_fn w) s) \<and> oi_cap w' = oi_cap w"
        by (rule smaller_inv [OF assms(2) w'(2) _ assms(3, 4)]) (use Cons w'(3) in simp)
      then show ?thesis using W_Timeout True w'(1) by (simp add: pop_front_timeout_def)
    qed
  qed (use W_Timeout assms(2) in \<open>simp add: pop_front_timeout_def\<close>)
qed

lemma window_run_inv:
  "deque_laws D \<Longrightarrow> window_inv D n (w, s) \<Longrightarrow> is_isize n \<Longrightarrow> is_isize (n + int (oi_cap w)) \<Longrightarrow> oi_cap w \<le> 65534 \<Longrightarrow>
   \<exists>w' s'. window_run D ops (w, s) = ([], w', s') \<and> window_inv D n (w', s') \<and> oi_cap w' = oi_cap w"
proof (induction ops arbitrary: w s)
  case (Cons x xs)
  from window_step_inv [OF Cons.prems] obtain w' s' where
    step: "window_step D x (w, s) = (None, w', s')" "window_inv D n (w', s')" "oi_cap w' = oi_cap w" by blast
  from Cons.IH [OF Cons.prems(1) step(2) Cons.prems(3)] step(3) Cons.prems(4, 5) obtain v t where
    "window_run D xs (w', s') = ([], v, t)" "window_inv D n (v, t)" "oi_cap v = oi_cap w" by auto
  with step show ?case by simp
qed simp

lemma drain_entries:
  assumes "deque_laws D"
  shows "\<exists>w' s'. to_inflight_messages D (w, s) = Some (map snd (entries D w), w', s') \<and> entries D w' = [] \<and>
    oi_next w' = oi_next w \<and> s' = (call_hook (oi_on_pop_fn w) ^^ length (entries D w)) s"
proof (induction "entries D w" arbitrary: w s)
  case Nil
  with pop_front_entries [OF assms, of w s] obtain w' where
    w': "pop_front D (w, s) = (None, w', s)" "w' = w\<lparr>oi_queues := oi_queues w'\<rparr>" "entries D w' = []" by auto
  have "oi_next w' = oi_next w" by (subst w'(2)) simp
  with w' show ?case by (subst to_inflight_messages.simps) (simp flip: Nil)
next
  case (Cons x xs)
  obtain k m where x: "x = (k, m)" by fastforce
  with pop_front_entries [OF assms, of w s] Cons.hyps(2) [symmetric] obtain w' where
    w': "pop_front D (w, s) = (Some m, w', call_hook (oi_on_pop_fn w) s)" "w' = w\<lparr>oi_queues := oi_queues w'\<rparr>" "entries D w' = xs" by auto
  have same: "oi_next w' = oi_next w" "oi_on_pop_fn w' = oi_on_pop_fn w" by (subst w'(2), simp)+
  from Cons.hyps(1) [OF w'(3) [symmetric], of "call_hook (oi_on_pop_fn w) s"] w'(1, 3) same x show ?case
    by (subst to_inflight_messages.simps) (auto simp flip: Cons.hyps(2) simp: funpow_swap1)
qed

lemma dec_times: "is_isize (current c) \<Longrightarrow> is_isize (current c - int n) \<Longrightarrow> current ((dec ^^ n) c) = current c - int n"
proof (induction n)
  case (Suc n)
  then have "current ((dec ^^ n) c) = current c - int n" by (auto simp: is_isize_def)
  moreover from this have "is_isize (current ((dec ^^ n) c) - 1)" using Suc.prems(2) by (simp add: diff_diff_eq add.commute)
  ultimately show ?case using hook_counts(2) [of "(dec ^^ n) c"] by simp
qed simp

section \<open>An instance of the map\<close>

text \<open>Association lists without duplicate keys satisfy the laws.\<close>

definition alist_deque :: "((u16, 'm) alist, 'm) deque_map" where
  "alist_deque = \<lparr>dq_empty = DAList.empty,
     dq_insert = (\<lambda>k m q. (DAList.lookup q k, DAList.update k m q)),
     dq_get = (\<lambda>k q. DAList.lookup q k),
     dq_modify = DAList.map_entry,
     dq_remove = (\<lambda>k q. (DAList.lookup q k, DAList.delete k q)),
     dq_front = (\<lambda>q. case alist.impl_of q of [] \<Rightarrow> None | x # _ \<Rightarrow> Some x),
     dq_pop_front = (\<lambda>q. case alist.impl_of q of [] \<Rightarrow> (None, q) | (k, m) # _ \<Rightarrow> (Some (k, m), DAList.delete k q)),
     dq_len = (\<lambda>q. length (alist.impl_of q)),
     dq_contains_key = (\<lambda>k q. DAList.lookup q k \<noteq> None),
     dq_iter = alist.impl_of\<rparr>"

lemma alist_map_entry: "distinct (map fst xs) \<Longrightarrow> AList.map_entry k f xs = map (\<lambda>(k', m). (k', if k' = k then f m else m)) xs"
proof (induction xs)
  case (Cons x xs)
  then show ?case by (cases x) (auto simp: image_iff intro!: map_idI [symmetric])
qed simp

lemma alist_delete_front: "alist.impl_of q = (k, m) # xs \<Longrightarrow> AList.delete k xs = xs"
  using impl_of_distinct [of q] by (auto simp: delete_filter intro!: filter_True) (metis fst_conv image_eqI)

lemma alist_deque_laws: "deque_laws alist_deque"
  by (auto simp: deque_laws_def alist_deque_def DAList.empty.rep_eq DAList.lookup.rep_eq DAList.update.rep_eq DAList.delete.rep_eq
    DAList.map_entry.rep_eq update_conv' update_fresh alist_map_entry delete_filter [symmetric] alist_delete_front split: list.split)

section \<open>Properties\<close>

abbreviation session_window :: "'q messages \<Rightarrow> nat \<Rightarrow> int \<Rightarrow> int \<Rightarrow> ('q, counter) out_inflight" where
  "session_window D n retry expiry \<equiv> out_on_pop dec (out_on_push inc (out_inflight_new D n retry expiry))"

lemma session_window_inv:
  "deque_laws D \<Longrightarrow> window_inv D (current s) (session_window D n retry expiry, s) \<and> oi_cap (session_window D n retry expiry) = n"
  by (simp add: window_inv_def out_on_pop_def out_on_push_def out_inflight_new_def deque_lawsD)

lemma next_id_loop_numeral:
  "next_id_loop (numeral n) used next =
    (let packet_id = next; next = next + 1 in
     if packet_id = 0 then next_id_loop (pred_numeral n) used next
     else if \<not> used packet_id then (Some packet_id, next)
     else next_id_loop (pred_numeral n) used next)"
  by (simp add: numeral_eq_Suc)

lemmas window_eval = out_on_pop_def out_on_push_def out_inflight_new_def has_credit_def assign_packet_id_def next_id_def next_id_loop_numeral
  cache_inflight_def push_back_def out_inflight_message_new_def alist_deque_def DAList.update.rep_eq DAList.empty.rep_eq DAList.lookup.rep_eq
  interval_def Let_def case_prod_unfold

definition waiting_message :: out_inflight_message where
  "waiting_message = out_inflight_message_new 1000 UnAck (from_custom (ident_from 1 ''c'' 0))
     \<lparr>mp_inner = \<lparr>pub_dup = False, pub_retain = False, pub_qos = AtLeastOnce, pub_topic = [97], pub_packet_id = Some 1, pub_payload = [],
        pub_properties = None\<rparr>, mp_target_clientid = None, mp_delay_interval = None, mp_create_time = None\<rparr>"



text \<open>
  The search for a packet identifier ends: with fewer than 65534 messages in the window it finds an
  identifier that is not zero and not in use, the first one from the counter on, and the counter goes on
  after it; with all 65535 identifiers in use it reports the error.
\<close>

theorem next_id_finds:
  assumes "deque_laws D"
  shows "(out_len D w < 65534 \<longrightarrow>
      (\<exists>i < 65535. let k = oi_next w + of_nat i in
         next_id D w = (Ok k, w\<lparr>oi_next := k + 1\<rparr>) \<and> k \<noteq> 0 \<and> \<not> exist D k w \<and>
         (\<forall>j < i. oi_next w + of_nat j = 0 \<or> exist D (oi_next w + of_nat j) w))) \<and>
    ((\<forall>k. k \<noteq> 0 \<longrightarrow> exist D k w) \<longrightarrow> (\<exists>e. fst (next_id D w) = Err e))"
proof -
  let ?used = "\<lambda>k. dq_contains_key D k (oi_queues w)"
  note res = next_id_loop_result [where n = 65535 and used = ?used and x = "oi_next w"]
  have found: "\<exists>i < 65535. let k = oi_next w + of_nat i in
         next_id D w = (Ok k, w\<lparr>oi_next := k + 1\<rparr>) \<and> k \<noteq> 0 \<and> \<not> exist D k w \<and>
         (\<forall>j < i. oi_next w + of_nat j = 0 \<or> exist D (oi_next w + of_nat j) w)" if len: "out_len D w < 65534"
  proof -
    have "finite {k. ?used k}" "card {k. ?used k} < 65534"
      using used_keys [OF assms, of "oi_queues w"] len deque_lawsD(3) [OF assms, of "oi_queues w"] by (simp_all add: out_len_def)
    then obtain k y where r: "next_id_loop 65535 ?used (oi_next w) = (Some k, y)" by (rule next_id_loop_succeeds)
    with res obtain i where "i < 65535" "k = oi_next w + of_nat i" "k \<noteq> 0" "\<not> ?used k" "y = k + 1"
      "\<forall>j < i. oi_next w + of_nat j = 0 \<or> ?used (oi_next w + of_nat j)" by auto
    then show ?thesis using r by (auto simp: next_id_def exist_def Let_def)
  qed
  have "\<exists>e. fst (next_id D w) = Err e" if "\<forall>k. k \<noteq> 0 \<longrightarrow> exist D k w"
    using res that by (auto simp: next_id_def exist_def split: prod.splits option.splits)
  with found show ?thesis by blast
qed

theorem next_id_finds_witness:
  "\<exists>i < 65535. let w = session_window alist_deque 16 20000 0 :: ((u16, out_inflight_message) alist, counter) out_inflight;
     k = oi_next w + of_nat i in next_id alist_deque w = (Ok k, w\<lparr>oi_next := k + 1\<rparr>) \<and> k \<noteq> 0"
proof -
  have "out_len alist_deque (session_window alist_deque 16 20000 0) < 65534"
    by (simp add: out_len_def out_on_pop_def out_on_push_def out_inflight_new_def deque_lawsD(1, 3) [OF alist_deque_laws])
  then show ?thesis using next_id_finds [OF alist_deque_laws, of "session_window alist_deque 16 20000 0"] unfolding Let_def by blast
qed

text \<open>
  Taking the window apart when a session goes offline ends and gives all its messages in their order;
  the window is empty afterwards and the statistics are back where they were.
\<close>

theorem to_inflight_messages_drains:
  assumes "deque_laws D" and "is_isize (current s)" and "is_isize (current s + int n)" and "n \<le> 65534"
    and "window_run D ops (session_window D n retry expiry, s) = ([], w, t)"
  shows "\<exists>w' t'. to_inflight_messages D (w, t) = Some (map snd (entries D w), w', t') \<and> entries D w' = [] \<and> current t' = current s"
proof -
  note start = session_window_inv [OF assms(1), of s n retry expiry]
  have "\<exists>w t. window_run D ops (session_window D n retry expiry, s) = ([], w, t) \<and>
      window_inv D (current s) (w, t) \<and> oi_cap w = oi_cap (session_window D n retry expiry)"
    by (rule window_run_inv) (use assms start in auto)
  with assms(5) have inv: "window_inv D (current s) (w, t)" and cap: "oi_cap w = n" using start by auto
  from drain_entries [OF assms(1), of w t] obtain w' t' where
    d: "to_inflight_messages D (w, t) = Some (map snd (entries D w), w', t')" "entries D w' = []"
    "t' = (call_hook (oi_on_pop_fn w) ^^ length (entries D w)) t" by blast
  have "t' = (dec ^^ length (entries D w)) t" using d(3) inv by (simp add: window_inv_def call_hook_def [abs_def])
  moreover have "is_isize (current t)" using inv cap assms(2, 3) by (auto simp: window_inv_def is_isize_def)
  ultimately have "current t' = current s" using dec_times [of t "length (entries D w)"] inv assms(2) by (simp add: window_inv_def)
  with d show ?thesis by blast
qed

theorem to_inflight_messages_drains_witness:
  "\<exists>w t w' t'. window_run alist_deque [W_Deliver 1000 (oi_from waiting_message) (oi_publish waiting_message)]
       (session_window alist_deque 16 20000 0, counter_new) = ([], w, t) \<and>
     to_inflight_messages alist_deque (w, t) = Some ([waiting_message], w', t') \<and> entries alist_deque w' = [] \<and> current t' = 0"
proof -
  let ?ops = "[W_Deliver 1000 (oi_from waiting_message) (oi_publish waiting_message)]"
  obtain w t where run: "window_run alist_deque ?ops (session_window alist_deque 16 20000 0, counter_new) = ([], w, t)"
    and m: "map snd (entries alist_deque w) = [waiting_message]"
    by (simp add: window_eval waiting_message_def)
  show ?thesis
    using to_inflight_messages_drains [OF alist_deque_laws _ _ _ run] run m
    by (auto simp: counter_new_def is_isize_def simp del: window_run.simps)
qed

text \<open>
  The retry timer fires exactly when it should: with a positive interval and a message at the front,
  \<^verbatim>\<open>get_timeout\<close> gives a wait of at least a millisecond after which \<^verbatim>\<open>pop_front_timeout\<close> gives that message;
  and when the message is not overdue already, it gives nothing at any time before.
\<close>

theorem retry_timer_exact:
  assumes "deque_laws D" and "entries D w = (k, m) # xs" and "0 < oi_interval w"
    and "0 \<le> oi_update_time m" and "oi_update_time m \<le> now" and "now + oi_interval w < 2 ^ 63"
  shows "\<exists>d. get_timeout D now w = Some d \<and> 1 \<le> d \<and> d \<le> oi_interval w \<and>
    fst (pop_front_timeout D (now + d) (w, s)) = Some m \<and>
    (\<not> front_timeout D now w \<longrightarrow> (\<forall>t. now \<le> t \<and> t < now + d \<longrightarrow> fst (pop_front_timeout D t (w, s)) = None))"
proof -
  have front: "dq_front D (oi_queues w) = Some (k, m)" using assms(2) by (simp add: deque_lawsD(12) [OF assms(1)])
  have pop: "fst (pop_front D (w, s)) = Some m" using pop_front_entries [OF assms(1), of w s] assms(2) by auto
  have age: "isize (t - oi_update_time m) = t - oi_update_time m" if "now \<le> t" "t \<le> now + oi_interval w" for t
    using assms(4-6) that by (intro isize_id) (simp add: is_isize_def)
  have ft: "front_timeout D t w \<longleftrightarrow> oi_interval w \<le> t - oi_update_time m" if "now \<le> t" "t \<le> now + oi_interval w" for t
    using assms(3) age [OF that] by (simp add: front_timeout_def front message_timeout_def)
  define left where "left = oi_interval w - (now - oi_update_time m)"
  have "isize left = left" using assms(3-6) by (intro isize_id) (simp add: left_def is_isize_def)
  then have d: "get_timeout D now w = Some (if left < 1 then 1 else left)"
    using assms(3) age [of now] by (simp add: get_timeout_def front left_def)
  show ?thesis
  proof (intro exI conjI impI allI)
    show "get_timeout D now w = Some (if left < 1 then 1 else left)" by (rule d)
    show "fst (pop_front_timeout D (now + (if left < 1 then 1 else left)) (w, s)) = Some m"
      using ft [of "now + (if left < 1 then 1 else left)"] assms(3, 5) pop by (auto simp: pop_front_timeout_def left_def split: if_splits)
  next
    fix t assume "\<not> front_timeout D now w" "now \<le> t \<and> t < now + (if left < 1 then 1 else left)"
    then show "fst (pop_front_timeout D t (w, s)) = None"
      using ft [of now] ft [of t] assms(3, 5) by (auto simp: pop_front_timeout_def left_def split: if_splits)
  qed (use assms(3, 5) in \<open>auto simp: left_def\<close>)
qed

definition waiting_window :: "((u16, out_inflight_message) alist, counter) out_inflight" where
  "waiting_window = fst (snd (push_back alist_deque waiting_message (session_window alist_deque 16 20000 0, counter_new)))"

theorem retry_timer_exact_witness:
  "\<exists>d. get_timeout alist_deque 5000 waiting_window = Some d \<and>
    fst (pop_front_timeout alist_deque (5000 + d) (waiting_window, counter_new)) = Some waiting_message"
proof -
  have "entries alist_deque waiting_window = [(1, waiting_message)]"
    by (simp add: waiting_window_def waiting_message_def window_eval)
  moreover have "oi_interval waiting_window = 20000"
    by (simp add: waiting_window_def waiting_message_def window_eval)
  ultimately show ?thesis
    using retry_timer_exact [OF alist_deque_laws, of waiting_window 1 waiting_message "[]" 5000 counter_new]
    by (auto simp: waiting_message_def out_inflight_message_new_def)
qed

section \<open>The incoming window\<close>

datatype in_op = I_Add u16 qos | I_Remove u16

fun in_step :: "in_op \<Rightarrow> in_inflight \<times> counter \<Rightarrow> in_inflight \<times> counter" where
  "in_step (I_Add k q) wc = snd (in_add k q wc)"
| "in_step (I_Remove k) wc = snd (in_remove k wc)"

definition in_inv :: "int \<Rightarrow> nat \<Rightarrow> in_inflight \<times> counter \<Rightarrow> bool" where
  "in_inv n mx = (\<lambda>(w, c). distinct (cached w) \<and> length (cached w) \<le> mx \<and> unat (in_max_inflight w) = mx \<and>
     current c = n + int (length (cached w)))"

lemma in_step_inv:
  assumes "in_inv n mx (w, c)" "is_isize n" "is_isize (n + int mx)"
  shows "in_inv n mx (in_step x (w, c))"
proof (cases x)
  case (I_Add k q)
  have "length (cached w) < mx \<Longrightarrow> current (inc c) = current c + 1"
    using assms by (intro hook_counts) (auto simp: in_inv_def is_isize_def)
  with I_Add assms(1) show ?thesis by (auto simp: in_inv_def in_add_def)
next
  case (I_Remove k)
  show ?thesis
  proof (cases "k \<in> set (cached w)")
    case True
    have dist: "distinct (cached w)" using assms(1) by (simp add: in_inv_def)
    with True have len: "Suc (length (removeAll k (cached w))) = length (cached w)"
      by (simp add: distinct_remove1_removeAll [symmetric] length_remove1) (metis Suc_pred length_pos_if_in_set)
    have "current (dec c) = current c - 1"
      using assms len by (intro hook_counts) (auto simp: in_inv_def is_isize_def)
    moreover have "distinct (removeAll k (cached w))" using dist by (simp add: distinct_removeAll)
    ultimately show ?thesis using I_Remove True assms(1) len by (simp add: in_inv_def in_remove_def)
  qed (use I_Remove assms(1) in \<open>simp add: in_inv_def in_remove_def\<close>)
qed

text \<open>
  The incoming window, over any sequence of registrations and removals: it never exceeds the maximum;
  the identifier set has no duplicates; the statistics count it, and dropping it brings them back; and a
  registration is refused exactly when the window is full or a QoS 2 identifier is still in use, in which
  case nothing changes.
\<close>

theorem in_inflight_correct:
  assumes "is_isize (current c0)" and "is_isize (current c0 + int (unat mx))"
    and "(w, c) = fold in_step ops (in_inflight_new mx, c0)"
  shows "distinct (cached w) \<and> length (cached w) \<le> unat mx \<and> current c = current c0 + int (length (cached w)) \<and>
    current (in_drop (w, c)) = current c0 \<and>
    (case in_add k q (w, c) of
       (Ok fresh, w', _) \<Rightarrow> \<not> in_is_full w \<and> in_contains k w' \<and> fresh = (\<not> in_contains k w) \<and> (fresh \<or> q \<noteq> ExactlyOnce)
     | (Err e, w', c') \<Rightarrow> w' = w \<and> c' = c \<and>
         (in_is_full w \<and> e = R_InflightWindowFull \<or> \<not> in_is_full w \<and> in_contains k w \<and> q = ExactlyOnce \<and> e = R_MqttError (ME_PacketIdInUse k))
     | (Panic, _) \<Rightarrow> False)"
proof -
  have step: "in_inv (current c0) (unat mx) wc \<Longrightarrow> in_inv (current c0) (unat mx) (in_step x wc)" for wc x
    using in_step_inv [OF _ assms(1, 2)] by (cases wc) blast
  have run: "in_inv (current c0) (unat mx) wc \<Longrightarrow> in_inv (current c0) (unat mx) (fold in_step ops wc)" for wc
    by (induction ops arbitrary: wc) (simp_all add: step)
  have "in_inv (current c0) (unat mx) (in_inflight_new mx, c0)" by (simp add: in_inv_def in_inflight_new_def)
  from run [OF this] have inv: "in_inv (current c0) (unat mx) (w, c)" by (simp flip: assms(3))
  then have "current (in_drop (w, c)) = current c0"
    using assms(1) by (simp add: in_drop_def in_inv_def decs_def)
  with inv show ?thesis
    by (auto simp: in_inv_def in_add_def in_is_full_def in_contains_def reason_of_mqtt_error_def)
qed

theorem in_inflight_correct_witness:
  "let (w, c) = fold in_step [I_Add 1 ExactlyOnce, I_Add 2 ExactlyOnce, I_Remove 1] (in_inflight_new 2, counter_new) in
   cached w = [2] \<and> current c = 1 \<and> fst (in_add 2 ExactlyOnce (w, c)) = Err (R_MqttError (ME_PacketIdInUse 2))"
proof -
  define wc where "wc = fold in_step [I_Add 1 ExactlyOnce, I_Add 2 ExactlyOnce, I_Remove 1] (in_inflight_new 2, counter_new)"
  obtain w c where wc: "wc = (w, c)" by fastforce
  have w: "cached w = [2]" "in_max_inflight w = 2"
    using wc by (auto simp: wc_def in_add_def in_remove_def in_inflight_new_def)
  have "current c = current counter_new + int (length (cached w)) \<and>
    (case in_add 2 ExactlyOnce (w, c) of
       (Ok fresh, w', _) \<Rightarrow> \<not> in_is_full w \<and> in_contains 2 w' \<and> fresh = (\<not> in_contains 2 w) \<and> (fresh \<or> ExactlyOnce \<noteq> ExactlyOnce)
     | (Err e, w', c') \<Rightarrow> w' = w \<and> c' = c \<and>
         (in_is_full w \<and> e = R_InflightWindowFull \<or>
          \<not> in_is_full w \<and> in_contains 2 w \<and> ExactlyOnce = ExactlyOnce \<and> e = R_MqttError (ME_PacketIdInUse 2))
     | (Panic, _) \<Rightarrow> False)"
    using in_inflight_correct [of counter_new 2 w c "[I_Add 1 ExactlyOnce, I_Add 2 ExactlyOnce, I_Remove 1]" 2 ExactlyOnce]
    by (simp add: counter_new_def is_isize_def wc [symmetric] wc_def)
  then show ?thesis
    unfolding wc_def [symmetric] wc Let_def prod.case
    using w by (simp add: counter_new_def in_add_def reason_of_mqtt_error_def in_is_full_def in_contains_def)
qed

section \<open>Limits of the code\<close>

text \<open>A window over its capacity has credit in a release build, since the difference wraps around.\<close>

lemma has_credit_over_capacity:
  assumes "deque_laws D" and "oi_cap w < length (entries D w)" and "length (entries D w) < 2 ^ 64"
  shows "has_credit D w"
proof -
  have "(of_nat (oi_cap w) :: u64) \<noteq> of_nat (length (entries D w))"
    using assms(2, 3) by (simp add: word_of_nat_eq_iff take_bit_nat_eq_self)
  then show ?thesis by (simp add: has_credit_def deque_lawsD(3) [OF assms(1)] word_neq_0_conv [symmetric])
qed

text \<open>
  A QoS 2 message whose PUBCOMP is overdue is taken out of the window before its PUBREL is sent again, so
  the PUBREL says that the packet identifier is not found.
\<close>

lemma rerelease_not_found:
  assumes "deque_laws D" and "window_inv D n (w, s)" and "pop_front_timeout D now (w, s) = (Some m, ws')"
  shows "\<exists>k. fst (send_rerelease D now m ws') = Ok (k, PA2R_PacketIdNotFound)"
proof -
  from assms(3) have pop: "pop_front D (w, s) = (Some m, ws')" by (auto simp: pop_front_timeout_def split: if_splits)
  obtain k xs where ent: "entries D w = (k, m) # xs" and "entries D (fst ws') = xs"
    using pop_front_entries [OF assms(1), of w s] pop by (cases "entries D w") auto
  moreover have "map_of xs k = None"
    using deque_lawsD(2) [OF assms(1), of "oi_queues w"] ent by (auto simp: map_of_eq_None_iff)
  moreover have "mp_packet_id (oi_publish m) = Some k" using assms(2) ent by (auto simp: window_inv_def)
  ultimately show ?thesis
    using push_back_entries [OF assms(1), of "out_inflight_message_new now UnComplete (oi_from m) (oi_publish m)" k "fst ws'" "snd ws'"]
    by (auto simp: send_rerelease_def session_packet_id_def out_inflight_message_new_def)
qed

end
