(* ===== verification/Hooks.thy ===== *)
theory Hooks
  imports Acl Inflight "HOL-Library.Product_Lexorder" "HOL-Library.List_Lexorder" "HOL-Library.Char_ord"
begin

text \<open>
  The hooks of the broker (\<^verbatim>\<open>hook.rs\<close>): the handlers that plug-ins register for each kind of event, sorted by
  priority and identifier, the chain of handlers an event runs through, and the methods by which sessions
  raise events and read the results.  A handler is a function of the event, the result so far and the state
  of the plug-ins.  The identifier of a handler is a random UUID and comes as an argument.
\<close>

section \<open>Events\<close>

datatype hook_type =
    HT_BeforeStartup
  | HT_SessionCreated | HT_SessionTerminated | HT_SessionSubscribed | HT_SessionUnsubscribed
  | HT_ClientAuthenticate | HT_ClientConnect | HT_ClientConnack | HT_ClientConnected | HT_ClientDisconnected
  | HT_ClientSubscribe | HT_ClientUnsubscribe | HT_ClientSubscribeCheckAcl | HT_ClientKeepalive
  | HT_MessagePublishCheckAcl | HT_MessagePublish | HT_MessageDelivered | HT_MessageAcked | HT_MessageDropped
  | HT_MessageExpiryCheck | HT_MessageNonsubscribed
  | HT_OfflineMessage | HT_OfflineInflightMessages

definition hook_type_names :: "(string \<times> hook_type) list" where
  "hook_type_names =
    [(''before_startup'', HT_BeforeStartup),
     (''session_created'', HT_SessionCreated), (''session_terminated'', HT_SessionTerminated),
     (''session_subscribed'', HT_SessionSubscribed), (''session_unsubscribed'', HT_SessionUnsubscribed),
     (''client_authenticate'', HT_ClientAuthenticate), (''client_connect'', HT_ClientConnect), (''client_connack'', HT_ClientConnack),
     (''client_connected'', HT_ClientConnected), (''client_disconnected'', HT_ClientDisconnected), (''client_subscribe'', HT_ClientSubscribe),
     (''client_unsubscribe'', HT_ClientUnsubscribe), (''client_subscribe_check_acl'', HT_ClientSubscribeCheckAcl),
     (''client_keepalive'', HT_ClientKeepalive),
     (''message_publish_check_acl'', HT_MessagePublishCheckAcl), (''message_publish'', HT_MessagePublish),
     (''message_delivered'', HT_MessageDelivered), (''message_acked'', HT_MessageAcked), (''message_dropped'', HT_MessageDropped),
     (''message_expiry_check'', HT_MessageExpiryCheck), (''message_nonsubscribed'', HT_MessageNonsubscribed),
     (''offline_message'', HT_OfflineMessage), (''offline_inflight_messages'', HT_OfflineInflightMessages)]"

definition hook_type_of_str :: "string \<Rightarrow> (hook_type, unit) res" where
  "hook_type_of_str t = (case map_of hook_type_names t of Some h \<Rightarrow> Ok h | None \<Rightarrow> Panic)"

text \<open>An event holds the session it is about.\<close>

datatype 's parameter =
    Par_BeforeStartup
  | Par_SessionCreated 's
  | Par_SessionTerminated 's reason
  | Par_SessionSubscribed 's subscribe
  | Par_SessionUnsubscribed 's unsubscribe
  | Par_ClientConnect connect_info
  | Par_ClientConnack connect_info connect_ack_code
  | Par_ClientAuthenticate connect_info
  | Par_ClientConnected 's
  | Par_ClientDisconnected 's reason
  | Par_ClientSubscribe 's subscribe
  | Par_ClientUnsubscribe 's unsubscribe
  | Par_ClientSubscribeCheckAcl 's subscribe
  | Par_ClientKeepalive 's bool
  | Par_MessagePublishCheckAcl 's mpublish
  | Par_MessagePublish "'s option" msg_from mpublish
  | Par_MessageDelivered 's msg_from mpublish
  | Par_MessageAcked 's msg_from mpublish
  | Par_MessageDropped "ident option" msg_from mpublish reason
  | Par_MessageExpiryCheck 's msg_from mpublish
  | Par_MessageNonsubscribed msg_from
  | Par_OfflineMessage 's msg_from mpublish
  | Par_OfflineInflightMessages 's "out_inflight_message list"

fun get_type :: "'s parameter \<Rightarrow> hook_type" where
  "get_type Par_BeforeStartup = HT_BeforeStartup"
| "get_type (Par_SessionCreated _) = HT_SessionCreated"
| "get_type (Par_SessionTerminated _ _) = HT_SessionTerminated"
| "get_type (Par_SessionSubscribed _ _) = HT_SessionSubscribed"
| "get_type (Par_SessionUnsubscribed _ _) = HT_SessionUnsubscribed"
| "get_type (Par_ClientAuthenticate _) = HT_ClientAuthenticate"
| "get_type (Par_ClientConnect _) = HT_ClientConnect"
| "get_type (Par_ClientConnack _ _) = HT_ClientConnack"
| "get_type (Par_ClientConnected _) = HT_ClientConnected"
| "get_type (Par_ClientDisconnected _ _) = HT_ClientDisconnected"
| "get_type (Par_ClientSubscribe _ _) = HT_ClientSubscribe"
| "get_type (Par_ClientUnsubscribe _ _) = HT_ClientUnsubscribe"
| "get_type (Par_ClientSubscribeCheckAcl _ _) = HT_ClientSubscribeCheckAcl"
| "get_type (Par_ClientKeepalive _ _) = HT_ClientKeepalive"
| "get_type (Par_MessagePublishCheckAcl _ _) = HT_MessagePublishCheckAcl"
| "get_type (Par_MessagePublish _ _ _) = HT_MessagePublish"
| "get_type (Par_MessageDelivered _ _ _) = HT_MessageDelivered"
| "get_type (Par_MessageAcked _ _ _) = HT_MessageAcked"
| "get_type (Par_MessageDropped _ _ _ _) = HT_MessageDropped"
| "get_type (Par_MessageExpiryCheck _ _ _) = HT_MessageExpiryCheck"
| "get_type (Par_MessageNonsubscribed _) = HT_MessageNonsubscribed"
| "get_type (Par_OfflineMessage _ _ _) = HT_OfflineMessage"
| "get_type (Par_OfflineInflightMessages _ _) = HT_OfflineInflightMessages"

section \<open>Handlers\<close>

type_synonym ('s, 'h) handler = "'s parameter \<Rightarrow> hook_result option \<Rightarrow> 'h \<Rightarrow> hook_return \<times> 'h"
type_synonym handler_key = "u32 \<times> string"

record ('s, 'h) hook_entry =
  he_handler :: "('s, 'h) handler"
  he_enabled :: bool

definition hook_entry_new :: "('s, 'h) handler \<Rightarrow> ('s, 'h) hook_entry" where
  "hook_entry_new hnd = \<lparr>he_handler = hnd, he_enabled = False\<rparr>"

type_synonym ('s, 'h) type_handlers = "(handler_key \<times> ('s, 'h) hook_entry) list"
type_synonym ('s, 'h) hook_manager = "(hook_type \<times> ('s, 'h) type_handlers) list"

definition hook_manager_new :: "('s, 'h) hook_manager" where
  "hook_manager_new = []"

definition handlers_of :: "hook_type \<Rightarrow> ('s, 'h) hook_manager \<Rightarrow> ('s, 'h) type_handlers" where
  "handlers_of ht mgr = (case map_of mgr ht of Some hs \<Rightarrow> hs | None \<Rightarrow> [])"

text \<open>The map of handlers is sorted by its keys, so a new key goes to its place.\<close>

definition hook_add :: "hook_type \<Rightarrow> u32 \<Rightarrow> string \<Rightarrow> ('s, 'h) handler \<Rightarrow> ('s, 'h) hook_manager \<Rightarrow> (string, unit) res \<times> ('s, 'h) hook_manager" where
  "hook_add ht priority i hnd mgr =
    (let hs = handlers_of ht mgr; key = (priority, i) in
     if key \<in> fst ` set hs then (Err (), AList.update ht hs mgr)
     else (Ok i, AList.update ht (insort_key fst (key, hook_entry_new hnd) hs) mgr))"

fun run_handlers :: "'s parameter \<Rightarrow> ('s, 'h) hook_entry list \<Rightarrow> hook_result option \<Rightarrow> 'h \<Rightarrow> hook_result option \<times> 'h" where
  "run_handlers p [] acc h = (acc, h)"
| "run_handlers p (e # es) acc h =
    (if he_enabled e then
       (case he_handler e p acc h of
          ((go_on, new_acc), h) \<Rightarrow> if \<not> go_on then (new_acc, h) else run_handlers p es new_acc h)
     else run_handlers p es acc h)"

definition hook_exec :: "hook_type \<Rightarrow> 's parameter \<Rightarrow> ('s, 'h) hook_manager \<Rightarrow> 'h \<Rightarrow> hook_result option \<times> 'h" where
  "hook_exec t p mgr h =
    (case map_of mgr t of
       Some hs \<Rightarrow> run_handlers p (rev (map snd hs)) None h
     | None \<Rightarrow> (None, h))"

section \<open>Registration\<close>

type_synonym hook_register = "(hook_type \<times> handler_key) list"

definition add_priority :: "hook_type \<Rightarrow> u32 \<Rightarrow> string \<Rightarrow> ('s, 'h) handler \<Rightarrow> hook_register \<times> ('s, 'h) hook_manager \<Rightarrow>
    hook_register \<times> ('s, 'h) hook_manager" where
  "add_priority ht priority i hnd = (\<lambda>(reg, mgr).
    case hook_add ht priority i hnd mgr of
      (Ok i, mgr) \<Rightarrow> (List.insert (ht, (priority, i)) reg, mgr)
    | (_, mgr) \<Rightarrow> (reg, mgr))"

definition set_status :: "bool \<Rightarrow> hook_type \<times> handler_key \<Rightarrow> ('s, 'h) hook_manager \<Rightarrow> ('s, 'h) hook_manager" where
  "set_status b = (\<lambda>(ht, key) mgr.
    case map_of mgr ht of
      Some hs \<Rightarrow> AList.update ht (map (\<lambda>(k, e). (k, if k = key then e\<lparr>he_enabled := b\<rparr> else e)) hs) mgr
    | None \<Rightarrow> mgr)"

definition adjust_status :: "bool \<Rightarrow> hook_register \<Rightarrow> ('s, 'h) hook_manager \<Rightarrow> ('s, 'h) hook_manager" where
  "adjust_status b reg mgr = fold (set_status b) reg mgr"

definition register_start :: "hook_register \<Rightarrow> ('s, 'h) hook_manager \<Rightarrow> ('s, 'h) hook_manager" where
  "register_start reg mgr = adjust_status True reg mgr"

definition register_stop :: "hook_register \<Rightarrow> ('s, 'h) hook_manager \<Rightarrow> ('s, 'h) hook_manager" where
  "register_stop reg mgr = adjust_status False reg mgr"

section \<open>Events of the broker\<close>

definition hook_notify :: "'s parameter \<Rightarrow> ('s, 'h) hook_manager \<Rightarrow> 'h \<Rightarrow> 'h" where
  "hook_notify p mgr h = snd (hook_exec (get_type p) p mgr h)"

definition hook_before_startup :: "('s, 'h) hook_manager \<Rightarrow> 'h \<Rightarrow> 'h" where
  "hook_before_startup = hook_notify Par_BeforeStartup"

definition hook_client_connect :: "connect_info \<Rightarrow> ('s, 'h) hook_manager \<Rightarrow> 'h \<Rightarrow> user_properties option \<times> 'h" where
  "hook_client_connect c mgr h =
    (case hook_exec HT_ClientConnect (Par_ClientConnect c) mgr h of
       (Some (HR_UserProperties props), h) \<Rightarrow> (Some props, h)
     | (_, h) \<Rightarrow> (None, h))"

text \<open>The code of an answer in the protocol of the client.\<close>

definition connack_of :: "u8 \<Rightarrow> v3_connect_ack_reason \<Rightarrow> connect_ack_reason \<Rightarrow> connect_ack_code" where
  "connack_of ver r3 r5 = (if ver = MQTT_LEVEL_31 then Ack_V3 r3 else if ver = MQTT_LEVEL_311 then Ack_V3 r3
     else if ver = MQTT_LEVEL_5 then Ack_V5 r5 else Ack_V3 r3)"

definition hook_client_authenticate :: "connect_info \<Rightarrow> bool \<Rightarrow> ('s, 'h) hook_manager \<Rightarrow> 'h \<Rightarrow>
    (connect_ack_code \<times> bool \<times> auth_info option) \<times> 'h" where
  "hook_client_authenticate c allow_anonymous mgr h =
    (let ver = proto_ver c;
         accepted = connack_of ver ConnectionAccepted CAR_Success;
         not_authorized = (connack_of ver NotAuthorized CAR_NotAuthorized, False, None)
     in
     if ci_username c = None \<and> allow_anonymous then ((accepted, False, None), h)
     else
       (case hook_exec HT_ClientAuthenticate (Par_ClientAuthenticate c) mgr h of
          (Some (HR_AuthResult Auth_BadUsernameOrPassword), h) \<Rightarrow>
            ((connack_of ver BadUserNameOrPassword CAR_BadUserNameOrPassword, False, None), h)
        | (Some (HR_AuthResult Auth_NotAuthorized), h) \<Rightarrow> (not_authorized, h)
        | (Some (HR_AuthResult (Auth_Allow superuser info)), h) \<Rightarrow> ((accepted, superuser, info), h)
        | (_, h) \<Rightarrow> (if allow_anonymous then (accepted, False, None) else not_authorized, h)))"

definition hook_client_connack :: "connect_info \<Rightarrow> connect_ack_code \<Rightarrow> ('s, 'h) hook_manager \<Rightarrow> 'h \<Rightarrow> connect_ack_code \<times> 'h" where
  "hook_client_connack c code mgr h =
    (case hook_exec HT_ClientConnack (Par_ClientConnack c code) mgr h of
       (Some (HR_ConnectAckReason new_code), h) \<Rightarrow> (new_code, h)
     | (_, h) \<Rightarrow> (code, h))"

definition hook_message_publish :: "'s option \<Rightarrow> msg_from \<Rightarrow> mpublish \<Rightarrow> ('s, 'h) hook_manager \<Rightarrow> 'h \<Rightarrow> mpublish option \<times> 'h" where
  "hook_message_publish s f p mgr h =
    (case hook_exec HT_MessagePublish (Par_MessagePublish s f p) mgr h of
       (Some (HR_Publish p), h) \<Rightarrow> (Some p, h)
     | (_, h) \<Rightarrow> (None, h))"

definition hook_message_dropped :: "ident option \<Rightarrow> msg_from \<Rightarrow> mpublish \<Rightarrow> reason \<Rightarrow> ('s, 'h) hook_manager \<Rightarrow> 'h \<Rightarrow> 'h" where
  "hook_message_dropped to f p r = hook_notify (Par_MessageDropped to f p r)"

definition hook_message_nonsubscribed :: "msg_from \<Rightarrow> ('s, 'h) hook_manager \<Rightarrow> 'h \<Rightarrow> 'h" where
  "hook_message_nonsubscribed f = hook_notify (Par_MessageNonsubscribed f)"

section \<open>Events of a session\<close>

definition hook_session_created :: "'s \<Rightarrow> ('s, 'h) hook_manager \<Rightarrow> 'h \<Rightarrow> 'h" where
  "hook_session_created s = hook_notify (Par_SessionCreated s)"

definition hook_client_connected :: "'s \<Rightarrow> ('s, 'h) hook_manager \<Rightarrow> 'h \<Rightarrow> 'h" where
  "hook_client_connected s = hook_notify (Par_ClientConnected s)"

definition hook_client_disconnected :: "'s \<Rightarrow> reason \<Rightarrow> ('s, 'h) hook_manager \<Rightarrow> 'h \<Rightarrow> 'h" where
  "hook_client_disconnected s r = hook_notify (Par_ClientDisconnected s r)"

definition hook_session_terminated :: "'s \<Rightarrow> reason \<Rightarrow> ('s, 'h) hook_manager \<Rightarrow> 'h \<Rightarrow> 'h" where
  "hook_session_terminated s r = hook_notify (Par_SessionTerminated s r)"

definition hook_session_subscribed :: "'s \<Rightarrow> subscribe \<Rightarrow> ('s, 'h) hook_manager \<Rightarrow> 'h \<Rightarrow> 'h" where
  "hook_session_subscribed s sub = hook_notify (Par_SessionSubscribed s sub)"

definition hook_session_unsubscribed :: "'s \<Rightarrow> unsubscribe \<Rightarrow> ('s, 'h) hook_manager \<Rightarrow> 'h \<Rightarrow> 'h" where
  "hook_session_unsubscribed s u = hook_notify (Par_SessionUnsubscribed s u)"

definition hook_message_acked :: "'s \<Rightarrow> msg_from \<Rightarrow> mpublish \<Rightarrow> ('s, 'h) hook_manager \<Rightarrow> 'h \<Rightarrow> 'h" where
  "hook_message_acked s f p = hook_notify (Par_MessageAcked s f p)"

definition hook_offline_message :: "'s \<Rightarrow> msg_from \<Rightarrow> mpublish \<Rightarrow> ('s, 'h) hook_manager \<Rightarrow> 'h \<Rightarrow> 'h" where
  "hook_offline_message s f p = hook_notify (Par_OfflineMessage s f p)"

definition hook_offline_inflight_messages :: "'s \<Rightarrow> out_inflight_message list \<Rightarrow> ('s, 'h) hook_manager \<Rightarrow> 'h \<Rightarrow> 'h" where
  "hook_offline_inflight_messages s ms = hook_notify (Par_OfflineInflightMessages s ms)"

definition hook_client_keepalive :: "'s \<Rightarrow> bool \<Rightarrow> ('s, 'h) hook_manager \<Rightarrow> 'h \<Rightarrow> 'h" where
  "hook_client_keepalive s ping = hook_notify (Par_ClientKeepalive s ping)"

text \<open>A superuser passes every check.\<close>

definition hook_subscribe_check_acl :: "bool \<Rightarrow> 's \<Rightarrow> subscribe \<Rightarrow> ('s, 'h) hook_manager \<Rightarrow> 'h \<Rightarrow> subscribe_return option \<times> 'h" where
  "hook_subscribe_check_acl superuser s sub mgr h =
    (if superuser then (Some (return_success (opts_qos (sub_opts sub)) None), h)
     else
       (case hook_exec HT_ClientSubscribeCheckAcl (Par_ClientSubscribeCheckAcl s sub) mgr h of
          (Some (HR_SubscribeAclResult r), h) \<Rightarrow> (Some r, h)
        | (_, h) \<Rightarrow> (None, h)))"

definition hook_publish_check_acl :: "bool \<Rightarrow> 's \<Rightarrow> mpublish \<Rightarrow> ('s, 'h) hook_manager \<Rightarrow> 'h \<Rightarrow> publish_acl_result \<times> 'h" where
  "hook_publish_check_acl superuser s p mgr h =
    (if superuser then (acl_allow, h)
     else
       (case hook_exec HT_MessagePublishCheckAcl (Par_MessagePublishCheckAcl s p) mgr h of
          (Some (HR_PublishAclResult r), h) \<Rightarrow> (r, h)
        | (_, h) \<Rightarrow> (acl_allow, h)))"

definition hook_client_subscribe :: "'s \<Rightarrow> subscribe \<Rightarrow> ('s, 'h) hook_manager \<Rightarrow> 'h \<Rightarrow> string option \<times> 'h" where
  "hook_client_subscribe s sub mgr h =
    (case hook_exec HT_ClientSubscribe (Par_ClientSubscribe s sub) mgr h of
       (Some (HR_TopicFilter (Some tf)), h) \<Rightarrow> (Some tf, h)
     | (_, h) \<Rightarrow> (None, h))"

definition hook_client_unsubscribe :: "'s \<Rightarrow> unsubscribe \<Rightarrow> ('s, 'h) hook_manager \<Rightarrow> 'h \<Rightarrow> string option \<times> 'h" where
  "hook_client_unsubscribe s u mgr h =
    (case hook_exec HT_ClientUnsubscribe (Par_ClientUnsubscribe s u) mgr h of
       (Some (HR_TopicFilter (Some tf)), h) \<Rightarrow> (Some tf, h)
     | (_, h) \<Rightarrow> (None, h))"

definition hook_message_delivered :: "'s \<Rightarrow> msg_from \<Rightarrow> mpublish \<Rightarrow> ('s, 'h) hook_manager \<Rightarrow> 'h \<Rightarrow> mpublish option \<times> 'h" where
  "hook_message_delivered s f p mgr h =
    (case hook_exec HT_MessageDelivered (Par_MessageDelivered s f p) mgr h of
       (Some (HR_Publish p), h) \<Rightarrow> (Some p, h)
     | (_, h) \<Rightarrow> (None, h))"

section \<open>Expiry of messages\<close>

datatype expiry_check = Expiry | Remaining "u32 option"

definition is_expiry :: "expiry_check \<Rightarrow> bool" where
  "is_expiry r \<longleftrightarrow> r = Expiry"

fun remaining_interval :: "expiry_check \<Rightarrow> u32 option" where
  "remaining_interval Expiry = None"
| "remaining_interval (Remaining i) = i"

text \<open>The interval of the listener is in milliseconds; the difference is cut to 32 bits.\<close>

definition expiry_of :: "int \<Rightarrow> int \<Rightarrow> mpublish \<Rightarrow> expiry_check" where
  "expiry_of now dflt p =
    (let expiry_interval = (case Option.bind (pub_properties (mp_inner p)) pp_message_expiry_interval of
           Some i \<Rightarrow> int (unat i) * 1000
         | None \<Rightarrow> dflt)
     in
     if expiry_interval = 0 then Remaining None
     else
       (let remaining = now - (case mp_create_time p of Some t \<Rightarrow> sint t | None \<Rightarrow> now) in
        if remaining < expiry_interval then
          (let secs = word_of_int ((expiry_interval - remaining) div 1000) in Remaining (if secs = 0 then None else Some secs))
        else Expiry))"

definition hook_message_expiry_check :: "int \<Rightarrow> int \<Rightarrow> 's \<Rightarrow> msg_from \<Rightarrow> mpublish \<Rightarrow> ('s, 'h) hook_manager \<Rightarrow> 'h \<Rightarrow> expiry_check \<times> 'h" where
  "hook_message_expiry_check now dflt s f p mgr h =
    (case hook_exec HT_MessageExpiryCheck (Par_MessageExpiryCheck s f p) mgr h of
       (Some HR_MessageExpiry, h) \<Rightarrow> (Expiry, h)
     | (_, h) \<Rightarrow> (expiry_of now dflt p, h))"

section \<open>Which handlers run\<close>

text \<open>
  Several plug-ins, each with a register of its own, add handlers and start and stop theirs.  What they
  leave: a table of handlers with their owner and whether they are enabled.
\<close>

datatype ('s, 'h) register_op =
    H_Add nat hook_type u32 string "('s, 'h) handler"
  | H_Start nat
  | H_Stop nat

fun register_step :: "('s, 'h) register_op \<Rightarrow> (nat \<Rightarrow> hook_register) \<times> ('s, 'h) hook_manager \<Rightarrow>
    (nat \<Rightarrow> hook_register) \<times> ('s, 'h) hook_manager" where
  "register_step (H_Add r ht pr i hnd) (regs, mgr) = (let (reg, mgr) = add_priority ht pr i hnd (regs r, mgr) in (regs(r := reg), mgr))"
| "register_step (H_Start r) (regs, mgr) = (regs, register_start (regs r) mgr)"
| "register_step (H_Stop r) (regs, mgr) = (regs, register_stop (regs r) mgr)"

type_synonym ('s, 'h) handler_table = "hook_type \<times> handler_key \<rightharpoonup> ('s, 'h) handler \<times> bool \<times> nat"

fun table_step :: "('s, 'h) register_op \<Rightarrow> ('s, 'h) handler_table \<Rightarrow> ('s, 'h) handler_table" where
  "table_step (H_Add r ht pr i hnd) T = (if T (ht, (pr, i)) = None then T((ht, (pr, i)) \<mapsto> (hnd, False, r)) else T)"
| "table_step (H_Start r) T = (\<lambda>x. map_option (\<lambda>(hnd, b, owner). (hnd, if owner = r then True else b, owner)) (T x))"
| "table_step (H_Stop r) T = (\<lambda>x. map_option (\<lambda>(hnd, b, owner). (hnd, if owner = r then False else b, owner)) (T x))"

text \<open>The chain of handlers of an event, without the bookkeeping.\<close>

fun chain :: "'s parameter \<Rightarrow> ('s, 'h) handler list \<Rightarrow> hook_result option \<Rightarrow> 'h \<Rightarrow> hook_result option \<times> 'h" where
  "chain p [] acc h = (acc, h)"
| "chain p (f # fs) acc h = (case f p acc h of ((go_on, acc), h) \<Rightarrow> if go_on then chain p fs acc h else (acc, h))"

definition table_inv :: "(nat \<Rightarrow> hook_register) \<Rightarrow> ('s, 'h) hook_manager \<Rightarrow> ('s, 'h) handler_table \<Rightarrow> bool" where
  "table_inv regs mgr T \<longleftrightarrow>
    (\<forall>ht. sorted (map fst (handlers_of ht mgr)) \<and> distinct (map fst (handlers_of ht mgr))) \<and>
    (\<forall>ht k. map_of (handlers_of ht mgr) k = map_option (\<lambda>(hnd, b, _). \<lparr>he_handler = hnd, he_enabled = b\<rparr>) (T (ht, k))) \<and>
    (\<forall>r x. x \<in> set (regs r) \<longleftrightarrow> (\<exists>hnd b. T x = Some (hnd, b, r)))"

lemma table_invD:
  assumes "table_inv regs mgr T"
  shows "sorted (map fst (handlers_of ht mgr))" "distinct (map fst (handlers_of ht mgr))"
    "map_of (handlers_of ht mgr) k = map_option (\<lambda>(hnd, b, _). \<lparr>he_handler = hnd, he_enabled = b\<rparr>) (T (ht, k))"
    "x \<in> set (regs r) \<longleftrightarrow> (\<exists>hnd b. T x = Some (hnd, b, r))"
  using assms unfolding table_inv_def by blast+

lemma table_invI:
  assumes "\<And>ht. sorted (map fst (handlers_of ht mgr))" "\<And>ht. distinct (map fst (handlers_of ht mgr))"
    "\<And>ht k. map_of (handlers_of ht mgr) k = map_option (\<lambda>(hnd, b, _). \<lparr>he_handler = hnd, he_enabled = b\<rparr>) (T (ht, k))"
    "\<And>x r. x \<in> set (regs r) \<longleftrightarrow> (\<exists>hnd b. T x = Some (hnd, b, r))"
  shows "table_inv regs mgr T"
  using assms unfolding table_inv_def by blast

lemma handlers_of_update [simp]: "handlers_of t (AList.update ht hs mgr) = (if t = ht then hs else handlers_of t mgr)"
  by (simp add: handlers_of_def update_conv')

lemma set_status_handlers:
  "handlers_of t (set_status b (ht, key) mgr) =
    map (\<lambda>(k, e). (k, if (t, k) = (ht, key) then e\<lparr>he_enabled := b\<rparr> else e)) (handlers_of t mgr)"
proof (cases "map_of mgr ht")
  case None
  then show ?thesis by (cases "t = ht") (simp_all add: set_status_def handlers_of_def)
next
  case (Some hs)
  then show ?thesis by (cases "t = ht") (simp_all add: set_status_def handlers_of_def update_conv' split: option.split)
qed

lemma adjust_status_handlers:
  "handlers_of t (adjust_status b reg mgr) =
    map (\<lambda>(k, e). (k, if (t, k) \<in> set reg then e\<lparr>he_enabled := b\<rparr> else e)) (handlers_of t mgr)"
proof (induction reg arbitrary: mgr)
  case Nil
  show ?case by (simp add: adjust_status_def case_prod_beta)
next
  case (Cons x reg)
  obtain ht key where x: "x = (ht, key)" by (cases x)
  have "adjust_status b (x # reg) mgr = adjust_status b reg (set_status b x mgr)" by (simp add: adjust_status_def)
  with Cons.IH [of "set_status b x mgr"] show ?case by (auto simp: x set_status_handlers)
qed

lemma map_of_map_value: "map_of (map (\<lambda>(k, e). (k, f k e)) xs) k = map_option (f k) (map_of xs k)"
  by (induction xs) auto

lemma adjust_status_inv:
  assumes "table_inv regs mgr T"
  shows "table_inv regs (adjust_status b (regs r) mgr)
    (\<lambda>x. map_option (\<lambda>(hnd, c, owner). (hnd, if owner = r then b else c, owner)) (T x))"
proof -
  note inv = table_invD [OF assms]
  let ?T = "\<lambda>x. map_option (\<lambda>(hnd, c, owner). (hnd, if owner = r then b else c, owner)) (T x)"
  have keys: "map fst (handlers_of t (adjust_status b (regs r) mgr)) = map fst (handlers_of t mgr)" for t
    by (auto simp: adjust_status_handlers)
  show ?thesis
  proof (rule table_invI)
    fix ht k
    show "map_of (handlers_of ht (adjust_status b (regs r) mgr)) k = map_option (\<lambda>(hnd, b, _). \<lparr>he_handler = hnd, he_enabled = b\<rparr>) (?T (ht, k))"
      unfolding adjust_status_handlers map_of_map_value inv(3)
      using inv(4) [of "(ht, k)" r] by (cases "T (ht, k)") auto
  next
    fix x r'
    show "x \<in> set (regs r') \<longleftrightarrow> (\<exists>hnd c. ?T x = Some (hnd, c, r'))" unfolding inv(4) by (cases "T x") auto
  qed (simp_all only: keys inv)
qed

lemma map_of_insort: "k \<notin> fst ` set xs \<Longrightarrow> map_of (insort_key fst (k, v) xs) = (map_of xs)(k \<mapsto> v)"
  by (induction xs) (auto simp: fun_upd_twist)

lemma map_fst_insort: "map fst (insort_key fst (k, v) xs) = insort k (map fst xs)"
  by (induction xs) auto

lemma hook_add_inv:
  assumes "table_inv regs mgr T"
  shows "table_inv (regs(r := fst (add_priority ht pr i hnd (regs r, mgr)))) (snd (add_priority ht pr i hnd (regs r, mgr)))
    (table_step (H_Add r ht pr i hnd) T)"
proof -
  let ?hs = "handlers_of ht mgr"
  note inv = table_invD [OF assms]
  note keys = inv(1, 2) [of ht] and look = inv(3) [of ht]
  have used: "(pr, i) \<in> fst ` set ?hs \<longleftrightarrow> T (ht, (pr, i)) \<noteq> None" using look [of "(pr, i)"] by (metis map_of_eq_None_iff option.map_disc_iff)
  show ?thesis
  proof (cases "T (ht, (pr, i))")
    case None
    then have new: "(pr, i) \<notin> fst ` set ?hs" using used by simp
    let ?hs' = "insort_key fst ((pr, i), hook_entry_new hnd) ?hs"
    have keys': "sorted (map fst ?hs')" "distinct (map fst ?hs')"
      using keys new by (simp_all add: map_fst_insort sorted_insort distinct_insort)
    have add: "add_priority ht pr i hnd (regs r, mgr) = (List.insert (ht, (pr, i)) (regs r), AList.update ht ?hs' mgr)"
      using new by (simp add: add_priority_def hook_add_def Let_def)
    have "map_of ?hs' k = map_option (\<lambda>(hnd, b, _). \<lparr>he_handler = hnd, he_enabled = b\<rparr>) ((T((ht, (pr, i)) \<mapsto> (hnd, False, r))) (ht, k))" for k
      using look by (simp add: map_of_insort [OF new] hook_entry_new_def)
    then show ?thesis
      unfolding add fst_conv snd_conv using None keys' inv by (intro table_invI) auto
  next
    case (Some y)
    then have "add_priority ht pr i hnd (regs r, mgr) = (regs r, AList.update ht ?hs mgr)"
      using used by (simp add: add_priority_def hook_add_def Let_def)
    with Some show ?thesis using inv by (intro table_invI) auto
  qed
qed

lemma register_step_inv:
  assumes "table_inv (fst s) (snd s) T"
  shows "table_inv (fst (register_step op s)) (snd (register_step op s)) (table_step op T)"
proof -
  obtain regs mgr where s: "s = (regs, mgr)" by fastforce
  show ?thesis
  proof (cases op)
    case (H_Add r ht pr i hnd)
    with hook_add_inv [of regs mgr T r ht pr i hnd] assms show ?thesis by (simp add: s case_prod_beta Let_def del: table_step.simps)
  next
    case (H_Start r)
    with adjust_status_inv [of regs mgr T True r] assms show ?thesis by (simp add: s register_start_def)
  next
    case (H_Stop r)
    with adjust_status_inv [of regs mgr T False r] assms show ?thesis by (simp add: s register_stop_def)
  qed
qed

lemma run_handlers_chain: "run_handlers p es acc h = chain p (map he_handler (filter he_enabled es)) acc h"
  by (induction p es acc h rule: run_handlers.induct) (auto split: prod.split)


definition counting_handler :: "(unit, nat) handler" where
  "counting_handler p acc h = ((True, Some HR_MessageExpiry), Suc h)"



definition expiring_message :: mpublish where
  "expiring_message = \<lparr>mp_inner = \<lparr>pub_dup = False, pub_retain = False, pub_qos = AtMostOnce, pub_topic = [97], pub_packet_id = None, pub_payload = [],
     pub_properties = None\<rparr>, mp_target_clientid = None, mp_delay_interval = None, mp_create_time = Some 1000\<rparr>"


text \<open>
  Authentication: without a handler that decides, a client is let in exactly when anonymous clients are
  allowed; the answer is in the protocol of the client and grants the rights of a superuser only if a handler
  said so.
\<close>

theorem client_authenticate_result:
  "case hook_client_authenticate c allow_anonymous mgr h of
     ((code, superuser, info), h') \<Rightarrow>
       let accepted = connack_of (proto_ver c) ConnectionAccepted CAR_Success;
           decided = (if ci_username c = None \<and> allow_anonymous then None else fst (hook_exec HT_ClientAuthenticate (Par_ClientAuthenticate c) mgr h)) in
       (code = accepted \<longleftrightarrow> (case decided of
            Some (HR_AuthResult (Auth_Allow _ _)) \<Rightarrow> True
          | Some (HR_AuthResult Auth_BadUsernameOrPassword) \<Rightarrow> False
          | Some (HR_AuthResult Auth_NotAuthorized) \<Rightarrow> False
          | _ \<Rightarrow> allow_anonymous)) \<and>
       (superuser, info) = (case decided of Some (HR_AuthResult (Auth_Allow su i)) \<Rightarrow> (su, i) | _ \<Rightarrow> (False, None))"
proof -
  obtain d h' where d: "hook_exec HT_ClientAuthenticate (Par_ClientAuthenticate c) mgr h = (d, h')" by fastforce
  show ?thesis
  proof (cases "ci_username c = None \<and> allow_anonymous")
    case True
    then show ?thesis by (simp add: hook_client_authenticate_def Let_def)
  next
    case False
    then show ?thesis
      by (auto simp: hook_client_authenticate_def Let_def d connack_of_def split: option.split hook_result.split auth_result.split)
  qed
qed

section \<open>Limits of the code\<close>

text \<open>
  A message with less than a second left is delivered without an interval, so the subscriber keeps it for
  ever.
\<close>

lemma last_second_unlimited: "expiry_of 5999 5000 expiring_message = Remaining None"
  by (simp add: expiry_of_def expiring_message_def)

text \<open>Handlers of a higher number run first.\<close>

lemma higher_number_first:
  "a < b \<Longrightarrow> handlers_of ht (snd (hook_add ht a i f (snd (hook_add ht b j g hook_manager_new)))) = [((a, i), hook_entry_new f), ((b, j), hook_entry_new g)]"
  by (auto simp: hook_add_def Let_def hook_manager_new_def handlers_of_def)

end
