(* ===== verification/Trie.thy ===== *)
theory Trie
  imports Topic "HOL-Library.AList"
begin

text \<open>
  The topic tree that stores subscriptions (\<^verbatim>\<open>trie.rs\<close>): insertion, removal with pruning, sizes, and the
  iterator over the entries that match a topic.  The tree is shown to implement a map from filters to
  sets of values, and the iterator to enumerate exactly the stored filters that match the topic.
\<close>

section \<open>The tree\<close>

text \<open>
  \<^verbatim>\<open>ValueSet\<close> is a \<^verbatim>\<open>BTreeSet\<close>: the increasing list of its elements.  \<^verbatim>\<open>branches\<close> is a \<^verbatim>\<open>HashMap\<close>: an
  association list with distinct keys, whose order stands for the unspecified iteration order.
\<close>

datatype 'v node = Node (node_values: "'v list") (branches: "(level \<times> 'v node) list")

definition set_insert :: "'v :: linorder \<Rightarrow> 'v list \<Rightarrow> bool \<times> 'v list" where
  "set_insert v vs = (if v \<in> set vs then (False, vs) else (True, insort v vs))"

definition set_remove :: "'v :: linorder \<Rightarrow> 'v list \<Rightarrow> bool \<times> 'v list" where
  "set_remove v vs = (if v \<in> set vs then (True, remove1 v vs) else (False, vs))"

definition node_default :: "'v node" where
  "node_default = Node [] []"

text \<open>The path is a reversed vector, consumed from its end by \<^verbatim>\<open>pop\<close>.\<close>

function insert_path :: "level list \<Rightarrow> 'v :: linorder \<Rightarrow> 'v node \<Rightarrow> bool \<times> 'v node" where
  "insert_path path value (Node vs bs) =
     (if path \<noteq> [] then
        let first = last path;
            (r, n) = insert_path (butlast path) value
              (case map_of bs first of Some n \<Rightarrow> n | None \<Rightarrow> node_default)
        in (r, Node vs (AList.update first n bs))
      else let (r, vs') = set_insert value vs in (r, Node vs' bs))"
  by pat_completeness auto
termination
  by (relation "measure (\<lambda>(path, _, _). length path)") auto

declare insert_path.simps [simp del]

definition trie_insert :: "topic \<Rightarrow> 'v :: linorder \<Rightarrow> 'v node \<Rightarrow> bool \<times> 'v node" where
  "trie_insert topic_filter value self = insert_path (rev topic_filter) value self"

fun remove_path :: "level list \<Rightarrow> 'v :: linorder \<Rightarrow> 'v node \<Rightarrow> bool \<times> 'v node" where
  "remove_path [] value (Node vs bs) = (let (r, vs') = set_remove value vs in (r, Node vs' bs))"
| "remove_path (t # path) value (Node vs bs) = (case map_of bs t of
       Some x \<Rightarrow>
         let (res, x') = remove_path path value x
         in (res, Node vs (if node_values x' = [] \<and> branches x' = [] then AList.delete t bs
                           else AList.update t x' bs))
     | None \<Rightarrow> (False, Node vs bs))"

definition trie_remove :: "topic \<Rightarrow> 'v :: linorder \<Rightarrow> 'v node \<Rightarrow> bool \<times> 'v node" where
  "trie_remove topic_filter value self = remove_path topic_filter value self"

fun values_size :: "'v node \<Rightarrow> nat" where
  "values_size (Node vs bs) = length vs + sum_list (map (\<lambda>(_, n). values_size n) bs)"

fun nodes_size :: "'v node \<Rightarrow> nat" where
  "nodes_size (Node vs bs) = length bs + sum_list (map (\<lambda>(_, n). nodes_size n) bs)"

definition child :: "level \<Rightarrow> 'v node \<Rightarrow> 'v node option" where
  "child l n = map_of (branches n) l"

text \<open>\<^verbatim>\<open>_list\<close>: one line per node down to a depth; the rendering of a level is a parameter of the format.\<close>

fun list_nodes :: "(level \<Rightarrow> string) \<Rightarrow> nat \<Rightarrow> nat \<Rightarrow> 'v node \<Rightarrow> string list" where
  "list_nodes fmt limit depth (Node vs bs) =
     (if limit = 0 then []
      else concat (map (\<lambda>(l, n). (replicate (depth * 3) CHR '' '' @ '' '' @ fmt l)
             # list_nodes fmt (limit - 1) (depth + 1) n) bs))"

section \<open>The iterator over matches\<close>

type_synonym 'v item = "level list \<times> 'v list"

datatype 'v matched_iter = MatchedIter
  (it_node: "'v node") (it_path: "level list") (sub_path: "level list option")
  (curr_items: "'v item list") (sub_iters: "'v matched_iter list")

definition iter_new :: "'v node \<Rightarrow> level list \<Rightarrow> level list \<Rightarrow> 'v matched_iter" where
  "iter_new n path sp = MatchedIter n path (Some sp) [] []"

text \<open>\<^verbatim>\<open>add_to_items\<close>\<close>

definition add_to_items :: "level list \<Rightarrow> 'v list \<Rightarrow> 'v item list \<Rightarrow> 'v item list" where
  "add_to_items levels v_set items = (if v_set \<noteq> [] then items @ [(levels, v_set)] else items)"

text \<open>The lookup of the branch \<^verbatim>\<open>#\<close> both cases of \<^verbatim>\<open>prepare\<close> make.\<close>

definition add_multi :: "'v node \<Rightarrow> level list \<Rightarrow> 'v item list \<Rightarrow> 'v item list" where
  "add_multi n sp items = (case child MultiWildcard n of
       Some b \<Rightarrow> if node_values b \<noteq> [] then add_to_items (sp @ [MultiWildcard]) (node_values b) items else items
     | None \<Rightarrow> items)"

definition isolates :: "'v node \<Rightarrow> level \<Rightarrow> level list \<Rightarrow> bool" where
  "isolates n first sp \<longleftrightarrow> sp = [] \<and> first \<noteq> Blank \<and> is_metadata first
     \<and> (child MultiWildcard n \<noteq> None \<or> child SingleWildcard n \<noteq> None)"

definition sub_iter :: "'v node \<Rightarrow> level \<Rightarrow> level list \<Rightarrow> level list \<Rightarrow> 'v matched_iter list" where
  "sub_iter n l rest sp = (case child l n of Some b \<Rightarrow> [iter_new b rest (sp @ [l])] | None \<Rightarrow> [])"

text \<open>
  \<^verbatim>\<open>prepare\<close> fills the two queues and takes the path prefix away, so that it runs once; without a
  prefix every branch of it returns \<^verbatim>\<open>None\<close>.
\<close>

fun prepare :: "'v matched_iter \<Rightarrow> 'v matched_iter option" where
  "prepare (MatchedIter n path None items subs) = None"
| "prepare (MatchedIter n [] (Some sp) items subs) =
     Some (MatchedIter n [] None (add_to_items sp (node_values n) (add_multi n sp items)) subs)"
| "prepare (MatchedIter n (l # rest) (Some sp) items subs) =
     Some (MatchedIter n (l # rest) None
       (if \<not> isolates n l sp then add_multi n sp items else items)
       (subs @ (if \<not> isolates n l sp then sub_iter n SingleWildcard rest sp else [])
        @ sub_iter n l rest sp))"

fun weight :: "'v matched_iter \<Rightarrow> nat" where
  "weight (MatchedIter n path sp items subs) =
     (case sp of None \<Rightarrow> 0 | Some _ \<Rightarrow> 4 ^ Suc (length path)) + sum_list (map (\<lambda>s. weight s + 1) subs)"

lemma weight_sub_iter: "sum_list (map (\<lambda>s. weight s + 1) (sub_iter n l rest sp)) \<le> 4 ^ Suc (length rest) + 1"
  by (simp add: sub_iter_def iter_new_def split: option.splits)

lemma weight_prepare:
  assumes "prepare (MatchedIter n path (Some sp) [] []) = Some it'"
  shows "sum_list (map (\<lambda>s. weight s + 1) (sub_iters it')) < 4 ^ Suc (length path)"
proof (cases path)
  case (Cons l rest)
  define k :: nat where "k = 4 ^ length rest"
  have "0 < k" by (simp add: k_def)
  then have "2 * (4 * k + 1) < 4 * (4 * k)" by presburger
  then have "2 * (4 ^ Suc (length rest) + 1) < (4 :: nat) ^ Suc (length path)"
    by (simp add: Cons k_def)
  with assms Cons weight_sub_iter [of n l rest sp] weight_sub_iter [of n SingleWildcard rest sp]
  show ?thesis by (auto split: if_splits)
qed (use assms in auto)

text \<open>
  \<^verbatim>\<open>next_item\<close> takes the last of the current items, or else the next item of the first sub-iterator
  that has one, dropping those that are exhausted; when it returns \<^verbatim>\<open>None\<close> both queues are empty.
\<close>

function iter_next :: "'v matched_iter \<Rightarrow> 'v item option \<times> 'v matched_iter"
  and next_sub :: "'v matched_iter list \<Rightarrow> 'v item option \<times> 'v matched_iter list" where
  "iter_next (MatchedIter n path sp items subs) =
     (if items \<noteq> [] then (Some (last items), MatchedIter n path sp (butlast items) subs)
      else case next_sub subs of
          (Some item, subs') \<Rightarrow> (Some item, MatchedIter n path sp [] subs')
        | (None, _) \<Rightarrow>
            (case sp of
               None \<Rightarrow> (None, MatchedIter n path None [] [])
             | Some p \<Rightarrow>
               (case prepare (MatchedIter n path (Some p) [] []) of
                  None \<Rightarrow> (None, MatchedIter n path (Some p) [] [])
                | Some it' \<Rightarrow>
                  if curr_items it' \<noteq> []
                  then (Some (last (curr_items it')),
                        MatchedIter n path None (butlast (curr_items it')) (sub_iters it'))
                  else (case next_sub (sub_iters it') of
                      (r, subs') \<Rightarrow> (r, MatchedIter n path None [] subs')))))"
| "next_sub [] = (None, [])"
| "next_sub (s # subs) = (case iter_next s of
       (Some item, s') \<Rightarrow> (Some item, s' # subs)
     | (None, _) \<Rightarrow> next_sub subs)"
  by pat_completeness auto
termination
  by (relation "measure (\<lambda>x. case x of Inl it \<Rightarrow> 2 * weight it + 1
        | Inr subs \<Rightarrow> 2 * sum_list (map (\<lambda>s. weight s + 1) subs))")
    (auto dest!: weight_prepare)

declare iter_next.simps [simp del] next_sub.simps(2) [simp del]

section \<open>The tree as a map from filters to sets of values\<close>

fun trie_values :: "level list \<Rightarrow> 'v node \<Rightarrow> 'v list" where
  "trie_values [] (Node vs bs) = vs"
| "trie_values (l # p) (Node vs bs) = (case map_of bs l of None \<Rightarrow> [] | Some n \<Rightarrow> trie_values p n)"

text \<open>Value sets are strictly increasing, keys are distinct and no branch leads to an empty node.\<close>

fun trie_inv :: "('v :: linorder) node \<Rightarrow> bool" where
  "trie_inv (Node vs bs) \<longleftrightarrow> sorted vs \<and> distinct vs \<and> distinct (map fst bs)
     \<and> list_all (\<lambda>(l, n). trie_inv n \<and> n \<noteq> Node [] []) bs"

lemma trie_values_Nil [simp]: "trie_values [] n = node_values n"
  by (cases n) simp

lemma trie_values_Cons: "trie_values (l # p) n = (case child l n of None \<Rightarrow> [] | Some b \<Rightarrow> trie_values p b)"
  by (cases n) (simp add: child_def)

lemma trie_values_empty [simp]: "trie_values p (Node [] []) = []" "trie_values p node_default = []"
  by (cases p; simp add: node_default_def)+

lemma trie_insert_Nil [simp]:
  "trie_insert [] v (Node vs bs) = (let (r, vs') = set_insert v vs in (r, Node vs' bs))"
  by (simp add: trie_insert_def insert_path.simps)

lemma trie_insert_Cons [simp]:
  "trie_insert (l # p) v (Node vs bs) =
     (let (r, n) = trie_insert p v (case map_of bs l of Some n \<Rightarrow> n | None \<Rightarrow> node_default)
      in (r, Node vs (AList.update l n bs)))"
  by (simp add: trie_insert_def insert_path.simps)

lemma trie_insert_values:
  "trie_values q (snd (trie_insert p v n)) =
     (if q = p then snd (set_insert v (trie_values p n)) else trie_values q n)"
proof (induction p arbitrary: q n)
  case Nil
  then show ?case by (cases n; cases q) (auto simp: set_insert_def)
next
  case (Cons l p)
  then show ?case
    by (cases n; cases q) (auto simp: update_conv' split_beta Let_def split: option.splits)
qed

lemma trie_insert_result: "fst (trie_insert p v n) \<longleftrightarrow> v \<notin> set (trie_values p n)"
proof (induction p arbitrary: n)
  case Nil
  then show ?case by (cases n) (auto simp: set_insert_def)
next
  case (Cons l p)
  then show ?case
    by (cases n) (auto simp: split_beta Let_def split: option.splits)
qed

lemma trie_remove_values:
  "trie_values q (snd (trie_remove p v n)) =
     (if q = p then snd (set_remove v (trie_values p n)) else trie_values q n)"
  unfolding trie_remove_def
proof (induction p arbitrary: q n)
  case Nil
  then show ?case by (cases n; cases q) (auto simp: set_remove_def)
next
  case (Cons l p)
  obtain vs bs where n: "n = Node vs bs" by (cases n)
  show ?case
  proof (cases "map_of bs l")
    case None
    with n show ?thesis by (cases q) (auto simp: set_remove_def)
  next
    case (Some x)
    let ?x = "snd (remove_path p v x)"
    have e: "trie_values q' ?x = []" if "node_values ?x = [] \<and> branches ?x = []" for q'
      using that by (cases ?x) simp
    have "trie_values (l # q') (snd (remove_path (l # p) v n)) = trie_values q' ?x" for q'
      using Some n e by (auto simp: update_conv' delete_conv' split_beta Let_def)
    moreover have "trie_values (k # q') (snd (remove_path (l # p) v n)) = trie_values (k # q') n"
      if "k \<noteq> l" for k q'
      using that Some n by (auto simp: update_conv' delete_conv' split_beta Let_def)
    ultimately show ?thesis
      using Some n Cons.IH [of _ x]
      by (cases q) (fastforce simp: split_beta Let_def)+
  qed
qed

lemma trie_remove_result: "fst (trie_remove p v n) \<longleftrightarrow> v \<in> set (trie_values p n)"
  unfolding trie_remove_def
  by (induction p v n rule: remove_path.induct)
    (auto simp: set_remove_def split_beta Let_def split: option.splits)

lemma trie_insert_not_empty: "snd (trie_insert p v n) \<noteq> Node [] []"
proof (cases n)
  case (Node vs bs)
  have "AList.update k x xs \<noteq> []" for k :: level and x and xs :: "(level \<times> 'a node) list"
    by (cases xs) auto
  moreover have "insort v vs \<noteq> []"
    by (cases vs) auto
  ultimately show ?thesis
    using Node by (cases p) (auto simp: split_beta Let_def set_insert_def)
qed

lemma list_all_update:
  "list_all P bs \<Longrightarrow> P (l, n) \<Longrightarrow> list_all P (AList.update l n bs)"
  by (induction bs) auto

lemma list_all_delete: "list_all P bs \<Longrightarrow> list_all P (AList.delete l bs)"
  by (auto simp: list_all_iff AList.delete_eq)

lemma list_all_map_of: "list_all P bs \<Longrightarrow> map_of bs l = Some n \<Longrightarrow> P (l, n)"
  by (auto simp: list_all_iff dest: map_of_SomeD)

lemma trie_inv_default [simp]: "trie_inv node_default"
  by (simp add: node_default_def)

lemma trie_insert_inv: "trie_inv n \<Longrightarrow> trie_inv (snd (trie_insert p v n))"
proof (induction p arbitrary: n)
  case Nil
  then show ?case
    by (cases n) (auto simp: set_insert_def sorted_insort distinct_insort)
next
  case (Cons l p)
  obtain vs bs where n: "n = Node vs bs" by (cases n)
  have "trie_inv (case map_of bs l of Some n \<Rightarrow> n | None \<Rightarrow> node_default)"
    using Cons.prems n by (auto dest: list_all_map_of split: option.splits)
  from Cons.IH [OF this] show ?case
    using Cons.prems n
    by (auto simp: split_beta Let_def distinct_update trie_insert_not_empty intro!: list_all_update)
qed

lemma trie_remove_inv: "trie_inv n \<Longrightarrow> trie_inv (snd (trie_remove p v n))"
  unfolding trie_remove_def
proof (induction p arbitrary: n)
  case Nil
  then show ?case
    by (cases n) (auto simp: set_remove_def sorted_remove1)
next
  case (Cons l p)
  obtain vs bs where n: "n = Node vs bs" by (cases n)
  show ?case
  proof (cases "map_of bs l")
    case (Some x)
    have x: "trie_inv (snd (remove_path p v x))"
      using Cons Some n by (auto dest: list_all_map_of)
    moreover have "snd (remove_path p v x) \<noteq> Node [] []"
      if "\<not> (node_values (snd (remove_path p v x)) = [] \<and> branches (snd (remove_path p v x)) = [])"
      using that by auto
    ultimately show ?thesis
      using Some n Cons.prems
      by (auto simp: split_beta Let_def distinct_update distinct_delete
          intro!: list_all_update list_all_delete)
  qed (use Cons n in simp)
qed

section \<open>What the iterator enumerates\<close>

definition multi_items :: "'v node \<Rightarrow> level list \<Rightarrow> 'v item list" where
  "multi_items n sp = (case child MultiWildcard n of
       Some b \<Rightarrow> if node_values b \<noteq> [] then [(sp @ [MultiWildcard], node_values b)] else []
     | None \<Rightarrow> [])"

definition opt_items :: "('v node \<Rightarrow> 'v item list) \<Rightarrow> 'v node option \<Rightarrow> 'v item list" where
  "opt_items f b = (case b of Some n \<Rightarrow> f n | None \<Rightarrow> [])"

lemma opt_items_simps [simp]: "opt_items f None = []" "opt_items f (Some n) = f n"
  by (simp_all add: opt_items_def)

lemma set_opt_items: "x \<in> set (opt_items f b) \<longleftrightarrow> (\<exists>n. b = Some n \<and> x \<in> set (f n))"
  by (cases b) auto

fun matched_items :: "'v node \<Rightarrow> level list \<Rightarrow> level list \<Rightarrow> 'v item list" where
  "matched_items n [] sp = (if node_values n \<noteq> [] then [(sp, node_values n)] else []) @ multi_items n sp"
| "matched_items n (l # p) sp =
     (if sp = [] \<and> is_metadata l then []
      else multi_items n sp
        @ opt_items (\<lambda>b. matched_items b p (sp @ [SingleWildcard])) (child SingleWildcard n))
     @ opt_items (\<lambda>b. matched_items b p (sp @ [l])) (child l n)"

text \<open>What an iterator still has to deliver.\<close>

fun remaining :: "'v matched_iter \<Rightarrow> 'v item list" where
  "remaining (MatchedIter n path sp items subs) = rev items @ concat (map remaining subs)
     @ (case sp of None \<Rightarrow> [] | Some p \<Rightarrow> matched_items n path p)"

lemma add_multi_items: "add_multi n sp items = items @ multi_items n sp"
  by (auto simp: add_multi_def multi_items_def add_to_items_def split: option.splits)

lemma multi_items_None: "child MultiWildcard n = None \<Longrightarrow> multi_items n sp = []"
  by (simp add: multi_items_def)

lemma multi_items_rev: "rev (multi_items n sp) = multi_items n sp"
  by (auto simp: multi_items_def split: option.splits)

lemma remaining_iter_new [simp]: "remaining (iter_new n path sp) = matched_items n path sp"
  by (simp add: iter_new_def)

lemma concat_sub_iter:
  "concat (map remaining (sub_iter n l rest sp)) =
     opt_items (\<lambda>b. matched_items b rest (sp @ [l])) (child l n)"
  by (simp add: sub_iter_def split: option.splits)

lemma isolates_no_wildcards:
  "isolates n l sp \<Longrightarrow> sp = [] \<and> is_metadata l"
  "\<not> isolates n l sp \<Longrightarrow> sp = [] \<Longrightarrow> is_metadata l \<Longrightarrow>
     child MultiWildcard n = None \<and> child SingleWildcard n = None"
  by (auto simp: isolates_def)

lemma prepare_remaining:
  assumes "prepare (MatchedIter n path (Some sp) [] []) = Some it"
  shows "rev (curr_items it) @ concat (map remaining (sub_iters it)) = matched_items n path sp"
proof (cases path)
  case Nil
  with assms show ?thesis
    by (auto simp: add_to_items_def add_multi_items multi_items_rev)
next
  case (Cons l rest)
  show ?thesis
  proof (cases "isolates n l sp")
    case True
    with Cons assms isolates_no_wildcards(1) [OF True] show ?thesis
      by (clarsimp simp: concat_sub_iter)
  next
    case False
    with Cons assms isolates_no_wildcards(2) [OF False] show ?thesis
      by (auto simp: concat_sub_iter add_multi_items multi_items_rev multi_items_None)
  qed
qed

lemma rev_last_butlast: "xs \<noteq> [] \<Longrightarrow> rev xs = last xs # rev (butlast xs)"
  by (induction xs rule: rev_induct) auto

lemma next_remaining:
  fixes it :: "'v matched_iter" and subs :: "'v matched_iter list"
  shows "(case iter_next it of
      (Some item, it') \<Rightarrow> remaining it = item # remaining it'
    | (None, it') \<Rightarrow> remaining it = [] \<and> remaining it' = [])"
  and "(case next_sub subs of
      (Some item, subs') \<Rightarrow> concat (map remaining subs) = item # concat (map remaining subs')
    | (None, subs') \<Rightarrow> concat (map remaining subs) = [] \<and> subs' = [])"
proof (induction it and subs rule: iter_next_next_sub.induct)
  case (1 n path sp items subs)
  show ?case
  proof (cases "items = []")
    case False
    then have "rev items = last items # rev (butlast items)"
      by (rule rev_last_butlast)
    with False show ?thesis by (simp add: iter_next.simps)
  next
    case items: True
    show ?thesis
    proof (cases "next_sub subs")
      case (Pair r subs')
      show ?thesis
      proof (cases r)
        case (Some item)
        with 1(1) items Pair show ?thesis by (simp add: iter_next.simps)
      next
        case None
        show ?thesis
        proof (cases sp)
          case None
          with 1(1) items Pair \<open>r = None\<close> show ?thesis by (simp add: iter_next.simps)
        next
          case (Some p)
          obtain it' where it': "prepare (MatchedIter n path (Some p) [] []) = Some it'"
            by (cases path) auto
          note rem = prepare_remaining [OF it']
          have subs: "concat (map remaining subs) = []"
            using 1(1) items Pair \<open>r = None\<close> by simp
          show ?thesis
          proof (cases "curr_items it' = []")
            case False
            then have "rev (curr_items it') = last (curr_items it') # rev (butlast (curr_items it'))"
              by (rule rev_last_butlast)
            with False it' rem subs items Pair \<open>r = None\<close> Some show ?thesis
              by (simp add: iter_next.simps)
          next
            case True
            with 1(2) [OF _ Pair [symmetric] \<open>r = None\<close> Some it'] it' rem subs items Pair \<open>r = None\<close> Some
            show ?thesis by (auto simp: iter_next.simps split: prod.splits option.splits)
          qed
        qed
      qed
    qed
  qed
next
  case (3 s subs)
  then show ?case by (auto simp: next_sub.simps split: prod.splits option.splits)
qed simp

text \<open>\<^verbatim>\<open>for item in tree.matches(topic).iter()\<close>: the loop calls \<^verbatim>\<open>next\<close> until it returns \<^verbatim>\<open>None\<close>.\<close>

function iter_collect :: "'v matched_iter \<Rightarrow> 'v item list" where
  "iter_collect it = (case iter_next it of
       (None, _) \<Rightarrow> []
     | (Some item, it') \<Rightarrow> item # iter_collect it')"
  by pat_completeness auto
termination
proof (relation "measure (\<lambda>it. length (remaining it))")
  fix it it' :: "'v matched_iter" and r item
  assume "(r, it') = iter_next it" and "r = Some item"
  then show "(it', it) \<in> measure (\<lambda>it. length (remaining it))"
    using next_remaining(1) [of it] by (auto split: prod.splits)
qed simp

declare iter_collect.simps [simp del]

definition trie_matches :: "topic \<Rightarrow> 'v node \<Rightarrow> 'v item list" where
  "trie_matches t n = iter_collect (iter_new n t [])"

definition trie_is_match :: "topic \<Rightarrow> 'v node \<Rightarrow> bool" where
  "trie_is_match t n = (fst (iter_next (iter_new n t [])) \<noteq> None)"

lemma iter_collect_remaining: "iter_collect it = remaining it"
proof (induction it rule: iter_collect.induct)
  case (1 it)
  then show ?case
    using next_remaining(1) [of it] by (subst iter_collect.simps) (auto split: prod.splits option.splits)
qed

lemma trie_matches_items: "trie_matches t n = matched_items n t []"
  by (simp add: trie_matches_def iter_collect_remaining)

lemma trie_is_match_items: "trie_is_match t n \<longleftrightarrow> trie_matches t n \<noteq> []"
  using next_remaining(1) [of "iter_new n t []"]
  by (auto simp: trie_is_match_def trie_matches_items split: prod.splits option.splits)

lemma multi_items_iff:
  "(f, vs) \<in> set (multi_items n sp) \<longleftrightarrow>
   f = sp @ [MultiWildcard] \<and> vs = trie_values [MultiWildcard] n \<and> vs \<noteq> []"
  by (auto simp: multi_items_def trie_values_Cons split: option.splits)

text \<open>The stored filters below a prefix that match what is left of the topic.\<close>

lemma matched_items_iff:
  assumes "topic_name t"
  shows "(f, vs) \<in> set (matched_items n t sp) \<longleftrightarrow>
    (\<exists>g. f = sp @ g \<and> vs = trie_values g n \<and> vs \<noteq> [] \<and> filter_matches g t
      \<and> \<not> (sp = [] \<and> dollar_isolated g t))"
  using assms
proof (induction n t sp rule: matched_items.induct)
  case (1 n sp)
  have "filter_matches g [] \<longleftrightarrow> g = [] \<or> g = [MultiWildcard]" for g
    by (cases "(g, [] :: level list)" rule: filter_matches.cases) auto
  moreover have "\<not> dollar_isolated g []" for g
    by (simp add: dollar_isolated_def split: list.splits)
  moreover have "(f, vs) \<in> set (matched_items n [] sp) \<longleftrightarrow>
      (f = sp @ [] \<and> vs = trie_values [] n \<and> vs \<noteq> [])
      \<or> (f = sp @ [MultiWildcard] \<and> vs = trie_values [MultiWildcard] n \<and> vs \<noteq> [])"
    by (cases "node_values n = []") (auto simp: multi_items_iff)
  ultimately show ?case
    by metis
next
  case (2 n l p sp)
  have l: "\<not> is_wildcard l" and p: "topic_name p"
    using "2.prems" by (simp_all add: topic_name_def)
  define R where "R g \<longleftrightarrow> f = sp @ g \<and> vs = trie_values g n \<and> vs \<noteq> []" for g
  have sub: "(f, vs) \<in> set (opt_items (\<lambda>b. matched_items b p (sp @ [k])) (child k n)) \<longleftrightarrow>
      (\<exists>h. R (k # h) \<and> filter_matches h p)"
    if "\<And>b. child k n = Some b \<Longrightarrow> (f, vs) \<in> set (matched_items b p (sp @ [k])) \<longleftrightarrow>
      (\<exists>g. f = (sp @ [k]) @ g \<and> vs = trie_values g b \<and> vs \<noteq> [] \<and> filter_matches g p
        \<and> \<not> (sp @ [k] = [] \<and> dollar_isolated g p))" for k
  proof (cases "child k n")
    case (Some b)
    with that [OF Some] show ?thesis by (simp add: R_def trie_values_Cons)
  qed (simp add: R_def trie_values_Cons)
  note exact = sub [of l, OF "2.IH"(2) [OF p]]
  have fm: "filter_matches g (l # p) \<longleftrightarrow> g = [MultiWildcard] \<or> (\<exists>h. g = SingleWildcard # h \<and> filter_matches h p)
      \<or> (\<exists>h. g = l # h \<and> filter_matches h p)" for g
    using l by (cases "(g, l # p)" rule: filter_matches.cases) (auto simp: is_wildcard_def)
  have di: "dollar_isolated (k # g) (l # p) \<longleftrightarrow> is_metadata l \<and> is_wildcard k" for k g
    by (auto simp: dollar_isolated_def)
  have "(f, vs) \<in> set (matched_items n (l # p) sp) \<longleftrightarrow>
      (\<exists>g. R g \<and> filter_matches g (l # p) \<and> \<not> (sp = [] \<and> dollar_isolated g (l # p)))"
  proof (cases "sp = [] \<and> is_metadata l")
    case True
    with exact have "(f, vs) \<in> set (matched_items n (l # p) sp) \<longleftrightarrow> (\<exists>h. R (l # h) \<and> filter_matches h p)"
      by simp
    with True show ?thesis
      unfolding fm using l di by (auto simp: is_wildcard_def)
  next
    case False
    note single = sub [of SingleWildcard, OF "2.IH"(1) [OF False p]]
    from False exact single have "(f, vs) \<in> set (matched_items n (l # p) sp) \<longleftrightarrow> R [MultiWildcard]
        \<or> (\<exists>h. R (SingleWildcard # h) \<and> filter_matches h p) \<or> (\<exists>h. R (l # h) \<and> filter_matches h p)"
      by (auto simp: multi_items_iff R_def)
    with False show ?thesis
      unfolding fm using di by auto
  qed
  then show ?case by (auto simp: R_def)
qed

text \<open>Every item below a prefix extends it, so the branches deliver different filters.\<close>

lemma matched_items_prefix: "(f, vs) \<in> set (matched_items n t sp) \<Longrightarrow> \<exists>g. f = sp @ g"
proof (induction n t sp rule: matched_items.induct)
  case (2 n l p sp)
  consider "(f, vs) \<in> set (multi_items n sp)"
    | b where "\<not> (sp = [] \<and> is_metadata l)" "child SingleWildcard n = Some b"
        "(f, vs) \<in> set (matched_items b p (sp @ [SingleWildcard]))"
    | b where "child l n = Some b" "(f, vs) \<in> set (matched_items b p (sp @ [l]))"
    using "2.prems" by (auto simp: set_opt_items split: if_splits)
  then show ?case
  proof cases
    case 2
    then obtain g where "f = (sp @ [SingleWildcard]) @ g"
      using "2.IH"(1) by blast
    then show ?thesis by simp
  next
    case 3
    then obtain g where "f = (sp @ [l]) @ g"
      using "2.IH"(2) by blast
    then show ?thesis by simp
  qed (auto simp: multi_items_iff)
qed (auto simp: multi_items_iff split: if_splits)

lemma disjointI: "(\<And>x. x \<in> A \<Longrightarrow> x \<in> B \<Longrightarrow> False) \<Longrightarrow> A \<inter> B = {}"
  by auto

lemma matched_items_distinct:
  assumes "topic_name t"
  shows "distinct (map fst (matched_items n t sp))"
  using assms
proof (induction n t sp rule: matched_items.induct)
  case (1 n sp)
  then show ?case by (auto simp: multi_items_def split: option.splits)
next
  case (2 n l p sp)
  let ?sub = "\<lambda>k. opt_items (\<lambda>b. matched_items b p (sp @ [k])) (child k n)"
  have p: "topic_name p" and l: "l \<noteq> SingleWildcard" "l \<noteq> MultiWildcard"
    using "2.prems" by (auto simp: topic_name_def is_wildcard_def)
  have pre: "\<exists>g. f = sp @ k # g" if "f \<in> fst ` set (?sub k)" for f k
    using that by (auto simp: set_opt_items dest!: matched_items_prefix)
  have m: "f = sp @ [MultiWildcard]" if "f \<in> fst ` set (multi_items n sp)" for f
    using that by (auto simp: multi_items_iff)
  have "distinct (map fst (multi_items n sp))"
    by (auto simp: multi_items_def split: option.splits)
  moreover have "distinct (map fst (?sub l))"
    using "2.IH"(2) p by (cases "child l n") auto
  moreover have "distinct (map fst (?sub SingleWildcard))" if "\<not> (sp = [] \<and> is_metadata l)"
    using "2.IH"(1) [OF that] p by (cases "child SingleWildcard n") auto
  moreover have mk: "fst ` set (multi_items n sp) \<inter> fst ` set (?sub k) = {}" if "k \<noteq> MultiWildcard" for k
  proof (rule disjointI)
    fix f assume "f \<in> fst ` set (multi_items n sp)" "f \<in> fst ` set (?sub k)"
    with pre [of f k] m [of f] that show False by auto
  qed
  moreover have "fst ` set (?sub SingleWildcard) \<inter> fst ` set (?sub l) = {}"
  proof (rule disjointI)
    fix f assume "f \<in> fst ` set (?sub SingleWildcard)" "f \<in> fst ` set (?sub l)"
    then obtain g h where "f = sp @ SingleWildcard # g" "f = sp @ l # h"
      using pre by meson
    with l show False by simp
  qed
  ultimately show ?case
    using l by (cases "sp = [] \<and> is_metadata l") (simp_all add: Int_Un_distrib2 image_Un)
qed

section \<open>The interface of the subscription index\<close>

text \<open>
  What the router relies on: a map from filters to finite sets of values, kept under insertion and
  removal, whose entries that match a topic can be enumerated.
\<close>

lemma set_remove_subset: "set (snd (set_remove v vs)) \<subseteq> set vs"
  using set_remove1_subset [of v vs] by (auto simp: set_remove_def)

lemma set_remove_other: "w \<noteq> v \<Longrightarrow> w \<in> set (snd (set_remove v vs)) \<longleftrightarrow> w \<in> set vs"
  by (auto simp: set_remove_def in_set_remove1 dest: notin_set_remove1)

locale topic_index =
  fixes empty :: "'n" and invar :: "'n \<Rightarrow> bool" and entries :: "topic \<Rightarrow> 'n \<Rightarrow> ('v :: linorder) list"
    and insert :: "topic \<Rightarrow> 'v \<Rightarrow> 'n \<Rightarrow> bool \<times> 'n" and remove :: "topic \<Rightarrow> 'v \<Rightarrow> 'n \<Rightarrow> bool \<times> 'n"
    and matched :: "topic \<Rightarrow> 'n \<Rightarrow> (topic \<times> 'v list) list"
  assumes invar_empty: "invar empty" and entries_empty: "entries f empty = []"
    and invar_insert: "invar n \<Longrightarrow> invar (snd (insert f v n))"
    and invar_remove: "invar n \<Longrightarrow> invar (snd (remove f v n))"
    and entries_insert: "entries g (snd (insert f v n)) =
      (if g = f then snd (set_insert v (entries f n)) else entries g n)"
    and entries_remove: "entries g (snd (remove f v n)) =
      (if g = f then snd (set_remove v (entries f n)) else entries g n)"
    and insert_result: "fst (insert f v n) \<longleftrightarrow> v \<notin> set (entries f n)"
    and remove_result: "fst (remove f v n) \<longleftrightarrow> v \<in> set (entries f n)"
    and entries_sorted: "invar n \<Longrightarrow> sorted (entries f n) \<and> distinct (entries f n)"
    and matched_entries: "topic_name t \<Longrightarrow>
      (f, vs) \<in> set (matched t n) \<longleftrightarrow> vs = entries f n \<and> vs \<noteq> [] \<and> mqtt_matches f t"
    and matched_distinct: "topic_name t \<Longrightarrow> distinct (map fst (matched t n))"
begin

definition delivers :: "'n \<Rightarrow> topic \<Rightarrow> 'v set" where
  "delivers n t = {v. \<exists>(f, vs) \<in> set (matched t n). v \<in> set vs}"

lemma delivers_entries:
  "topic_name t \<Longrightarrow> delivers n t = {v. \<exists>f. mqtt_matches f t \<and> v \<in> set (entries f n)}"
  by (auto simp: delivers_def matched_entries case_prod_unfold) (metis list.set(1) empty_iff matched_entries fst_conv snd_conv)

lemma delivers_remove_other:
  assumes "invar n" and "topic_name t"
  shows "delivers (snd (remove f v n)) t \<subseteq> delivers n t"
    and "w \<noteq> v \<Longrightarrow> w \<in> delivers n t \<Longrightarrow> w \<in> delivers (snd (remove f v n)) t"
  using assms set_remove_subset [of v "entries f n"] set_remove_other [of w v "entries f n"]
  by (auto simp: delivers_entries entries_remove split: if_splits)

lemma delivers_insert:
  "topic_name t \<Longrightarrow> delivers (snd (insert f v n)) t =
     (if mqtt_matches f t then {v} \<union> delivers n t else delivers n t)"
  by (auto simp: delivers_entries entries_insert set_insert_def set_insort_key split: if_splits)

end

lemma mem_set_remove: "distinct vs \<Longrightarrow> set (snd (set_remove v vs)) = set vs - {v}"
  by (auto simp: set_remove_def)

lemma trie_values_sorted: "trie_inv n \<Longrightarrow> sorted (trie_values f n) \<and> distinct (trie_values f n)"
proof (induction f arbitrary: n)
  case (Cons l f)
  then show ?case by (cases n) (auto dest: list_all_map_of split: option.splits)
qed (auto elim: trie_inv.elims)

interpretation trie: topic_index node_default trie_inv trie_values trie_insert trie_remove trie_matches
proof
  show "topic_name t \<Longrightarrow> (f, vs) \<in> set (trie_matches t n) \<longleftrightarrow>
      vs = trie_values f n \<and> vs \<noteq> [] \<and> mqtt_matches f t" for t f n and vs :: "'v list"
    by (auto simp: trie_matches_items matched_items_iff mqtt_matches_def)
  show "topic_name t \<Longrightarrow> distinct (map fst (trie_matches t n))" for t and n :: "'v node"
    by (simp add: trie_matches_items matched_items_distinct)
qed (auto simp: trie_insert_inv trie_remove_inv trie_insert_values trie_remove_values
    trie_insert_result trie_remove_result trie_values_sorted)

section \<open>Sizes and reclaimed nodes\<close>

lemma trie_inv_nonempty: "trie_inv n \<Longrightarrow> n \<noteq> Node [] [] \<Longrightarrow> \<exists>f. trie_values f n \<noteq> []"
proof (induction n)
  case (Node vs bs)
  show ?case
  proof (cases "vs = []")
    case True
    with Node.prems obtain l n bs' where bs: "bs = (l, n) # bs'" by (cases bs) auto
    with Node.prems Node.IH [of "(l, n)" n] obtain f where "trie_values f n \<noteq> []" by auto
    then have "trie_values (l # f) (Node vs bs) \<noteq> []" using bs by simp
    then show ?thesis by blast
  qed (auto intro: exI [of _ "[]"])
qed

lemma values_size_update:
  assumes "distinct (map fst bs)"
  shows "sum_list (map (\<lambda>(_, n). values_size n) (AList.update l x bs)) + (case map_of bs l of Some n \<Rightarrow> values_size n | None \<Rightarrow> 0)
    = sum_list (map (\<lambda>(_, n). values_size n) bs) + values_size x"
  using assms by (induction bs) (auto split: option.splits dest: map_of_SomeD simp: image_iff)

lemma values_size_delete:
  fixes bs :: "(level \<times> 'v node) list"
  assumes "distinct (map fst bs)"
  shows "sum_list (map (\<lambda>(_, n). values_size n) (AList.delete l bs)) + (case map_of bs l of Some n \<Rightarrow> values_size n | None \<Rightarrow> 0)
    = sum_list (map (\<lambda>(_, n). values_size n) bs)"
proof -
  have "AList.delete l bs = bs" if "l \<notin> fst ` set bs" for bs :: "(level \<times> 'v node) list"
    using that by (simp add: AList.delete_eq filter_id_conv) force
  then show ?thesis
    using assms by (induction bs) (auto split: option.splits dest: map_of_SomeD simp: image_iff)
qed

lemma trie_insert_size:
  "trie_inv n \<Longrightarrow> values_size (snd (trie_insert p v n)) = values_size n + (if fst (trie_insert p v n) then 1 else 0)"
proof (induction p arbitrary: n)
  case Nil
  then show ?case by (cases n) (auto simp: set_insert_def)
next
  case (Cons l p)
  obtain vs bs where n: "n = Node vs bs" by (cases n)
  let ?c = "case map_of bs l of Some n \<Rightarrow> n | None \<Rightarrow> node_default"
  have c: "trie_inv ?c"
    using Cons.prems n by (auto dest: list_all_map_of split: option.splits)
  have "values_size ?c = (case map_of bs l of Some n \<Rightarrow> values_size n | None \<Rightarrow> 0)"
    by (simp add: node_default_def split: option.splits)
  with Cons.IH [OF c] Cons.prems n values_size_update [of bs l "snd (trie_insert p v ?c)"] show ?case
    by (simp add: split_beta Let_def)
qed

lemma trie_remove_size:
  "trie_inv n \<Longrightarrow> values_size n = values_size (snd (trie_remove p v n)) + (if fst (trie_remove p v n) then 1 else 0)"
  unfolding trie_remove_def
proof (induction p arbitrary: n)
  case Nil
  then show ?case
    by (cases n) (auto simp: set_remove_def length_remove1 dest: length_pos_if_in_set)
next
  case (Cons l p)
  obtain vs bs where n: "n = Node vs bs" by (cases n)
  show ?case
  proof (cases "map_of bs l")
    case (Some x)
    let ?x = "snd (remove_path p v x)"
    have e: "values_size ?x = 0" if "node_values ?x = [] \<and> branches ?x = []"
      using that by (cases ?x) simp
    have "trie_inv x" "distinct (map fst bs)"
      using Cons.prems n Some by (auto dest: list_all_map_of)
    with Cons.IH [of x] Cons.prems n Some e values_size_update [of bs l ?x] values_size_delete [of bs l]
    show ?thesis by (auto simp: split_beta Let_def)
  qed (use n in simp)
qed

section \<open>Properties\<close>

text \<open>
  C11: matching a topic name against the tree delivers exactly the stored filters that match it under
  the MQTT rules (including the isolation of \<^verbatim>\<open>$\<close> topics), each exactly once and with all the values
  stored for it; the stateful iterator, called until it returns nothing, misses and repeats none.
\<close>

theorem trie_matches_exact:
  fixes n :: "('v :: linorder) node"
  assumes "topic_name t"
  shows "distinct (map fst (trie_matches t n)) \<and>
    ((f, vs) \<in> set (trie_matches t n) \<longleftrightarrow> vs = trie_values f n \<and> vs \<noteq> [] \<and> mqtt_matches f t) \<and>
    (trie_is_match t n \<longleftrightarrow> (\<exists>g. trie_values g n \<noteq> [] \<and> mqtt_matches g t))"
proof (intro conjI)
  show "trie_is_match t n \<longleftrightarrow> (\<exists>g. trie_values g n \<noteq> [] \<and> mqtt_matches g t)"
    using trie.matched_entries [OF assms, of _ _ n]
    by (auto simp: trie_is_match_items neq_Nil_conv) (metis list.set_intros(1) list.set_cases surj_pair)+
qed (use trie.matched_distinct trie.matched_entries assms in blast)+

definition sample_trie :: "nat node" where
  "sample_trie = Node [] [(Normal ''a'', Node [] [(SingleWildcard, Node [1, 2] []), (MultiWildcard, Node [3] [])])]"

theorem trie_matches_exact_witness:
  "([Normal ''a'', SingleWildcard], [1, 2]) \<in> set (trie_matches [Normal ''a'', Normal ''b''] sample_trie)"
  using trie_matches_exact [of "[Normal ''a'', Normal ''b'']" sample_trie "[Normal ''a'', SingleWildcard]" "[1, 2]"]
  by (simp add: topic_name_def is_wildcard_def sample_trie_def mqtt_matches_def dollar_isolated_def)

text \<open>
  The tree implements a map from filters to sets of values: inserting a value changes the set of
  that filter only, to the set with the value, and tells whether it was new; removing a value changes
  the set of that filter only, to the set without the value, and tells whether it was there.
\<close>

theorem trie_refines_map:
  assumes "trie_inv n"
  shows "set (trie_values g (snd (trie_insert f v n))) =
      (if g = f then {v} \<union> set (trie_values f n) else set (trie_values g n)) \<and>
    (fst (trie_insert f v n) \<longleftrightarrow> v \<notin> set (trie_values f n)) \<and>
    set (trie_values g (snd (trie_remove f v n))) =
      (if g = f then set (trie_values f n) - {v} else set (trie_values g n)) \<and>
    (fst (trie_remove f v n) \<longleftrightarrow> v \<in> set (trie_values f n))"
  using trie_values_sorted [OF assms]
  by (auto simp: trie.entries_insert trie.entries_remove trie.insert_result trie.remove_result
      set_insert_def set_insort_key mem_set_remove split: if_splits)

theorem trie_refines_map_witness:
  "set (trie_values [Normal ''a'', MultiWildcard] (snd (trie_insert [Normal ''a'', MultiWildcard] 4 sample_trie)))
     = {3, 4}"
  using trie_refines_map [of sample_trie "[Normal ''a'', MultiWildcard]" "[Normal ''a'', MultiWildcard]" 4]
  by (auto simp: sample_trie_def)

text \<open>
  Insertion and removal keep the tree well formed (increasing value sets, distinct branches, no
  empty branch), the number of values changes by exactly what the results say, and a tree in which
  no value is left is the empty tree again: removal reclaims every node it empties.
\<close>

theorem trie_invariant:
  assumes "trie_inv n"
  shows "trie_inv (snd (trie_insert f v n)) \<and> trie_inv (snd (trie_remove f v n)) \<and>
    values_size (snd (trie_insert f v n)) = values_size n + (if fst (trie_insert f v n) then 1 else 0) \<and>
    values_size n = values_size (snd (trie_remove f v n)) + (if fst (trie_remove f v n) then 1 else 0) \<and>
    ((\<forall>g. trie_values g n = []) \<longrightarrow> n = node_default)"
  using assms trie_insert_inv trie_remove_inv trie_insert_size trie_remove_size trie_inv_nonempty
  unfolding node_default_def by blast

theorem trie_invariant_witness:
  "trie_inv (snd (trie_remove [Normal ''a'', MultiWildcard] 3 sample_trie)) \<and> values_size sample_trie = 3"
  using trie_invariant [of sample_trie "[Normal ''a'', MultiWildcard]" 3]
  by (simp add: sample_trie_def)

end
