(* ===== verification/Builtin_Acl.thy ===== *)
theory Builtin_Acl
  imports Hooks Trie "HOL-Library.Option_ord"
begin

text \<open>
  The access control list of the broker (\<^verbatim>\<open>builtins/acl.rs\<close>): rules read from the configuration, the handler of the
  hooks that authenticates clients and checks their messages and subscriptions against the rules, and the
  topics with placeholders that are put into the rules while a client is connected.  How an IP address is
  written is an argument.
\<close>

section \<open>Rules\<close>

datatype access = Access_Allow | Access_Deny

datatype acl_user =
    User_Username string "bytes option" bool
  | User_Clientid client_id
  | User_Ipaddr string
  | User_Protocol u8
  | User_All

datatype control = Control_All | Control_Connect | Control_Publish | Control_Subscribe | Control_Pubsub

record acl_topics =
  tp_all :: bool
  tp_eqs :: "string list"
  tp_eq_placeholders :: "string list"
  tp_tree :: "client_id option node"
  tp_placeholders :: "string list"

record access_rule =
  ar_access :: access
  ar_users :: "acl_user list"
  ar_control :: control
  ar_topics :: acl_topics

text \<open>The set of exact topics is a list; \<^verbatim>\<open>insert\<close> leaves it without duplicates.\<close>

definition add_topic_filter :: "string \<Rightarrow> client_id \<Rightarrow> access_rule \<Rightarrow> (unit, topic_error) res \<times> access_rule" where
  "add_topic_filter tf cid r =
    (case topic_from_str tf of
       Ok t \<Rightarrow> (Ok (), r\<lparr>ar_topics := (ar_topics r)\<lparr>tp_tree := snd (trie_insert t (Some cid) (tp_tree (ar_topics r)))\<rparr>\<rparr>)
     | Err e \<Rightarrow> (Err e, r)
     | Panic \<Rightarrow> (Panic, r))"

definition remove_topic :: "string \<Rightarrow> client_id \<Rightarrow> access_rule \<Rightarrow> (unit, topic_error) res \<times> access_rule" where
  "remove_topic topic cid r =
    (case topic_from_str topic of
       Ok t \<Rightarrow>
         (let tree = tp_tree (ar_topics r);
              topics = concat (map (\<lambda>(levels, cids). map (\<lambda>_. levels) (filter (\<lambda>c. c = Some cid) cids)) (trie_matches t tree));
              tree = fold (\<lambda>t n. snd (trie_remove t (Some cid) n)) topics tree
          in (Ok (), r\<lparr>ar_topics := (ar_topics r)\<lparr>tp_tree := tree\<rparr>\<rparr>))
     | Err e \<Rightarrow> (Err e, r)
     | Panic \<Rightarrow> (Panic, r))"

definition add_topic_to_eqs :: "string \<Rightarrow> access_rule \<Rightarrow> access_rule" where
  "add_topic_to_eqs t r = r\<lparr>ar_topics := (ar_topics r)\<lparr>tp_eqs := List.insert t (tp_eqs (ar_topics r))\<rparr>\<rparr>"

definition user_hit :: "(bytes \<Rightarrow> string) \<Rightarrow> ident \<Rightarrow> bytes option \<Rightarrow> u8 option \<Rightarrow> bool \<Rightarrow> acl_user \<Rightarrow> bool \<times> bool" where
  "user_hit ip_text i password protocol allow u =
    (case u of
       User_All \<Rightarrow> (True, False)
     | User_Username name1 password1 superuser \<Rightarrow>
         (case (id_username i, password, password1, allow) of
            (Some name2, Some password2, Some password1, True) \<Rightarrow> (name1 = name2 \<and> password1 = password2, superuser)
          | (Some name2, Some _, Some _, False) \<Rightarrow> (name1 = name2, False)
          | (Some name2, _, None, True) \<Rightarrow> (name1 = name2, superuser)
          | (Some name2, _, None, False) \<Rightarrow> (name1 = name2, False)
          | (Some _, None, Some _, _) \<Rightarrow> (False, False)
          | (None, _, _, _) \<Rightarrow> (False, False))
     | User_Clientid cid \<Rightarrow> (id_client_id i = cid, False)
     | User_Ipaddr ip \<Rightarrow> (case id_remote_addr i of Some (addr, _) \<Rightarrow> (ip = ip_text addr, False) | None \<Rightarrow> (False, False))
     | User_Protocol v1 \<Rightarrow> (case protocol of Some v \<Rightarrow> (v = v1, False) | None \<Rightarrow> (False, False)))"

fun users_hit :: "(acl_user \<Rightarrow> bool \<times> bool) \<Rightarrow> acl_user list \<Rightarrow> bool \<Rightarrow> bool \<times> bool" where
  "users_hit hit [] superuser = (True, superuser)"
| "users_hit hit (u # us) superuser = (case hit u of (h, su) \<Rightarrow> if \<not> h then (False, False) else users_hit hit us su)"

definition rule_hit :: "(bytes \<Rightarrow> string) \<Rightarrow> ident \<Rightarrow> bytes option \<Rightarrow> u8 option \<Rightarrow> bool \<Rightarrow> access_rule \<Rightarrow> bool \<times> bool" where
  "rule_hit ip_text i password protocol allow r = users_hit (user_hit ip_text i password protocol allow) (ar_users r) False"

definition topics_is_match :: "topic \<Rightarrow> string \<Rightarrow> client_id \<Rightarrow> acl_topics \<Rightarrow> bool" where
  "topics_is_match t name cid ts =
    (if tp_all ts then True
     else if name \<in> set (tp_eqs ts) then True
     else list_ex (\<lambda>(_, cids). list_ex (\<lambda>c. case c of Some c \<Rightarrow> c = cid | None \<Rightarrow> True) cids) (trie_matches t (tp_tree ts)))"

section \<open>Configuration\<close>

definition lower :: "string \<Rightarrow> string" where
  "lower s = map (\<lambda>c. let n = of_char c :: nat in if 65 \<le> n \<and> n \<le> 90 then char_of (n + 32) else c) s"

definition access_try_from :: "json \<Rightarrow> (access, acl_error) res" where
  "access_try_from v =
    (case as_str v of
       Some s \<Rightarrow> if lower s = ''allow'' then Ok Access_Allow else if lower s = ''deny'' then Ok Access_Deny else Err Rule_Config
     | None \<Rightarrow> Err Rule_Config)"

definition username_user :: "access \<Rightarrow> string \<Rightarrow> json option \<Rightarrow> bool option \<Rightarrow> (acl_user, acl_error) res" where
  "username_user acc name password superuser =
    (case acc of
       Access_Allow \<Rightarrow>
         (case password of
            Some (J_String p) \<Rightarrow> Ok (User_Username name (Some (text_bytes p)) (superuser = Some True))
          | None \<Rightarrow> Ok (User_Username name None (superuser = Some True))
          | _ \<Rightarrow> Err Rule_Config)
     | Access_Deny \<Rightarrow> Ok (User_Username name None False))"

definition users_try_from :: "json \<Rightarrow> access \<Rightarrow> (acl_user list, acl_error) res" where
  "users_try_from cfg acc =
    (case cfg of
       J_String s \<Rightarrow> if lower s = ''all'' then Ok [User_All] else Err Rule_Config
     | J_Object m \<Rightarrow>
         bind_res (case Option.bind (map_of m ''user'') as_str of
             Some name \<Rightarrow> map_res (\<lambda>u. [u]) (username_user acc name (map_of m ''password'') (Option.bind (map_of m ''superuser'') as_bool))
           | None \<Rightarrow> Ok []) (\<lambda>named.
         Ok (named @
           (case Option.bind (map_of m ''clientid'') as_str of Some c \<Rightarrow> [User_Clientid c] | None \<Rightarrow> []) @
           (case Option.bind (map_of m ''ipaddr'') as_str of Some ip \<Rightarrow> [User_Ipaddr ip] | None \<Rightarrow> []) @
           (case Option.bind (map_of m ''protocol'') as_u64 of Some v \<Rightarrow> [User_Protocol (ucast v)] | None \<Rightarrow> [])))
     | _ \<Rightarrow> Err Rule_Config)"

definition control_try_from :: "json option \<Rightarrow> (control, acl_error) res" where
  "control_try_from cfg =
    (case cfg of
       None \<Rightarrow> Ok Control_All
     | Some (J_String s) \<Rightarrow>
         (let c = lower s in
          if c = ''connect'' then Ok Control_Connect
          else if c = ''publish'' then Ok Control_Publish
          else if c = ''subscribe'' then Ok Control_Subscribe
          else if c = ''pubsub'' then Ok Control_Pubsub
          else if c = ''all'' then Ok Control_All
          else Err Rule_Config)
     | _ \<Rightarrow> Err Rule_Config)"

definition PH_C :: string where "PH_C = ''%c''"
definition PH_U :: string where "PH_U = ''%u''"

definition has_placeholder :: "string \<Rightarrow> bool" where
  "has_placeholder s \<longleftrightarrow> contains_text PH_U s \<or> contains_text PH_C s"

definition topics_empty :: acl_topics where
  "topics_empty = \<lparr>tp_all = False, tp_eqs = [], tp_eq_placeholders = [], tp_tree = node_default, tp_placeholders = []\<rparr>"

fun topics_items :: "json list \<Rightarrow> acl_topics \<Rightarrow> (acl_topics, acl_error) res" where
  "topics_items [] ts = Ok ts"
| "topics_items (J_String s # vs) ts =
    (if has_placeholder s then topics_items vs (ts\<lparr>tp_placeholders := tp_placeholders ts @ [s]\<rparr>)
     else case topic_from_str s of
       Ok t \<Rightarrow> topics_items vs (ts\<lparr>tp_tree := snd (trie_insert t None (tp_tree ts))\<rparr>)
     | Err e \<Rightarrow> Err (Bad_Filter e)
     | Panic \<Rightarrow> Panic)"
| "topics_items (J_Object m # vs) ts =
    (case map_of m ''eq'' of
       Some (J_String e) \<Rightarrow>
         if has_placeholder e then topics_items vs (ts\<lparr>tp_eq_placeholders := tp_eq_placeholders ts @ [e]\<rparr>)
         else topics_items vs (ts\<lparr>tp_eqs := List.insert e (tp_eqs ts)\<rparr>)
     | _ \<Rightarrow> Err Rule_Config)"
| "topics_items (_ # vs) ts = Err Rule_Config"

definition topics_try_from :: "json option \<Rightarrow> (acl_topics, acl_error) res" where
  "topics_try_from cfg =
    (case cfg of
       None \<Rightarrow> Ok (topics_empty\<lparr>tp_all := True\<rparr>)
     | Some (J_Array vs) \<Rightarrow> topics_items vs topics_empty
     | _ \<Rightarrow> Err Rule_Config)"

definition nth_item :: "'a list \<Rightarrow> nat \<Rightarrow> 'a option" where
  "nth_item xs n = (if n < length xs then Some (xs ! n) else None)"

definition access_rule_try_from :: "json \<Rightarrow> (access_rule, acl_error) res" where
  "access_rule_try_from cfg =
    (case as_array cfg of
       Some (access_cfg # user_cfg # rest) \<Rightarrow>
         bind_res (access_try_from access_cfg) (\<lambda>acc.
         bind_res (users_try_from user_cfg acc) (\<lambda>us.
         bind_res (control_try_from (nth_item rest 0)) (\<lambda>c.
         bind_res (topics_try_from (nth_item rest 1)) (\<lambda>ts.
         Ok \<lparr>ar_access = acc, ar_users = us, ar_control = c, ar_topics = ts\<rparr>))))
     | _ \<Rightarrow> Err Rule_Config)"

fun rules_items :: "json list \<Rightarrow> (access_rule list, acl_error) res" where
  "rules_items [] = Ok []"
| "rules_items (v # vs) = bind_res (access_rule_try_from v) (\<lambda>r. map_res ((#) r) (rules_items vs))"

definition parse_rules :: "json \<Rightarrow> (access_rule list, acl_error) res" where
  "parse_rules v = (case as_array v of Some vs \<Rightarrow> rules_items vs | None \<Rightarrow> Ok [])"

section \<open>The handler\<close>

text \<open>The session as the handler sees it, and the state of the plug-in: the rules and what sessions have added.\<close>

record acl_session =
  as_id :: ident
  as_password :: "bytes option"
  as_protocol :: "u8 option"

record acl_state =
  ac_disconnect :: bool
  ac_rules :: "access_rule list"
  ac_caches :: "(ident \<times> string list) list"

definition expand :: "ident \<Rightarrow> string \<Rightarrow> string" where
  "expand i s = replace_text PH_U (case id_username i of Some u \<Rightarrow> u | None \<Rightarrow> []) (replace_text PH_C (id_client_id i) s)"

definition build_placeholders :: "ident \<Rightarrow> access_rule \<Rightarrow> access_rule" where
  "build_placeholders i r =
    (let r = fold (\<lambda>ph r. snd (add_topic_filter (expand i ph) (id_client_id i) r)) (tp_placeholders (ar_topics r)) r
     in fold (\<lambda>ph r. add_topic_to_eqs (expand i ph) r) (tp_eq_placeholders (ar_topics r)) r)"

definition acl_connected :: "ident \<Rightarrow> acl_state \<Rightarrow> acl_state" where
  "acl_connected i st =
    (let tfs = concat (map (\<lambda>r. map (expand i) (tp_placeholders (ar_topics r))) (ac_rules st));
         old = (case map_of (ac_caches st) i of Some tfs \<Rightarrow> tfs | None \<Rightarrow> [])
     in st\<lparr>ac_rules := map (build_placeholders i) (ac_rules st),
           ac_caches := (if tfs = [] then ac_caches st else AList.update i (old @ tfs) (ac_caches st))\<rparr>)"

definition acl_disconnected :: "ident \<Rightarrow> acl_state \<Rightarrow> acl_state" where
  "acl_disconnected i st =
    (case map_of (ac_caches st) i of
       Some tfs \<Rightarrow> st\<lparr>ac_rules := map (\<lambda>r. fold (\<lambda>tf r. snd (remove_topic tf (id_client_id i) r)) tfs r) (ac_rules st)\<rparr>
     | None \<Rightarrow> st)"

fun authenticate_rules :: "(bytes \<Rightarrow> string) \<Rightarrow> connect_info \<Rightarrow> access_rule list \<Rightarrow> auth_result" where
  "authenticate_rules ip_text c [] = Auth_NotAuthorized"
| "authenticate_rules ip_text c (r # rs) =
    (if ar_control r \<notin> {Control_Connect, Control_All} then authenticate_rules ip_text c rs
     else
       (let allow = (ar_access r = Access_Allow);
            (hit, superuser) = rule_hit ip_text (ci_id c) (ci_password c) (Some (proto_ver c)) allow r
        in if hit then (if allow then Auth_Allow superuser None else Auth_NotAuthorized)
           else authenticate_rules ip_text c rs))"

definition rule_covers :: "(bytes \<Rightarrow> string) \<Rightarrow> control \<Rightarrow> acl_session \<Rightarrow> topic \<Rightarrow> string \<Rightarrow> access_rule \<Rightarrow> bool" where
  "rule_covers ip_text ctl s t name r \<longleftrightarrow>
    ar_control r \<in> {ctl, Control_Pubsub, Control_All} \<and>
    fst (rule_hit ip_text (as_id s) (as_password s) (as_protocol s) (ar_access r = Access_Allow) r) \<and>
    topics_is_match t name (id_client_id (as_id s)) (ar_topics r)"

fun check_rules :: "(bytes \<Rightarrow> string) \<Rightarrow> control \<Rightarrow> acl_session \<Rightarrow> topic \<Rightarrow> string \<Rightarrow> access_rule list \<Rightarrow> bool" where
  "check_rules ip_text ctl s t name [] = False"
| "check_rules ip_text ctl s t name (r # rs) =
    (if \<not> rule_covers ip_text ctl s t name r then check_rules ip_text ctl s t name rs else ar_access r = Access_Allow)"

definition levels_of :: "string \<Rightarrow> topic" where
  "levels_of s = (case topic_from_str s of Ok t \<Rightarrow> t | _ \<Rightarrow> [])"

definition acl_hook :: "(bytes \<Rightarrow> string) \<Rightarrow> (acl_session, acl_state) handler" where
  "acl_hook ip_text p acc st =
    (case p of
       Par_ClientConnected s \<Rightarrow> ((True, acc), acl_connected (as_id s) st)
     | Par_ClientDisconnected s _ \<Rightarrow> ((True, acc), acl_disconnected (as_id s) st)
     | Par_ClientAuthenticate c \<Rightarrow>
         (if acc \<in> {Some (HR_AuthResult Auth_BadUsernameOrPassword), Some (HR_AuthResult Auth_NotAuthorized)} then ((False, acc), st)
          else ((False, Some (HR_AuthResult (authenticate_rules ip_text c (ac_rules st)))), st))
     | Par_ClientSubscribeCheckAcl s sub \<Rightarrow>
         (if (case acc of Some (HR_SubscribeAclResult r) \<Rightarrow> return_failed r | _ \<Rightarrow> False) then ((False, acc), st)
          else
            ((False, Some (HR_SubscribeAclResult
               (if check_rules ip_text Control_Subscribe s (levels_of (sub_topic_filter sub)) (sub_topic_filter sub) (ac_rules st)
                then return_success (opts_qos (sub_opts sub)) None else return_failure SAR_UnspecifiedError))), st))
     | Par_MessagePublishCheckAcl s m \<Rightarrow>
         (if (case acc of Some (HR_PublishAclResult r) \<Rightarrow> acl_is_rejected r | _ \<Rightarrow> False) then ((False, acc), st)
          else
            (let name = bytes_text (pub_topic (mp_inner m)) in
             ((False, Some (HR_PublishAclResult
               (if check_rules ip_text Control_Publish s (levels_of name) name (ac_rules st)
                then acl_allow else acl_rejected (ac_disconnect st) None))), st)))
     | _ \<Rightarrow> ((True, acc), st))"

section \<open>Decisions\<close>

text \<open>A client's topic is covered: all topics are, it is one of the exact ones, or a filter that is everybody's or the client's own matches it.\<close>

definition topics_cover :: "topic \<Rightarrow> string \<Rightarrow> client_id \<Rightarrow> acl_topics \<Rightarrow> bool" where
  "topics_cover t name cid ts \<longleftrightarrow> tp_all ts \<or> name \<in> set (tp_eqs ts) \<or>
    (\<exists>f. mqtt_matches f t \<and> (None \<in> set (trie_values f (tp_tree ts)) \<or> Some cid \<in> set (trie_values f (tp_tree ts))))"

lemma topics_is_match_cover: "topic_name t \<Longrightarrow> topics_is_match t name cid ts = topics_cover t name cid ts"
proof -
  assume t: "topic_name t"
  have own: "(\<lambda>c. case c of Some c \<Rightarrow> c = cid | None \<Rightarrow> True) = (\<lambda>c. c = None \<or> c = Some cid)"
    by (rule ext) (auto split: option.split)
  have "list_ex (\<lambda>(_, cids). list_ex (\<lambda>c. c = None \<or> c = Some cid) cids) (trie_matches t (tp_tree ts)) \<longleftrightarrow>
      None \<in> trie.delivers (tp_tree ts) t \<or> Some cid \<in> trie.delivers (tp_tree ts) t"
    by (auto simp: list_ex_iff trie.delivers_def)
  then show ?thesis
    unfolding topics_is_match_def topics_cover_def own trie.delivers_entries [OF t] by auto
qed

lemma check_rules_find:
  "check_rules ip_text ctl s t name rs =
    (case List.find (rule_covers ip_text ctl s t name) rs of Some r \<Rightarrow> ar_access r = Access_Allow | None \<Rightarrow> False)"
  by (induction rs) auto

text \<open>
  The check of a message against the configured rules, for a topic without wildcards: unless a handler
  before has rejected the message, it is allowed exactly when the first rule that is about publishing, whose
  users include the client and whose topics cover the topic, allows it.
\<close>

theorem acl_publish_first_rule:
  assumes "levels_of (bytes_text (pub_topic (mp_inner m))) = t" and "topic_name t"
    and "\<And>r. acc = Some (HR_PublishAclResult r) \<Longrightarrow> acl_is_allow r"
  shows "fst (acl_hook ip_text (Par_MessagePublishCheckAcl s m) acc st) =
    (False, Some (HR_PublishAclResult
      (case List.find (\<lambda>r. ar_control r \<in> {Control_Publish, Control_Pubsub, Control_All} \<and>
           list_all (\<lambda>u. fst (user_hit ip_text (as_id s) (as_password s) (as_protocol s) (ar_access r = Access_Allow) u)) (ar_users r) \<and>
           topics_cover t (bytes_text (pub_topic (mp_inner m))) (id_client_id (as_id s)) (ar_topics r)) (ac_rules st) of
         Some r \<Rightarrow> if ar_access r = Access_Allow then acl_allow else acl_rejected (ac_disconnect st) None
       | None \<Rightarrow> acl_rejected (ac_disconnect st) None)))"
proof -
  have hit: "fst (users_hit hit us su) = list_all (\<lambda>u. fst (hit u)) us" for hit us su
    by (induction us arbitrary: su) (auto split: prod.split)
  have "rule_covers ip_text Control_Publish s t (bytes_text (pub_topic (mp_inner m))) =
    (\<lambda>r. ar_control r \<in> {Control_Publish, Control_Pubsub, Control_All} \<and>
       list_all (\<lambda>u. fst (user_hit ip_text (as_id s) (as_password s) (as_protocol s) (ar_access r = Access_Allow) u)) (ar_users r) \<and>
       topics_cover t (bytes_text (pub_topic (mp_inner m))) (id_client_id (as_id s)) (ar_topics r))"
    by (rule ext) (simp add: rule_covers_def rule_hit_def hit topics_is_match_cover [OF assms(2)])
  moreover have "\<not> (case acc of Some (HR_PublishAclResult r) \<Rightarrow> acl_is_rejected r | _ \<Rightarrow> False)"
    using assms(3) by (auto simp: acl_is_rejected_def split: option.splits hook_result.splits)
  ultimately show ?thesis
    by (simp add: acl_hook_def Let_def assms(1) check_rules_find split: option.split)
qed

section \<open>Clients do not see each other's topics\<close>

text \<open>Topics that differ in the filters of other clients only.\<close>

definition same_for :: "client_id \<Rightarrow> acl_topics \<Rightarrow> acl_topics \<Rightarrow> bool" where
  "same_for d ts ts' \<longleftrightarrow> ts' = ts\<lparr>tp_tree := tp_tree ts'\<rparr> \<and> trie_inv (tp_tree ts') \<and>
    (\<forall>f. \<forall>v \<in> {None, Some d}. v \<in> set (trie_values f (tp_tree ts')) \<longleftrightarrow> v \<in> set (trie_values f (tp_tree ts)))"

definition same_rule :: "client_id \<Rightarrow> access_rule \<Rightarrow> access_rule \<Rightarrow> bool" where
  "same_rule d r r' \<longleftrightarrow> r' = r\<lparr>ar_topics := ar_topics r'\<rparr> \<and> same_for d (ar_topics r) (ar_topics r')"

lemma same_rule_trans: "same_rule d r r' \<Longrightarrow> same_rule d r' r'' \<Longrightarrow> same_rule d r r''"
  unfolding same_rule_def same_for_def by (metis access_rule.update_convs(4) acl_topics.update_convs(4) access_rule.surjective acl_topics.surjective)

lemma same_rule_refl: "trie_inv (tp_tree (ar_topics r)) \<Longrightarrow> same_rule d r r"
  by (simp add: same_rule_def same_for_def)

lemma add_topic_filter_same:
  assumes "trie_inv (tp_tree (ar_topics r))" and "c \<noteq> d"
  shows "same_rule d r (snd (add_topic_filter tf c r))"
proof (cases "topic_from_str tf")
  case (Ok t)
  with assms show ?thesis
    by (auto simp: same_rule_def same_for_def add_topic_filter_def trie.invar_insert trie.entries_insert set_insert_def set_insort_key)
qed (use same_rule_refl [OF assms(1)] in \<open>simp_all add: add_topic_filter_def\<close>)


lemma trie_removes:
  assumes "trie_inv n"
  shows "trie_inv (fold (\<lambda>t n. snd (trie_remove t v n)) ts n)"
    "w \<noteq> v \<Longrightarrow> w \<in> set (trie_values f (fold (\<lambda>t n. snd (trie_remove t v n)) ts n)) \<longleftrightarrow> w \<in> set (trie_values f n)"
  using assms by (induction ts arbitrary: n) (simp_all add: trie.invar_remove trie.entries_remove set_remove_other)

lemma remove_topic_same:
  assumes "trie_inv (tp_tree (ar_topics r))" and "c \<noteq> d"
  shows "same_rule d r (snd (remove_topic tf c r))"
proof (cases "topic_from_str tf")
  case (Ok t)
  with assms show ?thesis
    by (auto simp: same_rule_def same_for_def remove_topic_def Let_def trie_removes)
qed (use same_rule_refl [OF assms(1)] in \<open>simp_all add: remove_topic_def\<close>)

lemma same_rule_inv: "same_rule d r r' \<Longrightarrow> trie_inv (tp_tree (ar_topics r'))"
  by (simp add: same_rule_def same_for_def)

lemma fold_same:
  assumes "\<And>x r. trie_inv (tp_tree (ar_topics r)) \<Longrightarrow> same_rule d r (f x r)" and "trie_inv (tp_tree (ar_topics r))"
  shows "same_rule d r (fold f xs r)"
  using assms(2)
proof (induction xs arbitrary: r)
  case (Cons x xs)
  have step: "same_rule d r (f x r)" using assms(1) Cons.prems by blast
  show ?case using same_rule_trans [OF step Cons.IH [OF same_rule_inv [OF step]]] by simp
qed (simp add: same_rule_refl)

datatype acl_op = A_Connect ident | A_Disconnect ident

fun acl_step :: "acl_op \<Rightarrow> acl_state \<Rightarrow> acl_state" where
  "acl_step (A_Connect i) st = acl_connected i st"
| "acl_step (A_Disconnect i) st = acl_disconnected i st"

fun op_client :: "acl_op \<Rightarrow> client_id" where
  "op_client (A_Connect i) = id_client_id i"
| "op_client (A_Disconnect i) = id_client_id i"

definition plain_rule :: "access_rule \<Rightarrow> bool" where
  "plain_rule r \<longleftrightarrow> trie_inv (tp_tree (ar_topics r)) \<and> tp_eq_placeholders (ar_topics r) = []"

lemma same_rule_plain: "same_rule d r r' \<Longrightarrow> plain_rule r \<Longrightarrow> plain_rule r'"
  unfolding same_rule_def same_for_def plain_rule_def by (metis acl_topics.select_convs(3) acl_topics.surjective acl_topics.update_convs(4))

lemma build_placeholders_same:
  assumes "plain_rule r" and "id_client_id i \<noteq> d"
  shows "same_rule d r (build_placeholders i r)"
proof -
  let ?r = "fold (\<lambda>ph r. snd (add_topic_filter (expand i ph) (id_client_id i) r)) (tp_placeholders (ar_topics r)) r"
  have same: "same_rule d r ?r"
    by (rule fold_same) (use assms in \<open>auto simp: plain_rule_def intro: add_topic_filter_same\<close>)
  with same_rule_plain [OF this assms(1)] show ?thesis by (simp add: build_placeholders_def plain_rule_def)
qed

lemma acl_step_same:
  assumes "list_all plain_rule (ac_rules st)" and "op_client x \<noteq> d"
  shows "list_all2 (same_rule d) (ac_rules st) (ac_rules (acl_step x st))"
proof (cases x)
  case (A_Connect i)
  with assms show ?thesis
    by (auto simp: acl_connected_def Let_def list_all2_map2 list_all_iff list_all2_same intro: build_placeholders_same)
next
  case (A_Disconnect i)
  have "same_rule d r (fold (\<lambda>tf r. snd (remove_topic tf (id_client_id i) r)) tfs r)" if "plain_rule r" for r tfs
    by (rule fold_same) (use that assms(2) A_Disconnect in \<open>auto simp: plain_rule_def intro: remove_topic_same\<close>)
  with A_Disconnect assms show ?thesis
    by (auto simp: acl_disconnected_def list_all2_map2 list_all_iff list_all2_same plain_rule_def intro: same_rule_refl split: option.split)
qed

lemma acl_steps_same:
  "list_all plain_rule (ac_rules st) \<Longrightarrow> \<forall>x \<in> set ops. op_client x \<noteq> d \<Longrightarrow> list_all2 (same_rule d) (ac_rules st) (ac_rules (fold acl_step ops st))"
proof (induction ops arbitrary: st)
  case Nil
  then show ?case by (auto simp: list_all2_same list_all_iff plain_rule_def intro: same_rule_refl)
next
  case (Cons x ops)
  have step: "list_all2 (same_rule d) (ac_rules st) (ac_rules (acl_step x st))" using acl_step_same Cons.prems by simp
  then have "list_all plain_rule (ac_rules (acl_step x st))"
    using Cons.prems(1) by (auto simp: list_all2_conv_all_nth list_all_length) (blast intro: same_rule_plain)
  from Cons.IH [OF this] Cons.prems(2) list_all2_trans [OF same_rule_trans step] show ?case by auto
qed

lemma same_rule_covers:
  assumes "topic_name t" and "id_client_id (as_id s) = d" and "same_rule d r r'"
  shows "rule_covers ip_text ctl s t name r' = rule_covers ip_text ctl s t name r"
proof -
  have eq: "ar_control r' = ar_control r" "ar_users r' = ar_users r" "ar_access r' = ar_access r"
    "tp_all (ar_topics r') = tp_all (ar_topics r)" "tp_eqs (ar_topics r') = tp_eqs (ar_topics r)"
    using assms(3) unfolding same_rule_def same_for_def
    by (metis access_rule.ext_inject access_rule.surjective access_rule.update_convs(4),
        metis access_rule.ext_inject access_rule.surjective access_rule.update_convs(4),
        metis access_rule.ext_inject access_rule.surjective access_rule.update_convs(4),
        metis acl_topics.ext_inject acl_topics.surjective acl_topics.update_convs(4),
        metis acl_topics.ext_inject acl_topics.surjective acl_topics.update_convs(4))
  moreover have "topics_cover t name d (ar_topics r') = topics_cover t name d (ar_topics r)"
    using assms(3) eq by (auto simp: topics_cover_def same_rule_def same_for_def)
  ultimately show ?thesis using assms(1, 2) by (simp add: rule_covers_def rule_hit_def topics_is_match_cover)
qed

lemma topics_items_inv: "topics_items vs ts = Ok ts' \<Longrightarrow> trie_inv (tp_tree ts) \<Longrightarrow> trie_inv (tp_tree ts')"
  by (induction vs ts rule: topics_items.induct) (auto simp: trie.invar_insert split: if_splits res.splits option.splits json.splits)

lemma rules_items_inv: "rules_items vs = Ok rs \<Longrightarrow> \<forall>r \<in> set rs. trie_inv (tp_tree (ar_topics r))"
proof (induction vs arbitrary: rs)
  case (Cons v vs)
  then show ?case
    by (auto simp: access_rule_try_from_def topics_try_from_def topics_empty_def trie.invar_empty
        split: option.splits list.splits json.splits dest!: topics_items_inv)
qed simp


text \<open>Rules for the witnesses: every client may publish to its own topic, nobody anything else.\<close>

definition own_topic_cfg :: "json \<Rightarrow> json" where
  "own_topic_cfg t = J_Array [J_Array [J_String ''allow'', J_String ''all'', J_String ''pubsub'', J_Array [t]], J_Array [J_String ''deny'', J_String ''all'']]"

definition own_topic_state :: "json \<Rightarrow> acl_state" where
  "own_topic_state t = \<lparr>ac_disconnect = True, ac_rules = (case parse_rules (own_topic_cfg t) of Ok rs \<Rightarrow> rs | _ \<Rightarrow> []), ac_caches = []\<rparr>"

definition acl_session_of :: "client_id \<Rightarrow> i64 \<Rightarrow> acl_session" where
  "acl_session_of cid at = \<lparr>as_id = ident_from 1 cid at, as_password = None, as_protocol = Some 4\<rparr>"

lemma own_topic_parsed:
  "parse_rules (own_topic_cfg (J_String ''own/%c'')) = Ok
    [\<lparr>ar_access = Access_Allow, ar_users = [User_All], ar_control = Control_Pubsub, ar_topics = topics_empty\<lparr>tp_placeholders := [''own/%c'']\<rparr>\<rparr>,
     \<lparr>ar_access = Access_Deny, ar_users = [User_All], ar_control = Control_All, ar_topics = topics_empty\<lparr>tp_all := True\<rparr>\<rparr>]"
  by code_simp


definition acl_packet :: "string \<Rightarrow> mpublish" where
  "acl_packet t = \<lparr>mp_inner = acl_message t, mp_target_clientid = None, mp_delay_interval = None, mp_create_time = None\<rparr>"

theorem acl_publish_first_rule_witness:
  "fst (acl_hook (\<lambda>_. []) (Par_MessagePublishCheckAcl (acl_session_of ''d'' 0) (acl_packet ''a'')) None (own_topic_state (J_String ''own/%c''))) =
    (False, Some (HR_PublishAclResult (acl_rejected True None)))"
proof -
  have t: "levels_of (bytes_text (pub_topic (mp_inner (acl_packet ''a'')))) = [Normal ''a'']" "topic_name [Normal ''a'']" by code_simp+
  have none: "\<not> topics_cover [Normal ''a''] ''a'' ''d'' (topics_empty\<lparr>tp_placeholders := [''own/%c'']\<rparr>)"
    by (auto simp: topics_cover_def topics_empty_def trie.entries_empty)
  have all: "topics_cover [Normal ''a''] ''a'' ''d'' (topics_empty\<lparr>tp_all := True\<rparr>)" by (simp add: topics_cover_def)
  have name: "bytes_text (pub_topic (mp_inner (acl_packet ''a''))) = ''a''" by (simp add: acl_packet_def acl_message_def)
  have sess: "id_client_id (as_id (acl_session_of ''d'' 0)) = ''d''" by (simp add: acl_session_of_def ident_from_def ident_new_def)
  show ?thesis
    using none all
    by (subst acl_publish_first_rule [OF t]) (simp_all add: name sess own_topic_state_def own_topic_parsed user_hit_def)
qed

section \<open>Limits of the code\<close>

text \<open>
  An exact topic with a placeholder goes into the set that all clients share: once some client has connected,
  every client passes the rule with that client's topic.
\<close>

lemma eq_placeholder_shared:
  "let st = own_topic_state (J_Object [(''eq'', J_String ''own/%c'')]); name = ''own/c'' in
   \<not> check_rules (\<lambda>_. []) Control_Publish (acl_session_of ''d'' 0) (levels_of name) name (ac_rules st) \<and>
   check_rules (\<lambda>_. []) Control_Publish (acl_session_of ''d'' 0) (levels_of name) name (ac_rules (acl_connected (ident_from 1 ''c'' 0) st))"
  by code_simp

text \<open>
  Filters are removed by client identifier: when a new connection of a client takes over before the hook of
  the old one has run, the old one takes the filters of the new one with it.
\<close>

lemma takeover_loses_filters:
  "let st = own_topic_state (J_String ''own/%c''); old = ident_from 1 ''c'' 0; new = ident_from 1 ''c'' 1; name = ''own/c'' in
   check_rules (\<lambda>_. []) Control_Publish (acl_session_of ''c'' 1) (levels_of name) name (ac_rules (acl_connected new (acl_connected old st))) \<and>
   \<not> check_rules (\<lambda>_. []) Control_Publish (acl_session_of ''c'' 1) (levels_of name) name
       (ac_rules (acl_disconnected old (acl_connected new (acl_connected old st))))"
  by code_simp

text \<open>An object without a known key, such as a misspelt one, stands for every client.\<close>

lemma unknown_key_hits_all:
  "users_try_from (J_Object [(''username'', J_String ''x'')]) acc = Ok [] \<and> users_hit hit [] False = (True, False)"
  by (simp add: users_try_from_def)

text \<open>The rights of a superuser are those of the last condition of the rule.\<close>

lemma superuser_lost:
  "users_hit (user_hit ip_text i None v True) [User_Username u None True, User_Clientid (id_client_id i)] False =
    (id_username i = Some u, False)"
  by (auto simp: user_hit_def split: option.split)

end
