(* ===== verification/Router.thy ===== *)
theory Router
  imports Broker_Types Trie Counter Maps
begin

text \<open>
  The router (\<^verbatim>\<open>router.rs\<close>) and the default selection of shared subscriptions (\<^verbatim>\<open>subscribe.rs\<close>): the topic
  tree of subscribed filters, the relations from a filter to its subscribers, the counters, and the
  matching of a published topic to the sessions that receive it.  Hash maps are association lists with
  distinct keys, whose order stands for the order of iteration.  Whether a client is online is known to the
  session registry and is an argument, as is the strategy that chooses a member of a shared group.
\<close>

section \<open>Shared subscriptions\<close>

type_synonym candidate = "node_id \<times> client_id \<times> subscription_options_mqtt \<times> u32 list option \<times> bool option"

text \<open>The member a strategy chooses, by its index, and whether it is online.\<close>

type_synonym 'c choice = "string \<Rightarrow> ident \<Rightarrow> string \<Rightarrow> candidate list \<Rightarrow> 'c \<Rightarrow> (nat \<times> bool) option \<times> 'c"

abbreviation online_of :: "candidate \<Rightarrow> bool option" where
  "online_of c \<equiv> snd (snd (snd (snd c)))"

text \<open>The loop over the candidates from \<^verbatim>\<open>start\<close> on, with \<^verbatim>\<open>i\<close> probes left.\<close>

fun choose_online :: "candidate list \<Rightarrow> nat \<Rightarrow> nat \<Rightarrow> nat \<Rightarrow> nat option" where
  "choose_online ncs start 0 i = None"
| "choose_online ncs start (Suc n) i =
    (let idx = (start + i) mod length ncs in
     if online_of (ncs ! idx) = Some True then Some idx else choose_online ncs start n (Suc i))"

definition shared_choice :: "u64 choice" where
  "shared_choice g publisher topic ncs seq =
    (let len = length ncs in
     if len = 0 then (None, seq)
     else
       (let start = unat (seq mod of_nat len) in
        (case choose_online ncs start len 0 of
           Some idx \<Rightarrow> Some (idx, True)
         | None \<Rightarrow> Some (start, (case online_of (ncs ! start) of Some b \<Rightarrow> b | None \<Rightarrow> False)),
         seq + 1)))"

section \<open>Collecting subscribers\<close>

type_synonym shared_group_type = "string \<times> bool \<times> client_id list"

type_synonym sub_relation = "string \<times> client_id \<times> subscription_options_mqtt \<times> u32 list option \<times> shared_group_type option"

record collector =
  v3_rels :: "sub_relation list"
  v5_rels :: "(client_id \<times> string \<times> subscription_options_mqtt \<times> u32 list option \<times> shared_group_type option) list"

definition collector_default :: collector where
  "collector_default = \<lparr>v3_rels = [], v5_rels = []\<rparr>"

definition push_sub_id :: "u32 option \<Rightarrow> u32 list option \<Rightarrow> u32 list option" where
  "push_sub_id sub_id sub_ids =
    (case sub_id of
       Some sub_id \<Rightarrow> (case sub_ids of Some ids \<Rightarrow> Some (ids @ [sub_id]) | None \<Rightarrow> Some [sub_id])
     | None \<Rightarrow> sub_ids)"

definition collector_add :: "string \<Rightarrow> client_id \<Rightarrow> subscription_options_mqtt \<Rightarrow> shared_group_type option \<Rightarrow> collector \<Rightarrow> collector" where
  "collector_add topic_filter client_id opts grp c =
    (if opts_is_v3 opts then c\<lparr>v3_rels := v3_rels c @ [(topic_filter, client_id, opts, None, grp)]\<rparr>
     else c\<lparr>v5_rels :=
       (case map_of (v5_rels c) client_id of
          Some (tf, o', sub_ids, g) \<Rightarrow>
            AList.update client_id (tf, o', push_sub_id (subscription_identifier opts) sub_ids, g) (v5_rels c)
        | None \<Rightarrow>
            AList.update client_id (topic_filter, opts, map_option (\<lambda>i. [i]) (subscription_identifier opts), grp) (v5_rels c))\<rparr>)"

definition collector_into :: "collector \<Rightarrow> sub_relation list" where
  "collector_into c = v3_rels c @ map (\<lambda>(client_id, tf, opts, sub_ids, grp). (tf, client_id, opts, sub_ids, grp)) (v5_rels c)"

section \<open>The router\<close>

type_synonym relations = "(client_id \<times> ident \<times> subscription_options_mqtt) list"

record router =
  topics :: "unit node"
  topics_count :: counter
  relations :: "(string \<times> relations) list"
  relations_count :: counter

definition router_new :: router where
  "router_new = \<lparr>topics = node_default, topics_count = counter_new, relations = [], relations_count = counter_new\<rparr>"

definition has_matches :: "string \<Rightarrow> router \<Rightarrow> (bool, topic_error) res" where
  "has_matches topic r = map_res (\<lambda>t. trie_is_match t (topics r)) (topic_from_str topic)"

definition router_add :: "string \<Rightarrow> ident \<Rightarrow> subscription_options_mqtt \<Rightarrow> router \<Rightarrow> (unit, topic_error) res \<times> router" where
  "router_add topic_filter i opts r =
    (case topic_from_str topic_filter of
       Ok topic \<Rightarrow>
         (let r = r\<lparr>topics := snd (trie_insert topic () (topics r))\<rparr>;
              (rels, r) = (case map_of (relations r) topic_filter of
                  Some rels \<Rightarrow> (rels, r)
                | None \<Rightarrow> ([], r\<lparr>topics_count := inc (topics_count r)\<rparr>));
              old = map_of rels (id_client_id i);
              r = r\<lparr>relations := AList.update topic_filter (AList.update (id_client_id i) (i, opts) rels) (relations r)\<rparr>
          in (Ok (), if old = None then r\<lparr>relations_count := inc (relations_count r)\<rparr> else r))
     | Err e \<Rightarrow> (Err e, r)
     | Panic \<Rightarrow> (Panic, r))"

text \<open>
  \<^verbatim>\<open>remove\<close> in its two critical sections: under the lock of the entry of the filter, and after it has been
  released.
\<close>

definition remove_relation :: "string \<Rightarrow> ident \<Rightarrow> router \<Rightarrow> (bool \<times> bool) option \<times> router" where
  "remove_relation topic_filter i r =
    (case map_of (relations r) topic_filter of
       Some rels \<Rightarrow>
         (let remove_enable = (case map_of rels (id_client_id i) of Some (s_id, _) \<Rightarrow> s_id = i | None \<Rightarrow> False) in
          if remove_enable then
            (let remove_ok = (map_of rels (id_client_id i) \<noteq> None);
                 rels = AList.delete (id_client_id i) rels;
                 r = r\<lparr>relations := AList.update topic_filter rels (relations r)\<rparr>;
                 r = (if remove_ok then r\<lparr>relations_count := dec (relations_count r)\<rparr> else r)
             in (Some (rels = [], remove_ok), r))
          else (None, r))
     | None \<Rightarrow> (None, r))"

definition remove_filter :: "string \<Rightarrow> router \<Rightarrow> (unit, topic_error) res \<times> router" where
  "remove_filter topic_filter r =
    (let r = (if map_of (relations r) topic_filter \<noteq> None
              then r\<lparr>relations := AList.delete topic_filter (relations r), topics_count := dec (topics_count r)\<rparr> else r)
     in case topic_from_str topic_filter of
          Ok topic \<Rightarrow> (Ok (), r\<lparr>topics := snd (trie_remove topic () (topics r))\<rparr>)
        | Err e \<Rightarrow> (Err e, r)
        | Panic \<Rightarrow> (Panic, r))"

definition router_remove :: "string \<Rightarrow> ident \<Rightarrow> router \<Rightarrow> (bool, topic_error) res \<times> router" where
  "router_remove topic_filter i r =
    (case remove_relation topic_filter i r of
       (Some (is_empty, remove_ok), r) \<Rightarrow>
         if is_empty then (let (res, r) = remove_filter topic_filter r in (map_res (\<lambda>_. remove_ok) res, r))
         else (Ok remove_ok, r)
     | (None, r) \<Rightarrow> (Ok False, r))"

section \<open>Matching a published topic\<close>

type_synonym collector_map = "(node_id \<times> collector) list"
type_synonym groups = "(string \<times> candidate list) list"

definition add_at :: "node_id \<Rightarrow> string \<Rightarrow> client_id \<Rightarrow> subscription_options_mqtt \<Rightarrow> shared_group_type option \<Rightarrow> collector_map \<Rightarrow> collector_map" where
  "add_at node tf cid opts grp cm =
    AList.update node (collector_add tf cid opts grp (case map_of cm node of Some c \<Rightarrow> c | None \<Rightarrow> collector_default)) cm"

definition suppressed :: "ident \<Rightarrow> ident \<Rightarrow> subscription_options_mqtt \<Rightarrow> bool" where
  "suppressed this_id i opts \<longleftrightarrow> (case no_local opts of Some b \<Rightarrow> b \<and> this_id = i | None \<Rightarrow> False)"

text \<open>\<^verbatim>\<open>groups.entry(group).or_default()\<close>.\<close>

definition group_at :: "groups \<Rightarrow> string \<Rightarrow> candidate list" where
  "group_at gs g = (case map_of gs g of Some l \<Rightarrow> l | None \<Rightarrow> [])"

fun visit_relations :: "(node_id \<Rightarrow> client_id \<Rightarrow> bool) \<Rightarrow> ident \<Rightarrow> string \<Rightarrow> relations \<Rightarrow> groups \<times> collector_map \<Rightarrow> groups \<times> collector_map" where
  "visit_relations online this_id tf [] gc = gc"
| "visit_relations online this_id tf ((client_id, i, opts) # rels) (gs, cm) =
    (if suppressed this_id i opts then visit_relations online this_id tf rels (gs, cm)
     else case shared_group opts of
       Some g \<Rightarrow>
         (let cand = (id_node_id i, client_id, opts, None, Some (online (id_node_id i) client_id));
              gs = AList.update g (group_at gs g @ [cand]) gs
          in visit_relations online this_id tf rels (gs, cm))
     | None \<Rightarrow> visit_relations online this_id tf rels (gs, add_at (id_node_id i) tf client_id opts None cm))"

text \<open>\<^verbatim>\<open>s_subs.remove(idx)\<close> panics on an index out of range.\<close>

fun visit_groups :: "'c choice \<Rightarrow> ident \<Rightarrow> string \<Rightarrow> string \<Rightarrow> groups \<Rightarrow> collector_map \<times> 'c \<Rightarrow> (collector_map \<times> 'c, topic_error) res" where
  "visit_groups choice this_id topic tf [] cc = Ok cc"
| "visit_groups choice this_id topic tf ((g, subs) # gs) (cm, c) =
    (let group_cids = map (\<lambda>(_, cid, _). cid) subs in
     case choice g this_id topic subs c of
       (Some (idx, is_online), c) \<Rightarrow>
         if idx < length subs then
           (case subs ! idx of (node, cid, opts, _) \<Rightarrow>
              visit_groups choice this_id topic tf gs (add_at node tf cid opts (Some (g, is_online, group_cids)) cm, c))
         else Panic
     | (None, c) \<Rightarrow> visit_groups choice this_id topic tf gs (cm, c))"

fun visit_filters :: "(node_id \<Rightarrow> client_id \<Rightarrow> bool) \<Rightarrow> 'c choice \<Rightarrow> ident \<Rightarrow> string \<Rightarrow> (string \<times> relations) list \<Rightarrow>
    (topic \<times> unit list) list \<Rightarrow> collector_map \<times> 'c \<Rightarrow> (collector_map \<times> 'c, topic_error) res" where
  "visit_filters online choice this_id topic rels [] cc = Ok cc"
| "visit_filters online choice this_id topic rels ((f, _) # fs) (cm, c) =
    (let tf = topic_to_string f;
         (gs, cm) = (case map_of rels tf of
             Some rs \<Rightarrow> visit_relations online this_id tf rs ([], cm)
           | None \<Rightarrow> ([], cm))
     in bind_res (visit_groups choice this_id topic tf gs (cm, c)) (visit_filters online choice this_id topic rels fs))"

definition router_matches :: "(node_id \<Rightarrow> client_id \<Rightarrow> bool) \<Rightarrow> 'c choice \<Rightarrow> ident \<Rightarrow> string \<Rightarrow> router \<Rightarrow> 'c \<Rightarrow>
    ((node_id \<times> sub_relation list) list \<times> 'c, topic_error) res" where
  "router_matches online choice this_id name r c =
    bind_res (topic_from_str name) (\<lambda>topic.
    bind_res (visit_filters online choice this_id name (relations r) (trie_matches topic (topics r)) ([], c)) (\<lambda>(cm, c).
    Ok (map (\<lambda>(node, col). (node, collector_into col)) cm, c)))"

section \<open>Queries\<close>

record route =
  route_node_id :: node_id
  route_topic :: string

text \<open>\<^verbatim>\<open>unique\<close> keeps the first of equal items; a closure that counts what it lets through keeps its count from one list to the next.\<close>

definition unique :: "'a list \<Rightarrow> 'a list" where
  "unique xs = rev (remdups (rev xs))"

fun pass_limit :: "nat \<Rightarrow> nat \<Rightarrow> 'a list \<Rightarrow> 'a list \<times> nat" where
  "pass_limit limit cur [] = ([], cur)"
| "pass_limit limit cur (x # xs) =
    (if cur < limit then (let (ys, cur) = pass_limit limit (Suc cur) xs in (x # ys, cur)) else pass_limit limit cur xs)"

fun flat_limit :: "nat \<Rightarrow> nat \<Rightarrow> 'a list list \<Rightarrow> 'a list" where
  "flat_limit limit cur [] = []"
| "flat_limit limit cur (xs # xss) = (let (ys, cur) = pass_limit limit cur xs in ys @ flat_limit limit cur xss)"

definition router_gets :: "nat \<Rightarrow> router \<Rightarrow> route list" where
  "router_gets limit r =
    flat_limit limit 0 (map (\<lambda>(tf, rels). map (\<lambda>(node, tf). \<lparr>route_node_id = node, route_topic = tf\<rparr>)
      (unique (map (\<lambda>(_, i, _). (id_node_id i, tf)) rels))) (relations r))"

definition router_get :: "string \<Rightarrow> router \<Rightarrow> (route list, topic_error) res" where
  "router_get topic r =
    map_res (\<lambda>t. concat (map (\<lambda>(f, _).
      let tf = topic_to_string f in
      case map_of (relations r) tf of
        Some rels \<Rightarrow> map (\<lambda>node. \<lparr>route_node_id = node, route_topic = tf\<rparr>) (unique (map (\<lambda>(_, i, _). id_node_id i) rels))
      | None \<Rightarrow> []) (unique (trie_matches t (topics r))))) (topic_from_str topic)"

record subs_search_params =
  q_limit :: nat
  q_clientid :: "string option"
  q_topic :: "string option"
  q_qos :: "u8 option"
  q_share :: "string option"
  q_match_topic :: "string option"

record subs_search_result =
  sr_node_id :: node_id
  sr_clientid :: client_id
  sr_client_addr :: "socket_addr option"
  sr_topic :: string
  sr_opts :: subscription_options_mqtt

definition query_filter :: "subs_search_params \<Rightarrow> client_id \<Rightarrow> subscription_options_mqtt \<Rightarrow> bool" where
  "query_filter q client_id opts \<longleftrightarrow>
    (case q_clientid q of Some c \<Rightarrow> c = client_id | None \<Rightarrow> True) \<and>
    (case q_qos q of Some v \<Rightarrow> v = opts_qos_value opts | None \<Rightarrow> True) \<and>
    (case (q_share q, shared_group opts) of
       (Some q_group, Some g) \<Rightarrow> q_group = g
     | (Some _, None) \<Rightarrow> False
     | _ \<Rightarrow> True)"

definition query_results :: "subs_search_params \<Rightarrow> string \<Rightarrow> relations \<Rightarrow> subs_search_result list" where
  "query_results q tf rels =
    map (\<lambda>(client_id, i, opts). \<lparr>sr_node_id = id_node_id i, sr_clientid = client_id, sr_client_addr = id_remote_addr i,
        sr_topic = tf, sr_opts = opts\<rparr>)
      (filter (\<lambda>(client_id, _, opts). query_filter q client_id opts) rels)"

definition query_for_topic :: "subs_search_params \<Rightarrow> string \<Rightarrow> router \<Rightarrow> subs_search_result list" where
  "query_for_topic q topic r =
    (case map_of (relations r) topic of
       Some rels \<Rightarrow> fst (pass_limit (q_limit q) 0 (query_results q topic rels))
     | None \<Rightarrow> [])"

definition query_for_matches :: "subs_search_params \<Rightarrow> string \<Rightarrow> router \<Rightarrow> subs_search_result list" where
  "query_for_matches q match_topic r =
    (case topic_from_str match_topic of
       Ok t \<Rightarrow> flat_limit (q_limit q) 0 (map (\<lambda>(f, _).
           let tf = topic_to_string f in
           case map_of (relations r) tf of Some rels \<Rightarrow> query_results q tf rels | None \<Rightarrow> []) (unique (trie_matches t (topics r))))
     | _ \<Rightarrow> [])"

definition query_for_other :: "subs_search_params \<Rightarrow> router \<Rightarrow> subs_search_result list" where
  "query_for_other q r = flat_limit (q_limit q) 0 (map (\<lambda>(tf, rels). query_results q tf rels) (relations r))"

definition query_subscriptions :: "subs_search_params \<Rightarrow> router \<Rightarrow> subs_search_result list" where
  "query_subscriptions q r =
    (case q_topic q of
       Some topic \<Rightarrow> query_for_topic q topic r
     | None \<Rightarrow>
         (case q_match_topic q of
            Some match_topic \<Rightarrow> query_for_matches q match_topic r
          | None \<Rightarrow> query_for_other q r))"

definition topics_tree :: "router \<Rightarrow> nat" where
  "topics_tree r = values_size (topics r)"

definition merge_topics :: "counter list \<Rightarrow> counter" where
  "merge_topics cs =
    (case cs of
       [] \<Rightarrow> counter_new
     | c # cs \<Rightarrow> fold (\<lambda>c topics. max_max (maximum c) (count_min (current c) topics)) cs (counter_set counter_new c))"

definition merge_routes :: "counter list \<Rightarrow> counter" where
  "merge_routes cs =
    (case cs of
       [] \<Rightarrow> counter_new
     | c # cs \<Rightarrow> fold (\<lambda>c routes. max_max (maximum c) (count_min (current c) routes)) cs (counter_set counter_new c))"

lemma pass_limit_take: "pass_limit limit cur xs = (take (limit - cur) xs, min (max limit cur) (cur + length xs))"
proof (induction xs arbitrary: cur)
  case (Cons x xs)
  then show ?case by (cases "cur < limit") (auto simp: take_Cons' min_def max_def)
qed simp

lemma flat_limit_take: "flat_limit limit cur xss = take (limit - cur) (concat xss)"
  by (induction xss arbitrary: cur) (auto simp: pass_limit_take min_def max_def)

section \<open>The invariant\<close>

abbreviation rels_count :: "(string \<times> relations) list \<Rightarrow> nat" where
  "rels_count rs \<equiv> sum_list (map (\<lambda>(_, rels). length rels) rs)"

text \<open>The subscription of a client to a filter.\<close>

definition subscription :: "router \<Rightarrow> string \<Rightarrow> client_id \<rightharpoonup> ident \<times> subscription_options_mqtt" where
  "subscription r tf = (case map_of (relations r) tf of Some rels \<Rightarrow> map_of rels | None \<Rightarrow> Map.empty)"

text \<open>
  The tree holds exactly the filters with subscribers, every filter is valid and has a subscriber, a
  client is registered under its own identifier, and the counters are the numbers of filters and of
  relations.
\<close>

definition router_shape :: "router \<Rightarrow> bool" where
  "router_shape r \<longleftrightarrow> trie_inv (topics r) \<and> distinct (map fst (relations r)) \<and>
    (\<forall>tf rels. map_of (relations r) tf = Some rels \<longrightarrow> rels \<noteq> [] \<and> distinct (map fst rels) \<and> (\<exists>t. topic_from_str tf = Ok t)) \<and>
    (\<forall>f. trie_values f (topics r) = (if canonical f \<and> map_of (relations r) (topic_to_string f) \<noteq> None then [()] else []))"

definition router_counts :: "router \<Rightarrow> bool" where
  "router_counts r \<longleftrightarrow> current (topics_count r) = int (length (relations r)) \<and>
    current (relations_count r) = int (rels_count (relations r))"

lemma set_insert_unit: "snd (set_insert () vs) = (if vs = [] then [()] else vs)"
  by (cases vs) (auto simp: set_insert_def)

lemma set_remove_unit: "distinct vs \<Longrightarrow> snd (set_remove () vs) = []"
  by (cases vs rule: remdups_adj.cases) (auto simp: set_remove_def)

abbreviation rels_at :: "router \<Rightarrow> string \<Rightarrow> relations" where
  "rels_at r tf \<equiv> (case map_of (relations r) tf of Some rels \<Rightarrow> rels | None \<Rightarrow> [])"

lemma subscription_eq: "subscription r tf = map_of (rels_at r tf)"
  by (auto simp: subscription_def split: option.split)

lemma router_add_fields:
  assumes "topic_from_str tf = Ok t" and "router_add tf i opts r = (res, r')"
  shows "res = Ok ()" "topics r' = snd (trie_insert t () (topics r))"
    and "relations r' = AList.update tf (AList.update (id_client_id i) (i, opts) (rels_at r tf)) (relations r)"
    and "topics_count r' = (if map_of (relations r) tf = None then inc (topics_count r) else topics_count r)"
    and "relations_count r' = (if subscription r tf (id_client_id i) = None then inc (relations_count r) else relations_count r)"
  using assms by (auto simp: router_add_def subscription_def Let_def split: option.splits if_splits)

lemma topic_string_inject: "canonical f \<Longrightarrow> canonical g \<Longrightarrow> topic_to_string f = topic_to_string g \<longleftrightarrow> f = g"
  using topic_from_str_iff by (metis res.inject(1))

lemma router_shapeD:
  assumes "router_shape r"
  shows "trie_inv (topics r)" "distinct (map fst (relations r))"
    and "map_of (relations r) tf = Some rels \<Longrightarrow> rels \<noteq> [] \<and> distinct (map fst rels) \<and> (\<exists>t. topic_from_str tf = Ok t)"
    and "trie_values f (topics r) = (if canonical f \<and> map_of (relations r) (topic_to_string f) \<noteq> None then [()] else [])"
  using assms unfolding router_shape_def by blast+

lemma router_add_shape:
  assumes "router_shape r" and "topic_from_str tf = Ok t" and "router_add tf i opts r = (res, r')"
  shows "router_shape r'"
proof -
  note f = router_add_fields [OF assms(2, 3)]
  have t: "canonical t" "tf = topic_to_string t" using assms(2) by (simp_all add: topic_from_str_iff)
  have "trie_values f (topics r') = (if canonical f \<and> map_of (relations r') (topic_to_string f) \<noteq> None then [()] else [])" for f
    using router_shapeD(4) [OF assms(1)] t topic_string_inject [of f t]
    by (auto simp: f trie.entries_insert set_insert_unit update_conv')
  moreover have "rels \<noteq> [] \<and> distinct (map fst rels) \<and> (\<exists>t. topic_from_str u = Ok t)" if "map_of (relations r') u = Some rels" for u rels
  proof (cases "u = tf")
    case True
    have "distinct (map fst (rels_at r tf))" using router_shapeD(3) [OF assms(1)] by (auto split: option.split)
    moreover have "AList.update (id_client_id i) (i, opts) xs \<noteq> []" for xs by (cases xs) auto
    ultimately show ?thesis using that True assms(2) by (auto simp: f update_conv' distinct_update)
  qed (use that router_shapeD(3) [OF assms(1)] in \<open>simp add: f update_conv'\<close>)
  ultimately show ?thesis
    unfolding router_shape_def using router_shapeD(1, 2) [OF assms(1)] by (simp add: f trie.invar_insert distinct_update)
qed

lemma router_add_subscription:
  assumes "topic_from_str tf = Ok t" and "router_add tf i opts r = (res, r')"
  shows "subscription r' = (subscription r)(tf := (subscription r tf)(id_client_id i \<mapsto> (i, opts)))"
  using router_add_fields(3) [OF assms]
  by (auto simp: fun_eq_iff subscription_def update_conv' split: option.splits)

lemma router_add_counts:
  assumes "router_shape r" and "router_counts r" and "rels_count (relations r) < 2 ^ 63 - 1" and "length (relations r) < 2 ^ 63 - 1"
    and "topic_from_str tf = Ok t" and "router_add tf i opts r = (res, r')"
  shows "router_counts r' \<and> rels_count (relations r') \<le> Suc (rels_count (relations r)) \<and> length (relations r') \<le> Suc (length (relations r))"
proof -
  note f = router_add_fields [OF assms(5, 6)]
  have incs: "current (inc (topics_count r)) = current (topics_count r) + 1" "current (inc (relations_count r)) = current (relations_count r) + 1"
    using assms(2-4) by (auto simp: router_counts_def counter_defs is_isize_def)
  have "distinct (map fst (relations r))" using assms(1) by (simp add: router_shape_def)
  from sum_update [OF this, of length tf "AList.update (id_client_id i) (i, opts) (rels_at r tf)"]
  have "rels_count (relations r') + length (rels_at r tf) =
      rels_count (relations r) + length (AList.update (id_client_id i) (i, opts) (rels_at r tf))"
    by (auto simp: f split: option.splits)
  then have "rels_count (relations r') = rels_count (relations r) + (if subscription r tf (id_client_id i) = None then 1 else 0)"
    by (auto simp: length_update subscription_eq split: if_splits)
  moreover have "length (relations r') = length (relations r) + (if map_of (relations r) tf = None then 1 else 0)"
    by (simp add: f length_update)
  ultimately show ?thesis using assms(2) incs by (simp add: router_counts_def f)
qed

section \<open>Removing\<close>

lemma router_remove_none:
  assumes "\<nexists>opts. subscription r tf (id_client_id i) = Some (i, opts)"
  shows "router_remove tf i r = (Ok False, r)"
  using assms by (auto simp: router_remove_def remove_relation_def subscription_def Let_def split: option.splits)

lemma router_remove_fields:
  assumes "router_shape r" and "subscription r tf (id_client_id i) = Some (i, opts)" and "router_remove tf i r = (res, r')"
  shows "res = Ok True" "relations_count r' = dec (relations_count r)"
    and "AList.delete (id_client_id i) (rels_at r tf) \<noteq> [] \<Longrightarrow> topics r' = topics r \<and> topics_count r' = topics_count r \<and>
      relations r' = AList.update tf (AList.delete (id_client_id i) (rels_at r tf)) (relations r)"
    and "AList.delete (id_client_id i) (rels_at r tf) = [] \<Longrightarrow> (\<exists>t. topic_from_str tf = Ok t \<and> topics r' = snd (trie_remove t () (topics r))) \<and>
      topics_count r' = dec (topics_count r) \<and> map_of (relations r') = (map_of (relations r))(tf := None) \<and>
      relations r' = AList.delete tf (AList.update tf [] (relations r))"
proof -
  obtain rels where rels: "map_of (relations r) tf = Some rels" using assms(2) by (auto simp: subscription_def split: option.splits)
  then obtain t where t: "topic_from_str tf = Ok t" using router_shapeD(3) [OF assms(1)] by blast
  have sub: "map_of rels (id_client_id i) = Some (i, opts)" using assms(2) rels by (simp add: subscription_def)
  show "res = Ok True" "relations_count r' = dec (relations_count r)"
    "AList.delete (id_client_id i) (rels_at r tf) \<noteq> [] \<Longrightarrow> topics r' = topics r \<and> topics_count r' = topics_count r \<and>
      relations r' = AList.update tf (AList.delete (id_client_id i) (rels_at r tf)) (relations r)"
    "AList.delete (id_client_id i) (rels_at r tf) = [] \<Longrightarrow> (\<exists>t. topic_from_str tf = Ok t \<and> topics r' = snd (trie_remove t () (topics r))) \<and>
      topics_count r' = dec (topics_count r) \<and> map_of (relations r') = (map_of (relations r))(tf := None) \<and>
      relations r' = AList.delete tf (AList.update tf [] (relations r))"
    using assms(3) rels sub t
    by (auto simp: router_remove_def remove_relation_def remove_filter_def update_conv' map_of_delete Let_def split: if_splits)
qed

lemma router_remove_shape:
  assumes "router_shape r" and "subscription r tf (id_client_id i) = Some (i, opts)" and "router_remove tf i r = (res, r')"
  shows "router_shape r'"
proof (cases "AList.delete (id_client_id i) (rels_at r tf) = []")
  case False
  with router_remove_fields(3) [OF assms] have
    f: "topics r' = topics r" "relations r' = AList.update tf (AList.delete (id_client_id i) (rels_at r tf)) (relations r)" by simp_all
  obtain rels where rels: "map_of (relations r) tf = Some rels" using assms(2) by (auto simp: subscription_def split: option.splits)
  have "rels' \<noteq> [] \<and> distinct (map fst rels') \<and> (\<exists>t. topic_from_str u = Ok t)" if "map_of (relations r') u = Some rels'" for u rels'
    using that router_shapeD(3) [OF assms(1)] rels False by (cases "u = tf") (auto simp: f update_conv' distinct_delete)
  moreover have "map_of (relations r') u = None \<longleftrightarrow> map_of (relations r) u = None" for u
    using rels by (simp add: f update_conv')
  ultimately show ?thesis
    unfolding router_shape_def f(1) using router_shapeD(1, 2, 4) [OF assms(1)] by (simp add: f(2) distinct_update)
next
  case True
  with router_remove_fields(4) [OF assms] obtain t where
    t: "topic_from_str tf = Ok t" and f: "topics r' = snd (trie_remove t () (topics r))" "map_of (relations r') = (map_of (relations r))(tf := None)"
      "relations r' = AList.delete tf (AList.update tf [] (relations r))" by auto
  have can: "canonical t" "tf = topic_to_string t" using t by (simp_all add: topic_from_str_iff)
  have "rels' \<noteq> [] \<and> distinct (map fst rels') \<and> (\<exists>t. topic_from_str u = Ok t)" if "map_of (relations r') u = Some rels'" for u rels'
    using that router_shapeD(3) [OF assms(1)] by (cases "u = tf") (auto simp: f(2))
  moreover have "trie_values g (topics r') = (if canonical g \<and> map_of (relations r') (topic_to_string g) \<noteq> None then [()] else [])" for g
    using router_shapeD(4) [OF assms(1), of g] can topic_string_inject [of g t]
      set_remove_unit [OF conjunct2 [OF trie.entries_sorted [OF router_shapeD(1) [OF assms(1)]]], of t]
    by (simp add: f(1, 2) trie.entries_remove)
  ultimately show ?thesis
    unfolding router_shape_def using router_shapeD(1, 2) [OF assms(1)] by (simp add: f(1, 3) trie.invar_remove distinct_update distinct_delete)
qed

lemma router_remove_subscription:
  assumes "router_shape r" and "subscription r tf (id_client_id i) = Some (i, opts)" and "router_remove tf i r = (res, r')"
  shows "subscription r' = (subscription r)(tf := (subscription r tf)(id_client_id i := None))"
proof (cases "AList.delete (id_client_id i) (rels_at r tf) = []")
  case True
  then have "(subscription r tf)(id_client_id i := None) = Map.empty"
    using map_of_delete [of "id_client_id i" "rels_at r tf"] by (simp add: subscription_eq)
  moreover have "map_of (relations r') = (map_of (relations r))(tf := None)"
    using router_remove_fields(4) [OF assms True] by blast
  then have "subscription r' = (subscription r)(tf := Map.empty)" by (simp add: subscription_def fun_eq_iff)
  ultimately show ?thesis by simp
next
  case False
  then show ?thesis
    using router_remove_fields(3) [OF assms False]
    by (auto simp: fun_eq_iff subscription_def update_conv' map_of_delete split: option.splits)
qed

lemma router_remove_counts:
  assumes "router_shape r" and "router_counts r" and "rels_count (relations r) < 2 ^ 63 - 1" and "length (relations r) < 2 ^ 63 - 1"
    and "subscription r tf (id_client_id i) = Some (i, opts)" and "router_remove tf i r = (res, r')"
  shows "router_counts r' \<and> rels_count (relations r') \<le> rels_count (relations r) \<and> length (relations r') \<le> length (relations r)"
proof -
  note f = router_remove_fields [OF assms(1, 5, 6)] and D = router_shapeD [OF assms(1)]
  obtain rels where rels: "map_of (relations r) tf = Some rels" using assms(5) by (auto simp: subscription_def split: option.splits)
  let ?rels' = "AList.delete (id_client_id i) rels"
  have "map_of rels (id_client_id i) = Some (i, opts)" using assms(5) rels by (simp add: subscription_def)
  from length_delete [OF _ this] D(3) [OF rels] have len: "Suc (length ?rels') = length rels" by blast
  note upd = sum_update [OF D(2), of length tf]
  have "length (relations r) > 0" using rels by (cases "relations r") auto
  then have decs: "current (dec (topics_count r)) = current (topics_count r) - 1"
    "current (dec (relations_count r)) = current (relations_count r) - 1"
    using assms(2-4) by (auto simp: router_counts_def counter_defs is_isize_def)
  show ?thesis
  proof (cases "?rels' = []")
    case False
    then have "relations r' = AList.update tf ?rels' (relations r)" "topics_count r' = topics_count r" using f(3) rels by simp_all
    then show ?thesis
      using upd [of ?rels'] rels len f(2) decs assms(2) by (simp add: router_counts_def length_update)
  next
    case True
    then have r': "relations r' = AList.delete tf (AList.update tf [] (relations r))" "topics_count r' = dec (topics_count r)"
      using f(4) rels by simp_all
    have d: "distinct (map fst (AList.update tf [] (relations r)))" using D(2) by (simp add: distinct_update)
    have "rels_count (relations r') = rels_count (AList.update tf [] (relations r))"
      using sum_delete [OF d, of length tf] by (simp add: r'(1) update_conv')
    moreover have "Suc (length (relations r')) = length (relations r)"
      using length_delete [OF d, of tf "[]"] rels by (simp add: r'(1) update_conv' length_update)
    ultimately show ?thesis
      using upd [of "[]"] rels len True f(2) decs assms(2) r'(2) by (simp add: router_counts_def)
  qed
qed

section \<open>Runs\<close>

datatype router_op = R_Add string ident subscription_options_mqtt | R_Remove string ident

fun router_step :: "router_op \<Rightarrow> router \<Rightarrow> router" where
  "router_step (R_Add tf i opts) r = snd (router_add tf i opts r)"
| "router_step (R_Remove tf i) r = snd (router_remove tf i r)"

text \<open>What the operations mean for the subscriptions: a filter that does not parse changes nothing, and a removal needs the identity that subscribed.\<close>

fun subscription_step :: "router_op \<Rightarrow> (string \<Rightarrow> client_id \<rightharpoonup> ident \<times> subscription_options_mqtt) \<Rightarrow>
    string \<Rightarrow> client_id \<rightharpoonup> ident \<times> subscription_options_mqtt" where
  "subscription_step (R_Add tf i opts) m =
    (case topic_from_str tf of Ok t \<Rightarrow> m(tf := (m tf)(id_client_id i \<mapsto> (i, opts))) | _ \<Rightarrow> m)"
| "subscription_step (R_Remove tf i) m =
    (case m tf (id_client_id i) of
       Some (s_id, _) \<Rightarrow> if s_id = i then m(tf := (m tf)(id_client_id i := None)) else m
     | None \<Rightarrow> m)"

lemma router_step_ok:
  assumes "router_shape r" and "router_counts r" and "rels_count (relations r) < 2 ^ 63 - 1" and "length (relations r) < 2 ^ 63 - 1"
  shows "router_shape (router_step x r) \<and> router_counts (router_step x r) \<and>
    rels_count (relations (router_step x r)) \<le> Suc (rels_count (relations r)) \<and>
    length (relations (router_step x r)) \<le> Suc (length (relations r)) \<and>
    subscription (router_step x r) = subscription_step x (subscription r)"
proof (cases x)
  case (R_Add tf i opts)
  show ?thesis
  proof (cases "\<exists>t. topic_from_str tf = Ok t")
    case True
    then obtain t where t: "topic_from_str tf = Ok t" by blast
    obtain res r' where r': "router_add tf i opts r = (res, r')" by fastforce
    show ?thesis
      using router_add_shape [OF assms(1) t r'] router_add_counts [OF assms t r'] router_add_subscription [OF t r'] R_Add r' t by simp
  next
    case False
    then show ?thesis
      using R_Add assms by (cases "topic_from_str tf") (auto simp: router_add_def)
  qed
next
  case (R_Remove tf i)
  show ?thesis
  proof (cases "\<exists>opts. subscription r tf (id_client_id i) = Some (i, opts)")
    case True
    then obtain opts where sub: "subscription r tf (id_client_id i) = Some (i, opts)" by blast
    obtain res r' where r': "router_remove tf i r = (res, r')" by fastforce
    show ?thesis
      using router_remove_shape [OF assms(1) sub r'] router_remove_counts [OF assms sub r'] router_remove_subscription [OF assms(1) sub r']
        R_Remove r' sub by (auto simp: le_SucI)
  next
    case False
    with router_remove_none [of r tf i] R_Remove assms show ?thesis by (auto split: option.splits)
  qed
qed

lemma router_run_ok:
  assumes "router_shape r" and "router_counts r" and "rels_count (relations r) + length ops < 2 ^ 63" and "length (relations r) + length ops < 2 ^ 63"
  shows "router_shape (fold router_step ops r) \<and> router_counts (fold router_step ops r) \<and>
    subscription (fold router_step ops r) = fold subscription_step ops (subscription r)"
  using assms
proof (induction ops arbitrary: r)
  case (Cons x xs)
  then have "rels_count (relations r) < 2 ^ 63 - 1" "length (relations r) < 2 ^ 63 - 1" by auto
  from router_step_ok [OF Cons.prems(1, 2) this, of x] Cons.IH [of "router_step x r"] Cons.prems(3, 4) show ?case by auto
qed simp

lemma router_run_size:
  assumes "router_shape r" and "router_counts r" and "rels_count (relations r) + length ops < 2 ^ 63" and "length (relations r) + length ops < 2 ^ 63"
  shows "rels_count (relations (fold router_step ops r)) \<le> rels_count (relations r) + length ops"
  using assms
proof (induction ops arbitrary: r)
  case (Cons x xs)
  then have "rels_count (relations r) < 2 ^ 63 - 1" "length (relations r) < 2 ^ 63 - 1" by auto
  from router_step_ok [OF Cons.prems(1, 2) this, of x] Cons.IH [of "router_step x r"] Cons.prems(3, 4) show ?case by auto
qed simp

section \<open>The default choice\<close>

lemma choose_online_Some:
  "ncs \<noteq> [] \<Longrightarrow> choose_online ncs start n j = Some idx \<Longrightarrow> idx < length ncs \<and> online_of (ncs ! idx) = Some True"
  by (induction n arbitrary: j) (auto simp: Let_def split: if_splits)

lemma choose_online_None:
  "choose_online ncs start n j = None \<longleftrightarrow> (\<forall>k < n. online_of (ncs ! ((start + (j + k)) mod length ncs)) \<noteq> Some True)"
proof (induction n arbitrary: j)
  case (Suc n)
  show ?case
    by (cases "online_of (ncs ! ((start + j) mod length ncs)) = Some True")
      (auto simp: Let_def Suc less_Suc_eq_0_disj simp flip: add_Suc_right)
qed simp

lemma rotation_covers: "idx < len \<Longrightarrow> \<exists>k < len. (start + k) mod len = (idx :: nat)"
proof (intro exI conjI)
  assume "idx < len"
  let ?s = "start mod len"
  let ?k = "(idx + (len - ?s)) mod len"
  show "?k < len" using \<open>idx < len\<close> by simp
  have "?s < len" using \<open>idx < len\<close> by simp
  then have eq: "?s + (idx + (len - ?s)) = idx + len" by linarith
  have "(start + ?k) mod len = (?s + (idx + (len - ?s))) mod len" by (metis mod_add_left_eq mod_add_right_eq)
  also have "\<dots> = (idx + len) mod len" unfolding eq ..
  finally show "(start + ?k) mod len = idx" using \<open>idx < len\<close> by simp
qed

lemma rotation_bij: "bij_betw (\<lambda>j. (start + j) mod len) {..< len} {..< (len :: nat)}"
proof -
  have img: "(\<lambda>j. (start + j) mod len) ` {..< len} = {..< len}"
    using rotation_covers [of _ len start] by (auto simp: image_iff Bex_def)
  then show ?thesis by (simp add: bij_betw_def eq_card_imp_inj_on)
qed

lemma choose_online_first:
  "ncs \<noteq> [] \<Longrightarrow> online_of (ncs ! (start mod length ncs)) = Some True \<Longrightarrow> choose_online ncs start (length ncs) 0 = Some (start mod length ncs)"
  by (cases "length ncs") (simp_all add: Let_def)

definition choice_valid :: "'c choice \<Rightarrow> bool" where
  "choice_valid choice \<longleftrightarrow> (\<forall>g p t ncs c. ncs \<noteq> [] \<and> length ncs < 2 ^ 64 \<longrightarrow> (\<exists>idx b c'. choice g p t ncs c = (Some (idx, b), c') \<and> idx < length ncs))"

lemma shared_start:
  assumes "ncs \<noteq> []" and "length ncs < 2 ^ 64"
  shows "unat (seq mod of_nat (length ncs) :: u64) = unat seq mod length ncs"
  using assms by (simp add: unat_mod unsigned_of_nat take_bit_nat_eq_self)

lemma shared_choice_cases:
  assumes "ncs \<noteq> []" and "length ncs < 2 ^ 64"
  obtains (online) idx where "shared_choice g p t ncs seq = (Some (idx, True), seq + 1)" "idx < length ncs" "online_of (ncs ! idx) = Some True"
  | (offline) "shared_choice g p t ncs seq =
      (Some (unat seq mod length ncs, (case online_of (ncs ! (unat seq mod length ncs)) of Some b \<Rightarrow> b | None \<Rightarrow> False)), seq + 1)"
      "\<forall>c \<in> set ncs. online_of c \<noteq> Some True"
proof (cases "choose_online ncs (unat seq mod length ncs) (length ncs) 0")
  case None
  have "\<forall>c \<in> set ncs. online_of c \<noteq> Some True"
  proof
    fix c assume "c \<in> set ncs"
    then obtain idx where "idx < length ncs" "c = ncs ! idx" by (auto simp: in_set_conv_nth)
    with rotation_covers [of idx "length ncs" "unat seq mod length ncs"] None show "online_of c \<noteq> Some True"
      unfolding choose_online_None by auto
  qed
  with None offline assms show ?thesis by (simp add: shared_choice_def shared_start Let_def)
next
  case (Some idx)
  with online choose_online_Some [OF assms(1) Some] assms show ?thesis by (simp add: shared_choice_def shared_start)
qed

lemma shared_choice_valid: "choice_valid shared_choice"
  unfolding choice_valid_def
proof (intro allI impI)
  fix g p t and ncs :: "candidate list" and seq :: u64
  assume "ncs \<noteq> [] \<and> length ncs < 2 ^ 64"
  then have ncs: "ncs \<noteq> []" "length ncs < 2 ^ 64" by simp_all
  from this show "\<exists>idx b c'. shared_choice g p t ncs seq = (Some (idx, b), c') \<and> idx < length ncs"
    by (rule shared_choice_cases [of ncs g p t seq]) (use ncs(1) in auto)
qed

section \<open>Who receives a message\<close>

definition clients :: "collector \<Rightarrow> client_id set" where
  "clients c = (\<lambda>(_, cid, _). cid) ` set (collector_into c)"

definition delivered :: "collector_map \<Rightarrow> (node_id \<times> client_id) set" where
  "delivered cm = {(node, cid). \<exists>c. map_of cm node = Some c \<and> cid \<in> clients c}"

lemma clients_eq: "clients c = (\<lambda>(_, cid, _). cid) ` set (v3_rels c) \<union> fst ` set (v5_rels c)"
  by (force simp: clients_def collector_into_def)

lemma clients_default [simp]: "clients collector_default = {}"
  by (simp add: clients_eq collector_default_def)

lemma clients_add: "clients (collector_add tf cid opts grp c) = insert cid (clients c)"
  by (auto simp: clients_eq collector_add_def dom_update split: option.split)

lemma delivered_add_at: "delivered (add_at node tf cid opts grp cm) = insert (node, cid) (delivered cm)"
  by (auto simp: delivered_def add_at_def update_conv' clients_add split: option.splits if_splits)

definition direct_in :: "ident \<Rightarrow> relations \<Rightarrow> (node_id \<times> client_id) set" where
  "direct_in this_id rels = {(id_node_id i, cid) | cid i opts. (cid, i, opts) \<in> set rels \<and> \<not> suppressed this_id i opts \<and> shared_group opts = None}"

definition members_in :: "ident \<Rightarrow> relations \<Rightarrow> string \<Rightarrow> (node_id \<times> client_id) set" where
  "members_in this_id rels g = {(id_node_id i, cid) | cid i opts. (cid, i, opts) \<in> set rels \<and> \<not> suppressed this_id i opts \<and> shared_group opts = Some g}"

abbreviation who :: "candidate \<Rightarrow> node_id \<times> client_id" where
  "who c \<equiv> (fst c, fst (snd c))"

definition in_group :: "groups \<Rightarrow> string \<Rightarrow> (node_id \<times> client_id) set" where
  "in_group gs g = who ` set (group_at gs g)"

lemma group_at_update [simp]: "group_at (AList.update h l gs) g = (if g = h then l else group_at gs g)"
  by (simp add: group_at_def update_conv')

definition groups_ok :: "groups \<Rightarrow> bool" where
  "groups_ok gs \<longleftrightarrow> distinct (map fst gs) \<and> (\<forall>g subs. map_of gs g = Some subs \<longrightarrow> subs \<noteq> [])"

lemma visit_relations_result:
  "groups_ok gs \<Longrightarrow> visit_relations online this_id tf rels (gs, cm) = (gs', cm') \<Longrightarrow>
   delivered cm' = delivered cm \<union> direct_in this_id rels \<and> groups_ok gs' \<and>
   (\<forall>g. in_group gs' g = in_group gs g \<union> members_in this_id rels g) \<and>
   (\<forall>g subs. map_of gs' g = Some subs \<longrightarrow> length subs \<le> length (group_at gs g) + length rels)"
proof (induction rels arbitrary: gs cm)
  case (Cons x rels)
  obtain cid i opts where x: "x = (cid, i, opts)" by (metis prod_cases3)
  consider (sup) "suppressed this_id i opts" | (shared) g where "\<not> suppressed this_id i opts" "shared_group opts = Some g"
    | (direct) "\<not> suppressed this_id i opts" "shared_group opts = None" by (cases "shared_group opts") auto
  then show ?case
  proof cases
    case sup
    with Cons.prems Cons.IH [OF Cons.prems(1), of cm] x show ?thesis
      by (fastforce simp: le_SucI direct_in_def members_in_def)
  next
    case direct
    with Cons.prems Cons.IH [OF Cons.prems(1), of "add_at (id_node_id i) tf cid opts None cm"] x show ?thesis
      by (fastforce simp: delivered_add_at le_SucI direct_in_def members_in_def)
  next
    case shared
    let ?gs = "AList.update g (group_at gs g @ [(id_node_id i, cid, opts, None, Some (online (id_node_id i) cid))]) gs"
    have ok: "groups_ok ?gs" using Cons.prems(1) by (auto simp: groups_ok_def distinct_update update_conv')
    have run: "visit_relations online this_id tf rels (?gs, cm) = (gs', cm')" using Cons.prems(2) shared x by (simp add: Let_def)
    note ih = Cons.IH [OF ok run]
    have grp: "in_group ?gs h = in_group gs h \<union> (if h = g then {(id_node_id i, cid)} else {})" for h
      by (simp add: in_group_def)
    have len: "length (group_at ?gs h) \<le> Suc (length (group_at gs h))" for h by simp
    have "members_in this_id (x # rels) h = (if h = g then {(id_node_id i, cid)} else {}) \<union> members_in this_id rels h" for h
      using shared x by (auto simp: members_in_def)
    moreover have "direct_in this_id (x # rels) = direct_in this_id rels" using shared x by (auto simp: direct_in_def)
    moreover have "length subs \<le> length (group_at gs h) + length (x # rels)" if "map_of gs' h = Some subs" for h subs
    proof -
      have "length subs \<le> length (group_at ?gs h) + length rels" using ih that by blast
      then show ?thesis using len [of h] by simp
    qed
    ultimately show ?thesis using ih by (simp add: grp Un_assoc)
  qed
qed (auto simp: group_at_def direct_in_def members_in_def)

lemma visit_groups_result:
  assumes valid: "choice_valid choice"
  shows "distinct (map fst gs) \<Longrightarrow> \<forall>(g, subs) \<in> set gs. subs \<noteq> [] \<and> length subs < 2 ^ 64 \<Longrightarrow>
    \<exists>cm' c' pick. visit_groups choice this_id topic tf gs (cm, c) = Ok (cm', c') \<and>
      (\<forall>(g, subs) \<in> set gs. pick g \<in> who ` set subs) \<and> delivered cm' = delivered cm \<union> pick ` fst ` set gs"
proof (induction gs arbitrary: cm c)
  case (Cons x gs)
  obtain g subs where x: "x = (g, subs)" by fastforce
  from Cons.prems x have "subs \<noteq> []" "length subs < 2 ^ 64" by auto
  with valid obtain idx b d where ch: "choice g this_id topic subs c = (Some (idx, b), d)" "idx < length subs"
    unfolding choice_valid_def by blast
  obtain node cid opts ids onl where sub: "subs ! idx = (node, cid, opts, ids, onl)" by (metis prod_cases5)
  let ?cm = "add_at node tf cid opts (Some (g, b, map (\<lambda>(_, cid, _). cid) subs)) cm"
  from Cons.prems have "distinct (map fst gs)" "\<forall>(g, subs) \<in> set gs. subs \<noteq> [] \<and> length subs < 2 ^ 64" by simp_all
  from Cons.IH [OF this, of ?cm d] obtain cm' c' pick where
    ih: "visit_groups choice this_id topic tf gs (?cm, d) = Ok (cm', c')" "\<forall>(g, subs) \<in> set gs. pick g \<in> who ` set subs"
    "delivered cm' = delivered ?cm \<union> pick ` fst ` set gs" by blast
  have g: "g \<notin> fst ` set gs" using Cons.prems(1) x by simp
  have "(node, cid, opts, ids, onl) \<in> set subs" using ch(2) sub nth_mem by metis
  from imageI [OF this, of who] have "(node, cid) \<in> who ` set subs" by simp
  define pick' where "pick' = pick(g := (node, cid))"
  have here: "pick' g = (node, cid)" by (simp add: pick'_def)
  have rest: "pick' h = pick h" if "h \<in> fst ` set gs" for h using g that by (auto simp: pick'_def)
  have "pick' ` fst ` set gs = pick ` fst ` set gs" using rest by (simp cong: image_cong)
  moreover have "\<forall>(h, subs) \<in> set gs. pick' h \<in> who ` set subs" using ih(2) rest by force
  ultimately show ?case
    using ih(1, 3) ch sub x here \<open>(node, cid) \<in> who ` set subs\<close>
    by (intro exI [of _ cm'] exI [of _ c'] exI [of _ pick']) (simp add: delivered_add_at Let_def)
qed simp

lemma visit_one_filter:
  assumes "choice_valid choice" and "length rs < 2 ^ 64" and vr: "visit_relations online this_id tf rs ([], cm) = (gs, cm1)"
  shows "\<exists>cm2 c2 pk. visit_groups choice this_id topic tf gs (cm1, c) = Ok (cm2, c2) \<and>
    (\<forall>g. members_in this_id rs g \<noteq> {} \<longrightarrow> pk g \<in> members_in this_id rs g) \<and>
    delivered cm2 = delivered cm \<union> direct_in this_id rs \<union> {pk g | g. members_in this_id rs g \<noteq> {}}"
proof -
  have "groups_ok []" by (simp add: groups_ok_def)
  note r1 = visit_relations_result [OF this vr]
  have len_rs: "length (group_at [] g) + length rs < 2 ^ 64" for g using assms(2) by (simp add: group_at_def)
  have dist: "distinct (map fst gs)" using r1 by (simp add: groups_ok_def)
  have grp: "in_group gs g = members_in this_id rs g" for g
  proof -
    have "in_group [] g = {}" by (simp add: in_group_def group_at_def)
    then show ?thesis using r1 by simp
  qed
  have subs: "subs \<noteq> [] \<and> length subs < 2 ^ 64 \<and> who ` set subs = members_in this_id rs g" if "(g, subs) \<in> set gs" for g subs
  proof -
    have m: "map_of gs g = Some subs" using dist that by simp
    then have "subs \<noteq> []" "length subs \<le> length (group_at [] g) + length rs" using r1 unfolding groups_ok_def by blast+
    moreover have "who ` set subs = in_group gs g" using m by (simp add: in_group_def group_at_def)
    ultimately show ?thesis using len_rs [of g] grp [of g] by simp
  qed
  then have "\<forall>(g, subs) \<in> set gs. subs \<noteq> [] \<and> length subs < 2 ^ 64" by blast
  with visit_groups_result [OF assms(1) dist, of this_id topic tf cm1 c] obtain cm2 c2 pk where
    r2: "visit_groups choice this_id topic tf gs (cm1, c) = Ok (cm2, c2)" "\<forall>(g, subs) \<in> set gs. pk g \<in> who ` set subs"
      "delivered cm2 = delivered cm1 \<union> pk ` fst ` set gs" by blast
  have keys: "g \<in> fst ` set gs \<longleftrightarrow> members_in this_id rs g \<noteq> {}" for g
  proof -
    have "g \<in> fst ` set gs \<longleftrightarrow> map_of gs g \<noteq> None" by (simp add: map_of_eq_None_iff)
    also have "\<dots> \<longleftrightarrow> in_group gs g \<noteq> {}"
      using r1 by (cases "map_of gs g") (auto simp: in_group_def group_at_def groups_ok_def)
    finally show ?thesis unfolding grp .
  qed
  have "pk g \<in> members_in this_id rs g" if nonempty: "members_in this_id rs g \<noteq> {}" for g
  proof -
    obtain subs' where mem: "(g, subs') \<in> set gs" using nonempty keys [of g] by force
    with r2(2) have "pk g \<in> who ` set subs'" by blast
    then show ?thesis using subs [OF mem] by simp
  qed
  moreover have "pk ` fst ` set gs = {pk g | g. members_in this_id rs g \<noteq> {}}" by (auto simp: keys [symmetric])
  ultimately show ?thesis using r2(1, 3) r1 by (intro exI [of _ cm2] exI [of _ c2] exI [of _ pk]) simp
qed

definition receives :: "ident \<Rightarrow> (string \<times> relations) list \<Rightarrow> (string \<Rightarrow> string \<Rightarrow> node_id \<times> client_id) \<Rightarrow> string \<Rightarrow> node_id \<times> client_id \<Rightarrow> bool" where
  "receives this_id rels pick tf p \<longleftrightarrow>
    (\<exists>rs. map_of rels tf = Some rs \<and> (p \<in> direct_in this_id rs \<or> (\<exists>g. members_in this_id rs g \<noteq> {} \<and> p = pick tf g)))"

lemma visit_filters_result:
  assumes valid: "choice_valid choice" and len: "\<forall>tf rs. map_of rels tf = Some rs \<longrightarrow> length rs < 2 ^ 64"
  shows "distinct (map (\<lambda>p. topic_to_string (fst p)) fs) \<Longrightarrow>
    \<exists>cm' c' pick. visit_filters online choice this_id topic rels fs (cm, c) = Ok (cm', c') \<and>
      (\<forall>tf rs g. tf \<in> (\<lambda>p. topic_to_string (fst p)) ` set fs \<and> map_of rels tf = Some rs \<and> members_in this_id rs g \<noteq> {} \<longrightarrow>
         pick tf g \<in> members_in this_id rs g) \<and>
      delivered cm' = delivered cm \<union>
        {p. \<exists>tf \<in> (\<lambda>p. topic_to_string (fst p)) ` set fs. receives this_id rels pick tf p}"
proof (induction fs arbitrary: cm c)
  case (Cons x fs)
  obtain f u where x: "x = (f, u)" by fastforce
  let ?tf = "topic_to_string f"
  define rs where "rs = (case map_of rels ?tf of Some rs \<Rightarrow> rs | None \<Rightarrow> [])"
  obtain gs cm1 where vr: "visit_relations online this_id ?tf rs ([], cm) = (gs, cm1)" by fastforce
  have "length rs < 2 ^ 64" using len by (auto simp: rs_def split: option.split)
  from visit_one_filter [OF valid this vr, of topic c] obtain cm2 c2 pk where
    one: "visit_groups choice this_id topic ?tf gs (cm1, c) = Ok (cm2, c2)"
      "\<forall>g. members_in this_id rs g \<noteq> {} \<longrightarrow> pk g \<in> members_in this_id rs g"
      "delivered cm2 = delivered cm \<union> direct_in this_id rs \<union> {pk g | g. members_in this_id rs g \<noteq> {}}" by blast
  from Cons.prems have "distinct (map (\<lambda>p. topic_to_string (fst p)) fs)" and fresh: "?tf \<notin> (\<lambda>p. topic_to_string (fst p)) ` set fs" using x by simp_all
  from Cons.IH [OF this(1), of cm2 c2] obtain cm' c' pick where
    ih: "visit_filters online choice this_id topic rels fs (cm2, c2) = Ok (cm', c')"
      "\<forall>tf rs g. tf \<in> (\<lambda>p. topic_to_string (fst p)) ` set fs \<and> map_of rels tf = Some rs \<and> members_in this_id rs g \<noteq> {} \<longrightarrow>
         pick tf g \<in> members_in this_id rs g"
      "delivered cm' = delivered cm2 \<union>
        {p. \<exists>tf \<in> (\<lambda>p. topic_to_string (fst p)) ` set fs. receives this_id rels pick tf p}" by blast
  define pick' where "pick' = pick(?tf := pk)"
  have here: "pick' ?tf = pk" by (simp add: pick'_def)
  have there: "pick' u = pick u" if "u \<in> (\<lambda>p. topic_to_string (fst p)) ` set fs" for u
    using that fresh unfolding pick'_def by (metis fun_upd_other)
  have rs: "map_of rels ?tf = Some rs \<or> map_of rels ?tf = None \<and> rs = []" by (auto simp: rs_def split: option.split)
  have none: "direct_in this_id [] = {}" "members_in this_id [] g = {}" for g by (simp_all add: direct_in_def members_in_def)
  have run: "visit_filters online choice this_id topic rels (x # fs) (cm, c) = Ok (cm', c')"
    using rs vr one(1) ih(1) x by auto
  have picks: "\<forall>tf rs g. tf \<in> (\<lambda>p. topic_to_string (fst p)) ` set (x # fs) \<and> map_of rels tf = Some rs \<and> members_in this_id rs g \<noteq> {} \<longrightarrow>
      pick' tf g \<in> members_in this_id rs g"
  proof (intro allI impI, elim conjE)
    fix v vs g
    assume v: "v \<in> (\<lambda>p. topic_to_string (fst p)) ` set (x # fs)" "map_of rels v = Some vs" "members_in this_id vs g \<noteq> {}"
    then consider "v = ?tf" | "v \<in> (\<lambda>p. topic_to_string (fst p)) ` set fs" using x by auto
    then show "pick' v g \<in> members_in this_id vs g"
    proof cases
      case 1
      with v(2) rs have "vs = rs" by simp
      then show ?thesis using one(2) v(3) 1 here by simp
    qed (use ih(2) v(2, 3) there in simp)
  qed
  have "{p. receives this_id rels pick' ?tf p} = direct_in this_id rs \<union> {pk g | g. members_in this_id rs g \<noteq> {}}"
    using rs
  proof
    assume "map_of rels ?tf = Some rs"
    then show ?thesis unfolding receives_def here by auto
  qed (simp add: receives_def none)
  moreover have "{p. \<exists>u \<in> (\<lambda>p. topic_to_string (fst p)) ` set fs. receives this_id rels pick' u p} =
      {p. \<exists>u \<in> (\<lambda>p. topic_to_string (fst p)) ` set fs. receives this_id rels pick u p}"
    using there by (auto simp: receives_def)
  moreover have "{p. \<exists>u \<in> (\<lambda>p. topic_to_string (fst p)) ` set (x # fs). receives this_id rels pick' u p} =
      {p. receives this_id rels pick' ?tf p} \<union> {p. \<exists>u \<in> (\<lambda>p. topic_to_string (fst p)) ` set fs. receives this_id rels pick' u p}"
    using x by auto
  ultimately have "delivered cm' = delivered cm \<union>
      {p. \<exists>u \<in> (\<lambda>p. topic_to_string (fst p)) ` set (x # fs). receives this_id rels pick' u p}"
    using ih(3) one(3) by (simp only: Un_assoc)
  with run picks show ?case by blast
qed simp

section \<open>Properties\<close>

lemma router_new_ok: "router_shape router_new" "router_counts router_new" "relations router_new = []" "subscription router_new = (\<lambda>_ _. None)"
  by (auto simp: router_shape_def router_counts_def router_new_def subscription_def trie.entries_empty counter_new_def fun_eq_iff)

lemma router_run:
  assumes "length ops < 2 ^ 63"
  shows "router_shape (fold router_step ops router_new) \<and> router_counts (fold router_step ops router_new) \<and>
    subscription (fold router_step ops router_new) = fold subscription_step ops (\<lambda>_ _. None)"
  using router_run_ok [OF router_new_ok(1, 2), of ops] assms by (simp add: router_new_ok(3, 4))

text \<open>
  C15: After any sequence of subscriptions and unsubscriptions the router holds exactly the subscriptions
  they leave: a filter that does not parse changes nothing, a new subscription replaces the client's old
  one, and only the identity that subscribed can remove it.  The tree of filters and the relations agree,
  and the two counters are the numbers of filters with a subscriber and of subscriptions.
\<close>

theorem router_refines_subscriptions:
  assumes "length ops < 2 ^ 63"
  shows "let r = fold router_step ops router_new; m = fold subscription_step ops (\<lambda>_ _. None) in
    subscription r = m \<and>
    (\<forall>f. trie_values f (topics r) \<noteq> [] \<longleftrightarrow> canonical f \<and> m (topic_to_string f) \<noteq> Map.empty) \<and>
    current (topics_count r) = int (card {tf. m tf \<noteq> Map.empty}) \<and>
    current (relations_count r) = (\<Sum>tf | m tf \<noteq> Map.empty. int (card (dom (m tf))))"
proof -
  define r where "r = fold router_step ops router_new"
  define m where "m = fold subscription_step ops (\<lambda>_ _. None)"
  have shape: "router_shape r" and counts: "router_counts r" and sub: "subscription r = m"
    using router_run [OF assms(1)] by (simp_all add: r_def m_def)
  have at: "m tf = (case map_of (relations r) tf of Some rels \<Rightarrow> map_of rels | None \<Rightarrow> Map.empty)" for tf
    by (simp add: sub [symmetric] subscription_def)
  have nonempty: "m tf \<noteq> Map.empty \<longleftrightarrow> map_of (relations r) tf \<noteq> None" for tf
    using router_shapeD(3) [OF shape, of tf] by (cases "map_of (relations r) tf") (auto simp: at)
  have keys: "{tf. m tf \<noteq> Map.empty} = fst ` set (relations r)" by (auto simp: nonempty map_of_eq_None_iff)
  have inj: "inj_on fst (set (relations r))" and dist: "distinct (relations r)"
    using router_shapeD(2) [OF shape] by (simp_all add: distinct_map)
  have "card {tf. m tf \<noteq> Map.empty} = length (relations r)"
    unfolding keys using card_image [OF inj] distinct_card [OF dist] by simp
  moreover have "card (dom (m tf)) = length rels" if "(tf, rels) \<in> set (relations r)" for tf rels
  proof -
    have eq: "map_of (relations r) tf = Some rels" using that router_shapeD(2) [OF shape] by simp
    then show ?thesis
      using router_shapeD(3) [OF shape eq] distinct_card [of "map fst rels"] by (simp add: at dom_map_of_conv_image_fst)
  qed
  then have "(\<Sum>tf | m tf \<noteq> Map.empty. int (card (dom (m tf)))) = (\<Sum>x \<in> set (relations r). int (length (snd x)))"
    unfolding keys by (subst sum.reindex [OF inj]) (auto intro!: sum.cong)
  moreover have "\<dots> = int (rels_count (relations r))"
    by (simp add: sum_list_distinct_conv_sum_set [OF dist, symmetric] case_prod_unfold comp_def flip: sum_list_of_nat)
  ultimately show ?thesis
    using sub counts router_shapeD(4) [OF shape] nonempty
    by (simp add: Let_def router_counts_def flip: r_def m_def)
qed

definition subscriber :: ident where
  "subscriber = ident_from 1 ''c1'' 7"

theorem router_refines_subscriptions_witness:
  "let r = fold router_step [R_Add ''a/+'' subscriber subscription_options_mqtt_default, R_Add ''a/#/b'' subscriber subscription_options_mqtt_default,
      R_Remove ''a/+'' (ident_from 1 ''c1'' 8)] router_new in
   subscription r ''a/+'' ''c1'' = Some (subscriber, subscription_options_mqtt_default) \<and> subscription r ''a/#/b'' ''c1'' = None"
proof -
  let ?ops = "[R_Add ''a/+'' subscriber subscription_options_mqtt_default, R_Add ''a/#/b'' subscriber subscription_options_mqtt_default,
      R_Remove ''a/+'' (ident_from 1 ''c1'' 8)]"
  have parse: "topic_from_str ''a/+'' = Ok [Normal ''a'', SingleWildcard]" "case topic_from_str ''a/#/b'' of Err e \<Rightarrow> True | _ \<Rightarrow> False"
    by code_simp+
  have "subscription (fold router_step ?ops router_new) = fold subscription_step ?ops (\<lambda>_ _. None)"
    using router_refines_subscriptions [of ?ops] by (simp add: Let_def del: fold.simps)
  then show ?thesis
    using parse by (auto simp: Let_def subscriber_def ident_from_def ident_new_def simp del: router_step.simps split: res.splits)
qed

text \<open>Whether a filter matches the levels of a published topic.\<close>

definition filter_hits :: "string \<Rightarrow> topic \<Rightarrow> bool" where
  "filter_hits tf t \<longleftrightarrow> (\<exists>f. topic_from_str tf = Ok f \<and> mqtt_matches f t)"

text \<open>Clients that get a message directly, and the members of a shared group of a filter that may get it.\<close>

definition direct_receivers :: "(string \<Rightarrow> client_id \<rightharpoonup> ident \<times> subscription_options_mqtt) \<Rightarrow> ident \<Rightarrow> topic \<Rightarrow> (node_id \<times> client_id) set" where
  "direct_receivers m this_id t = {(id_node_id i, cid) | tf cid i opts.
     m tf cid = Some (i, opts) \<and> filter_hits tf t \<and> \<not> suppressed this_id i opts \<and> shared_group opts = None}"

definition group_members :: "(string \<Rightarrow> client_id \<rightharpoonup> ident \<times> subscription_options_mqtt) \<Rightarrow> ident \<Rightarrow> topic \<Rightarrow> string \<Rightarrow> string \<Rightarrow> (node_id \<times> client_id) set" where
  "group_members m this_id t tf g = {(id_node_id i, cid) | cid i opts.
     m tf cid = Some (i, opts) \<and> filter_hits tf t \<and> \<not> suppressed this_id i opts \<and> shared_group opts = Some g}"

lemma matched_filters:
  assumes "router_shape r" and "topic_name t"
  shows "distinct (map (\<lambda>p. topic_to_string (fst p)) (trie_matches t (topics r)))"
    and "tf \<in> (\<lambda>p. topic_to_string (fst p)) ` set (trie_matches t (topics r)) \<longleftrightarrow> map_of (relations r) tf \<noteq> None \<and> filter_hits tf t"
proof -
  have mem: "(f, vs) \<in> set (trie_matches t (topics r)) \<longleftrightarrow>
      canonical f \<and> map_of (relations r) (topic_to_string f) \<noteq> None \<and> vs = [()] \<and> mqtt_matches f t" for f vs
    using trie.matched_entries [OF assms(2), of f vs "topics r"] router_shapeD(4) [OF assms(1), of f] by auto
  have inj: "inj_on topic_to_string (fst ` set (trie_matches t (topics r)))"
    using mem topic_string_inject by (fastforce simp: inj_on_def)
  have "distinct (map topic_to_string (map fst (trie_matches t (topics r))))"
    using trie.matched_distinct [OF assms(2), of "topics r"] inj by (auto simp: distinct_map intro: comp_inj_on)
  then show "distinct (map (\<lambda>p. topic_to_string (fst p)) (trie_matches t (topics r)))" by (simp add: comp_def)
  show "tf \<in> (\<lambda>p. topic_to_string (fst p)) ` set (trie_matches t (topics r)) \<longleftrightarrow> map_of (relations r) tf \<noteq> None \<and> filter_hits tf t"
  proof -
    have "tf \<in> (\<lambda>p. topic_to_string (fst p)) ` set (trie_matches t (topics r)) \<longleftrightarrow>
        (\<exists>f vs. (f, vs) \<in> set (trie_matches t (topics r)) \<and> tf = topic_to_string f)"
      by (simp add: image_iff Bex_def)
    then show ?thesis unfolding mem filter_hits_def topic_from_str_iff by auto
  qed
qed

lemma relations_subscription:
  assumes "router_shape r" and "map_of (relations r) tf = Some rs"
  shows "(cid, i, opts) \<in> set rs \<longleftrightarrow> subscription r tf cid = Some (i, opts)"
  using router_shapeD(3) [OF assms] by (simp add: subscription_def assms(2))

lemma subscription_relations:
  assumes "router_shape r"
  shows "subscription r tf cid = Some (i, opts) \<longleftrightarrow> (\<exists>rs. map_of (relations r) tf = Some rs \<and> (cid, i, opts) \<in> set rs)"
proof (cases "map_of (relations r) tf")
  case None
  then show ?thesis by (simp add: subscription_def)
next
  case (Some rs)
  then show ?thesis using relations_subscription [OF assms Some] by simp
qed

lemma router_matches_delivered:
  assumes "router_shape r" and "choice_valid choice" and "topic_from_str name = Ok t" and "topic_name t"
    and "\<forall>tf rs. map_of (relations r) tf = Some rs \<longrightarrow> length rs < 2 ^ 64"
  shows "\<exists>cm c' pick. router_matches online choice this_id name r c = Ok (map (\<lambda>(node, col). (node, collector_into col)) cm, c') \<and>
    (\<forall>tf g. group_members (subscription r) this_id t tf g \<noteq> {} \<longrightarrow> pick tf g \<in> group_members (subscription r) this_id t tf g) \<and>
    delivered cm = direct_receivers (subscription r) this_id t \<union>
      {pick tf g | tf g. group_members (subscription r) this_id t tf g \<noteq> {}}"
proof -
  let ?fs = "trie_matches t (topics r)"
  obtain cm c' pick where run: "visit_filters online choice this_id name (relations r) ?fs ([], c) = Ok (cm, c')"
    and picks: "\<forall>tf rs g. tf \<in> (\<lambda>p. topic_to_string (fst p)) ` set ?fs \<and> map_of (relations r) tf = Some rs \<and> members_in this_id rs g \<noteq> {} \<longrightarrow>
         pick tf g \<in> members_in this_id rs g"
    and del: "delivered cm = delivered [] \<union> {p. \<exists>tf \<in> (\<lambda>p. topic_to_string (fst p)) ` set ?fs. receives this_id (relations r) pick tf p}"
    using visit_filters_result [OF assms(2, 5) matched_filters(1) [OF assms(1, 4)]] by blast
  have members: "p \<in> group_members (subscription r) this_id t tf g \<longleftrightarrow>
      (\<exists>rs. map_of (relations r) tf = Some rs \<and> filter_hits tf t \<and> p \<in> members_in this_id rs g)" for p tf g
    unfolding group_members_def members_in_def subscription_relations [OF assms(1)] by blast
  then have some: "group_members (subscription r) this_id t tf g \<noteq> {} \<longleftrightarrow>
      (\<exists>rs. map_of (relations r) tf = Some rs \<and> filter_hits tf t \<and> members_in this_id rs g \<noteq> {})" for tf g
    by blast
  have "direct_receivers (subscription r) this_id t =
      {p. \<exists>tf rs. map_of (relations r) tf = Some rs \<and> filter_hits tf t \<and> p \<in> direct_in this_id rs}"
    unfolding direct_receivers_def direct_in_def subscription_relations [OF assms(1)] by blast
  moreover have "{p. \<exists>tf \<in> (\<lambda>p. topic_to_string (fst p)) ` set ?fs. receives this_id (relations r) pick tf p} =
      {p. \<exists>tf rs. map_of (relations r) tf = Some rs \<and> filter_hits tf t \<and> p \<in> direct_in this_id rs} \<union>
      {pick tf g | tf g. group_members (subscription r) this_id t tf g \<noteq> {}}"
    unfolding Bex_def matched_filters(2) [OF assms(1, 4)] receives_def some by blast
  moreover have "pick tf g \<in> group_members (subscription r) this_id t tf g" if "group_members (subscription r) this_id t tf g \<noteq> {}" for tf g
    using that picks matched_filters(2) [OF assms(1, 4), of tf] unfolding members some by blast
  ultimately show ?thesis
    using run del assms(3) by (intro exI [of _ cm] exI [of _ c'] exI [of _ pick]) (simp add: router_matches_def delivered_def)
qed

lemma router_run_relations:
  assumes "length ops < 2 ^ 63" and "map_of (relations (fold router_step ops router_new)) tf = Some rs"
  shows "length rs < 2 ^ 64"
proof -
  have "length rs \<le> rels_count (relations (fold router_step ops router_new))" using map_of_SomeD [OF assms(2)] by (auto dest!: split_list)
  moreover have "rels_count (relations (fold router_step ops router_new)) \<le> length ops"
    using router_run_size [OF router_new_ok(1, 2), of ops] assms(1) by (simp add: router_new_ok(3))
  ultimately show ?thesis using assms(1) by simp
qed

lemma subscriber_receives:
  "topic_from_str ''a/b'' = Ok [Normal ''a'', Normal ''b'']" "topic_name [Normal ''a'', Normal ''b'']"
  "(1, ''c1'') \<in> direct_receivers (fold subscription_step [R_Add ''a/+'' subscriber subscription_options_mqtt_default] (\<lambda>_ _. None))
     (ident_from 1 ''p'' 0) [Normal ''a'', Normal ''b'']"
proof -
  let ?ops = "[R_Add ''a/+'' subscriber subscription_options_mqtt_default]"
  show parse: "topic_from_str ''a/b'' = Ok [Normal ''a'', Normal ''b'']" and "topic_name [Normal ''a'', Normal ''b'']" by code_simp+
  have plus: "topic_from_str ''a/+'' = Ok [Normal ''a'', SingleWildcard]" "mqtt_matches [Normal ''a'', SingleWildcard] [Normal ''a'', Normal ''b'']"
    by code_simp+
  then have hit: "filter_hits ''a/+'' [Normal ''a'', Normal ''b'']" by (auto simp: filter_hits_def)
  have sub: "fold subscription_step ?ops (\<lambda>_ _. None) ''a/+'' ''c1'' = Some (subscriber, subscription_options_mqtt_default)"
    using plus by (simp add: subscriber_def ident_from_def ident_new_def)
  have node: "id_node_id subscriber = 1" by (simp add: subscriber_def ident_from_def ident_new_def)
  show "(1, ''c1'') \<in> direct_receivers (fold subscription_step ?ops (\<lambda>_ _. None)) (ident_from 1 ''p'' 0) [Normal ''a'', Normal ''b'']"
    unfolding direct_receivers_def mem_Collect_eq
    by (rule exI [of _ "''a/+''"], rule exI [of _ "''c1''"], rule exI [of _ subscriber], rule exI [of _ subscription_options_mqtt_default])
      (use sub hit node in \<open>simp add: suppressed_def subscription_options_mqtt_default_def del: fold.simps\<close>)
qed

text \<open>
  C9: Matching a published topic finds exactly the right sessions.  After any sequence of subscriptions
  and unsubscriptions, for a topic without wildcards, the clients in the result are: every client with a
  matching filter outside shared groups, unless it published the message itself and asked for no local
  delivery; and for every matching filter and shared group with such a member exactly one of its members.
  Matching does not fail, whatever clients are online and wherever the rotation stands.
\<close>

theorem router_matches_exact:
  assumes "length ops < 2 ^ 63" and "topic_from_str name = Ok t" and "topic_name t"
  shows "\<exists>res seq' pick. router_matches online shared_choice this_id name (fold router_step ops router_new) seq = Ok (res, seq') \<and>
    (let m = fold subscription_step ops (\<lambda>_ _. None); members = group_members m this_id t in
     (\<forall>tf g. members tf g \<noteq> {} \<longrightarrow> pick tf g \<in> members tf g) \<and>
     {(node, cid). \<exists>subs. map_of res node = Some subs \<and> cid \<in> (\<lambda>(_, cid, _). cid) ` set subs} =
       direct_receivers m this_id t \<union> {pick tf g | tf g. members tf g \<noteq> {}})"
proof -
  define r where "r = fold router_step ops router_new"
  have shape: "router_shape r" and counts: "router_counts r" and sub: "subscription r = fold subscription_step ops (\<lambda>_ _. None)"
    using router_run [OF assms(1)] by (simp_all add: r_def)
  have "length rs < 2 ^ 64" if "map_of (relations r) tf = Some rs" for tf rs
    using router_run_relations [OF assms(1)] that by (simp add: r_def)
  with router_matches_delivered [OF shape shared_choice_valid assms(2, 3), of online this_id seq] obtain cm seq' pick where
    res: "router_matches online shared_choice this_id name r seq = Ok (map (\<lambda>(node, col). (node, collector_into col)) cm, seq')" and
    pick: "\<forall>tf g. group_members (subscription r) this_id t tf g \<noteq> {} \<longrightarrow> pick tf g \<in> group_members (subscription r) this_id t tf g" and
    del: "delivered cm = direct_receivers (subscription r) this_id t \<union> {pick tf g | tf g. group_members (subscription r) this_id t tf g \<noteq> {}}"
    by blast
  have "{(node, cid). \<exists>subs. map_of (map (\<lambda>(node, col). (node, collector_into col)) cm) node = Some subs \<and> cid \<in> (\<lambda>(_, cid, _). cid) ` set subs} = delivered cm"
    unfolding delivered_def clients_def map_of_map o_apply map_option_eq_Some by blast
  then show ?thesis
    unfolding Let_def r_def [symmetric] sub [symmetric]
    by (intro exI [of _ "map (\<lambda>(node, col). (node, collector_into col)) cm"] exI [of _ seq'] exI [of _ pick] conjI)
      (rule res pick, simp only: del)+
qed

theorem router_matches_exact_witness:
  "\<exists>res seq'. router_matches (\<lambda>_ _. True) shared_choice (ident_from 1 ''p'' 0) ''a/b''
      (fold router_step [R_Add ''a/+'' subscriber subscription_options_mqtt_default] router_new) 0 = Ok (res, seq') \<and>
    (1, ''c1'') \<in> {(node, cid). \<exists>subs. map_of res node = Some subs \<and> cid \<in> (\<lambda>(_, cid, _). cid) ` set subs}"
proof -
  have "length [R_Add ''a/+'' subscriber subscription_options_mqtt_default] < 2 ^ 63" by simp
  from router_matches_exact [OF this subscriber_receives(1, 2), of "\<lambda>_ _. True" "ident_from 1 ''p'' 0" 0] subscriber_receives(3)
  show ?thesis unfolding Let_def by blast
qed

text \<open>
  The default choice within a shared group: an online member is chosen whenever there is one, and is
  reported as online; otherwise the rotation's member is chosen.  When all members are online, as many
  consecutive choices as there are members choose every member exactly once.
\<close>

theorem shared_choice_round_robin:
  assumes "ncs \<noteq> []" and "unat seq + length ncs < 2 ^ 64"
  shows "(\<exists>idx b. shared_choice g p t ncs seq = (Some (idx, b), seq + 1) \<and> idx < length ncs \<and> b = (online_of (ncs ! idx) = Some True) \<and>
      (b \<or> (\<forall>c \<in> set ncs. online_of c \<noteq> Some True))) \<and>
    ((\<forall>c \<in> set ncs. online_of c = Some True) \<longrightarrow>
      bij_betw (\<lambda>j. fst (the (fst (shared_choice g p t ncs (seq + of_nat j))))) {..< length ncs} {..< length ncs})"
proof (intro conjI impI)
  have len: "length ncs < 2 ^ 64" using assms(2) by simp
  show "\<exists>idx b. shared_choice g p t ncs seq = (Some (idx, b), seq + 1) \<and> idx < length ncs \<and> b = (online_of (ncs ! idx) = Some True) \<and>
      (b \<or> (\<forall>c \<in> set ncs. online_of c \<noteq> Some True))"
    using assms(1) len
  proof (cases rule: shared_choice_cases [where g = g and p = p and t = t and seq = seq])
    case offline
    then show ?thesis using assms(1) by (auto split: option.splits)
  qed blast
  assume on: "\<forall>c \<in> set ncs. online_of c = Some True"
  have idx: "fst (the (fst (shared_choice g p t ncs (seq + of_nat j)))) = (unat seq + j) mod length ncs" if "j < length ncs" for j
  proof -
    have j: "unat (seq + of_nat j) = unat seq + j"
      using assms(2) that by (simp add: unat_word_ariths unsigned_of_nat take_bit_nat_eq_self)
    have "online_of (ncs ! ((unat seq + j) mod length ncs mod length ncs)) = Some True" using on assms(1) by simp
    from choose_online_first [OF assms(1) this] show ?thesis using assms(1) len by (simp add: shared_choice_def shared_start j)
  qed
  show "bij_betw (\<lambda>j. fst (the (fst (shared_choice g p t ncs (seq + of_nat j))))) {..< length ncs} {..< length ncs}"
    using rotation_bij [of "unat seq" "length ncs"] by (rule bij_betw_cong [THEN iffD1, rotated]) (simp add: idx)
qed

theorem shared_choice_round_robin_witness:
  "fst (shared_choice ''g'' subscriber ''a'' [(1, ''c1'', subscription_options_mqtt_default, None, Some False),
     (1, ''c2'', subscription_options_mqtt_default, None, Some True)] 4) = Some (1, True)"
proof -
  let ?ncs = "[(1, ''c1'', subscription_options_mqtt_default, None, Some False), (1, ''c2'', subscription_options_mqtt_default, None, Some True)] :: candidate list"
  have "unat (4 :: u64) + length ?ncs < 2 ^ 64" by simp
  from shared_choice_round_robin [OF _ this, of "''g''" subscriber "''a''"] obtain idx b where
    "shared_choice ''g'' subscriber ''a'' ?ncs 4 = (Some (idx, b), 4 + 1)" "idx < length ?ncs" "b = (online_of (?ncs ! idx) = Some True)"
    "b \<or> (\<forall>c \<in> set ?ncs. online_of c \<noteq> Some True)" by blast
  then show ?thesis by (auto simp: less_Suc_eq)
qed

section \<open>Two tasks\<close>

text \<open>
  \<^verbatim>\<open>remove\<close> decides that a filter has no subscribers left under the lock of its entry and deletes the entry
  after releasing it.  A subscription to the same filter between the two is deleted with it.
\<close>

lemma remove_races_with_add:
  assumes "router_shape r" and "map_of (relations r) tf = Some [(id_client_id i, i, opts)]" and "id_client_id j \<noteq> id_client_id i"
  shows "let (res, r1) = remove_relation tf i r; (_, r2) = router_add tf j opts' r1; (_, r3) = remove_filter tf r2 in
    res = Some (True, True) \<and> subscription r2 tf (id_client_id j) = Some (j, opts') \<and> subscription r3 tf (id_client_id j) = None"
proof -
  obtain t where "topic_from_str tf = Ok t" using router_shapeD(3) [OF assms(1, 2)] by blast
  with assms(2, 3) show ?thesis
    by (simp add: remove_relation_def router_add_def remove_filter_def subscription_def update_conv' map_of_delete Let_def)
qed

end
