(* ===== verification/Retain.thy ===== *)
theory Retain
  imports Trie Counter Broker_Types
begin

text \<open>
  Retained messages (\<^verbatim>\<open>retain.rs\<close>): the tree that maps topic names to values, the matching of a filter
  against the stored names, and the in-memory storage with expiry and statistics.
\<close>

section \<open>Values with a deadline (types.rs)\<close>

text \<open>\<^verbatim>\<open>Instant\<close> and \<^verbatim>\<open>Duration\<close> are natural numbers; the clock is an argument of every operation that reads it.\<close>

datatype 'v timed_value = TimedValue (tv_value: 'v) (tv_deadline: "nat option")

definition timed_new :: "nat \<Rightarrow> 'v \<Rightarrow> nat option \<Rightarrow> 'v timed_value" where
  "timed_new now v timeout = TimedValue v (map_option (\<lambda>t. now + t) timeout)"

definition is_expired :: "nat \<Rightarrow> 'v timed_value \<Rightarrow> bool" where
  "is_expired now tv = (case tv_deadline tv of Some e \<Rightarrow> e \<le> now | None \<Rightarrow> False)"

definition tv_remaining :: "nat \<Rightarrow> 'v timed_value \<Rightarrow> nat option" where
  "tv_remaining now tv = (case tv_deadline tv of
       Some d \<Rightarrow> if now < d then Some (d - now) else None
     | None \<Rightarrow> None)"

section \<open>The tree\<close>

datatype 'v rnode = RNode (rvalue: "'v option") (rbranches: "(level \<times> 'v rnode) list")

definition rnode_default :: "'v rnode" where
  "rnode_default = RNode None []"

function rinsert_path :: "level list \<Rightarrow> 'v \<Rightarrow> 'v rnode \<Rightarrow> 'v rnode" where
  "rinsert_path path value (RNode v bs) =
     (if path \<noteq> [] then
        let first = last path
        in RNode v (AList.update first (rinsert_path (butlast path) value
             (case map_of bs first of Some n \<Rightarrow> n | None \<Rightarrow> rnode_default)) bs)
      else RNode (Some value) bs)"
  by pat_completeness auto
termination
  by (relation "measure (\<lambda>(path, _, _). length path)") auto

declare rinsert_path.simps [simp del]

definition rinsert :: "topic \<Rightarrow> 'v \<Rightarrow> 'v rnode \<Rightarrow> 'v rnode" where
  "rinsert t value self = rinsert_path (rev t) value self"

fun rremove :: "level list \<Rightarrow> 'v rnode \<Rightarrow> 'v option \<times> 'v rnode" where
  "rremove [] (RNode v bs) = (v, RNode None bs)"
| "rremove (t # path) (RNode v bs) = (case map_of bs t of
       Some x \<Rightarrow>
         let (res, x') = rremove path x
         in (res, RNode v (if rvalue x' = None \<and> rbranches x' = [] then AList.delete t bs
                           else AList.update t x' bs))
     | None \<Rightarrow> (None, RNode v bs))"

text \<open>
  \<^verbatim>\<open>_retain\<close> with the closure as a function that reads a value and a captured state; the children are
  visited in the iteration order of the map, threading the state and the number of removals.
\<close>

definition retain_value :: "('v \<Rightarrow> 's \<Rightarrow> bool \<times> 's) \<Rightarrow> 'v rnode \<times> 's \<times> nat \<Rightarrow> 'v rnode \<times> 's \<times> nat" where
  "retain_value f x = (case x of (n, s, removeds) \<Rightarrow>
     (case rvalue n of
        Some v \<Rightarrow> let (keep, s') = f v s
                  in if \<not> keep then (RNode None (rbranches n), s', removeds + 1) else (n, s', removeds)
      | None \<Rightarrow> (n, s, removeds)))"

function rretain :: "('v \<Rightarrow> 's \<Rightarrow> bool \<times> 's) \<Rightarrow> nat \<Rightarrow> 'v rnode \<Rightarrow> 's \<Rightarrow> nat \<Rightarrow> 'v rnode \<times> 's \<times> nat"
  and retain_branches :: "('v \<Rightarrow> 's \<Rightarrow> bool \<times> 's) \<Rightarrow> nat \<Rightarrow> (level \<times> 'v rnode) list \<Rightarrow> 's \<Rightarrow> nat
    \<Rightarrow> (level \<times> 'v rnode) list \<times> 's \<times> nat" where
  "rretain f max_limit (RNode v bs) s removeds =
     (if max_limit \<le> removeds then (RNode v bs, s, removeds)
      else let (bs', s', r') = retain_branches f max_limit bs s removeds in (RNode v bs', s', r'))"
| "retain_branches f max_limit [] s removeds = ([], s, removeds)"
| "retain_branches f max_limit ((k, c) # bs) s removeds =
     (let (c', s', r') = retain_value f (rretain f max_limit c s removeds);
          (bs', s'', r'') = retain_branches f max_limit bs s' r'
      in (if rvalue c' = None \<and> rbranches c' = [] then bs' else (k, c') # bs', s'', r''))"
  by pat_completeness auto
termination
  by (relation "measure (\<lambda>x. case x of Inl (f, m, n, s, r) \<Rightarrow> size n
        | Inr (f, m, bs, s, r) \<Rightarrow> size_list (size_prod (\<lambda>_. 0) size) bs)") auto

definition retain_tree :: "nat \<Rightarrow> ('v \<Rightarrow> 's \<Rightarrow> bool \<times> 's) \<Rightarrow> 'v rnode \<Rightarrow> 's \<Rightarrow> nat \<times> 'v rnode \<times> 's" where
  "retain_tree max_limit f self s = (let (n, s', removeds) = rretain f max_limit self s 0 in (removeds, n, s'))"

text \<open>\<^verbatim>\<open>add_to_out\<close> of the value of a node, if it has one.\<close>

definition own_value :: "'v rnode \<Rightarrow> level list \<Rightarrow> (topic \<times> 'v) list" where
  "own_value n sp = (case rvalue n of Some v \<Rightarrow> [(sp, v)] | None \<Rightarrow> [])"

text \<open>\<^verbatim>\<open>#\<close> in the next position matches the parent.\<close>

definition parent_value :: "level list \<Rightarrow> 'v rnode \<Rightarrow> level list \<Rightarrow> (topic \<times> 'v) list" where
  "parent_value path n sp = (if 1 < length path \<and> path ! 1 = MultiWildcard then own_value n sp else [])"

definition isolated_key :: "level list \<Rightarrow> level \<Rightarrow> bool" where
  "isolated_key sp k \<longleftrightarrow> sp = [] \<and> k \<noteq> Blank \<and> is_metadata k"

text \<open>
  The loop over the branches that skips, at the root, the keys that start with \<^verbatim>\<open>$\<close>.
\<close>

definition for_branches :: "level list \<Rightarrow> (level \<Rightarrow> 'v rnode \<Rightarrow> (topic \<times> 'v) list)
    \<Rightarrow> (level \<times> 'v rnode) list \<Rightarrow> (topic \<times> 'v) list" where
  "for_branches sp h bs = concat (map (\<lambda>(k, v). if isolated_key sp k then [] else h k v) bs)"

lemma for_branches_cong [fundef_cong]:
  "bs = bs' \<Longrightarrow> (\<And>k v. (k, v) \<in> set bs' \<Longrightarrow> h k v = h' k v) \<Longrightarrow> for_branches sp h bs = for_branches sp h' bs'"
  by (auto simp: for_branches_def intro!: arg_cong [where f = concat])

lemma map_of_rnode_size: "map_of bs l = Some n \<Longrightarrow> size n < size (RNode v bs)"
  by (induction bs) (auto split: if_splits)

lemma set_rnode_size: "(k, n) \<in> set bs \<Longrightarrow> size n < size (RNode v bs)"
  by (induction bs) auto

function rmatches :: "'v rnode \<Rightarrow> level list \<Rightarrow> level list \<Rightarrow> (topic \<times> 'v) list" where
  "rmatches (RNode val bs) path sp =
     (if bs = [] \<or> path = [] then
        if path = [] then own_value (RNode val bs) sp else []
      else case map_of bs (hd path) of
          Some r \<Rightarrow>
            parent_value path r (sp @ [hd path]) @ rmatches r (tl path) (sp @ [hd path])
        | None \<Rightarrow>
            if hd path = SingleWildcard then
              for_branches sp (\<lambda>k v.
                parent_value path v (sp @ [k]) @ rmatches v (tl path) (sp @ [k])) bs
            else if hd path = MultiWildcard then
              for_branches sp (\<lambda>k v.
                if rbranches v = [] then own_value v (sp @ [k])
                else own_value v (sp @ [k]) @ rmatches v path (sp @ [k])) bs
            else [])"
  by pat_completeness auto
termination
  by (relation "measure (\<lambda>(n, _, _). size n)") (auto dest: map_of_rnode_size set_rnode_size)

declare rmatches.simps [simp del]

fun rvalues_size :: "'v rnode \<Rightarrow> nat" where
  "rvalues_size (RNode v bs) = (let len = sum_list (map (\<lambda>(_, n). rvalues_size n) bs)
     in if v \<noteq> None then len + 1 else len)"

fun rnodes_size :: "'v rnode \<Rightarrow> nat" where
  "rnodes_size (RNode v bs) = length bs + sum_list (map (\<lambda>(_, n). rnodes_size n) bs)"

section \<open>The in-memory storage\<close>

type_synonym msg_id = nat

record retain =
  rt_msg_id :: "msg_id option"
  rt_from :: msg_from
  rt_publish :: mpublish

record retain_storage =
  messages :: "retain timed_value rnode"
  retaineds :: counter

definition storage_new :: "retain_storage" where
  "storage_new = \<lparr>messages = rnode_default, retaineds = counter_new\<rparr>"

definition remove_expired_messages :: "nat \<Rightarrow> nat \<Rightarrow> retain_storage \<Rightarrow> nat \<times> retain_storage" where
  "remove_expired_messages usize_max now st =
     (case retain_tree usize_max (\<lambda>tv c. if is_expired now tv then (False, dec c) else (True, c))
             (messages st) (retaineds st) of
        (removeds, n, c) \<Rightarrow> (removeds, st\<lparr>messages := n, retaineds := c\<rparr>))"

definition set_with_timeout :: "nat \<Rightarrow> string \<Rightarrow> retain \<Rightarrow> nat option \<Rightarrow> retain_storage
    \<Rightarrow> (unit, topic_error) res \<times> retain_storage" where
  "set_with_timeout now topic retain timeout st = (case topic_from_str topic of
       Ok t \<Rightarrow>
         let (old, msgs) = rremove t (messages st) in
         if pub_payload (mp_inner (rt_publish retain)) \<noteq> [] then
           (Ok (), st\<lparr>messages := rinsert t (timed_new now retain timeout) msgs,
              retaineds := (if old = None then inc (retaineds st) else retaineds st)\<rparr>)
         else (Ok (), st\<lparr>messages := msgs,
              retaineds := (if old \<noteq> None then dec (retaineds st) else retaineds st)\<rparr>)
     | Err e \<Rightarrow> (Err e, st)
     | Panic \<Rightarrow> (Panic, st))"

definition get_message :: "nat \<Rightarrow> string \<Rightarrow> retain_storage \<Rightarrow> ((string \<times> retain) list, topic_error) res" where
  "get_message now topic_filter st = bind_res (topic_from_str topic_filter) (\<lambda>t.
     Ok (List.map_filter (\<lambda>(t, r). if is_expired now r then None else Some (topic_to_string t, tv_value r))
       (rmatches (messages st) t [])))"

definition get_all_paginated :: "nat \<Rightarrow> nat \<Rightarrow> nat \<Rightarrow> retain_storage
    \<Rightarrow> ((string \<times> retain \<times> nat option) list \<times> bool, topic_error) res" where
  "get_all_paginated now offset limit st = bind_res (topic_from_str ''#'') (\<lambda>t.
     let all = List.map_filter (\<lambda>(t, tv). if is_expired now tv then None
                 else Some (topic_to_string t, tv_value tv, tv_remaining now tv)) (rmatches (messages st) t [])
     in Ok (take limit (drop offset all), offset + limit < length all))"

section \<open>The tree as a map from topics to values\<close>

fun rlookup :: "level list \<Rightarrow> 'v rnode \<Rightarrow> 'v option" where
  "rlookup [] (RNode v bs) = v"
| "rlookup (l # p) (RNode v bs) = (case map_of bs l of None \<Rightarrow> None | Some n \<Rightarrow> rlookup p n)"

fun rinv :: "'v rnode \<Rightarrow> bool" where
  "rinv (RNode v bs) \<longleftrightarrow> distinct (map fst bs) \<and> list_all (\<lambda>(l, n). rinv n \<and> n \<noteq> RNode None []) bs"

text \<open>Only topic names are stored: no key is a wildcard.\<close>

fun rnames :: "'v rnode \<Rightarrow> bool" where
  "rnames (RNode v bs) \<longleftrightarrow> list_all (\<lambda>(l, n). \<not> is_wildcard l \<and> rnames n) bs"

lemma rlookup_Nil [simp]: "rlookup [] n = rvalue n"
  by (cases n) simp

lemma rlookup_empty [simp]: "rlookup p (RNode None []) = None" "rlookup p rnode_default = None"
  by (cases p; simp add: rnode_default_def)+

lemma rnode_default_inv [simp]: "rinv rnode_default" "rnames rnode_default"
  by (simp_all add: rnode_default_def)

lemma rinsert_Nil [simp]: "rinsert [] v (RNode u bs) = RNode (Some v) bs"
  by (simp add: rinsert_def rinsert_path.simps)

lemma rinsert_Cons [simp]:
  "rinsert (l # p) v (RNode u bs) =
     RNode u (AList.update l (rinsert p v (case map_of bs l of Some n \<Rightarrow> n | None \<Rightarrow> rnode_default)) bs)"
  by (simp add: rinsert_def rinsert_path.simps)

lemma rlookup_rinsert: "rlookup q (rinsert p v n) = (if q = p then Some v else rlookup q n)"
proof (induction p arbitrary: q n)
  case Nil
  then show ?case by (cases n; cases q) auto
next
  case (Cons l p)
  then show ?case by (cases n; cases q) (auto simp: update_conv' split: option.splits)
qed

lemma rremove_result: "fst (rremove p n) = rlookup p n"
  by (induction p n rule: rremove.induct) (auto simp: split_beta Let_def split: option.splits)

lemma rlookup_rremove: "rlookup q (snd (rremove p n)) = (if q = p then None else rlookup q n)"
proof (induction p arbitrary: q n)
  case Nil
  then show ?case by (cases n; cases q) auto
next
  case (Cons l p)
  obtain v bs where n: "n = RNode v bs" by (cases n)
  show ?case
  proof (cases "map_of bs l")
    case None
    with n show ?thesis by (cases q) auto
  next
    case (Some x)
    let ?x = "snd (rremove p x)"
    have e: "rlookup q' ?x = None" if "rvalue ?x = None \<and> rbranches ?x = []" for q'
      using that by (cases ?x) simp
    have "rlookup (l # q') (snd (rremove (l # p) n)) = rlookup q' ?x" for q'
      using Some n e by (auto simp: update_conv' delete_conv' split_beta Let_def)
    moreover have "rlookup (k # q') (snd (rremove (l # p) n)) = rlookup (k # q') n" if "k \<noteq> l" for k q'
      using that Some n by (auto simp: update_conv' delete_conv' split_beta Let_def)
    ultimately show ?thesis
      using Some n Cons.IH [of _ x] by (cases q) (fastforce simp: split_beta Let_def)+
  qed
qed

lemma update_not_Nil: "AList.update k x xs \<noteq> []"
  by (cases xs) auto

lemma rinsert_not_empty: "rinsert p v n \<noteq> RNode None []"
  by (cases n; cases p) (auto simp: update_not_Nil)

lemma rinsert_inv: "rinv n \<Longrightarrow> rinv (rinsert p v n)"
proof (induction p arbitrary: n)
  case (Cons l p)
  obtain u bs where n: "n = RNode u bs" by (cases n)
  have "rinv (case map_of bs l of Some n \<Rightarrow> n | None \<Rightarrow> rnode_default)"
    using Cons.prems n by (auto dest: list_all_map_of split: option.splits)
  from Cons.IH [OF this] show ?case
    using Cons.prems n by (auto simp: distinct_update rinsert_not_empty intro!: list_all_update)
qed (auto elim: rinv.elims)

lemma rinsert_names: "rnames n \<Longrightarrow> topic_name p \<Longrightarrow> rnames (rinsert p v n)"
proof (induction p arbitrary: n)
  case (Cons l p)
  obtain u bs where n: "n = RNode u bs" by (cases n)
  have "rnames (case map_of bs l of Some n \<Rightarrow> n | None \<Rightarrow> rnode_default)"
    using Cons.prems n by (auto dest: list_all_map_of split: option.splits)
  with Cons n show ?case by (auto simp: topic_name_def intro!: list_all_update)
qed (auto elim: rnames.elims)

lemma rremove_inv: "rinv n \<Longrightarrow> rinv (snd (rremove p n))"
proof (induction p n rule: rremove.induct)
  case (2 t path v bs)
  show ?case
  proof (cases "map_of bs t")
    case (Some x)
    with 2 have "rinv (snd (rremove path x))"
      by (auto dest: list_all_map_of)
    moreover have "snd (rremove path x) \<noteq> RNode None []"
      if "\<not> (rvalue (snd (rremove path x)) = None \<and> rbranches (snd (rremove path x)) = [])"
      using that by auto
    ultimately show ?thesis
      using Some 2 by (auto simp: split_beta Let_def distinct_update distinct_delete
          intro!: list_all_update list_all_delete)
  qed (use 2 in simp)
qed simp

lemma rremove_names: "rnames n \<Longrightarrow> rnames (snd (rremove p n))"
proof (induction p n rule: rremove.induct)
  case (2 t path v bs)
  show ?case
  proof (cases "map_of bs t")
    case (Some x)
    with 2 have "rnames (snd (rremove path x))" "\<not> is_wildcard t"
      by (auto dest: list_all_map_of)
    then show ?thesis
      using Some 2 by (auto simp: split_beta Let_def intro!: list_all_update list_all_delete)
  qed (use 2 in simp)
qed simp

section \<open>Sizes\<close>

lemma rvalues_size_update:
  assumes "distinct (map fst bs)"
  shows "sum_list (map (\<lambda>(_, n). rvalues_size n) (AList.update l x bs))
      + (case map_of bs l of Some n \<Rightarrow> rvalues_size n | None \<Rightarrow> 0)
    = sum_list (map (\<lambda>(_, n). rvalues_size n) bs) + rvalues_size x"
  using assms by (induction bs) (auto split: option.splits dest: map_of_SomeD simp: image_iff)

lemma rvalues_size_delete:
  fixes bs :: "(level \<times> 'v rnode) list"
  assumes "distinct (map fst bs)"
  shows "sum_list (map (\<lambda>(_, n). rvalues_size n) (AList.delete l bs))
      + (case map_of bs l of Some n \<Rightarrow> rvalues_size n | None \<Rightarrow> 0)
    = sum_list (map (\<lambda>(_, n). rvalues_size n) bs)"
proof -
  have "AList.delete l bs = bs" if "l \<notin> fst ` set bs" for bs :: "(level \<times> 'v rnode) list"
    using that by (simp add: AList.delete_eq filter_id_conv) force
  then show ?thesis
    using assms by (induction bs) (auto split: option.splits dest: map_of_SomeD simp: image_iff)
qed

lemma rinsert_size:
  "rinv n \<Longrightarrow> rvalues_size (rinsert p v n) = rvalues_size n + (if rlookup p n = None then 1 else 0)"
proof (induction p arbitrary: n)
  case Nil
  then show ?case by (cases n) (auto simp: Let_def)
next
  case (Cons l p)
  obtain u bs where n: "n = RNode u bs" by (cases n)
  let ?c = "case map_of bs l of Some n \<Rightarrow> n | None \<Rightarrow> rnode_default"
  have c: "rinv ?c"
    using Cons.prems n by (auto dest: list_all_map_of split: option.splits)
  have "rvalues_size ?c = (case map_of bs l of Some n \<Rightarrow> rvalues_size n | None \<Rightarrow> 0)"
    by (simp add: rnode_default_def split: option.splits)
  moreover have "rlookup p ?c = rlookup (l # p) n"
    using n by (simp split: option.splits)
  ultimately show ?case
    using Cons.IH [OF c] Cons.prems n rvalues_size_update [of bs l "rinsert p v ?c"]
    by (simp add: Let_def)
qed

lemma rremove_size:
  "rinv n \<Longrightarrow> rvalues_size n = rvalues_size (snd (rremove p n)) + (if rlookup p n = None then 0 else 1)"
proof (induction p arbitrary: n)
  case Nil
  then show ?case by (cases n) (auto simp: Let_def)
next
  case (Cons l p)
  obtain v bs where n: "n = RNode v bs" by (cases n)
  show ?case
  proof (cases "map_of bs l")
    case (Some x)
    let ?x = "snd (rremove p x)"
    have e: "rvalues_size ?x = 0" if "rvalue ?x = None \<and> rbranches ?x = []"
      using that by (cases ?x) simp
    have "rinv x" "distinct (map fst bs)"
      using Cons.prems n Some by (auto dest: list_all_map_of)
    with Cons.IH [of x] n Some e rvalues_size_update [of bs l ?x] rvalues_size_delete [of bs l]
    show ?thesis by (auto simp: split_beta Let_def)
  qed (use n in simp)
qed

section \<open>Matching a filter against the stored names\<close>

fun hash_last :: "level list \<Rightarrow> bool" where
  "hash_last [] = True"
| "hash_last (MultiWildcard # f) = (f = [])"
| "hash_last (_ # f) = hash_last f"

lemma well_placed_hash_last: "well_placed f \<Longrightarrow> hash_last f"
  by (induction f rule: well_placed.induct) auto

lemma well_placed_topic_hash_last: "well_placed_topic f \<Longrightarrow> hash_last f"
  by (auto simp: well_placed_topic_def split: list.splits level.splits intro: well_placed_hash_last)

text \<open>What a call below a prefix contributes: for a filter \<^verbatim>\<open>#\<close> the value of the node itself is added by the caller.\<close>

definition contributes :: "level list \<Rightarrow> level list \<Rightarrow> level list \<Rightarrow> bool" where
  "contributes f sp g \<longleftrightarrow> filter_matches f g \<and> \<not> (sp = [] \<and> dollar_isolated f g)
     \<and> (f = [MultiWildcard] \<longrightarrow> g \<noteq> [])"

lemma own_value_iff: "(t, v) \<in> set (own_value n sp) \<longleftrightarrow> t = sp \<and> rlookup [] n = Some v"
  by (auto simp: own_value_def split: option.splits)

lemma parent_value_iff:
  "(t, v) \<in> set (parent_value (l # f) n sp) \<longleftrightarrow>
     (\<exists>f'. f = MultiWildcard # f') \<and> t = sp \<and> rlookup [] n = Some v"
  by (cases f) (auto simp: parent_value_def own_value_iff)

text \<open>The values found below one child, with and without the rule that \<^verbatim>\<open>#\<close> matches the parent.\<close>

lemma child_contribution:
  assumes "hash_last (l # f)" and "l \<noteq> MultiWildcard"
    and "(t, v) \<in> set (rmatches c f (sp @ [k])) \<longleftrightarrow>
      (\<exists>g. t = (sp @ [k]) @ g \<and> rlookup g c = Some v \<and> contributes f (sp @ [k]) g)"
  shows "(t, v) \<in> set (parent_value (l # f) c (sp @ [k]) @ rmatches c f (sp @ [k])) \<longleftrightarrow>
    (\<exists>g. t = sp @ k # g \<and> rlookup g c = Some v \<and> filter_matches f g)"
proof -
  have f: "(\<exists>f'. f = MultiWildcard # f') \<longleftrightarrow> f = [MultiWildcard]"
    using assms(1,2) by (cases l; cases f rule: hash_last.cases) auto
  have c: "contributes f (sp @ [k]) g \<longleftrightarrow> filter_matches f g \<and> (f = [MultiWildcard] \<longrightarrow> g \<noteq> [])" for g
    by (auto simp: contributes_def)
  show ?thesis
    unfolding set_append Un_iff parent_value_iff assms(3) c f
    by (cases "f = [MultiWildcard]") auto
qed

lemma filter_matches_Cons:
  "l \<noteq> MultiWildcard \<Longrightarrow>
   filter_matches (l # f) g \<longleftrightarrow> (\<exists>k g'. g = k # g' \<and> (l = SingleWildcard \<or> l = k) \<and> filter_matches f g')"
  by (cases l) (auto split: list.splits)

lemma rlookup_Cons: "rlookup (k # g) (RNode v bs) = Some x \<longleftrightarrow> (\<exists>c. map_of bs k = Some c \<and> rlookup g c = Some x)"
  by (auto split: option.splits)

lemma contributes_Cons:
  "contributes (l # f) sp (k # g) \<longleftrightarrow> filter_matches (l # f) (k # g)
     \<and> \<not> (sp = [] \<and> is_wildcard l \<and> is_metadata k)"
  by (auto simp: contributes_def dollar_isolated_def)

lemma set_for_branches:
  "x \<in> set (for_branches sp h bs) \<longleftrightarrow> (\<exists>k c. (k, c) \<in> set bs \<and> \<not> isolated_key sp k \<and> x \<in> set (h k c))"
  unfolding for_branches_def by (induction bs) auto

text \<open>The three branches of the matching function, given what the recursive calls deliver.\<close>

lemma rmatches_exact:
  assumes "map_of bs l = Some r" and "\<not> is_wildcard l" and "hash_last f"
    and "(t, v) \<in> set (rmatches r f (sp @ [l])) \<longleftrightarrow>
      (\<exists>g. t = (sp @ [l]) @ g \<and> rlookup g r = Some v \<and> contributes f (sp @ [l]) g)"
  shows "(t, v) \<in> set (rmatches (RNode val bs) (l # f) sp) \<longleftrightarrow>
    (\<exists>g. t = sp @ g \<and> rlookup g (RNode val bs) = Some v \<and> contributes (l # f) sp g)"
proof -
  have l: "l \<noteq> MultiWildcard" "l \<noteq> SingleWildcard" and "bs \<noteq> []"
    using assms(1,2) by (auto simp: is_wildcard_def)
  then have "hash_last (l # f)"
    using assms(3) by (cases l) auto
  have "(t, v) \<in> set (rmatches (RNode val bs) (l # f) sp) \<longleftrightarrow>
      (t, v) \<in> set (parent_value (l # f) r (sp @ [l]) @ rmatches r f (sp @ [l]))"
    using assms(1) \<open>bs \<noteq> []\<close> by (simp add: rmatches.simps)
  also have "\<dots> \<longleftrightarrow> (\<exists>g. t = sp @ l # g \<and> rlookup g r = Some v \<and> filter_matches f g)"
    by (rule child_contribution) fact+
  also have "\<dots> \<longleftrightarrow> (\<exists>g. t = sp @ g \<and> rlookup g (RNode val bs) = Some v \<and> contributes (l # f) sp g)"
    using l assms(1) by (auto simp: contributes_def filter_matches_Cons dollar_isolated_def is_wildcard_def)
  finally show ?thesis .
qed

lemma rmatches_single:
  assumes "distinct (map fst bs)" and "map_of bs SingleWildcard = None" and "hash_last f"
    and IH: "\<And>k c. map_of bs k = Some c \<Longrightarrow> (t, v) \<in> set (rmatches c f (sp @ [k])) \<longleftrightarrow>
      (\<exists>g. t = (sp @ [k]) @ g \<and> rlookup g c = Some v \<and> contributes f (sp @ [k]) g)"
  shows "(t, v) \<in> set (rmatches (RNode val bs) (SingleWildcard # f) sp) \<longleftrightarrow>
    (\<exists>g. t = sp @ g \<and> rlookup g (RNode val bs) = Some v \<and> contributes (SingleWildcard # f) sp g)"
proof -
  have mem: "(k, c) \<in> set bs \<longleftrightarrow> map_of bs k = Some c" for k c
    using assms(1) by simp
  have "(t, v) \<in> set (rmatches (RNode val bs) (SingleWildcard # f) sp) \<longleftrightarrow>
      (\<exists>k c. map_of bs k = Some c \<and> \<not> isolated_key sp k
        \<and> (t, v) \<in> set (parent_value (SingleWildcard # f) c (sp @ [k]) @ rmatches c f (sp @ [k])))"
    using assms(2) mem by (simp add: rmatches.simps set_for_branches)
  also have "\<dots> \<longleftrightarrow> (\<exists>k c. map_of bs k = Some c \<and> \<not> isolated_key sp k
        \<and> (\<exists>g. t = sp @ k # g \<and> rlookup g c = Some v \<and> filter_matches f g))"
    using assms(3) by (intro ex_cong1 conj_cong refl child_contribution IH) auto
  also have "\<dots> \<longleftrightarrow> (\<exists>g. t = sp @ g \<and> rlookup g (RNode val bs) = Some v \<and> contributes (SingleWildcard # f) sp g)"
  proof -
    have "contributes (SingleWildcard # f) sp g \<longleftrightarrow>
        (\<exists>k g'. g = k # g' \<and> \<not> isolated_key sp k \<and> filter_matches f g')" for g
      by (cases g) (auto simp: contributes_def dollar_isolated_def isolated_key_def is_wildcard_def)
    then show ?thesis by (auto split: option.splits)
  qed
  finally show ?thesis .
qed

lemma rmatches_multi:
  assumes "distinct (map fst bs)" and "map_of bs MultiWildcard = None"
    and IH: "\<And>k c. map_of bs k = Some c \<Longrightarrow> rbranches c \<noteq> [] \<Longrightarrow>
      (t, v) \<in> set (rmatches c [MultiWildcard] (sp @ [k])) \<longleftrightarrow>
      (\<exists>g. t = (sp @ [k]) @ g \<and> rlookup g c = Some v \<and> contributes [MultiWildcard] (sp @ [k]) g)"
  shows "(t, v) \<in> set (rmatches (RNode val bs) [MultiWildcard] sp) \<longleftrightarrow>
    (\<exists>g. t = sp @ g \<and> rlookup g (RNode val bs) = Some v \<and> contributes [MultiWildcard] sp g)"
proof -
  let ?out = "\<lambda>k c. if rbranches c = [] then own_value c (sp @ [k])
    else own_value c (sp @ [k]) @ rmatches c [MultiWildcard] (sp @ [k])"
  have mem: "(k, c) \<in> set bs \<longleftrightarrow> map_of bs k = Some c" for k c
    using assms(1) by simp
  have "(t, v) \<in> set (rmatches (RNode val bs) [MultiWildcard] sp) \<longleftrightarrow>
      (\<exists>k c. map_of bs k = Some c \<and> \<not> isolated_key sp k \<and> (t, v) \<in> set (?out k c))"
    using assms(2) mem by (simp add: rmatches.simps set_for_branches)
  also have "\<dots> \<longleftrightarrow> (\<exists>k c. map_of bs k = Some c \<and> \<not> isolated_key sp k
        \<and> (\<exists>g. t = sp @ k # g \<and> rlookup g c = Some v))"
  proof (intro ex_cong1 conj_cong refl)
    fix k c
    assume k: "map_of bs k = Some c"
    show "(t, v) \<in> set (?out k c) \<longleftrightarrow> (\<exists>g. t = sp @ k # g \<and> rlookup g c = Some v)"
    proof (cases "rbranches c = []")
      case True
      then have "rlookup g c = Some v \<longleftrightarrow> g = [] \<and> rvalue c = Some v" for g
        by (cases c; cases g) auto
      with True show ?thesis by (auto simp: own_value_iff)
    next
      case False
      with IH [OF k False] show ?thesis
        by (auto simp: own_value_iff contributes_def)
    qed
  qed
  also have "\<dots> \<longleftrightarrow> (\<exists>g. t = sp @ g \<and> rlookup g (RNode val bs) = Some v \<and> contributes [MultiWildcard] sp g)"
  proof -
    have "contributes [MultiWildcard] sp g \<longleftrightarrow> (\<exists>k g'. g = k # g' \<and> \<not> isolated_key sp k)" for g
      by (cases g) (auto simp: contributes_def dollar_isolated_def isolated_key_def is_wildcard_def)
    then show ?thesis by (auto split: option.splits)
  qed
  finally show ?thesis .
qed

lemma rmatches_iff:
  assumes "rinv n" and "rnames n" and "hash_last f"
  shows "(t, v) \<in> set (rmatches n f sp) \<longleftrightarrow>
    (\<exists>g. t = sp @ g \<and> rlookup g n = Some v \<and> contributes f sp g)"
  using assms
proof (induction n arbitrary: f sp)
  case (RNode val bs)
  have sub: "rinv c \<and> rnames c \<and> \<not> is_wildcard k" if "map_of bs k = Some c" for k c
    using that RNode.prems by (auto dest: list_all_map_of)
  have IH: "(t, v) \<in> set (rmatches c f' sp') \<longleftrightarrow>
      (\<exists>g. t = sp' @ g \<and> rlookup g c = Some v \<and> contributes f' sp' g)"
    if "map_of bs k = Some c" "hash_last f'" for k c f' sp'
    using that sub [OF that(1)] by (intro RNode.IH [of "(k, c)" c]) (auto dest: map_of_SomeD)
  have d: "distinct (map fst bs)"
    using RNode.prems by simp
  have none: "map_of bs l = None" if "is_wildcard l" for l
    using sub [of l] that by (cases "map_of bs l") auto
  consider (nil) "f = []" | (single) f' where "f = SingleWildcard # f'" "hash_last f'"
    | (multi) "f = [MultiWildcard]" | (exact) l f' where "f = l # f'" "\<not> is_wildcard l" "hash_last f'"
    using RNode.prems(3) by (cases f rule: hash_last.cases) (auto simp: is_wildcard_def)
  then show ?case
  proof cases
    case nil
    then show ?thesis
      by (auto simp: rmatches.simps own_value_iff contributes_def dollar_isolated_def)
  next
    case single
    show ?thesis
      unfolding single(1)
      by (rule rmatches_single [OF d none single(2) IH [OF _ single(2)]]) (simp add: is_wildcard_def)
  next
    case multi
    show ?thesis
      unfolding multi by (rule rmatches_multi [OF d none IH]) (simp_all add: is_wildcard_def)
  next
    case exact
    show ?thesis
    proof (cases "map_of bs l")
      case (Some r)
      show ?thesis
        unfolding exact(1) by (rule rmatches_exact [OF Some exact(2,3) IH [OF Some exact(3)]])
    next
      case None
      with exact show ?thesis
        by (auto simp: rmatches.simps contributes_def filter_matches_Cons is_wildcard_def)
    qed
  qed
qed

lemma distinct_for_branches:
  assumes "distinct (map fst bs)"
    and "\<And>k c. (k, c) \<in> set bs \<Longrightarrow> distinct (map fst (h k c))"
    and "\<And>k c t v. (k, c) \<in> set bs \<Longrightarrow> (t, v) \<in> set (h k c) \<Longrightarrow> \<exists>g. t = sp @ k # g"
  shows "distinct (map fst (for_branches sp h bs))"
  using assms
proof (induction bs)
  case (Cons b bs)
  obtain k c where b: "b = (k, c)" by (cases b)
  have "fst ` set (h k c) \<inter> fst ` set (for_branches sp h bs) = {}"
  proof (rule disjointI)
    fix t
    assume "t \<in> fst ` set (h k c)" and "t \<in> fst ` set (for_branches sp h bs)"
    then obtain v v' k' c' where t: "(t, v) \<in> set (h k c)" "(k', c') \<in> set bs" "(t, v') \<in> set (h k' c')"
      by (auto simp: set_for_branches)
    obtain g where "t = sp @ k # g"
      using Cons.prems(3) [of k c t v] t(1) b by auto
    moreover obtain g' where "t = sp @ k' # g'"
      using Cons.prems(3) [of k' c' t v'] t(2,3) by auto
    ultimately have "k = k'" by simp
    with t(2) Cons.prems(1) b show False by force
  qed
  moreover have "distinct (map fst (for_branches sp h bs))"
  proof (rule Cons.IH)
    show "\<exists>g. t = sp @ k # g" if "(k, c) \<in> set bs" "(t, v) \<in> set (h k c)" for k c t v
      using Cons.prems(3) [OF _ that(2)] that(1) by simp
  qed (use Cons.prems in auto)
  ultimately show ?case
    using Cons.prems(2) [of k c] b by (auto simp: for_branches_def simp del: Int_iff)
qed (simp add: for_branches_def)

lemma distinct_own_value: "distinct (map fst (own_value n sp))"
  by (simp add: own_value_def split: option.splits)

lemma distinct_parent_rmatches:
  assumes "rinv c" and "rnames c" and "hash_last f" and "distinct (map fst (rmatches c f sp))"
    and "l \<noteq> MultiWildcard" and "hash_last (l # f)"
  shows "distinct (map fst (parent_value (l # f) c sp @ rmatches c f sp))"
proof (cases "\<exists>f'. f = MultiWildcard # f'")
  case True
  with assms(3) have f: "f = [MultiWildcard]" by auto
  have "sp \<notin> fst ` set (rmatches c f sp)"
    using assms(1-3) f by (auto simp: rmatches_iff contributes_def)
  moreover have "fst ` set (own_value c sp) \<subseteq> {sp}"
    by (auto simp: own_value_iff)
  ultimately have "fst ` set (own_value c sp) \<inter> fst ` set (rmatches c f sp) = {}"
    by blast
  with assms(4) f distinct_own_value show ?thesis by (auto simp: parent_value_def)
next
  case False
  then show ?thesis using assms(4) by (cases f) (auto simp: parent_value_def)
qed

lemma rmatches_distinct:
  assumes "rinv n" and "rnames n" and "hash_last f"
  shows "distinct (map fst (rmatches n f sp))"
  using assms
proof (induction n arbitrary: f sp)
  case (RNode val bs)
  have sub: "rinv c \<and> rnames c \<and> \<not> is_wildcard k" if "(k, c) \<in> set bs" for k c
    using that RNode.prems by (auto simp: list_all_iff)
  have IH: "distinct (map fst (rmatches c f' sp'))" if "(k, c) \<in> set bs" "hash_last f'" for k c f' sp'
    using that sub [OF that(1)] by (intro RNode.IH [of "(k, c)" c]) auto
  have step: "distinct (map fst (parent_value (l # f') c sp' @ rmatches c f' sp'))"
    if "(k, c) \<in> set bs" "hash_last f'" "l \<noteq> MultiWildcard" "hash_last (l # f')" for k c f' sp' l
    using that sub [OF that(1)] IH by (intro distinct_parent_rmatches) auto
  have pre: "\<exists>g. t = sp @ k # g" if "(k, c) \<in> set bs" "hash_last f'"
    "(t, v) \<in> set (parent_value (l # f') c (sp @ [k]) @ rmatches c f' (sp @ [k]))" for k c f' t v l sp
    using that sub [OF that(1)] by (auto simp: parent_value_iff rmatches_iff)
  have mu: "distinct (map fst (own_value c sp' @ rmatches c [MultiWildcard] sp'))"
    if "(k, c) \<in> set bs" for k c sp'
    using step [OF that, of "[MultiWildcard]" Blank sp'] by (simp add: parent_value_def)
  have mu_pre: "\<exists>g. t = sp @ k # g" if "(k, c) \<in> set bs"
    "(t, v) \<in> set (own_value c (sp @ [k]) @ rmatches c [MultiWildcard] (sp @ [k]))" for k c t v sp
    using pre [of k c "[MultiWildcard]" t v Blank sp] that by (auto simp: parent_value_def)
  consider (nil) "f = []" | (multi) "f = [MultiWildcard]"
    | (level) l f' where "f = l # f'" "l \<noteq> MultiWildcard" "hash_last f'"
    using RNode.prems(3) by (cases f rule: hash_last.cases) auto
  then show ?case
  proof cases
    case nil
    then show ?thesis by (simp add: rmatches.simps distinct_own_value)
  next
    case multi
    moreover have "map_of bs MultiWildcard = None"
      using sub [of MultiWildcard] by (cases "map_of bs MultiWildcard") (auto simp: is_wildcard_def dest: map_of_SomeD)
    moreover have "distinct (map fst (for_branches sp (\<lambda>k v. if rbranches v = [] then own_value v (sp @ [k])
        else own_value v (sp @ [k]) @ rmatches v [MultiWildcard] (sp @ [k])) bs))"
    proof (rule distinct_for_branches)
      show "\<exists>g. t = sp @ k # g" if "(k, c) \<in> set bs" "(t, v) \<in> set (if rbranches c = [] then own_value c (sp @ [k])
          else own_value c (sp @ [k]) @ rmatches c [MultiWildcard] (sp @ [k]))" for k c t v
        using that(2) by (intro mu_pre [OF that(1)]) (auto split: if_splits)
    qed (use RNode.prems(1) mu distinct_own_value in auto)
    ultimately show ?thesis
      by (simp add: rmatches.simps)
  next
    case level
    then have hl: "hash_last (l # f')" using RNode.prems(3) by simp
    have "distinct (map fst (for_branches sp (\<lambda>k v.
        parent_value (l # f') v (sp @ [k]) @ rmatches v f' (sp @ [k])) bs))"
      using RNode.prems(1) step [OF _ level(3,2) hl] pre [OF _ level(3)]
      by (intro distinct_for_branches) auto
    moreover have "distinct (map fst (parent_value (l # f') r (sp @ [l]) @ rmatches r f' (sp @ [l])))"
      if "map_of bs l = Some r" for r
      by (rule step [OF map_of_SomeD [OF that] level(3,2) hl])
    ultimately show ?thesis
      using level(1,2) by (cases "map_of bs l") (auto simp: rmatches.simps simp del: map_append distinct_append)
  qed
qed

section \<open>Removal by predicate\<close>

text \<open>What a sweep that is not cut off by its limit leaves: the nodes without the values to remove.\<close>

definition strip :: "('v \<Rightarrow> bool) \<Rightarrow> 'v rnode \<Rightarrow> 'v rnode" where
  "strip P n = (case rvalue n of Some v \<Rightarrow> if P v then RNode None (rbranches n) else n | None \<Rightarrow> n)"

fun rclean :: "('v \<Rightarrow> bool) \<Rightarrow> 'v rnode \<Rightarrow> 'v rnode" where
  "rclean P (RNode v bs) =
     RNode v (filter (\<lambda>(k, c). c \<noteq> RNode None []) (map (\<lambda>(k, c). (k, strip P (rclean P c))) bs))"

definition sizes :: "(level \<times> 'v rnode) list \<Rightarrow> nat" where
  "sizes bs = sum_list (map (\<lambda>(_, n). rvalues_size n) bs)"

lemma rvalues_size_sizes:
  "rvalues_size (RNode v bs) = sizes bs + (if v = None then 0 else 1)"
  by (simp add: sizes_def Let_def)

text \<open>A closure that removes the values with a property and updates its captured state for each.\<close>

definition sweep :: "('v \<Rightarrow> bool) \<Rightarrow> ('s \<Rightarrow> 's) \<Rightarrow> 'v \<Rightarrow> 's \<Rightarrow> bool \<times> 's" where
  "sweep P upd v s = (if P v then (False, upd s) else (True, s))"

lemma retain_value_strip:
  "\<exists>k. retain_value (sweep P upd) (n, s, r)
      = (strip P n, (upd ^^ k) s, r + k) \<and> rvalues_size n = rvalues_size (strip P n) + k"
proof (cases "\<exists>v. rvalue n = Some v \<and> P v")
  case True
  then show ?thesis
    by (intro exI [of _ 1]) (cases n; auto simp: retain_value_def strip_def sweep_def Let_def)
next
  case False
  then show ?thesis
    by (intro exI [of _ 0]) (auto simp: retain_value_def strip_def sweep_def split: option.splits)
qed

lemma rnode_empty_iff: "rvalue n = None \<and> rbranches n = [] \<longleftrightarrow> n = RNode None []"
  by (cases n) auto

lemma rclean_Cons:
  "rbranches (rclean P (RNode v ((k, c) # bs))) =
     (if strip P (rclean P c) = RNode None [] then rbranches (rclean P (RNode v bs))
      else (k, strip P (rclean P c)) # rbranches (rclean P (RNode v bs)))"
  by simp

lemma sizes_simps [simp]: "sizes [] = 0" "sizes ((k, c) # bs) = rvalues_size c + sizes bs"
  by (simp_all add: sizes_def)

lemma rretain_rclean:
  fixes n :: "'v rnode" and bs :: "(level \<times> 'v rnode) list" and upd :: "'s \<Rightarrow> 's"
  shows "r + rvalues_size n < m \<Longrightarrow>
      \<exists>k. rretain (sweep P upd) m n s r = (rclean P n, (upd ^^ k) s, r + k)
        \<and> rvalues_size n = rvalues_size (rclean P n) + k"
    and "r + sizes bs < m \<Longrightarrow>
      \<exists>k. retain_branches (sweep P upd) m bs s r = (rbranches (rclean P (RNode None bs)), (upd ^^ k) s, r + k)
        \<and> sizes bs = sizes (rbranches (rclean P (RNode None bs))) + k"
proof (induction "sweep P upd" m n s r and "sweep P upd" m bs s r rule: rretain_retain_branches.induct)
  case (1 m v bs s r)
  have lt: "r + sizes bs < m" "\<not> m \<le> r"
    using "1.prems" unfolding rvalues_size_sizes by linarith+
  then obtain k where "retain_branches (sweep P upd) m bs s r
      = (rbranches (rclean P (RNode None bs)), (upd ^^ k) s, r + k)"
    "sizes bs = sizes (rbranches (rclean P (RNode None bs))) + k"
    using "1.hyps" by blast
  with lt show ?case
    by (intro exI [of _ k]) (simp add: rvalues_size_sizes del: rvalues_size.simps)
next
  case (2 m s r)
  then show ?case by (intro exI [of _ 0]) simp
next
  case (3 m key c bs s r)
  obtain i where i: "rretain (sweep P upd) m c s r = (rclean P c, (upd ^^ i) s, r + i)"
    "rvalues_size c = rvalues_size (rclean P c) + i"
    using "3.hyps"(1) "3.prems" by auto
  obtain j where j: "retain_value (sweep P upd) (rclean P c, (upd ^^ i) s, r + i)
      = (strip P (rclean P c), (upd ^^ j) ((upd ^^ i) s), r + i + j)"
    "rvalues_size (rclean P c) = rvalues_size (strip P (rclean P c)) + j"
    using retain_value_strip [of P upd "rclean P c" "(upd ^^ i) s" "r + i"] by blast
  obtain k where k: "retain_branches (sweep P upd) m bs ((upd ^^ j) ((upd ^^ i) s)) (r + i + j)
      = (rbranches (rclean P (RNode None bs)), (upd ^^ k) ((upd ^^ j) ((upd ^^ i) s)), r + i + j + k)"
    "sizes bs = sizes (rbranches (rclean P (RNode None bs))) + k"
    using "3.hyps"(2) [OF _ refl refl] "3.prems" i j by force
  have "(upd ^^ k) ((upd ^^ j) ((upd ^^ i) s)) = (upd ^^ (i + j + k)) s"
    by (simp add: funpow_add add.commute [of _ k] add.commute [of i j])
  moreover have "rvalues_size (RNode None []) = 0"
    by simp
  ultimately show ?case
    using i j k by (intro exI [of _ "i + j + k"]) (auto simp: rnode_empty_iff rclean_Cons Let_def)
qed

definition unless :: "('v \<Rightarrow> bool) \<Rightarrow> 'v option \<Rightarrow> 'v option" where
  "unless P x = (case x of Some v \<Rightarrow> if P v then None else Some v | None \<Rightarrow> None)"

lemma unless_None [simp]: "unless P None = None"
  by (simp add: unless_def)

lemma map_of_rclean:
  assumes "distinct (map fst bs)"
  shows "map_of (rbranches (rclean P (RNode v bs))) k =
    (case map_of bs k of None \<Rightarrow> None
     | Some c \<Rightarrow> if strip P (rclean P c) = RNode None [] then None else Some (strip P (rclean P c)))"
  using assms
proof (induction bs)
  case (Cons b bs)
  obtain l c where b: "b = (l, c)" by (cases b)
  have "fst ` set (rbranches (rclean P (RNode v bs))) \<subseteq> fst ` set bs"
    by force
  with Cons.prems b have "map_of (rbranches (rclean P (RNode v bs))) l = None"
    by (auto simp: map_of_eq_None_iff simp del: rclean.simps)
  with Cons b show ?case
    by (auto simp: rclean_Cons simp del: rclean.simps)
qed simp

lemma rvalue_strip [simp]: "rvalue (strip P n) = unless P (rvalue n)" "rbranches (strip P n) = rbranches n"
  by (auto simp: strip_def unless_def split: option.splits)

lemma rvalue_rclean [simp]: "rvalue (rclean P n) = rvalue n"
  by (cases n) simp

lemma rlookup_strip: "rlookup p (strip P n) = (if p = [] then unless P (rvalue n) else rlookup p n)"
  by (cases n; cases p) (auto simp: strip_def unless_def split: option.splits)

lemma rlookup_rclean:
  assumes "rinv n"
  shows "rlookup p (rclean P n) = (if p = [] then rvalue n else unless P (rlookup p n))"
  using assms
proof (induction p arbitrary: n)
  case (Cons l p)
  obtain v bs where n: "n = RNode v bs" by (cases n)
  have c: "rlookup (l # p) (rclean P n) = (case map_of (rbranches (rclean P n)) l of
      None \<Rightarrow> None | Some c \<Rightarrow> rlookup p c)"
    by (cases "rclean P n") simp
  show ?case
  proof (cases "map_of bs l")
    case None
    with Cons.prems n c show ?thesis by (simp add: map_of_rclean del: rclean.simps)
  next
    case (Some x)
    have "rinv x" using Cons.prems n Some by (auto dest: list_all_map_of)
    with Cons.IH [of x] have "rlookup p (strip P (rclean P x)) = unless P (rlookup p x)"
      by (simp add: rlookup_strip)
    moreover from this have "strip P (rclean P x) = RNode None [] \<Longrightarrow> unless P (rlookup p x) = None"
      by simp
    ultimately show ?thesis
      using Cons.prems n Some c by (simp add: map_of_rclean del: rclean.simps)
  qed
qed simp

lemma rinv_strip: "rinv n \<Longrightarrow> rinv (strip P n)"
  by (cases n) (auto simp: strip_def split: option.splits)

lemma distinct_filter_fst: "distinct (map fst bs) \<Longrightarrow> distinct (map fst (filter Q bs))"
  by (induction bs) (auto simp: image_iff)

lemma rclean_inv: "rinv n \<Longrightarrow> rinv (rclean P n)"
proof (induction n)
  case (RNode v bs)
  have "distinct (map fst (map (\<lambda>(k, c). (k, strip P (rclean P c))) bs))"
    using RNode.prems by (simp add: comp_def case_prod_unfold)
  moreover have "rinv (strip P (rclean P c))" if "(k, c) \<in> set bs" for k c
    using RNode.IH [OF that] RNode.prems that by (auto simp: list_all_iff intro: rinv_strip)
  ultimately show ?case
    by (auto simp: list_all_iff intro: distinct_filter_fst)
qed

lemma retain_tree_sweep:
  assumes "rvalues_size n < m"
  shows "\<exists>k. retain_tree m (sweep P upd) n s = (k, rclean P n, (upd ^^ k) s)
    \<and> rvalues_size n = rvalues_size (rclean P n) + k"
proof -
  obtain k where "rretain (sweep P upd) m n s 0 = (rclean P n, (upd ^^ k) s, 0 + k)"
    "rvalues_size n = rvalues_size (rclean P n) + k"
    using rretain_rclean(1) [of 0 n m P upd s] assms by auto
  then show ?thesis by (simp add: retain_tree_def)
qed

section \<open>The interface of the message store\<close>

text \<open>A finite map with topics as keys, as the storage uses it: the old value is taken out before a new one is put in.\<close>

locale topic_map =
  fixes empty :: "'m" and invar :: "'m \<Rightarrow> bool" and lookup :: "topic \<Rightarrow> 'm \<Rightarrow> 'v option"
    and put_at :: "topic \<Rightarrow> 'v \<Rightarrow> 'm \<Rightarrow> 'm" and take_out :: "topic \<Rightarrow> 'm \<Rightarrow> 'v option \<times> 'm"
    and card_of :: "'m \<Rightarrow> nat"
  assumes lookup_empty: "lookup t empty = None" and invar_empty: "invar empty"
    and lookup_put: "lookup u (put_at t v mp) = (if u = t then Some v else lookup u mp)"
    and take_result: "fst (take_out t mp) = lookup t mp"
    and lookup_take: "lookup u (snd (take_out t mp)) = (if u = t then None else lookup u mp)"
    and invar_put: "invar mp \<Longrightarrow> invar (put_at t v mp)"
    and invar_take: "invar mp \<Longrightarrow> invar (snd (take_out t mp))"
    and card_put: "invar mp \<Longrightarrow> card_of (put_at t v mp) = card_of mp + (if lookup t mp = None then 1 else 0)"
    and card_take: "invar mp \<Longrightarrow> card_of mp = card_of (snd (take_out t mp)) + (if lookup t mp = None then 0 else 1)"
begin

definition replaced :: "topic \<Rightarrow> 'v option \<Rightarrow> 'm \<Rightarrow> 'm" where
  "replaced t v mp = (let mp' = snd (take_out t mp) in case v of Some x \<Rightarrow> put_at t x mp' | None \<Rightarrow> mp')"

lemma lookup_replaced: "lookup u (replaced t v mp) = (if u = t then v else lookup u mp)"
  by (cases v) (auto simp: replaced_def lookup_put lookup_take Let_def)

lemma invar_replaced: "invar mp \<Longrightarrow> invar (replaced t v mp)"
  by (cases v) (auto simp: replaced_def invar_put invar_take Let_def)

lemma card_replaced:
  "invar mp \<Longrightarrow> card_of (replaced t v mp) + (if lookup t mp = None then 0 else 1)
     = card_of mp + (if v = None then 0 else 1)"
  using card_take [of mp t] card_put [OF invar_take, of mp t] lookup_take [of t t mp]
  by (cases v) (auto simp: replaced_def Let_def split: if_splits)

end

interpretation rmap: topic_map rnode_default rinv rlookup rinsert rremove rvalues_size
proof
  show "rinv mp \<Longrightarrow> rvalues_size mp = rvalues_size (snd (rremove t mp)) + (if rlookup t mp = None then 0 else 1)"
    for mp :: "'v rnode" and t
    by (rule rremove_size)
qed (auto simp: rlookup_rinsert rremove_result rlookup_rremove rinsert_inv rremove_inv rinsert_size)

section \<open>The storage\<close>

text \<open>
  The tree is well formed, its root holds no message (a topic has at least one level) and the counter
  shows the number of stored messages, which the address space bounds.
\<close>

definition storage_inv :: "retain_storage \<Rightarrow> bool" where
  "storage_inv st \<longleftrightarrow> rinv (messages st) \<and> rlookup [] (messages st) = None
     \<and> current (retaineds st) = int (rvalues_size (messages st))"

lemma storage_new_inv: "storage_inv storage_new"
  by (simp add: storage_inv_def storage_new_def counter_new_def rnode_default_def)

lemma dec_funpow:
  "current s = int n \<Longrightarrow> k \<le> n \<Longrightarrow> n < 2 ^ 63 \<Longrightarrow> current ((dec ^^ k) s) = int n - int k"
proof (induction k arbitrary: s n)
  case (Suc k)
  have "current (dec s) = int (n - 1)"
    using Suc.prems by (simp add: dec_def decs_def is_isize_def of_nat_diff)
  then have "current ((dec ^^ k) (dec s)) = int (n - 1) - int k"
    using Suc.prems by (intro Suc.IH) auto
  then show ?case
    using Suc.prems by (simp add: funpow_swap1)
qed simp

lemma set_with_timeout_replaced:
  fixes now :: nat and timeout :: "nat option" and r :: "retain"
  assumes "topic_from_str topic = Ok t" and "storage_inv st" and "rvalues_size (messages st) < 2 ^ 63 - 1"
  defines "new \<equiv> if pub_payload (mp_inner (rt_publish r)) = [] then None else Some (timed_new now r timeout)"
  shows "fst (set_with_timeout now topic r timeout st) = Ok ()"
    and "messages (snd (set_with_timeout now topic r timeout st)) = rmap.replaced t new (messages st)"
    and "storage_inv (snd (set_with_timeout now topic r timeout st))"
proof -
  show "fst (set_with_timeout now topic r timeout st) = Ok ()"
    and m: "messages (snd (set_with_timeout now topic r timeout st)) = rmap.replaced t new (messages st)"
    using assms by (auto simp: set_with_timeout_def rmap.replaced_def split_beta Let_def)
  have inv: "rinv (messages st)" and c: "current (retaineds st) = int (rvalues_size (messages st))"
    and root: "rlookup [] (messages st) = None"
    using assms(2) by (simp_all add: storage_inv_def)
  have t: "t \<noteq> []"
    using assms(1) by (auto simp: topic_from_str_iff canonical_def)
  have "int (rvalues_size (messages st)) < 2 ^ 63 - 1"
    using assms(3) by simp
  then have "current (retaineds (snd (set_with_timeout now topic r timeout st)))
      = int (rvalues_size (rmap.replaced t new (messages st)))"
    using rmap.card_replaced [OF inv, of t new] rremove_result [of t "messages st"] assms c
    by (auto simp: set_with_timeout_def split_beta Let_def inc_def incs_def fetch_add_def max_max_def
        dec_def decs_def is_isize_def split: if_splits)
  with m t show "storage_inv (snd (set_with_timeout now topic r timeout st))"
    using rmap.invar_replaced [OF inv, of t new] rmap.lookup_replaced [of "[]" t new "messages st"] root
    by (simp add: storage_inv_def)
qed

lemma remove_expired_clean:
  assumes "storage_inv st" and "rvalues_size (messages st) < 2 ^ 63" and "rvalues_size (messages st) < usize_max"
  shows "messages (snd (remove_expired_messages usize_max now st)) = rclean (is_expired now) (messages st)"
    and "rvalues_size (messages st) = rvalues_size (rclean (is_expired now) (messages st))
      + fst (remove_expired_messages usize_max now st)"
    and "storage_inv (snd (remove_expired_messages usize_max now st))"
proof -
  let ?f = "\<lambda>tv c. if is_expired now tv then (False, dec c) else (True, c)"
  have sw: "?f = sweep (is_expired now) dec"
    by (auto simp: sweep_def fun_eq_iff)
  obtain k where k: "retain_tree usize_max (sweep (is_expired now) dec) (messages st) (retaineds st)
      = (k, rclean (is_expired now) (messages st), (dec ^^ k) (retaineds st))"
    "rvalues_size (messages st) = rvalues_size (rclean (is_expired now) (messages st)) + k"
    using retain_tree_sweep [OF assms(3), of "is_expired now" dec "retaineds st"] by blast
  have r: "remove_expired_messages usize_max now st =
      (k, st\<lparr>messages := rclean (is_expired now) (messages st), retaineds := (dec ^^ k) (retaineds st)\<rparr>)"
    unfolding remove_expired_messages_def sw k(1) by simp
  show "messages (snd (remove_expired_messages usize_max now st)) = rclean (is_expired now) (messages st)"
    "rvalues_size (messages st) = rvalues_size (rclean (is_expired now) (messages st))
      + fst (remove_expired_messages usize_max now st)"
    using r k(2) by simp_all
  have "current ((dec ^^ k) (retaineds st)) = int (rvalues_size (messages st)) - int k"
    using assms k(2) by (intro dec_funpow) (auto simp: storage_inv_def)
  then show "storage_inv (snd (remove_expired_messages usize_max now st))"
    using assms(1) k(2) r by (auto simp: storage_inv_def rclean_inv)
qed

section \<open>Properties\<close>

text \<open>
  Matching a valid filter against stored topic names delivers exactly the stored names that match
  it under the MQTT rules, each once and with its value.
\<close>

theorem rmatches_exact_names:
  assumes "rinv n" and "rnames n" and "rlookup [] n = None" and "topic_is_valid f"
  shows "distinct (map fst (rmatches n f [])) \<and>
    ((t, v) \<in> set (rmatches n f []) \<longleftrightarrow> rlookup t n = Some v \<and> mqtt_matches f t)"
proof -
  have f: "hash_last f"
    using assms(4) by (simp add: topic_is_valid_iff well_placed_topic_hash_last)
  moreover have "rlookup t n = Some v \<Longrightarrow> t \<noteq> []"
    using assms(3) by auto
  ultimately show ?thesis
    using rmatches_distinct [OF assms(1,2) f] rmatches_iff [OF assms(1,2) f, of t v "[]"]
    by (auto simp: contributes_def mqtt_matches_def)
qed

definition sample_rtree :: "nat rnode" where
  "sample_rtree = RNode None [(Normal ''a'', RNode (Some 1) [(Normal ''b'', RNode (Some 2) [])]),
     (Metadata ''$SYS'', RNode (Some 3) [])]"

theorem rmatches_exact_names_witness:
  "([Normal ''a''], 1) \<in> set (rmatches sample_rtree [MultiWildcard] []) \<and>
   ([Metadata ''$SYS''], 3) \<notin> set (rmatches sample_rtree [MultiWildcard] [])"
  using rmatches_exact_names [of sample_rtree "[MultiWildcard]" "[Normal ''a'']" 1]
    rmatches_exact_names [of sample_rtree "[MultiWildcard]" "[Metadata ''$SYS'']" 3]
  by (simp add: sample_rtree_def is_wildcard_def topic_is_valid_iff well_placed_topic_def
      mqtt_matches_def dollar_isolated_def)

text \<open>
  C33: storing a retained message replaces the message of that topic only, an empty payload deletes it,
  an invalid topic is reported and changes nothing, and the statistics counter keeps showing the
  number of stored messages.
\<close>

theorem set_with_timeout_correct:
  assumes "storage_inv st" and "rvalues_size (messages st) < 2 ^ 63 - 1"
    and "set_with_timeout now topic r timeout st = (res, st')"
  shows "storage_inv st' \<and>
    (case topic_from_str topic of
       Ok t \<Rightarrow> res = Ok () \<and> (\<forall>u. rlookup u (messages st') =
         (if u = t then if pub_payload (mp_inner (rt_publish r)) = [] then None else Some (timed_new now r timeout)
          else rlookup u (messages st)))
     | Err e \<Rightarrow> res = Err e \<and> st' = st
     | Panic \<Rightarrow> False)"
proof (cases "topic_from_str topic")
  case (Ok t)
  with set_with_timeout_replaced [OF Ok assms(1,2), of now r timeout] assms(3) show ?thesis
    by (simp add: rmap.lookup_replaced)
next
  case (Err e)
  with assms show ?thesis by (simp add: set_with_timeout_def)
next
  case Panic
  have "topic_from_str topic \<noteq> Panic"
    by (auto simp: topic_from_str_def collect_res_no_panic)
  with Panic show ?thesis by simp
qed

definition sample_retain :: retain where
  "sample_retain = \<lparr>rt_msg_id = None, rt_from = from_custom (ident_from 1 ''c'' 0),
     rt_publish = \<lparr>mp_inner = \<lparr>pub_dup = False, pub_retain = True, pub_qos = AtMostOnce, pub_topic = [0x61],
       pub_packet_id = None, pub_payload = [1], pub_properties = None\<rparr>,
       mp_target_clientid = None, mp_delay_interval = None, mp_create_time = None\<rparr>\<rparr>"

theorem set_with_timeout_correct_witness:
  "rlookup [Normal ''a''] (messages (snd (set_with_timeout 5 ''a'' sample_retain (Some 10) storage_new)))
     = Some (TimedValue sample_retain (Some 15))"
  using set_with_timeout_correct [OF storage_new_inv, of 5 "''a''" sample_retain "Some 10"]
  by (simp add: storage_new_def rnode_default_def topic_from_str_def level_from_str_def
      contains_wildcard_def is_metadata_str_def starts_with_def topic_is_valid_iff well_placed_topic_def
      sample_retain_def timed_new_def prod_eq_iff)

text \<open>
  The sweep for expired messages removes exactly the expired ones, returns their number, keeps the
  counter in step and leaves no empty node behind.
\<close>

theorem remove_expired_correct:
  assumes "storage_inv st" and "rvalues_size (messages st) < 2 ^ 63"
    and "rvalues_size (messages st) < usize_max"
    and "remove_expired_messages usize_max now st = (removed, st')"
  shows "storage_inv st' \<and> rvalues_size (messages st) = rvalues_size (messages st') + removed \<and>
    (\<forall>t. rlookup t (messages st') = unless (is_expired now) (rlookup t (messages st)))"
proof -
  note clean = remove_expired_clean [OF assms(1-3), of now]
  have "rlookup [] (messages st) = None" "rinv (messages st)"
    using assms(1) by (simp_all add: storage_inv_def)
  then have "rlookup t (rclean (is_expired now) (messages st)) = unless (is_expired now) (rlookup t (messages st))" for t
    by (auto simp: rlookup_rclean)
  with clean assms(4) show ?thesis by simp
qed

theorem remove_expired_correct_witness:
  "rvalues_size (messages (snd (remove_expired_messages 100 20
     \<lparr>messages = RNode None [(Normal ''a'', RNode (Some (TimedValue sample_retain (Some 15))) [])],
      retaineds = \<lparr>current = 1, maximum = 1, merge_mode = SMM_None\<rparr>\<rparr>))) = 0"
  using remove_expired_correct [of "\<lparr>messages = RNode None [(Normal ''a'',
      RNode (Some (TimedValue sample_retain (Some 15))) [])],
      retaineds = \<lparr>current = 1, maximum = 1, merge_mode = SMM_None\<rparr>\<rparr>" 100 20]
  by (simp add: storage_inv_def remove_expired_messages_def retain_tree_def retain_value_def is_expired_def)

text \<open>
  The limit of \<^verbatim>\<open>RetainTree::retain\<close> is only looked at on entry to a node: a limit of one removal lets two
  values go.
\<close>

lemma retain_limit_exceeded:
  "fst (retain_tree 1 (\<lambda>v s. (False, s)) (RNode None [(Normal ''a'', RNode (Some (1 :: nat)) []),
     (Normal ''b'', RNode (Some 2) [])]) ()) = 2"
  by (simp add: retain_tree_def retain_value_def)

end
