(* ===== verification/Registry.thy ===== *)
theory Registry
  imports Router Subscriptions Inflight Retain
begin

text \<open>
  The registry of sessions (\<^verbatim>\<open>shared.rs\<close>): the table of the sessions of this node with the channel of each, the
  operations on the entry of a client, and the forwarding of a message to the subscribers the router finds.
  The channel of a session is that of the \<^verbatim>\<open>futures\<close> crate; sending on it is an argument, which gives the
  channel after the message or nothing when the session is gone.
\<close>

section \<open>Sessions\<close>

record broker_stats =
  bs_subs :: sub_stats
  bs_message_queues :: counter
  bs_out_inflights :: counter

type_synonym delivery = "msg_from \<times> mpublish"

record offline_info =
  off_id :: ident
  off_subscriptions :: session_subs
  off_offline_messages :: "delivery list"
  off_inflight_messages :: "out_inflight_message list"
  off_created_at :: int

text \<open>The channels for the replies of the last five are left out.\<close>

datatype message =
    M_Forward msg_from mpublish
  | M_SendRerelease out_inflight_message
  | M_Kick ident bool bool
  | M_Closed reason
  | M_Subscribe subscribe
  | M_Subscribes "subscribe list"
  | M_Unsubscribe unsubscribe
  | M_SessionStateTransfer offline_info bool

record disconnect_info =
  disconnected_at :: int
  disconnect_reasons :: "reason list"
  mqtt_disconnect :: "disconnect option"

definition disconnect_info_new :: "int \<Rightarrow> disconnect_info" where
  "disconnect_info_new at = \<lparr>disconnected_at = at, disconnect_reasons = [], mqtt_disconnect = None\<rparr>"

definition is_disconnected :: "disconnect_info \<Rightarrow> bool" where
  "is_disconnected d \<longleftrightarrow> disconnected_at d \<noteq> 0"

text \<open>What the broker keeps of a session that other tasks see (\<^verbatim>\<open>DefaultSession\<close> of \<^verbatim>\<open>session.rs\<close>).\<close>

record 'q session =
  ss_id :: ident
  ss_subscriptions :: session_subs
  ss_deliver_queue :: "(delivery, broker_stats) queue"
  ss_out_inflight :: "('q, broker_stats) out_inflight"
  ss_created_at :: int
  ss_connected :: bool
  ss_disconnect_info :: disconnect_info

definition session_connected :: "'q session \<Rightarrow> bool" where
  "session_connected s \<longleftrightarrow> ss_connected s \<and> \<not> is_disconnected (ss_disconnect_info s)"

text \<open>\<^verbatim>\<open>disconnected_set\<close> with the time at which it is called.\<close>

definition disconnected_set :: "int \<Rightarrow> disconnect option \<Rightarrow> reason option \<Rightarrow> disconnect_info \<Rightarrow> disconnect_info" where
  "disconnected_set now d r info =
    (let info = (if is_disconnected info then info else info\<lparr>disconnected_at := now\<rparr>);
         info = (case d of
             Some d \<Rightarrow> info\<lparr>disconnect_reasons := disconnect_reasons info @ [R_ConnectDisconnect (Some d)], mqtt_disconnect := Some d\<rparr>
           | None \<Rightarrow> info)
     in case r of Some r \<Rightarrow> info\<lparr>disconnect_reasons := disconnect_reasons info @ [r]\<rparr> | None \<Rightarrow> info)"

definition disconnected_reason_add :: "reason \<Rightarrow> disconnect_info \<Rightarrow> disconnect_info" where
  "disconnected_reason_add r info = info\<lparr>disconnect_reasons := disconnect_reasons info @ [r]\<rparr>"

definition disconnected_reason :: "disconnect_info \<Rightarrow> reason" where
  "disconnected_reason info = R_Reasons (disconnect_reasons info)"

definition disconnected_reason_take :: "disconnect_info \<Rightarrow> reason \<times> disconnect_info" where
  "disconnected_reason_take info = (R_Reasons (disconnect_reasons info), info\<lparr>disconnect_reasons := []\<rparr>)"

section \<open>The table\<close>

type_synonym ('q, 't) peers = "(client_id \<times> 'q session \<times> 't) list"

definition peer_exist :: "client_id \<Rightarrow> ('q, 't) peers \<Rightarrow> bool" where
  "peer_exist cid ps \<longleftrightarrow> map_of ps cid \<noteq> None"

definition peer_tx :: "client_id \<Rightarrow> ('q, 't) peers \<Rightarrow> ('t \<times> ident) option" where
  "peer_tx cid ps = map_option (\<lambda>(s, tx). (tx, ss_id s)) (map_of ps cid)"

definition id_same :: "ident \<Rightarrow> ('q, 't) peers \<Rightarrow> bool option" where
  "id_same i ps = map_option (\<lambda>(s, tx). ss_id s = i) (map_of ps (id_client_id i))"

definition entry_set :: "ident \<Rightarrow> 'q session \<Rightarrow> 't \<Rightarrow> ('q, 't) peers \<Rightarrow> ('q, 't) peers" where
  "entry_set i s tx ps = AList.update (id_client_id i) (s, tx) ps"

definition entry_is_connected :: "client_id \<Rightarrow> ('q, 't) peers \<Rightarrow> bool" where
  "entry_is_connected cid ps = (case map_of ps cid of Some (s, tx) \<Rightarrow> session_connected s | None \<Rightarrow> False)"

definition session_status :: "client_id \<Rightarrow> ('q, 't) peers \<Rightarrow> (ident \<times> bool \<times> bool) option" where
  "session_status cid ps = map_option (\<lambda>(s, tx). (ss_id s, session_connected s, False)) (map_of ps cid)"

definition sessions_count :: "('q, 't) peers \<Rightarrow> nat" where
  "sessions_count ps = length ps"

definition subscriptions_count :: "('q, 't) peers \<Rightarrow> nat" where
  "subscriptions_count ps = sum_list (map (\<lambda>(_, s, tx). subs_len (ss_subscriptions s)) ps)"

section \<open>Forwarding\<close>

type_synonym 't tx_send = "message \<Rightarrow> 't \<Rightarrow> 't option"
type_synonym recipient = "client_id \<times> (string \<times> string) option"
type_synonym delivery_error = "ident \<times> msg_from \<times> mpublish \<times> reason"

text \<open>The copy a subscriber gets.\<close>

definition forward_copy :: "mpublish \<Rightarrow> subscription_options_mqtt \<Rightarrow> u32 list option \<Rightarrow> mpublish" where
  "forward_copy p opts sub_ids =
    p\<lparr>mp_inner := (mp_inner p)\<lparr>
       pub_dup := False,
       pub_retain := (case retain_as_published opts of Some b \<Rightarrow> if b then pub_retain (mp_inner p) else False | None \<Rightarrow> False),
       pub_qos := less_value (pub_qos (mp_inner p)) (opts_qos opts),
       pub_packet_id := None,
       pub_properties := (case sub_ids of
           Some ids \<Rightarrow> map_option (\<lambda>pr. pr\<lparr>pp_subscription_ids := ids\<rparr>) (pub_properties (mp_inner p))
         | None \<Rightarrow> pub_properties (mp_inner p))\<rparr>\<rparr>"

definition recipients_of :: "string \<Rightarrow> client_id \<Rightarrow> shared_group_type option \<Rightarrow> recipient list" where
  "recipients_of tf cid grp =
    (case grp of
       Some (g, _, cids) \<Rightarrow> map (\<lambda>g_cid. if g_cid = cid then (g_cid, Some (tf, g)) else (g_cid, None)) cids
     | None \<Rightarrow> [(cid, None)])"

fun forwards_loop :: "i64 \<Rightarrow> 't tx_send \<Rightarrow> msg_from \<Rightarrow> mpublish \<Rightarrow> sub_relation list \<Rightarrow>
    (recipient list \<times> delivery_error list) \<times> ('q, 't) peers \<Rightarrow> (recipient list \<times> delivery_error list) \<times> ('q, 't) peers" where
  "forwards_loop now snd_on f p [] st = st"
| "forwards_loop now snd_on f p ((tf, cid, opts, sub_ids, grp) # rels) ((ok, errs), ps) =
    (let c = forward_copy p opts sub_ids in
     case map_of ps cid of
       None \<Rightarrow>
         forwards_loop now snd_on f p rels
           ((ok, errs @ [(ident_from 0 cid now, f, c, R_Error (text_bytes ''the client has disconnected''))]), ps)
     | Some (s, tx) \<Rightarrow>
         (case snd_on (M_Forward f c) tx of
            None \<Rightarrow>
              forwards_loop now snd_on f p rels ((ok, errs @ [(ss_id s, f, c, R_Error (text_bytes ''Connection Tx is closed''))]), ps)
          | Some tx' \<Rightarrow>
              forwards_loop now snd_on f p rels ((ok @ recipients_of tf cid grp, errs), AList.update cid (s, tx') ps)))"

definition forwards_to :: "i64 \<Rightarrow> 't tx_send \<Rightarrow> msg_from \<Rightarrow> mpublish \<Rightarrow> sub_relation list \<Rightarrow> ('q, 't) peers \<Rightarrow>
    (recipient list, recipient list \<times> delivery_error list) res \<times> ('q, 't) peers" where
  "forwards_to now snd_on f p rels ps =
    (let ((ok, errs), ps) = forwards_loop now snd_on f p rels (([], []), ps) in
     (if errs = [] then Ok ok else Err (ok, errs), ps))"

record ('q, 't, 'c) broker =
  bk_node :: node_id
  bk_router :: router
  bk_choice :: 'c
  bk_peers :: "('q, 't) peers"
  bk_stats :: broker_stats

text \<open>The router asks the registry whether a member of a shared group is online.\<close>

definition registry_online :: "('q, 't) peers \<Rightarrow> node_id \<Rightarrow> client_id \<Rightarrow> bool" where
  "registry_online ps node cid = entry_is_connected cid ps"

definition find_relations :: "'c choice \<Rightarrow> msg_from \<Rightarrow> mpublish \<Rightarrow> ('q, 't, 'c, 'z) broker_scheme \<Rightarrow>
    ((node_id \<times> sub_relation list) list \<times> ('q, 't, 'c, 'z) broker_scheme, unit) res" where
  "find_relations choice f p b =
    (case router_matches (registry_online (bk_peers b)) choice (from_id f) (bytes_text (pub_topic (mp_inner p))) (bk_router b) (bk_choice b) of
       Ok (m, c) \<Rightarrow> Ok (m, b\<lparr>bk_choice := c\<rparr>)
     | Err e \<Rightarrow> Ok ([], b)
     | Panic \<Rightarrow> Panic)"

definition target_relations :: "mpublish \<Rightarrow> client_id \<Rightarrow> sub_relation list" where
  "target_relations p cid =
    [(bytes_text (pub_topic (mp_inner p)), cid, set_qos (pub_qos (mp_inner p)) subscription_options_mqtt_default, None, None)]"

definition forward_local :: "i64 \<Rightarrow> 't tx_send \<Rightarrow> msg_from \<Rightarrow> mpublish \<Rightarrow> sub_relation list \<Rightarrow> ('q, 't, 'c, 'z) broker_scheme \<Rightarrow>
    (recipient list, recipient list \<times> delivery_error list) res \<times> ('q, 't, 'c, 'z) broker_scheme" where
  "forward_local now snd_on f p rels b = (let (r, ps) = forwards_to now snd_on f p rels (bk_peers b) in (r, b\<lparr>bk_peers := ps\<rparr>))"

text \<open>
  \<^verbatim>\<open>forwards\<close>: the number of recipients or the failed deliveries, and the recipients that are recorded with the
  message store when the message has an identifier there.
\<close>

definition mark_of :: "msg_id option \<Rightarrow> recipient list \<Rightarrow> (msg_id \<times> recipient list) option" where
  "mark_of m rs = (case m of Some i \<Rightarrow> if rs = [] then None else Some (i, rs) | None \<Rightarrow> None)"

definition forwards :: "i64 \<Rightarrow> 't tx_send \<Rightarrow> 'c choice \<Rightarrow> msg_id option \<Rightarrow> msg_from \<Rightarrow> mpublish \<Rightarrow> ('q, 't, 'c, 'z) broker_scheme \<Rightarrow>
    (nat, nat \<times> delivery_error list) res \<times> (msg_id \<times> recipient list) option \<times> ('q, 't, 'c, 'z) broker_scheme" where
  "forwards now snd_on choice m f p b =
    (case mp_target_clientid p of
       Some target \<Rightarrow>
         (case forward_local now snd_on f p (target_relations p target) b of
            (Ok rs, b) \<Rightarrow> if id_node_id (from_id f) = bk_node b then (Ok 1, mark_of m rs, b) else (Ok 0, None, b)
          | (Err (_, errs), b) \<Rightarrow> (Err (0, errs), None, b)
          | (Panic, b) \<Rightarrow> (Panic, None, b))
     | None \<Rightarrow>
         (case find_relations choice f p b of
            Ok (relations_map, b) \<Rightarrow>
              (case map_of relations_map (bk_node b) of
                 Some rels \<Rightarrow>
                   (case forward_local now snd_on f p rels b of
                      (Ok rs, b) \<Rightarrow> (Ok (length rs), mark_of m rs, b)
                    | (Err (rs, errs), b) \<Rightarrow> (Err (length rs, errs), mark_of m rs, b)
                    | (Panic, b) \<Rightarrow> (Panic, None, b))
               | None \<Rightarrow> (Ok 0, None, b))
          | _ \<Rightarrow> (Panic, None, b)))"

fun split_shared :: "(node_id \<times> sub_relation list) list \<Rightarrow> sub_relation list \<times> (node_id \<times> sub_relation list) list" where
  "split_shared [] = ([], [])"
| "split_shared ((node, rels) # m) =
    (let (direct, shared) = split_shared m;
         mine = filter (\<lambda>(_, _, _, _, grp). grp \<noteq> None) rels
     in (filter (\<lambda>(_, _, _, _, grp). grp = None) rels @ direct, if mine = [] then shared else (node, mine) # shared))"

definition forwards_and_get_shareds :: "i64 \<Rightarrow> 't tx_send \<Rightarrow> 'c choice \<Rightarrow> msg_from \<Rightarrow> mpublish \<Rightarrow> ('q, 't, 'c, 'z) broker_scheme \<Rightarrow>
    ((node_id \<times> sub_relation list) list \<times> recipient list, recipient list \<times> delivery_error list) res \<times> ('q, 't, 'c, 'z) broker_scheme" where
  "forwards_and_get_shareds now snd_on choice f p b =
    (case mp_target_clientid p of
       Some target \<Rightarrow>
         (let (r, b) = forward_local now snd_on f p (target_relations p target) b in (map_res (\<lambda>rs. ([], rs)) r, b))
     | None \<Rightarrow>
         (case find_relations choice f p b of
            Ok (relations_map, b) \<Rightarrow>
              (let (direct, shared) = split_shared relations_map in
               if direct = [] then (Ok (shared, []), b)
               else (let (r, b) = forward_local now snd_on f p direct b in (map_res (\<lambda>rs. (shared, rs)) r, b)))
          | _ \<Rightarrow> (Panic, b)))"

definition collect_subscription_client_ids :: "(node_id \<times> sub_relation list) list \<Rightarrow> recipient list" where
  "collect_subscription_client_ids m = concat (map (\<lambda>(_, subs). concat (map (\<lambda>(tf, cid, _, _, grp). recipients_of tf cid grp) subs)) m)"

section \<open>The entry of a client\<close>

datatype entry_error = Session_Not_Exist | Entry_Topic topic_error | Kick_Failed

definition with_subs :: "client_id \<Rightarrow> (session_subs \<times> sub_stats \<Rightarrow> 'r \<times> session_subs \<times> sub_stats) \<Rightarrow> 'r \<Rightarrow>
    ('q, 't, 'c, 'z) broker_scheme \<Rightarrow> 'r \<times> ('q, 't, 'c, 'z) broker_scheme" where
  "with_subs cid op none b =
    (case map_of (bk_peers b) cid of
       Some (s, tx) \<Rightarrow>
         (let (r, subs, st) = op (ss_subscriptions s, bs_subs (bk_stats b)) in
          (r, b\<lparr>bk_peers := AList.update cid (s\<lparr>ss_subscriptions := subs\<rparr>, tx) (bk_peers b),
              bk_stats := (bk_stats b)\<lparr>bs_subs := st\<rparr>\<rparr>))
     | None \<Rightarrow> (none, b))"

text \<open>The assertion that the session is of this node panics.\<close>

definition entry_subscribe :: "ident \<Rightarrow> subscribe \<Rightarrow> ('q, 't, 'c, 'z) broker_scheme \<Rightarrow> (subscribe_return, entry_error) res \<times> ('q, 't, 'c, 'z) broker_scheme" where
  "entry_subscribe i sub b =
    (case map_of (bk_peers b) (id_client_id i) of
       None \<Rightarrow> (Err Session_Not_Exist, b)
     | Some (s, tx) \<Rightarrow>
         if id_node_id (ss_id s) \<noteq> bk_node b then (Panic, b)
         else (case router_add (sub_topic_filter sub) i (sub_opts sub) (bk_router b) of
            (Ok _, r) \<Rightarrow>
              (let (prev, b) = with_subs (id_client_id i) (subs_add (sub_topic_filter sub) (sub_opts sub)) None (b\<lparr>bk_router := r\<rparr>)
               in (Ok (return_success (opts_qos (sub_opts sub)) prev), b))
          | (Err e, r) \<Rightarrow> (Err (Entry_Topic e), b\<lparr>bk_router := r\<rparr>)
          | (Panic, r) \<Rightarrow> (Panic, b\<lparr>bk_router := r\<rparr>)))"

definition entry_unsubscribe :: "ident \<Rightarrow> string \<Rightarrow> ('q, 't, 'c, 'z) broker_scheme \<Rightarrow> (bool, entry_error) res \<times> ('q, 't, 'c, 'z) broker_scheme" where
  "entry_unsubscribe i tf b =
    (case map_of (bk_peers b) (id_client_id i) of
       None \<Rightarrow> (Err Session_Not_Exist, b)
     | Some _ \<Rightarrow>
         (case router_remove tf i (bk_router b) of
            (Panic, r) \<Rightarrow> (Panic, b\<lparr>bk_router := r\<rparr>)
          | (_, r) \<Rightarrow>
              (let (removed, b) = with_subs (id_client_id i) (subs_remove tf) None (b\<lparr>bk_router := r\<rparr>) in (Ok (removed \<noteq> None), b))))"

text \<open>
  \<^verbatim>\<open>_unsubscribe\<close> for each filter of a session that has been taken out of the table; an error is logged and
  the loop goes on.
\<close>

fun unsubscribe_all :: "ident \<Rightarrow> string list \<Rightarrow> ('q, 't, 'c, 'z) broker_scheme \<Rightarrow> ('q, 't, 'c, 'z) broker_scheme" where
  "unsubscribe_all i [] b = b"
| "unsubscribe_all i (tf # tfs) b =
    (case router_remove tf i (bk_router b) of
       (Ok _, r) \<Rightarrow> unsubscribe_all i tfs (snd (with_subs (id_client_id i) (subs_remove tf) None (b\<lparr>bk_router := r\<rparr>)))
     | (_, r) \<Rightarrow> unsubscribe_all i tfs (b\<lparr>bk_router := r\<rparr>))"

definition take_peer :: "bool \<Rightarrow> client_id \<Rightarrow> 'q session \<Rightarrow> ('q, 't, 'c, 'z) broker_scheme \<Rightarrow> ('q, 't, 'c, 'z) broker_scheme" where
  "take_peer clear_subscriptions cid s b =
    (let b = b\<lparr>bk_peers := AList.delete cid (bk_peers b)\<rparr> in
     if clear_subscriptions then unsubscribe_all (ss_id s) (to_topic_filters (ss_subscriptions s)) b else b)"

definition entry_remove :: "bool \<Rightarrow> ident \<Rightarrow> ('q, 't, 'c, 'z) broker_scheme \<Rightarrow> ('q session \<times> 't) option \<times> ('q, 't, 'c, 'z) broker_scheme" where
  "entry_remove clear i b =
    (case map_of (bk_peers b) (id_client_id i) of
       Some (s, tx) \<Rightarrow> (Some (s, tx), take_peer clear (id_client_id i) s b)
     | None \<Rightarrow> (None, b))"

definition entry_remove_with :: "bool \<Rightarrow> ident \<Rightarrow> ident \<Rightarrow> ('q, 't, 'c, 'z) broker_scheme \<Rightarrow> ('q session \<times> 't) option \<times> ('q, 't, 'c, 'z) broker_scheme" where
  "entry_remove_with clear i with_id b =
    (case map_of (bk_peers b) (id_client_id i) of
       Some (s, tx) \<Rightarrow> if ss_id s = with_id then (Some (s, tx), take_peer clear (id_client_id i) s b) else (None, b)
     | None \<Rightarrow> (None, b))"

definition entry_publish :: "'t tx_send \<Rightarrow> ident \<Rightarrow> msg_from \<Rightarrow> mpublish \<Rightarrow> ('q, 't, 'c, 'z) broker_scheme \<Rightarrow>
    (unit, msg_from \<times> mpublish \<times> reason) res \<times> ('q, 't, 'c, 'z) broker_scheme" where
  "entry_publish snd_on i f p b =
    (case map_of (bk_peers b) (id_client_id i) of
       None \<Rightarrow> (Err (f, p, R_Error (text_bytes ''Tx is None'')), b)
     | Some (s, tx) \<Rightarrow>
         (case snd_on (M_Forward f p) tx of
            Some tx' \<Rightarrow> (Ok (), b\<lparr>bk_peers := AList.update (id_client_id i) (s, tx') (bk_peers b)\<rparr>)
          | None \<Rightarrow> (Err (f, p, R_Error (text_bytes ''Tx is closed'')), b)))"

section \<open>Taking a session over\<close>

text \<open>
  \<^verbatim>\<open>kick\<close> in two parts: the request to the old session, and what happens when it has answered or five seconds
  have passed; in between the old session runs.
\<close>

datatype kick_reply = Kick_Done | Kick_Recv_Error | Kick_Timeout

datatype offline_session = Off_Exist "offline_info option" | Off_NotExist

definition kick_request :: "'t tx_send \<Rightarrow> ident \<Rightarrow> bool \<Rightarrow> bool \<Rightarrow> ('q, 't, 'c, 'z) broker_scheme \<Rightarrow> bool \<times> ('q, 't, 'c, 'z) broker_scheme" where
  "kick_request snd_on i clean_start is_admin b =
    (case map_of (bk_peers b) (id_client_id i) of
       Some (s, tx) \<Rightarrow>
         (case snd_on (M_Kick i clean_start is_admin) tx of
            Some tx' \<Rightarrow> (True, b\<lparr>bk_peers := AList.update (id_client_id i) (s, tx') (bk_peers b)\<rparr>)
          | None \<Rightarrow> (False, b))
     | None \<Rightarrow> (False, b))"

function queue_drain :: "('a, 's) queue \<times> 's \<Rightarrow> 'a list \<times> ('a, 's) queue \<times> 's" where
  "queue_drain (q, s) =
    (case queue_pop (q, s) of
       (Some v, qs) \<Rightarrow> (let (vs, qs) = queue_drain qs in (v # vs, qs))
     | (None, qs) \<Rightarrow> ([], qs))"
  by pat_completeness auto
termination
  by (relation "measure (\<lambda>(q, s). length (inner q))") (auto simp: queue_pop_def split: list.splits)

declare queue_drain.simps [simp del]

definition to_offline_info :: "'q messages \<Rightarrow> 'q session \<Rightarrow> broker_stats \<Rightarrow> (offline_info \<times> broker_stats) option" where
  "to_offline_info D s st =
    (let (subs, _, ss) = subs_drain (ss_subscriptions s, bs_subs st);
         (msgs, _, st) = queue_drain (ss_deliver_queue s, st\<lparr>bs_subs := ss\<rparr>)
     in Option.bind (to_inflight_messages D (ss_out_inflight s, st)) (\<lambda>(infl, _, st).
       Some (\<lparr>off_id = ss_id s, off_subscriptions = subs, off_offline_messages = msgs, off_inflight_messages = infl,
              off_created_at = ss_created_at s\<rparr>, st)))"

definition kick_finish :: "'q messages \<Rightarrow> ident \<Rightarrow> bool \<Rightarrow> bool \<Rightarrow> kick_reply option \<Rightarrow> ('q, 't, 'c, 'z) broker_scheme \<Rightarrow>
    ((offline_session, entry_error) res \<times> ('q, 't, 'c, 'z) broker_scheme) option" where
  "kick_finish D i clean_start clear_subscriptions reply b =
    (if reply = Some Kick_Recv_Error then Some (Err Kick_Failed, b)
     else case entry_remove clear_subscriptions i b of
       (Some (s, _), b) \<Rightarrow>
         if clean_start then Some (Ok (Off_Exist None), b)
         else Option.bind (to_offline_info D s (bk_stats b)) (\<lambda>(info, st). Some (Ok (Off_Exist (Some info)), b\<lparr>bk_stats := st\<rparr>))
     | (None, b) \<Rightarrow> Some (Ok Off_NotExist, b))"

section \<open>Duplicate retained messages\<close>

text \<open>
  \<^verbatim>\<open>dedup_retains_by_topic\<close>: the index of the message to keep for each topic, from left to right.
\<close>

definition retain_time :: "retain \<Rightarrow> int" where
  "retain_time r = (case mp_create_time (rt_publish r) of Some t \<Rightarrow> sint t | None \<Rightarrow> 0)"

fun latest_idx :: "(string \<times> retain) list \<Rightarrow> (nat \<times> string \<times> retain) list \<Rightarrow> (string \<times> nat) list \<Rightarrow> (string \<times> nat) list" where
  "latest_idx all [] m = m"
| "latest_idx all ((idx, topic, r) # rs) m =
    (let keep = (case map_of m topic of
           Some j \<Rightarrow> retain_time (snd (all ! j)) < retain_time r
         | None \<Rightarrow> True)
     in latest_idx all rs (if keep then AList.update topic idx m else m))"

definition dedup_retains_by_topic :: "(string \<times> retain) list \<Rightarrow> (string \<times> retain) list" where
  "dedup_retains_by_topic retains =
    map ((!) retains) (sort (map snd (latest_idx retains (enumerate 0 retains) [])))"

section \<open>What forwarding does to the channels\<close>

text \<open>
  What the channel promises: a message that is accepted is the last one the session receives, and whether
  the channel is open depends neither on the message nor on what has been sent.
\<close>

definition tx_laws :: "'t tx_send \<Rightarrow> ('t \<Rightarrow> message list) \<Rightarrow> ('t \<Rightarrow> bool) \<Rightarrow> bool" where
  "tx_laws snd_on received is_open \<longleftrightarrow>
    (\<forall>m t. snd_on m t = None \<longleftrightarrow> \<not> is_open t) \<and>
    (\<forall>m t t'. snd_on m t = Some t' \<longrightarrow> received t' = received t @ [m] \<and> is_open t')"

lemma tx_lawsD:
  assumes "tx_laws snd_on received is_open"
  shows "snd_on m t = None \<longleftrightarrow> \<not> is_open t" "snd_on m t = Some t' \<Longrightarrow> received t' = received t @ [m]" "snd_on m t = Some t' \<Longrightarrow> is_open t'"
  using assms unfolding tx_laws_def by blast+

text \<open>The copies a client gets, and whether it can be reached.\<close>

definition copies_for :: "mpublish \<Rightarrow> client_id \<Rightarrow> sub_relation list \<Rightarrow> mpublish list" where
  "copies_for p cid rels = map (\<lambda>(_, _, opts, sub_ids, _). forward_copy p opts sub_ids) (filter (\<lambda>(_, c, _). c = cid) rels)"

definition reachable :: "('t \<Rightarrow> bool) \<Rightarrow> ('q, 't) peers \<Rightarrow> client_id \<Rightarrow> bool" where
  "reachable is_open ps cid \<longleftrightarrow> (\<exists>s tx. map_of ps cid = Some (s, tx) \<and> is_open tx)"

definition same_but_channel :: "('t \<Rightarrow> message list) \<Rightarrow> ('t \<Rightarrow> bool) \<Rightarrow> (client_id \<Rightarrow> message list) \<Rightarrow> ('q, 't) peers \<Rightarrow> ('q, 't) peers \<Rightarrow> bool" where
  "same_but_channel received is_open new ps ps' \<longleftrightarrow>
    (\<forall>cid. case map_of ps cid of
       None \<Rightarrow> map_of ps' cid = None
     | Some (s, tx) \<Rightarrow> \<exists>tx'. map_of ps' cid = Some (s, tx') \<and> is_open tx' = is_open tx \<and>
         received tx' = received tx @ (if is_open tx then new cid else []))"

lemma same_but_channel_refl: "(\<And>cid. new cid = []) \<Longrightarrow> same_but_channel received is_open new ps ps"
  by (auto simp: same_but_channel_def split: option.split)

lemma same_but_channel_trans:
  assumes "same_but_channel received is_open new ps ps'" and "same_but_channel received is_open new' ps' ps''"
    and "\<And>cid. all cid = new cid @ new' cid"
  shows "same_but_channel received is_open all ps ps''"
  unfolding same_but_channel_def
proof
  fix cid
  show "case map_of ps cid of
       None \<Rightarrow> map_of ps'' cid = None
     | Some (s, tx) \<Rightarrow> \<exists>tx'. map_of ps'' cid = Some (s, tx') \<and> is_open tx' = is_open tx \<and>
         received tx' = received tx @ (if is_open tx then all cid else [])"
    using assms(1, 2) [unfolded same_but_channel_def, THEN spec, of cid] assms(3) [of cid]
    by (cases "map_of ps cid") (fastforce split: if_splits)+
qed

lemma same_but_channel_reachable: "same_but_channel received is_open new ps ps' \<Longrightarrow> reachable is_open ps' cid = reachable is_open ps cid"
  by (auto simp: same_but_channel_def reachable_def split: option.splits dest!: spec [of _ cid])

lemma same_but_channel_cong:
  assumes "same_but_channel received is_open new ps ps'" and "\<And>cid. reachable is_open ps cid \<Longrightarrow> new' cid = new cid"
  shows "same_but_channel received is_open new' ps ps'"
  unfolding same_but_channel_def
proof
  fix cid
  show "case map_of ps cid of
       None \<Rightarrow> map_of ps' cid = None
     | Some (s, tx) \<Rightarrow> \<exists>tx'. map_of ps' cid = Some (s, tx') \<and> is_open tx' = is_open tx \<and>
         received tx' = received tx @ (if is_open tx then new' cid else [])"
    using assms(1) [unfolded same_but_channel_def, THEN spec, of cid] assms(2) [of cid]
    by (cases "map_of ps cid") (auto simp: reachable_def)
qed

lemma send_same_but_channel:
  assumes "tx_laws snd_on received is_open" and "map_of ps cid = Some (s, tx)" and "snd_on m tx = Some tx'"
  shows "same_but_channel received is_open (\<lambda>c. if c = cid then [m] else []) ps (AList.update cid (s, tx') ps)"
proof -
  have "is_open tx" using tx_lawsD(1) [OF assms(1), of m tx] assms(3) by auto
  then show ?thesis
    using assms(2) tx_lawsD(2, 3) [OF assms(1, 3)] by (auto simp: same_but_channel_def update_conv' split: option.split)
qed

lemma copies_for_simps [simp]:
  "copies_for p cid [] = []"
  "copies_for p cid ((tf, c, opts, ids, grp) # rels) = (if c = cid then forward_copy p opts ids # copies_for p cid rels else copies_for p cid rels)"
  by (simp_all add: copies_for_def)

lemma forwards_loop_result:
  assumes "tx_laws snd_on received is_open"
  shows "forwards_loop now snd_on f p rels ((ok, errs), ps) = ((ok', errs'), ps') \<Longrightarrow>
    same_but_channel received is_open (\<lambda>cid. map (M_Forward f) (copies_for p cid rels)) ps ps' \<and>
    ok' = ok @ concat (map (\<lambda>(tf, cid, _, _, grp). if reachable is_open ps cid then recipients_of tf cid grp else []) rels) \<and>
    map (\<lambda>(_, _, c, _). c) errs' = map (\<lambda>(_, _, c, _). c) errs @
      concat (map (\<lambda>(_, cid, opts, ids, _). if reachable is_open ps cid then [] else [forward_copy p opts ids]) rels)"
proof (induction rels arbitrary: ok errs ps)
  case Nil
  then show ?case by (auto intro: same_but_channel_refl)
next
  case (Cons rel rels)
  obtain tf cid opts ids grp where rel: "rel = (tf, cid, opts, ids, grp)" by (metis surj_pair)
  show ?case
  proof (cases "map_of ps cid")
    case None
    then have no: "\<not> reachable is_open ps cid" by (simp add: reachable_def)
    from Cons.IH [of ok _ ps] Cons.prems None rel have
      "same_but_channel received is_open (\<lambda>cid. map (M_Forward f) (copies_for p cid rels)) ps ps'"
      by (simp add: Let_def)
    then have "same_but_channel received is_open (\<lambda>cid. map (M_Forward f) (copies_for p cid (rel # rels))) ps ps'"
      by (rule same_but_channel_cong) (use no rel in auto)
    with Cons.IH [of ok _ ps] Cons.prems None rel no show ?thesis by (simp add: Let_def)
  next
    case (Some st)
    obtain s tx where st: "map_of ps cid = Some (s, tx)" using Some by fastforce
    show ?thesis
    proof (cases "snd_on (M_Forward f (forward_copy p opts ids)) tx")
      case None
      then have closed: "\<not> is_open tx" using tx_lawsD(1) [OF assms] by simp
      then have no: "\<not> reachable is_open ps cid" using st by (simp add: reachable_def)
      from Cons.IH [of ok _ ps] Cons.prems None rel st have
        "same_but_channel received is_open (\<lambda>cid. map (M_Forward f) (copies_for p cid rels)) ps ps'"
        by (simp add: Let_def)
      then have "same_but_channel received is_open (\<lambda>cid. map (M_Forward f) (copies_for p cid (rel # rels))) ps ps'"
        by (rule same_but_channel_cong) (use no rel in auto)
      with Cons.IH [of ok _ ps] Cons.prems None rel st no show ?thesis by (simp add: Let_def)
    next
      case (Some tx')
      let ?ps = "AList.update cid (s, tx') ps"
      note step = send_same_but_channel [OF assms st Some]
      have open_tx: "is_open tx" using tx_lawsD(1) [OF assms, of _ tx] Some by (metis option.distinct(1))
      then have yes: "reachable is_open ps cid" using st by (simp add: reachable_def)
      have run: "forwards_loop now snd_on f p rels ((ok @ recipients_of tf cid grp, errs), ?ps) = ((ok', errs'), ps')"
        using Cons.prems Some rel st by (simp add: Let_def)
      note IH = Cons.IH [OF run]
      have "same_but_channel received is_open (\<lambda>c. map (M_Forward f) (copies_for p c (rel # rels))) ps ps'"
        by (rule same_but_channel_trans [OF step]) (use IH rel in auto)
      with IH rel yes show ?thesis by (simp add: same_but_channel_reachable [OF step])
    qed
  qed
qed

section \<open>Where the relations come from\<close>

text \<open>A property of the filter, client, options and group of a relation that every relation of a collection has.\<close>

definition all_rels :: "(node_id \<Rightarrow> string \<Rightarrow> client_id \<Rightarrow> subscription_options_mqtt \<Rightarrow> bool) \<Rightarrow> collector_map \<Rightarrow> bool" where
  "all_rels Q cm \<longleftrightarrow> (\<forall>node c tf cid opts ids grp. map_of cm node = Some c \<longrightarrow> (tf, cid, opts, ids, grp) \<in> set (collector_into c) \<longrightarrow> Q node tf cid opts)"

lemma all_relsD: "all_rels Q cm \<Longrightarrow> map_of cm node = Some c \<Longrightarrow> (tf, cid, opts, ids, grp) \<in> set (collector_into c) \<Longrightarrow> Q node tf cid opts"
  unfolding all_rels_def by blast

lemma update_set: "x \<in> set (AList.update k v xs) \<Longrightarrow> x = (k, v) \<or> x \<in> set xs"
  by (induction xs) (auto split: if_splits)

lemma collector_add_rels:
  "(tf', cid', opts', ids', grp') \<in> set (collector_into (collector_add tf cid opts grp c)) \<Longrightarrow>
   tf' = tf \<and> cid' = cid \<and> opts' = opts \<or> (\<exists>ids grp. (tf', cid', opts', ids, grp) \<in> set (collector_into c))"
  by (force simp: collector_into_def collector_add_def split: if_splits option.splits dest!: update_set map_of_SomeD)

lemma all_rels_add: "all_rels Q cm \<Longrightarrow> Q node tf cid opts \<Longrightarrow> all_rels Q (add_at node tf cid opts grp cm)"
proof -
  assume cm: "all_rels Q cm" and now: "Q node tf cid opts"
  define old where "old = (case map_of cm node of Some c \<Rightarrow> c | None \<Rightarrow> collector_default)"
  have old: "Q node tf' cid' opts'" if "(tf', cid', opts', ids, g) \<in> set (collector_into old)" for tf' cid' opts' ids g
  proof (cases "map_of cm node")
    case None
    with that show ?thesis by (simp add: old_def collector_into_def collector_default_def)
  next
    case (Some c)
    with that all_relsD [OF cm Some] show ?thesis by (simp add: old_def)
  qed
  show ?thesis
    unfolding all_rels_def add_at_def old_def [symmetric]
    using now by (auto simp: update_conv' dest!: collector_add_rels intro: old all_relsD [OF cm] split: if_splits)
qed

definition all_members :: "(node_id \<Rightarrow> string \<Rightarrow> client_id \<Rightarrow> subscription_options_mqtt \<Rightarrow> bool) \<Rightarrow> string \<Rightarrow> groups \<Rightarrow> bool" where
  "all_members Q tf gs \<longleftrightarrow> (\<forall>g cs. (g, cs) \<in> set gs \<longrightarrow> (\<forall>(node, cid, opts, _) \<in> set cs. Q node tf cid opts))"

lemma visit_relations_all:
  "(\<And>cid i opts. (cid, i, opts) \<in> set rels \<Longrightarrow> \<not> suppressed this_id i opts \<Longrightarrow> Q (id_node_id i) tf cid opts) \<Longrightarrow>
   all_members Q tf gs \<Longrightarrow> all_rels Q cm \<Longrightarrow> visit_relations online this_id tf rels (gs, cm) = (gs', cm') \<Longrightarrow>
   all_members Q tf gs' \<and> all_rels Q cm'"
proof (induction rels arbitrary: gs cm)
  case (Cons rel rels)
  obtain cid i opts where rel: "rel = (cid, i, opts)" by (metis surj_pair)
  have members: "all_members Q tf (AList.update g (group_at gs g @ [(id_node_id i, cid, opts, None, b)]) gs)"
    if "\<not> suppressed this_id i opts" for g b
    using Cons.prems(1) [of cid i opts] Cons.prems(2) rel that
    by (fastforce simp: all_members_def group_at_def dest!: update_set split: option.splits dest: map_of_SomeD)
  show ?case
  proof (cases "suppressed this_id i opts")
    case True
    with Cons rel show ?thesis by auto
  next
    case False
    have now: "Q (id_node_id i) tf cid opts" using Cons.prems(1) False rel by auto
    show ?thesis
    proof (cases "shared_group opts")
      case None
      with Cons.IH [OF _ Cons.prems(2) all_rels_add [OF Cons.prems(3) now]] Cons.prems False rel show ?thesis by auto
    next
      case (Some g)
      with Cons.IH [OF _ members [OF False] Cons.prems(3)] Cons.prems False rel show ?thesis by (auto simp: Let_def)
    qed
  qed
qed simp

lemma visit_groups_all:
  "all_members Q tf gs \<Longrightarrow> all_rels Q cm \<Longrightarrow> visit_groups choice this_id topic tf gs (cm, c) = Ok (cm', c') \<Longrightarrow> all_rels Q cm'"
proof (induction gs arbitrary: cm c)
  case (Cons x gs)
  obtain g subs where x: "x = (g, subs)" by fastforce
  have rest: "all_members Q tf gs" using Cons.prems(1) by (auto simp: all_members_def)
  obtain r d where ch: "choice g this_id topic subs c = (r, d)" by fastforce
  show ?case
  proof (cases r)
    case None
    with Cons.IH [OF rest Cons.prems(2)] Cons.prems(3) x ch show ?thesis by (auto simp: Let_def)
  next
    case (Some y)
    obtain idx b where y: "y = (idx, b)" by fastforce
    obtain node cid opts z where e: "subs ! idx = (node, cid, opts, z)" by (metis surj_pair)
    have idx: "idx < length subs" using Cons.prems(3) x ch Some y by (auto simp: Let_def split: if_splits)
    then have "(node, cid, opts, z) \<in> set subs" using e by (metis nth_mem)
    then have "Q node tf cid opts" using Cons.prems(1) x by (fastforce simp: all_members_def)
    from Cons.IH [OF rest all_rels_add [OF Cons.prems(2) this]] Cons.prems(3) x ch Some y idx e show ?thesis by (auto simp: Let_def)
  qed
qed simp

lemma visit_filters_all:
  "(\<And>f u rs cid i opts. (f, u) \<in> set fs \<Longrightarrow> map_of rels (topic_to_string f) = Some rs \<Longrightarrow> (cid, i, opts) \<in> set rs \<Longrightarrow>
     \<not> suppressed this_id i opts \<Longrightarrow> Q (id_node_id i) (topic_to_string f) cid opts) \<Longrightarrow>
   all_rels Q cm \<Longrightarrow> visit_filters online choice this_id topic rels fs (cm, c) = Ok (cm', c') \<Longrightarrow> all_rels Q cm'"
proof (induction fs arbitrary: cm c)
  case (Cons x fs)
  obtain f u where x: "x = (f, u)" by fastforce
  let ?tf = "topic_to_string f"
  obtain gs cm1 where step: "(case map_of rels ?tf of Some rs \<Rightarrow> visit_relations online this_id ?tf rs ([], cm) | None \<Rightarrow> ([], cm)) = (gs, cm1)"
    by fastforce
  have one: "all_members Q ?tf gs \<and> all_rels Q cm1"
  proof (cases "map_of rels ?tf")
    case None
    with step Cons.prems(2) show ?thesis by (auto simp: all_members_def)
  next
    case (Some rs)
    with step show ?thesis
      by (intro visit_relations_all [of rs this_id Q ?tf "[]" cm online])
        (use Cons.prems(1) [of f u rs] Cons.prems(2) x Some in \<open>auto simp: all_members_def\<close>)
  qed
  from Cons.prems(3) step x obtain cm2 c2 where
    two: "visit_groups choice this_id topic ?tf gs (cm1, c) = Ok (cm2, c2)"
    "visit_filters online choice this_id topic rels fs (cm2, c2) = Ok (cm', c')" by (auto simp: Let_def)
  have "all_rels Q cm2" using visit_groups_all [OF conjunct1 [OF one] conjunct2 [OF one] two(1)] .
  from Cons.IH [OF _ this two(2)] Cons.prems(1) show ?case by (meson list.set_intros(2))
qed simp

text \<open>Every relation of a result stands for a subscription with a matching filter that the publisher does not suppress.\<close>

definition entitled :: "(string \<Rightarrow> client_id \<rightharpoonup> ident \<times> subscription_options_mqtt) \<Rightarrow> ident \<Rightarrow> topic \<Rightarrow> node_id \<Rightarrow> string \<Rightarrow> client_id \<Rightarrow>
    subscription_options_mqtt \<Rightarrow> bool" where
  "entitled m this_id t node tf cid opts \<longleftrightarrow>
    (\<exists>i. m tf cid = Some (i, opts) \<and> id_node_id i = node \<and> filter_hits tf t \<and> \<not> suppressed this_id i opts)"

lemma router_matches_entitled:
  assumes "router_shape r" and "topic_from_str name = Ok t" and "topic_name t"
    and "router_matches online choice this_id name r c = Ok (res, c')" and "map_of res node = Some rels" and "(tf, cid, opts, ids, grp) \<in> set rels"
  shows "entitled (subscription r) this_id t node tf cid opts"
proof -
  from assms(2, 4) obtain cm where
    run: "visit_filters online choice this_id name (relations r) (trie_matches t (topics r)) ([], c) = Ok (cm, c')"
    and res: "res = map (\<lambda>(node, col). (node, collector_into col)) cm" by (auto simp: router_matches_def)
  have "all_rels (entitled (subscription r) this_id t) cm"
  proof (rule visit_filters_all [OF _ _ run])
    fix f u rs cid i opts
    assume a: "(f, u) \<in> set (trie_matches t (topics r))" "map_of (relations r) (topic_to_string f) = Some rs"
      "(cid, i, opts) \<in> set rs" "\<not> suppressed this_id i opts"
    from a(1) have "topic_to_string f \<in> (\<lambda>p. topic_to_string (fst p)) ` set (trie_matches t (topics r))" by force
    with matched_filters(2) [OF assms(1, 3)] have "filter_hits (topic_to_string f) t" by blast
    with a relations_subscription [OF assms(1) a(2)] show "entitled (subscription r) this_id t (id_node_id i) (topic_to_string f) cid opts"
      by (auto simp: entitled_def)
  qed (simp add: all_rels_def)
  then show ?thesis using assms(5, 6) by (auto simp: res map_of_map dest: all_relsD)
qed

section \<open>Properties of forwarding\<close>

lemma forward_local_result:
  assumes "tx_laws snd_on received is_open" and "forward_local now snd_on f p rels b = (r, b')"
  shows "r \<noteq> Panic" "b' = b\<lparr>bk_peers := bk_peers b'\<rparr>"
    "same_but_channel received is_open (\<lambda>cid. map (M_Forward f) (copies_for p cid rels)) (bk_peers b) (bk_peers b')"
proof -
  obtain ok errs ps where run: "forwards_loop now snd_on f p rels (([], []), bk_peers b) = ((ok, errs), ps)" by (metis surj_pair)
  with assms(2) have "r = (if errs = [] then Ok ok else Err (ok, errs))" "b' = b\<lparr>bk_peers := ps\<rparr>"
    by (auto simp: forward_local_def forwards_to_def)
  then show "r \<noteq> Panic" "b' = b\<lparr>bk_peers := bk_peers b'\<rparr>"
    "same_but_channel received is_open (\<lambda>cid. map (M_Forward f) (copies_for p cid rels)) (bk_peers b) (bk_peers b')"
    using forwards_loop_result [OF assms(1) run] by auto
qed

text \<open>Forwarding changes the table of sessions and the state of the choice in shared groups, nothing else.\<close>

lemma forward_local_frame:
  "forward_local now snd_on f p rels b = (r, b') \<Longrightarrow> b' = b\<lparr>bk_peers := bk_peers b'\<rparr>"
  by (auto simp: forward_local_def split: prod.splits)

lemma forwards_frame:
  assumes "forwards now snd_on choice m f p b = (r, k, b')"
  shows "b' = b\<lparr>bk_peers := bk_peers b', bk_choice := bk_choice b'\<rparr>"
proof (cases "mp_target_clientid p")
  case (Some cid)
  obtain r1 b1 where run: "forward_local now snd_on f p (target_relations p cid) b = (r1, b1)" by fastforce
  with assms Some have "b' = b1" by (auto simp: forwards_def split: res.splits if_splits)
  with forward_local_frame [OF run] show ?thesis by (metis broker.surjective broker.update_convs(3) broker.update_convs(4))
next
  case None
  show ?thesis
  proof (cases "find_relations choice f p b")
    case (Ok mb)
    obtain rm b1 where mb: "mb = (rm, b1)" by fastforce
    have b1: "b1 = b\<lparr>bk_choice := bk_choice b1\<rparr>" using Ok mb by (auto simp: find_relations_def split: res.splits)
    show ?thesis
    proof (cases "map_of rm (bk_node b1)")
      case None
      with assms \<open>mp_target_clientid p = None\<close> Ok mb have "b' = b1" by (auto simp: forwards_def)
      with b1 show ?thesis by (metis broker.surjective broker.update_convs(3) broker.update_convs(4))
    next
      case (Some rels)
      obtain r2 b2 where run: "forward_local now snd_on f p rels b1 = (r2, b2)" by fastforce
      with assms \<open>mp_target_clientid p = None\<close> Ok mb Some have "b' = b2" by (auto simp: forwards_def split: res.splits)
      with b1 forward_local_frame [OF run] show ?thesis by (metis broker.surjective broker.update_convs(3) broker.update_convs(4))
    qed
  qed (use assms None in \<open>auto simp: forwards_def find_relations_def split: res.splits\<close>)
qed

text \<open>What a published message does to the channel of a client, given who has to receive it.\<close>

definition gets_copies :: "('t \<Rightarrow> message list) \<Rightarrow> msg_from \<Rightarrow> (mpublish \<Rightarrow> bool) \<Rightarrow> bool \<Rightarrow> 't \<Rightarrow> 't \<Rightarrow> bool" where
  "gets_copies received f ok some tx tx' \<longleftrightarrow>
    (\<exists>copies. received tx' = received tx @ map (M_Forward f) copies \<and> (copies \<noteq> [] \<longleftrightarrow> some) \<and> (\<forall>c \<in> set copies. ok c))"

lemma copies_some: "copies_for p cid rels \<noteq> [] \<longleftrightarrow> cid \<in> (\<lambda>(_, cid, _). cid) ` set rels"
  by (force simp: copies_for_def filter_empty_conv)

lemma forwards_found:
  assumes laws: "tx_laws snd_on received is_open" and target: "mp_target_clientid p = None"
    and found: "router_matches (registry_online (bk_peers b)) choice (from_id f) (bytes_text (pub_topic (mp_inner p))) (bk_router b) (bk_choice b) = Ok (m, c)"
  shows "\<exists>res b'. forwards now snd_on choice None f p b = (res, None, b') \<and> res \<noteq> Panic \<and> bk_router b' = bk_router b \<and> bk_stats b' = bk_stats b \<and>
    same_but_channel received is_open
      (\<lambda>cid. map (M_Forward f) (copies_for p cid (case map_of m (bk_node b) of Some rels \<Rightarrow> rels | None \<Rightarrow> []))) (bk_peers b) (bk_peers b')"
proof (cases "map_of m (bk_node b)")
  case None
  then show ?thesis
    using target found by (auto simp: forwards_def find_relations_def intro!: same_but_channel_refl)
next
  case (Some rels)
  obtain r b' where run: "forward_local now snd_on f p rels (b\<lparr>bk_choice := c\<rparr>) = (r, b')" by fastforce
  note res = forward_local_result [OF laws run]
  have "bk_router b' = bk_router b \<and> bk_stats b' = bk_stats b" by (subst (1 2) res(2)) simp
  with res Some target found run show ?thesis
    by (auto simp: forwards_def find_relations_def mark_of_def split: res.splits)
qed

text \<open>
  What forwarding a message does to the channels of the sessions of this node, after any sequence of
  subscriptions and unsubscriptions.
\<close>

lemma forwards_delivers:
  assumes "tx_laws snd_on received is_open" and "length ops < 2 ^ 63"
    and "topic_from_str (bytes_text (pub_topic (mp_inner p))) = Ok t" and "topic_name t" and "mp_target_clientid p = None"
    and "bk_router b = fold router_step ops router_new"
  shows "\<exists>res b' pick. forwards now snd_on shared_choice None f p b = (res, None, b') \<and> res \<noteq> Panic \<and>
    (let m = fold subscription_step ops (\<lambda>_ _. None); members = group_members m (from_id f) t in
     (\<forall>tf g. members tf g \<noteq> {} \<longrightarrow> pick tf g \<in> members tf g) \<and>
     (\<forall>cid s tx. map_of (bk_peers b) cid = Some (s, tx) \<and> is_open tx \<longrightarrow>
        (\<exists>tx'. map_of (bk_peers b') cid = Some (s, tx') \<and>
           gets_copies received f (\<lambda>c. \<exists>tf opts ids. entitled m (from_id f) t (bk_node b) tf cid opts \<and> c = forward_copy p opts ids)
             ((bk_node b, cid) \<in> direct_receivers m (from_id f) t \<union> {pick tf g | tf g. members tf g \<noteq> {}}) tx tx')))"
proof -
  let ?on = "registry_online (bk_peers b)" and ?name = "bytes_text (pub_topic (mp_inner p))" and ?pub = "from_id f"
  define m where "m = fold subscription_step ops (\<lambda>_ _. None)"
  have shape: "router_shape (bk_router b)" and sub: "subscription (bk_router b) = m"
    using router_run [OF assms(2)] assms(6) by (simp_all add: m_def)
  have small: "\<forall>tf rs. map_of (relations (bk_router b)) tf = Some rs \<longrightarrow> length rs < 2 ^ 64"
    using router_run_relations [OF assms(2)] assms(6) by auto
  from router_matches_delivered [OF shape shared_choice_valid assms(3, 4) small, of ?on ?pub "bk_choice b"] obtain cm c pick where
    found: "router_matches ?on shared_choice ?pub ?name (bk_router b) (bk_choice b) = Ok (map (\<lambda>(node, col). (node, collector_into col)) cm, c)"
    and pick: "\<forall>tf g. group_members m ?pub t tf g \<noteq> {} \<longrightarrow> pick tf g \<in> group_members m ?pub t tf g"
    and del: "delivered cm = direct_receivers m ?pub t \<union> {pick tf g | tf g. group_members m ?pub t tf g \<noteq> {}}"
    unfolding sub by blast
  let ?res = "map (\<lambda>(node, col). (node, collector_into col)) cm"
  define rels where "rels = (case map_of ?res (bk_node b) of Some rels \<Rightarrow> rels | None \<Rightarrow> [])"
  from forwards_found [OF assms(1, 5) found, of now] obtain r b' where
    run: "forwards now snd_on shared_choice None f p b = (r, None, b')" "r \<noteq> Panic"
    and ch: "same_but_channel received is_open (\<lambda>cid. map (M_Forward f) (copies_for p cid rels)) (bk_peers b) (bk_peers b')"
    unfolding rels_def by blast
  have some: "copies_for p cid rels \<noteq> [] \<longleftrightarrow> (bk_node b, cid) \<in> delivered cm" for cid
    by (cases "map_of cm (bk_node b)") (simp_all add: copies_some rels_def delivered_def clients_def map_of_map)
  have ok: "\<exists>tf opts ids. entitled m ?pub t (bk_node b) tf cid opts \<and> c = forward_copy p opts ids" if c: "c \<in> set (copies_for p cid rels)" for cid c
  proof -
    from c obtain tf opts ids grp where rel: "(tf, cid, opts, ids, grp) \<in> set rels" "c = forward_copy p opts ids" by (auto simp: copies_for_def)
    then have "map_of ?res (bk_node b) = Some rels" by (cases "map_of ?res (bk_node b)") (simp_all add: rels_def)
    from router_matches_entitled [OF shape assms(3, 4) found this rel(1)] rel(2) sub show ?thesis by auto
  qed
  have "\<exists>tx'. map_of (bk_peers b') cid = Some (s, tx') \<and>
      gets_copies received f (\<lambda>c. \<exists>tf opts ids. entitled m ?pub t (bk_node b) tf cid opts \<and> c = forward_copy p opts ids)
        ((bk_node b, cid) \<in> direct_receivers m ?pub t \<union> {pick tf g | tf g. group_members m ?pub t tf g \<noteq> {}}) tx tx'"
    if "map_of (bk_peers b) cid = Some (s, tx)" "is_open tx" for cid s tx
  proof -
    from ch [unfolded same_but_channel_def, THEN spec, of cid] that obtain tx' where
      "map_of (bk_peers b') cid = Some (s, tx')" "received tx' = received tx @ map (M_Forward f) (copies_for p cid rels)" by auto
    then show ?thesis unfolding gets_copies_def del [symmetric] using some [of cid] ok [of _ cid] by blast
  qed
  with run pick show ?thesis unfolding Let_def m_def [symmetric] by blast
qed

text \<open>A channel that satisfies the laws: the messages, and whether the session still listens.\<close>

definition list_send :: "(message list \<times> bool) tx_send" where
  "list_send m = (\<lambda>(ms, listens). if listens then Some (ms @ [m], True) else None)"

lemma list_send_laws: "tx_laws list_send fst snd"
  by (auto simp: tx_laws_def list_send_def split: if_splits)


definition sample_publish :: mpublish where
  "sample_publish = \<lparr>mp_inner = \<lparr>pub_dup = False, pub_retain = True, pub_qos = ExactlyOnce, pub_topic = text_bytes ''a/b'', pub_packet_id = Some 7,
     pub_payload = [1], pub_properties = None\<rparr>, mp_target_clientid = None, mp_delay_interval = None, mp_create_time = None\<rparr>"

definition sample_session :: "((u16, out_inflight_message) alist) session" where
  "sample_session = \<lparr>ss_id = subscriber, ss_subscriptions = [], ss_deliver_queue = queue_new 10,
     ss_out_inflight = out_inflight_new alist_deque 16 20000 0, ss_created_at = 5, ss_connected = True, ss_disconnect_info = disconnect_info_new 0\<rparr>"

definition sample_broker :: "((u16, out_inflight_message) alist, message list \<times> bool, u64) broker" where
  "sample_broker = \<lparr>bk_node = 1, bk_router = fold router_step [R_Add ''a/+'' subscriber subscription_options_mqtt_default] router_new,
     bk_choice = 0, bk_peers = [(''c1'', sample_session, [], True)],
     bk_stats = \<lparr>bs_subs = \<lparr>st_subscriptions = counter_new, st_subscriptions_shared = counter_new\<rparr>, bs_message_queues = counter_new,
       bs_out_inflights = counter_new\<rparr>\<rparr>"

section \<open>Retained messages of several nodes\<close>

text \<open>The entry at an index is the one to keep among the first entries: no other of its topic is later, none as late comes before.\<close>

definition best_idx :: "(string \<times> retain) list \<Rightarrow> nat \<Rightarrow> nat \<Rightarrow> bool" where
  "best_idx xs k i \<longleftrightarrow> i < k \<and> (\<forall>j<k. fst (xs ! j) = fst (xs ! i) \<longrightarrow>
     retain_time (snd (xs ! j)) < retain_time (snd (xs ! i)) \<or> retain_time (snd (xs ! j)) = retain_time (snd (xs ! i)) \<and> i \<le> j)"

definition latest_inv :: "(string \<times> retain) list \<Rightarrow> nat \<Rightarrow> (string \<times> nat) list \<Rightarrow> bool" where
  "latest_inv xs k m \<longleftrightarrow> distinct (map fst m) \<and> (\<forall>t i. map_of m t = Some i \<longrightarrow> best_idx xs k i \<and> fst (xs ! i) = t) \<and>
     (\<forall>j<k. \<exists>i. map_of m (fst (xs ! j)) = Some i)"

lemma best_other: "best_idx xs k i \<Longrightarrow> fst (xs ! i) \<noteq> fst (xs ! k) \<Longrightarrow> best_idx xs (Suc k) i"
  by (auto simp: best_idx_def less_Suc_eq)

lemma best_old: "best_idx xs k i \<Longrightarrow> \<not> retain_time (snd (xs ! i)) < retain_time (snd (xs ! k)) \<Longrightarrow> best_idx xs (Suc k) i"
  by (auto simp: best_idx_def less_Suc_eq)

lemma best_new:
  "(\<And>j. j < k \<Longrightarrow> fst (xs ! j) = fst (xs ! k) \<Longrightarrow> retain_time (snd (xs ! j)) < retain_time (snd (xs ! k))) \<Longrightarrow> best_idx xs (Suc k) k"
  by (auto simp: best_idx_def less_Suc_eq)

lemma latest_inv_step:
  assumes "latest_inv xs k m"
  shows "latest_inv xs (Suc k)
    (if (case map_of m (fst (xs ! k)) of Some j \<Rightarrow> retain_time (snd (xs ! j)) < retain_time (snd (xs ! k)) | None \<Rightarrow> True)
     then AList.update (fst (xs ! k)) k m else m)"
proof (cases "case map_of m (fst (xs ! k)) of Some j \<Rightarrow> retain_time (snd (xs ! j)) < retain_time (snd (xs ! k)) | None \<Rightarrow> True")
  case True
  have "best_idx xs (Suc k) k"
  proof (rule best_new)
    fix j
    assume j: "j < k" "fst (xs ! j) = fst (xs ! k)"
    with assms obtain i where i: "map_of m (fst (xs ! k)) = Some i" by (auto simp: latest_inv_def)
    with assms have "best_idx xs k i" "fst (xs ! i) = fst (xs ! k)" by (auto simp: latest_inv_def)
    with j i True show "retain_time (snd (xs ! j)) < retain_time (snd (xs ! k))" by (force simp: best_idx_def)
  qed
  with assms True show ?thesis
    by (auto simp: latest_inv_def update_conv' distinct_update less_Suc_eq intro!: best_other)
next
  case False
  then obtain j where j: "map_of m (fst (xs ! k)) = Some j" "\<not> retain_time (snd (xs ! j)) < retain_time (snd (xs ! k))"
    by (auto split: option.splits)
  have "best_idx xs (Suc k) i \<and> fst (xs ! i) = t" if "map_of m t = Some i" for t i
  proof -
    from that assms have i: "best_idx xs k i" "fst (xs ! i) = t" unfolding latest_inv_def by blast+
    show ?thesis
    proof (cases "t = fst (xs ! k)")
      case True
      with that j have "i = j" by simp
      with i j show ?thesis by (auto intro: best_old)
    next
      case False
      with i show ?thesis by (auto intro: best_other)
    qed
  qed
  with assms j False show ?thesis by (auto simp: latest_inv_def less_Suc_eq)
qed

lemma latest_idx_inv:
  "latest_inv xs k m \<Longrightarrow> k \<le> length xs \<Longrightarrow> latest_inv xs (length xs) (latest_idx xs (enumerate k (drop k xs)) m)"
proof (induction "length xs - k" arbitrary: k m)
  case (Suc n)
  then have k: "k < length xs" by simp
  obtain t r where xk: "xs ! k = (t, r)" by fastforce
  from k have "enumerate k (drop k xs) = (k, t, r) # enumerate (Suc k) (drop (Suc k) xs)" by (simp add: xk Cons_nth_drop_Suc [symmetric])
  then have "latest_idx xs (enumerate k (drop k xs)) m = latest_idx xs (enumerate (Suc k) (drop (Suc k) xs))
      (if (case map_of m (fst (xs ! k)) of Some j \<Rightarrow> retain_time (snd (xs ! j)) < retain_time (snd (xs ! k)) | None \<Rightarrow> True)
       then AList.update (fst (xs ! k)) k m else m)"
    by (cases "map_of m t") (simp_all add: xk Let_def)
  moreover have "n = length xs - Suc k" "Suc k \<le> length xs" using Suc.hyps(2) k by simp_all
  ultimately show ?case using Suc.hyps(1) [of "Suc k", OF _ latest_inv_step [OF Suc.prems(1)]] by (simp only:)
qed simp

text \<open>
  Merging the retained messages of several nodes keeps the order and, of every topic, exactly the latest
  message, the first of them when several are equally late.
\<close>

theorem dedup_retains_latest:
  "dedup_retains_by_topic xs = map ((!) xs) (filter (best_idx xs (length xs)) [0..<length xs]) \<and>
   distinct (map fst (dedup_retains_by_topic xs)) \<and> fst ` set (dedup_retains_by_topic xs) = fst ` set xs \<and>
   subseq (dedup_retains_by_topic xs) xs"
proof -
  let ?n = "length xs" and ?m = "latest_idx xs (enumerate 0 xs) []"
  let ?best = "filter (best_idx xs ?n) [0..<?n]"
  have "latest_inv xs 0 []" by (simp add: latest_inv_def)
  from latest_idx_inv [OF this] have inv: "latest_inv xs ?n ?m" by simp
  have keys: "distinct (map fst ?m)" using inv by (simp add: latest_inv_def)
  have kept: "best_idx xs ?n i \<and> fst (xs ! i) = t" if "(t, i) \<in> set ?m" for t i using that inv keys by (simp add: latest_inv_def)
  have "distinct (map snd ?m)"
    using keys kept by (auto simp: distinct_conv_nth) (metis fst_conv nth_mem surjective_pairing)
  moreover have "set (map snd ?m) = set ?best"
  proof -
    have "i \<in> snd ` set ?m" if b: "best_idx xs ?n i" for i
    proof -
      from b inv obtain j where "map_of ?m (fst (xs ! i)) = Some j" by (auto simp: latest_inv_def best_idx_def)
      moreover from this b kept [of "fst (xs ! i)" j] have "j = i" by (force simp: best_idx_def dest: map_of_SomeD)
      ultimately show ?thesis by (force dest: map_of_SomeD)
    qed
    with kept show ?thesis by (force simp: best_idx_def)
  qed
  ultimately have "sort (map snd ?m) = ?best"
    by (intro sorted_distinct_set_unique) (simp_all add: sorted_wrt_filter)
  then have eq: "dedup_retains_by_topic xs = map ((!) xs) ?best" by (simp add: dedup_retains_by_topic_def)
  have "subseq (map ((!) xs) ?best) (map ((!) xs) [0..<?n])" by (intro subseq_map subseq_filter_left)
  then have sub: "subseq (dedup_retains_by_topic xs) xs" by (simp add: eq map_nth)
  have "inj_on (\<lambda>i. fst (xs ! i)) (set ?best)" by (force simp: inj_on_def best_idx_def)
  then have dist: "distinct (map fst (dedup_retains_by_topic xs))" by (simp add: eq distinct_map comp_def)
  have "t \<in> fst ` set (dedup_retains_by_topic xs)" if "t \<in> fst ` set xs" for t
  proof -
    from that obtain j where "j < ?n" "fst (xs ! j) = t" by (auto simp: in_set_conv_nth)
    with inv obtain i where "map_of ?m t = Some i" by (auto simp: latest_inv_def)
    with inv show ?thesis by (force simp: eq latest_inv_def best_idx_def)
  qed
  moreover have "set (dedup_retains_by_topic xs) \<subseteq> set xs" using sub by (auto elim: list_emb_set)
  ultimately show ?thesis using eq dist sub by blast
qed

end
