(* ===== verification/Delayed.thy ===== *)
theory Delayed
  imports Broker_Types Counter Texts "HOL-Library.Multiset"
begin

text \<open>
  Delayed publishing (\<^verbatim>\<open>delayed.rs\<close> and \<^verbatim>\<open>DelayedPublish\<close> of \<^verbatim>\<open>types.rs\<close>): the topic \<^verbatim>\<open>$delayed/<seconds>/<topic>\<close>, the
  bounded heap of messages that wait, and the sweep of the background task that takes out the messages
  that are due.  Times are in milliseconds.  The heap is the \<^verbatim>\<open>BinaryHeap\<close> of the standard library, which
  leaves open in which order equal elements come; it is an argument with its documented laws.
\<close>

section \<open>Topics\<close>

text \<open>The error quotes the topic.\<close>

datatype delayed_error = Delay_Not_Integer bytes

definition delayed_parse :: "mpublish \<Rightarrow> (mpublish, delayed_error) res" where
  "delayed_parse p =
    (case splitn 3 CHR ''/'' (bytes_text (pub_topic (mp_inner p))) of
       [first, delay_interval, topic] \<Rightarrow>
         if first = ''$delayed'' then
           (case parse_uint 32 delay_interval of
              Some interval_s \<Rightarrow>
                Ok (p\<lparr>mp_delay_interval := Some (of_nat interval_s), mp_inner := (mp_inner p)\<lparr>pub_topic := text_bytes topic\<rparr>\<rparr>)
            | None \<Rightarrow> Err (Delay_Not_Integer (pub_topic (mp_inner p))))
         else Ok p
     | _ \<Rightarrow> Ok p)"

section \<open>Messages that wait\<close>

record delayed_message =
  dp_expired_time :: int
  dp_from :: msg_from
  dp_publish :: mpublish
  dp_storage_available :: bool
  dp_expiry_interval :: "nat option"

definition delayed_message_new :: "int \<Rightarrow> msg_from \<Rightarrow> mpublish \<Rightarrow> bool \<Rightarrow> nat option \<Rightarrow> delayed_message" where
  "delayed_message_new now f p storage expiry =
    \<lparr>dp_expired_time = (case mp_delay_interval p of Some di \<Rightarrow> now + int (unat di) * 1000 | None \<Rightarrow> now),
     dp_from = f, dp_publish = p, dp_storage_available = storage, dp_expiry_interval = expiry\<rparr>"

definition dp_is_expired :: "int \<Rightarrow> delayed_message \<Rightarrow> bool" where
  "dp_is_expired now dp \<longleftrightarrow> dp_expired_time dp < now"

text \<open>The order of the heap is reversed: the greatest element is the one that is due first.\<close>

definition dp_le :: "delayed_message \<Rightarrow> delayed_message \<Rightarrow> bool" where
  "dp_le self other \<longleftrightarrow> dp_expired_time other \<le> dp_expired_time self"

section \<open>The heap\<close>

record ('q, 'a) heap_ops =
  hp_new :: 'q
  hp_push :: "'a \<Rightarrow> 'q \<Rightarrow> 'q"
  hp_peek :: "'q \<Rightarrow> 'a option"
  hp_pop :: "'q \<Rightarrow> 'a option \<times> 'q"
  hp_len :: "'q \<Rightarrow> nat"
  hp_elems :: "'q \<Rightarrow> 'a multiset"

definition heap_laws :: "('a \<Rightarrow> 'a \<Rightarrow> bool) \<Rightarrow> ('q, 'a) heap_ops \<Rightarrow> bool" where
  "heap_laws le H \<longleftrightarrow>
     hp_elems H (hp_new H) = {#} \<and>
     (\<forall>x q. hp_elems H (hp_push H x q) = add_mset x (hp_elems H q)) \<and>
     (\<forall>q. hp_peek H q = None \<longleftrightarrow> hp_elems H q = {#}) \<and>
     (\<forall>q x. hp_peek H q = Some x \<longrightarrow> x \<in># hp_elems H q \<and> (\<forall>y \<in># hp_elems H q. le y x)) \<and>
     (\<forall>q. fst (hp_pop H q) = hp_peek H q) \<and>
     (\<forall>q x. hp_peek H q = Some x \<longrightarrow> hp_elems H q = add_mset x (hp_elems H (snd (hp_pop H q)))) \<and>
     (\<forall>q. hp_len H q = size (hp_elems H q))"

lemma heap_lawsD:
  assumes "heap_laws le H"
  shows "hp_elems H (hp_new H) = {#}" "hp_elems H (hp_push H x q) = add_mset x (hp_elems H q)"
    "hp_peek H q = None \<longleftrightarrow> hp_elems H q = {#}" "hp_peek H q = Some x \<Longrightarrow> x \<in># hp_elems H q"
    "hp_peek H q = Some x \<Longrightarrow> y \<in># hp_elems H q \<Longrightarrow> le y x" "fst (hp_pop H q) = hp_peek H q"
    "hp_peek H q = Some x \<Longrightarrow> hp_elems H q = add_mset x (hp_elems H (snd (hp_pop H q)))"
    "hp_len H q = size (hp_elems H q)"
  using assms unfolding heap_laws_def by blast+

section \<open>The sender\<close>

record 'q delayed_sender =
  ds_msgs :: 'q
  ds_delayed_publishs :: counter

definition delayed_sender_new :: "('q, delayed_message) heap_ops \<Rightarrow> 'q delayed_sender" where
  "delayed_sender_new H = \<lparr>ds_msgs = hp_new H, ds_delayed_publishs = counter_new\<rparr>"

definition delay_publish :: "('q, delayed_message) heap_ops \<Rightarrow> nat \<Rightarrow> int \<Rightarrow> msg_from \<Rightarrow> mpublish \<Rightarrow> bool \<Rightarrow> nat option \<Rightarrow>
    'q delayed_sender \<Rightarrow> (msg_from \<times> mpublish) option \<times> 'q delayed_sender" where
  "delay_publish H delayed_publish_max now f p storage expiry ds =
    (if hp_len H (ds_msgs ds) < delayed_publish_max then
       (let msgs = hp_push H (delayed_message_new now f p storage expiry) (ds_msgs ds) in
        (None, ds\<lparr>ds_msgs := msgs, ds_delayed_publishs := max_max (isize (int (hp_len H msgs))) (ds_delayed_publishs ds)\<rparr>))
     else (Some (f, p), ds))"

definition delayed_len :: "('q, delayed_message) heap_ops \<Rightarrow> 'q delayed_sender \<Rightarrow> nat" where
  "delayed_len H ds = hp_len H (ds_msgs ds)"

text \<open>
  One sweep of the background task: the inner loop, which reads the clock for each message (its \<^verbatim>\<open>i\<close>-th
  reading is \<^verbatim>\<open>clock i\<close>), and the messages it hands over to be forwarded, in order.
\<close>

partial_function (option) expire :: "('q, delayed_message) heap_ops \<Rightarrow> (nat \<Rightarrow> int) \<Rightarrow> nat \<Rightarrow> 'q \<Rightarrow> (delayed_message list \<times> 'q) option" where
  "expire H clock i q =
    (case hp_peek H q of
       None \<Rightarrow> Some ([], q)
     | Some p \<Rightarrow>
         if dp_is_expired (clock i) p then
           (case hp_pop H q of
              (Some dp, q') \<Rightarrow> Option.bind (expire H clock (Suc i) q') (\<lambda>(sent, q''). Some (dp # sent, q''))
            | (None, q') \<Rightarrow> Some ([], q'))
         else Some ([], q))"

definition delayed_out :: "delayed_message \<Rightarrow> msg_from \<times> mpublish \<times> bool \<times> nat option" where
  "delayed_out dp = (dp_from dp, (dp_publish dp)\<lparr>mp_delay_interval := None\<rparr>, dp_storage_available dp, dp_expiry_interval dp)"

section \<open>The sweep\<close>

lemma expire_result:
  assumes "heap_laws dp_le H"
  shows "\<exists>sent q'. expire H clock i q = Some (sent, q') \<and> hp_elems H q = mset sent + hp_elems H q' \<and>
    sorted (map dp_expired_time sent) \<and> (\<forall>k < length sent. dp_is_expired (clock (i + k)) (sent ! k)) \<and>
    (\<forall>m \<in># hp_elems H q'. \<not> dp_is_expired (clock (i + length sent)) m)"
proof (induction "size (hp_elems H q)" arbitrary: i q)
  case 0
  then have "hp_peek H q = None" using heap_lawsD(3) [OF assms] by simp
  with 0 show ?case by (subst expire.simps) simp
next
  case (Suc n)
  then obtain p where p: "hp_peek H q = Some p" using heap_lawsD(3) [OF assms, of q] by (cases "hp_peek H q") auto
  show ?case
  proof (cases "dp_is_expired (clock i) p")
    case False
    have "\<not> dp_is_expired (clock i) m" if "m \<in># hp_elems H q" for m
      using heap_lawsD(5) [OF assms p that] False by (simp add: dp_le_def dp_is_expired_def)
    with p False show ?thesis by (subst expire.simps) simp
  next
    case True
    obtain q' where q': "hp_pop H q = (Some p, q')" using heap_lawsD(6) [OF assms, of q] p by (metis prod.collapse)
    have elems: "hp_elems H q = add_mset p (hp_elems H q')" using heap_lawsD(7) [OF assms p] q' by simp
    with Suc.hyps(2) have "n = size (hp_elems H q')" by simp
    from Suc.hyps(1) [OF this, of "Suc i"] obtain sent q'' where
      IH: "expire H clock (Suc i) q' = Some (sent, q'')" "hp_elems H q' = mset sent + hp_elems H q''"
      "sorted (map dp_expired_time sent)" "\<forall>k < length sent. dp_is_expired (clock (Suc i + k)) (sent ! k)"
      "\<forall>m \<in># hp_elems H q''. \<not> dp_is_expired (clock (Suc i + length sent)) m" by blast
    have "dp_expired_time p \<le> dp_expired_time m" if "m \<in> set sent" for m
      using heap_lawsD(5) [OF assms p, of m] that elems IH(2) by (simp add: dp_le_def)
    moreover have "expire H clock i q = Some (p # sent, q'')"
      using p True q' IH(1) by (subst expire.simps) simp
    moreover have "\<forall>k < length (p # sent). dp_is_expired (clock (i + k)) ((p # sent) ! k)"
      using True IH(4) by (auto simp: less_Suc_eq_0_disj)
    ultimately show ?thesis using elems IH(2, 3, 5) by (intro exI [of _ "p # sent"] exI [of _ q'']) simp
  qed
qed

section \<open>Runs\<close>

text \<open>
  The history of a sender: the messages it has accepted, and those a sweep has handed over, each with the
  clock reading at which it was found due.
\<close>

datatype delayed_op =
    D_Publish int msg_from mpublish bool "nat option"
  | D_Sweep "nat \<Rightarrow> int"

type_synonym delayed_history = "delayed_message list \<times> (int \<times> delayed_message) list"

fun delayed_step :: "('q, delayed_message) heap_ops \<Rightarrow> nat \<Rightarrow> delayed_op \<Rightarrow> 'q delayed_sender \<times> delayed_history \<Rightarrow>
    'q delayed_sender \<times> delayed_history" where
  "delayed_step H mx (D_Publish now f p storage expiry) (ds, accepted, sent) =
    (case delay_publish H mx now f p storage expiry ds of
       (None, ds) \<Rightarrow> (ds, accepted @ [delayed_message_new now f p storage expiry], sent)
     | (Some _, ds) \<Rightarrow> (ds, accepted, sent))"
| "delayed_step H mx (D_Sweep clock) (ds, accepted, sent) =
    (case expire H clock 0 (ds_msgs ds) of
       Some (out, q) \<Rightarrow> (ds\<lparr>ds_msgs := q\<rparr>, accepted, sent @ map (\<lambda>k. (clock k, out ! k)) [0..<length out])
     | None \<Rightarrow> (ds, accepted, sent))"

definition delayed_inv :: "('q, delayed_message) heap_ops \<Rightarrow> nat \<Rightarrow> 'q delayed_sender \<times> delayed_history \<Rightarrow> bool" where
  "delayed_inv H mx = (\<lambda>(ds, accepted, sent).
     mset accepted = mset (map snd sent) + hp_elems H (ds_msgs ds) \<and> delayed_len H ds \<le> mx \<and>
     (\<forall>(t, dp) \<in> set sent. dp_is_expired t dp))"

lemma delayed_step_inv:
  assumes "heap_laws dp_le H" and "delayed_inv H mx (ds, accepted, sent)"
  shows "delayed_inv H mx (delayed_step H mx x (ds, accepted, sent))"
proof (cases x)
  case (D_Publish now f p storage expiry)
  with assms show ?thesis
    by (simp add: delayed_inv_def delay_publish_def delayed_len_def heap_lawsD(2, 8) [OF assms(1)] Let_def)
next
  case (D_Sweep clock)
  from expire_result [OF assms(1), of clock 0 "ds_msgs ds"] obtain out q where
    out: "expire H clock 0 (ds_msgs ds) = Some (out, q)" "hp_elems H (ds_msgs ds) = mset out + hp_elems H q"
    "\<forall>k < length out. dp_is_expired (clock k) (out ! k)" by auto
  have "map snd (map (\<lambda>k. (clock k, out ! k)) [0..<length out]) = out" by (simp add: comp_def map_nth)
  then have "mset (map (\<lambda>x. snd (clock x, out ! x)) [0..<length out]) = mset out" by (simp add: comp_def)
  then show ?thesis
    using assms(2) D_Sweep out by (auto simp: delayed_inv_def delayed_len_def heap_lawsD(8) [OF assms(1)] multiset.map_comp comp_def)
qed

lemma delayed_run_inv:
  "heap_laws dp_le H \<Longrightarrow> delayed_inv H mx s \<Longrightarrow> delayed_inv H mx (fold (delayed_step H mx) ops s)"
proof (induction ops arbitrary: s)
  case (Cons x ops)
  then show ?case using delayed_step_inv [of H mx "fst s" "fst (snd s)" "snd (snd s)" x] by simp
qed simp

text \<open>A heap that satisfies the laws: a list, from which the first of the smallest elements is taken.\<close>

definition least :: "delayed_message \<Rightarrow> delayed_message list \<Rightarrow> delayed_message" where
  "least = foldl (\<lambda>a b. if dp_expired_time b < dp_expired_time a then b else a)"

definition list_heap :: "(delayed_message list, delayed_message) heap_ops" where
  "list_heap = \<lparr>hp_new = [], hp_push = (\<lambda>x q. q @ [x]),
     hp_peek = (\<lambda>q. case q of [] \<Rightarrow> None | x # xs \<Rightarrow> Some (least x xs)),
     hp_pop = (\<lambda>q. case q of [] \<Rightarrow> (None, []) | x # xs \<Rightarrow> (Some (least x xs), remove1 (least x xs) q)),
     hp_len = length, hp_elems = mset\<rparr>"

lemma least_in: "least x xs \<in> insert x (set xs)"
proof (induction xs arbitrary: x)
  case (Cons y xs)
  from Cons [of x] Cons [of y] show ?case by (auto simp: least_def)
qed (simp add: least_def)

lemma least_le: "y \<in> insert x (set xs) \<Longrightarrow> dp_expired_time (least x xs) \<le> dp_expired_time y"
proof (induction xs arbitrary: x y)
  case (Cons z xs)
  from Cons.prems Cons.IH [of y x] Cons.IH [of y z] Cons.IH [of x x] Cons.IH [of z z] show ?case by (auto simp: least_def)
qed (simp add: least_def)

lemma list_heap_laws: "heap_laws dp_le list_heap"
proof -
  have "mset xs = add_mset (least x xs) (mset xs - {#least x xs#})" if "least x xs \<noteq> x" for x xs
    using least_in [of x xs] that by simp
  then show ?thesis
    using least_in least_le by (auto simp: heap_laws_def list_heap_def dp_le_def split: list.splits)
qed

section \<open>Properties\<close>


definition delayed_sample :: mpublish where
  "delayed_sample = \<lparr>mp_inner = \<lparr>pub_dup = False, pub_retain = False, pub_qos = AtMostOnce, pub_topic = text_bytes ''$delayed/1/a'',
     pub_packet_id = None, pub_payload = [1], pub_properties = None\<rparr>, mp_target_clientid = None, mp_delay_interval = None, mp_create_time = None\<rparr>"

lemma expire_one: "dp_is_expired (clock 0) m \<Longrightarrow> expire list_heap clock 0 [m] = Some ([m], [])"
  by (subst expire.simps, subst expire.simps) (simp add: list_heap_def least_def)


text \<open>
  A topic with the prefix and a number is published without the prefix, after that many seconds; any other
  topic with at most two levels or another first level is left alone.
\<close>

lemma delayed_parse_prefix:
  assumes "pub_topic (mp_inner p) = text_bytes (''$delayed/'' @ n @ ''/'' @ t)" and "CHR ''/'' \<notin> set n"
  shows "delayed_parse p = (case parse_uint 32 n of
      Some s \<Rightarrow> Ok (p\<lparr>mp_delay_interval := Some (of_nat s), mp_inner := (mp_inner p)\<lparr>pub_topic := text_bytes t\<rparr>\<rparr>)
    | None \<Rightarrow> Err (Delay_Not_Integer (pub_topic (mp_inner p))))"
proof -
  have "splitn 3 CHR ''/'' (''$delayed'' @ CHR ''/'' # n @ CHR ''/'' # t) = [''$delayed'', n, t]"
    using assms(2) by (intro splitn_three) simp_all
  then show ?thesis by (simp add: delayed_parse_def assms(1))
qed

lemma delayed_sample_parse:
  "delayed_parse delayed_sample =
   Ok (delayed_sample\<lparr>mp_delay_interval := Some 1, mp_inner := (mp_inner delayed_sample)\<lparr>pub_topic := text_bytes ''a''\<rparr>\<rparr>)"
proof -
  have "parse_uint 32 ''1'' = Some 1" by (simp add: parse_uint_def digit_value_def Let_def)
  then show ?thesis using delayed_parse_prefix [of delayed_sample "''1''" "''a''"] by (simp add: delayed_sample_def)
qed

end
