(* ===== verification/Retainer.thy ===== *)
theory Retainer
  imports Retain
begin

text \<open>
  The built-in store of retained messages (\<^verbatim>\<open>builtins/retainer.rs\<close>): limits on the size of a payload and on the
  number of topics, and a time to live, on top of the in-memory storage.  Durations are in the unit of
  the clock.
\<close>

section \<open>The store\<close>

record retainer_config =
  max_retained_messages :: int
  max_payload_size :: nat
  retained_message_ttl :: "nat option"

definition retainer_config_default :: retainer_config where
  "retainer_config_default = \<lparr>max_retained_messages = 10000, max_payload_size = 1024 * 1024, retained_message_ttl = None\<rparr>"

definition ram_count :: "retain_storage \<Rightarrow> int" where
  "ram_count st = current (retaineds st)"

definition ram_max :: "retain_storage \<Rightarrow> int" where
  "ram_max st = maximum (retaineds st)"

definition ram_get :: "nat \<Rightarrow> string \<Rightarrow> retain_storage \<Rightarrow> ((string \<times> retain) list, topic_error) res" where
  "ram_get now topic_filter st = get_message now topic_filter st"

definition ram_expiry :: "retainer_config \<Rightarrow> nat option \<Rightarrow> nat option" where
  "ram_expiry cfg expiry_interval =
    (case retained_message_ttl cfg of
       Some ttl \<Rightarrow> if ttl = 0 then None else Some ttl
     | None \<Rightarrow> expiry_interval)"

definition ram_set :: "retainer_config \<Rightarrow> nat \<Rightarrow> string \<Rightarrow> retain \<Rightarrow> nat option \<Rightarrow> retain_storage \<Rightarrow> (unit, topic_error) res \<times> retain_storage" where
  "ram_set cfg now topic retain expiry_interval st =
    (if max_payload_size cfg < length (pub_payload (mp_inner (rt_publish retain))) then (Ok (), st)
     else if 0 < max_retained_messages cfg \<and> max_retained_messages cfg \<le> ram_count st then
       (case ram_get now topic st of
          Ok existing \<Rightarrow>
            if existing = [] then (Ok (), st)
            else set_with_timeout now topic retain (ram_expiry cfg expiry_interval) st
        | Err e \<Rightarrow> (Err e, st)
        | Panic \<Rightarrow> (Panic, st))
     else set_with_timeout now topic retain (ram_expiry cfg expiry_interval) st)"

definition ram_remove_expired :: "nat \<Rightarrow> nat \<Rightarrow> retain_storage \<Rightarrow> nat \<times> retain_storage" where
  "ram_remove_expired usize_max now st = remove_expired_messages usize_max now st"

section \<open>The limit\<close>

datatype ram_op = Ram_Set nat string retain "nat option" | Ram_Sweep nat

fun ram_step :: "retainer_config \<Rightarrow> ram_op \<Rightarrow> retain_storage \<Rightarrow> retain_storage" where
  "ram_step cfg (Ram_Set now topic r expiry) st = snd (ram_set cfg now topic r expiry st)"
| "ram_step cfg (Ram_Sweep now) st = snd (ram_remove_expired (2 ^ 64 - 1) now st)"

text \<open>Topics that are published have no wildcards.\<close>

fun names_only :: "ram_op \<Rightarrow> bool" where
  "names_only (Ram_Set now topic r expiry) = (\<forall>t. topic_from_str topic = Ok t \<longrightarrow> topic_name t)"
| "names_only (Ram_Sweep now) = True"

lemma name_matches_itself: "topic_name f \<Longrightarrow> mqtt_matches f t \<Longrightarrow> t = f"
proof -
  have "list_all (\<lambda>l. \<not> is_wildcard l) f \<Longrightarrow> filter_matches f t \<Longrightarrow> t = f"
    by (induction f t rule: filter_matches.induct) (auto simp: is_wildcard_def split: list.splits)
  then show "topic_name f \<Longrightarrow> mqtt_matches f t \<Longrightarrow> t = f" by (simp add: topic_name_def mqtt_matches_def)
qed

lemma rclean_names: "rnames n \<Longrightarrow> rnames (rclean P n)"
proof (induction n)
  case (RNode v bs)
  have "rnames (strip P c)" if "rnames c" for c
    using that by (cases c) (auto simp: strip_def split: option.split)
  with RNode show ?case by (fastforce simp: list_all_iff)
qed

definition ram_inv :: "retainer_config \<Rightarrow> retain_storage \<Rightarrow> bool" where
  "ram_inv cfg st \<longleftrightarrow> storage_inv st \<and> rnames (messages st) \<and> ram_count st \<le> max_retained_messages cfg"

lemma stored_inv:
  fixes now :: nat and expiry :: "nat option" and r :: retain
  assumes "storage_inv st" "rnames (messages st)" "topic_from_str topic = Ok t" "topic_name t" "rvalues_size (messages st) < 2 ^ 63 - 1"
  defines "st' \<equiv> snd (set_with_timeout now topic r expiry st)"
  shows "storage_inv st' \<and> rnames (messages st') \<and> (ram_count st' \<le> ram_count st + (if rlookup t (messages st) = None then 1 else 0))"
proof -
  note s = set_with_timeout_replaced [OF assms(3, 1, 5), of now r expiry]
  have inv: "rinv (messages st)" using assms(1) by (simp add: storage_inv_def)
  have "rnames (messages st')"
    unfolding st'_def s(2) using assms(2, 4) by (auto simp: rmap.replaced_def Let_def rremove_names rinsert_names)
  moreover have "ram_count st' \<le> ram_count st + (if rlookup t (messages st) = None then 1 else 0)"
    using rmap.card_replaced [OF inv, of t "if pub_payload (mp_inner (rt_publish r)) = [] then None else Some (timed_new now r expiry)"]
      s(2, 3) assms(1)
    by (auto simp: st'_def ram_count_def storage_inv_def split: if_splits)
  ultimately show ?thesis using s(3) by (simp add: st'_def)
qed

lemma existing_stored:
  assumes "storage_inv st" "rnames (messages st)" "topic_from_str topic = Ok t" "topic_name t" "ram_get now topic st = Ok (x # xs)"
  shows "rlookup t (messages st) \<noteq> None"
proof -
  from assms(3, 5) have "rmatches (messages st) t [] \<noteq> []" by (auto simp: ram_get_def get_message_def)
  then obtain u v where uv: "(u, v) \<in> set (rmatches (messages st) t [])" by (cases "rmatches (messages st) t []") auto
  have "hash_last t" using assms(3) by (auto simp: topic_from_str_iff canonical_def topic_is_valid_iff well_placed_topic_hash_last)
  with uv assms(1, 2) have "rlookup u (messages st) = Some v" "contributes t [] u"
    using rmatches_iff [of "messages st" t u v "[]"] by (auto simp: storage_inv_def)
  moreover from this assms(1) have "u \<noteq> []" by (auto simp: storage_inv_def)
  ultimately show ?thesis using name_matches_itself [OF assms(4), of u] by (auto simp: contributes_def mqtt_matches_def)
qed

lemma ram_set_inv:
  assumes "ram_inv cfg st" "0 < max_retained_messages cfg" "max_retained_messages cfg < 2 ^ 63 - 1" "names_only (Ram_Set now topic r expiry)"
  shows "ram_inv cfg (snd (ram_set cfg now topic r expiry st))"
proof (cases "topic_from_str topic")
  case (Ok t)
  have inv: "storage_inv st" "rnames (messages st)" "topic_name t" using assms(1, 4) Ok by (auto simp: ram_inv_def)
  have "rvalues_size (messages st) < 2 ^ 63 - 1" using assms(1, 3) by (simp add: ram_inv_def ram_count_def storage_inv_def)
  note st = stored_inv [OF inv(1, 2) Ok inv(3) this, of now r "ram_expiry cfg expiry"]
  have "rlookup t (messages st) \<noteq> None" if "ram_get now topic st = Ok l" "l \<noteq> []" for l
    using existing_stored [OF inv(1, 2) Ok inv(3), of now] that by (cases l) auto
  with st assms(1, 2) show ?thesis
    by (cases "rlookup t (messages st) = None") (auto simp: ram_set_def ram_inv_def split: res.split)
qed (use assms(1) in \<open>auto simp: ram_set_def set_with_timeout_def split: res.split\<close>)

lemma ram_sweep_inv:
  assumes "ram_inv cfg st" "max_retained_messages cfg < 2 ^ 63 - 1"
  shows "ram_inv cfg (ram_step cfg (Ram_Sweep now) st)"
proof -
  have small: "rvalues_size (messages st) < 2 ^ 63" using assms by (simp add: ram_inv_def ram_count_def storage_inv_def)
  then have "rvalues_size (messages st) < 2 ^ 64 - 1" by simp
  from remove_expired_clean [OF _ small this, of now] assms(1) show ?thesis
    by (auto simp: ram_inv_def ram_remove_expired_def ram_count_def storage_inv_def rclean_names)
qed


definition one_topic :: retainer_config where
  "one_topic = retainer_config_default\<lparr>max_retained_messages := 1\<rparr>"

lemma one_topic_full:
  "fold (ram_step one_topic) [Ram_Set 0 ''a'' sample_retain (Some 10)] storage_new =
   \<lparr>messages = RNode None [(Normal ''a'', RNode (Some (TimedValue sample_retain (Some 10))) [])],
    retaineds = \<lparr>current = 1, maximum = 1, merge_mode = SMM_None\<rparr>\<rparr>"
proof -
  have "topic_from_str ''a'' = Ok [Normal ''a'']" by code_simp
  then show ?thesis
    by (simp add: one_topic_def retainer_config_default_def ram_set_def ram_count_def storage_new_def counter_defs is_isize_def
      set_with_timeout_def sample_retain_def ram_expiry_def timed_new_def rinsert_def rinsert_path.simps rnode_default_def)
qed


text \<open>
  Whether a topic is stored already is asked with the messages that have not expired: at the limit, a topic
  whose message has expired and has not been swept yet is refused, although storing it would take no
  further slot.
\<close>

lemma expired_topic_refused:
  "let st = fold (ram_step one_topic) [Ram_Set 0 ''a'' sample_retain (Some 10)] storage_new in
   ram_set one_topic 20 ''a'' sample_retain None st = (Ok (), st)"
proof -
  have "topic_from_str ''a'' = Ok [Normal ''a'']" by code_simp
  moreover have "ram_get 20 ''a'' (fold (ram_step one_topic) [Ram_Set 0 ''a'' sample_retain (Some 10)] storage_new) = Ok []"
    unfolding one_topic_full by code_simp
  ultimately show ?thesis
    unfolding one_topic_full Let_def
    by (simp add: ram_set_def one_topic_def retainer_config_default_def ram_count_def sample_retain_def)
qed

end
