(* ===== verification/Inbound.thy ===== *)
theory Inbound
  imports Inflight V3_Codec Texts
begin

text \<open>
  What a session does with the messages its client publishes (\<^verbatim>\<open>process_publish\<close> and the functions it calls in
  \<^verbatim>\<open>session.rs\<close>, the acknowledgements of \<^verbatim>\<open>Sink\<close> in \<^verbatim>\<open>types.rs\<close>): acknowledgement of QoS 1, the QoS 2 receiver
  with its window of identifiers and the queue of deferred messages that flow control keeps.  Publishing in
  the broker, sending on the stream and the hooks are operations on a state of their own; the theory of
  publishing gives them.
\<close>

section \<open>Packets a session sends and receives\<close>

datatype packet = P_V3 v3_packet | P_V5 v5_packet

datatype sink_kind = Sink_V3 | Sink_V5

text \<open>The operations a session uses.\<close>

record 'w session_env =
  ev_id :: ident
  ev_sink :: sink_kind
  ev_put :: "packet \<Rightarrow> 'w \<Rightarrow> any_error option \<times> 'w"
  ev_publish :: "mpublish \<Rightarrow> 'w \<Rightarrow> (publish_result, any_error) res \<times> 'w"
  ev_dropped :: "ident option \<Rightarrow> msg_from \<Rightarrow> mpublish \<Rightarrow> reason \<Rightarrow> 'w \<Rightarrow> 'w"
  ev_publish_error :: "'w \<Rightarrow> 'w"

definition ack_of_result :: "u16 \<Rightarrow> publish_result \<Rightarrow> publish_ack1" where
  "ack_of_result pid r = \<lparr>ack_packet_id = pid, ack_reason_code = pr_reason_code r, ack_properties = pr_properties r,
     ack_reason_string = pr_reason_string r\<rparr>"

definition send_publish_ack :: "'w session_env \<Rightarrow> u16 \<Rightarrow> publish_result \<Rightarrow> 'w \<Rightarrow> any_error option \<times> 'w" where
  "send_publish_ack E pid r w =
    (case ev_sink E of
       Sink_V3 \<Rightarrow> ev_put E (P_V3 (V3_PublishAck pid)) w
     | Sink_V5 \<Rightarrow> ev_put E (P_V5 (V5_PublishAck (ack_of_result pid r))) w)"

definition send_publish_received :: "'w session_env \<Rightarrow> u16 \<Rightarrow> publish_result \<Rightarrow> 'w \<Rightarrow> any_error option \<times> 'w" where
  "send_publish_received E pid r w =
    (case ev_sink E of
       Sink_V3 \<Rightarrow> ev_put E (P_V3 (V3_PublishReceived pid)) w
     | Sink_V5 \<Rightarrow> ev_put E (P_V5 (V5_PublishReceived (ack_of_result pid r))) w)"

text \<open>The default of \<^verbatim>\<open>PublishAck2\<close> with an identifier.\<close>

definition ack2_default :: "u16 \<Rightarrow> publish_ack2" where
  "ack2_default pid = \<lparr>ack_packet_id = pid, ack_reason_code = PA2R_Success, ack_properties = [], ack_reason_string = None\<rparr>"

definition send_publish_complete :: "'w session_env \<Rightarrow> u16 \<Rightarrow> 'w \<Rightarrow> any_error option \<times> 'w" where
  "send_publish_complete E pid w =
    (case ev_sink E of
       Sink_V3 \<Rightarrow> ev_put E (P_V3 (V3_PublishComplete pid)) w
     | Sink_V5 \<Rightarrow> ev_put E (P_V5 (V5_PublishComplete (ack2_default pid))) w)"

text \<open>The operator \<^verbatim>\<open>?\<close> on what sending gives.\<close>

definition sent :: "any_error option \<Rightarrow> (unit, reason) res" where
  "sent e = (case e of None \<Rightarrow> Ok () | Some e \<Rightarrow> Err (reason_of_error e))"

section \<open>The state\<close>

record inbound =
  ib_window :: in_inflight
  ib_count :: counter
  qos2_pending :: "(u16 \<times> mpublish) list"

definition SESSION_QOS2_PENDING_CAP :: nat where
  "SESSION_QOS2_PENDING_CAP = 4096"

definition inbound_new :: "u16 \<Rightarrow> counter \<Rightarrow> inbound" where
  "inbound_new max_inflight c = \<lparr>ib_window = in_inflight_new max_inflight, ib_count = c, qos2_pending = []\<rparr>"

definition ib_add :: "u16 \<Rightarrow> qos \<Rightarrow> inbound \<Rightarrow> (bool, reason) res \<times> inbound" where
  "ib_add pid q ib = (let (r, w, c) = in_add pid q (ib_window ib, ib_count ib) in (r, ib\<lparr>ib_window := w, ib_count := c\<rparr>))"

definition ib_remove :: "u16 \<Rightarrow> inbound \<Rightarrow> inbound" where
  "ib_remove pid ib = (let (_, w, c) = in_remove pid (ib_window ib, ib_count ib) in ib\<lparr>ib_window := w, ib_count := c\<rparr>)"

section \<open>Messages with QoS 2\<close>

definition ack_qos2_inbound :: "'w session_env \<Rightarrow> u16 \<Rightarrow> mpublish \<Rightarrow> inbound \<times> 'w \<Rightarrow> (unit, reason) res \<times> inbound \<times> 'w" where
  "ack_qos2_inbound E pid p = (\<lambda>(ib, w).
    case ev_publish E p w of
      (Err e, w) \<Rightarrow> (Err (reason_of_error e), ib, w)
    | (Panic, w) \<Rightarrow> (Panic, ib, w)
    | (Ok pub_res, w) \<Rightarrow>
        (case (if publish_result_is_success pub_res then ib_add pid ExactlyOnce ib else (Ok False, ib)) of
           (Err e, ib) \<Rightarrow> (Err e, ib, w)
         | (Panic, ib) \<Rightarrow> (Panic, ib, w)
         | (Ok inflight_res, ib) \<Rightarrow>
             (let (rec_res, w) = send_publish_received E pid pub_res w;
                  ib = (if inflight_res \<and> rec_res \<noteq> None then ib_remove pid ib else ib)
              in (sent rec_res, ib, w))))"

text \<open>The loop takes the messages from the front of the queue.\<close>

fun drain_qos2_loop :: "'w session_env \<Rightarrow> (u16 \<times> mpublish) list \<Rightarrow> inbound \<times> 'w \<Rightarrow> (unit, reason) res \<times> inbound \<times> 'w" where
  "drain_qos2_loop E [] (ib, w) = (Ok (), ib\<lparr>qos2_pending := []\<rparr>, w)"
| "drain_qos2_loop E ((pid, p) # rest) (ib, w) =
    (if in_is_full (ib_window ib) then (Ok (), ib\<lparr>qos2_pending := (pid, p) # rest\<rparr>, w)
     else
       (case ack_qos2_inbound E pid p (ib\<lparr>qos2_pending := rest\<rparr>, w) of
          (Ok _, ib, w) \<Rightarrow> drain_qos2_loop E rest (ib, w)
        | (e, ib, w) \<Rightarrow> (e, ib, w)))"

definition drain_qos2_pending :: "'w session_env \<Rightarrow> inbound \<times> 'w \<Rightarrow> (unit, reason) res \<times> inbound \<times> 'w" where
  "drain_qos2_pending E = (\<lambda>(ib, w). drain_qos2_loop E (qos2_pending ib) (ib, w))"

definition process_qos2 :: "'w session_env \<Rightarrow> u16 \<Rightarrow> mpublish \<Rightarrow> inbound \<times> 'w \<Rightarrow> (unit, reason) res \<times> inbound \<times> 'w" where
  "process_qos2 E pid p = (\<lambda>(ib, w).
    if pid \<in> fst ` set (qos2_pending ib) then (Ok (), ib, w)
    else if in_contains pid (ib_window ib) then
      (let (e, w) = send_publish_received E pid publish_result_success w in (sent e, ib, w))
    else if in_is_full (ib_window ib) then
      (if SESSION_QOS2_PENDING_CAP \<le> length (qos2_pending ib) then (Ok (), ib, ev_publish_error E w)
       else (Ok (), ib\<lparr>qos2_pending := qos2_pending ib @ [(pid, p)]\<rparr>, w))
    else ack_qos2_inbound E pid p (ib, w))"

text \<open>A PUBREL of the client.\<close>

definition process_release :: "'w session_env \<Rightarrow> u16 \<Rightarrow> inbound \<times> 'w \<Rightarrow> (unit, reason) res \<times> inbound \<times> 'w" where
  "process_release E pid = (\<lambda>(ib, w).
    let ib = ib_remove pid ib in
    case send_publish_complete E pid w of
      (Some e, w) \<Rightarrow> (Err (reason_of_error e), ib, w)
    | (None, w) \<Rightarrow> drain_qos2_pending E (ib, w))"

section \<open>All messages\<close>

definition process_qos1 :: "'w session_env \<Rightarrow> u16 \<Rightarrow> mpublish \<Rightarrow> inbound \<times> 'w \<Rightarrow> (unit, reason) res \<times> inbound \<times> 'w" where
  "process_qos1 E pid p = (\<lambda>(ib, w).
    case ib_add pid AtLeastOnce ib of
      (Err e, ib) \<Rightarrow> (Err e, ib, ev_dropped E None (from_custom (ev_id E)) p e w)
    | (Panic, ib) \<Rightarrow> (Panic, ib, w)
    | (Ok inflight_res, ib) \<Rightarrow>
        (let done = (if inflight_res then ib_remove pid ib else ib) in
         case ev_publish E p w of
           (Err e, w) \<Rightarrow> (Err (reason_of_error e), done, w)
         | (Panic, w) \<Rightarrow> (Panic, ib, w)
         | (Ok pubres, w) \<Rightarrow> (let (ack_res, w) = send_publish_ack E pid pubres w in (sent ack_res, done, w))))"

definition process_publish :: "'w session_env \<Rightarrow> mpublish \<Rightarrow> inbound \<times> 'w \<Rightarrow> (unit, reason) res \<times> inbound \<times> 'w" where
  "process_publish E p = (\<lambda>(ib, w).
    case pub_qos (mp_inner p) of
      AtLeastOnce \<Rightarrow>
        (case session_packet_id (mp_packet_id p) of
           Ok pid \<Rightarrow> process_qos1 E pid p (ib, w)
         | Err e \<Rightarrow> (Err e, ib, w)
         | Panic \<Rightarrow> (Panic, ib, w))
    | ExactlyOnce \<Rightarrow>
        (case session_packet_id (mp_packet_id p) of
           Ok pid \<Rightarrow> process_qos2 E pid p (ib, w)
         | Err e \<Rightarrow> (Err e, ib, w)
         | Panic \<Rightarrow> (Panic, ib, w))
    | AtMostOnce \<Rightarrow>
        (case ev_publish E p w of
           (Ok _, w) \<Rightarrow> (Ok (), ib, w)
         | (Err e, w) \<Rightarrow> (Err (reason_of_error e), ib, w)
         | (Panic, w) \<Rightarrow> (Panic, ib, w)))"

section \<open>Runs\<close>

datatype inbound_event = IE_Publish mpublish | IE_Release u16

fun inbound_step :: "'w session_env \<Rightarrow> inbound_event \<Rightarrow> inbound \<times> 'w \<Rightarrow> (unit, reason) res \<times> inbound \<times> 'w" where
  "inbound_step E (IE_Publish p) s = process_publish E p s"
| "inbound_step E (IE_Release pid) s = process_release E pid s"

text \<open>An error ends the connection.\<close>

fun inbound_run :: "'w session_env \<Rightarrow> inbound_event list \<Rightarrow> inbound \<times> 'w \<Rightarrow> (unit, reason) res \<times> inbound \<times> 'w" where
  "inbound_run E [] s = (Ok (), s)"
| "inbound_run E (x # xs) s = (case inbound_step E x s of (Ok _, s) \<Rightarrow> inbound_run E xs s | (e, s) \<Rightarrow> (e, s))"

text \<open>
  The messages of a run that the session takes over: QoS 2 messages whose identifier it does not hold, unless
  it defers too many already.
\<close>

definition holds_id :: "u16 \<Rightarrow> inbound \<Rightarrow> bool" where
  "holds_id pid ib \<longleftrightarrow> pid \<in> set (cached (ib_window ib)) \<or> pid \<in> fst ` set (qos2_pending ib)"

definition takes_over :: "inbound_event \<Rightarrow> inbound \<Rightarrow> mpublish list" where
  "takes_over x ib =
    (case x of
       IE_Publish p \<Rightarrow>
         (case mp_packet_id p of
            Some pid \<Rightarrow>
              if pub_qos (mp_inner p) = ExactlyOnce \<and> \<not> holds_id pid ib \<and>
                (in_is_full (ib_window ib) \<longrightarrow> length (qos2_pending ib) < SESSION_QOS2_PENDING_CAP)
              then [p] else []
          | None \<Rightarrow> [])
     | IE_Release _ \<Rightarrow> [])"

fun taken_over :: "'w session_env \<Rightarrow> inbound_event list \<Rightarrow> inbound \<times> 'w \<Rightarrow> mpublish list" where
  "taken_over E [] s = []"
| "taken_over E (x # xs) s = takes_over x (fst s) @ taken_over E xs (snd (inbound_step E x s))"

text \<open>The operations of a session that also keep the list of the messages they publish.\<close>

definition logged :: "'w session_env \<Rightarrow> ('w \<times> mpublish list) session_env" where
  "logged E = \<lparr>ev_id = ev_id E, ev_sink = ev_sink E,
     ev_put = (\<lambda>k (w, l). let (e, w) = ev_put E k w in (e, w, l)),
     ev_publish = (\<lambda>p (w, l). let (r, w) = ev_publish E p w in (r, w, l @ [p])),
     ev_dropped = (\<lambda>to f p r (w, l). (ev_dropped E to f p r w, l)),
     ev_publish_error = (\<lambda>(w, l). (ev_publish_error E w, l))\<rparr>"

abbreviation qos2_of :: "mpublish list \<Rightarrow> mpublish list" where
  "qos2_of l \<equiv> filter (\<lambda>p. pub_qos (mp_inner p) = ExactlyOnce) l"

section \<open>The receiver\<close>

definition inbound_inv :: "inbound \<Rightarrow> bool" where
  "inbound_inv ib \<longleftrightarrow>
    distinct (map fst (qos2_pending ib) @ cached (ib_window ib)) \<and>
    length (cached (ib_window ib)) \<le> unat (in_max_inflight (ib_window ib)) \<and>
    length (qos2_pending ib) \<le> SESSION_QOS2_PENDING_CAP \<and>
    (qos2_pending ib \<noteq> [] \<longrightarrow> in_is_full (ib_window ib)) \<and>
    (\<forall>(pid, p) \<in> set (qos2_pending ib). mp_packet_id p = Some pid \<and> pub_qos (mp_inner p) = ExactlyOnce)"

lemma logged_sends [simp]:
  "ev_put (logged E) k (w, l) = (fst (ev_put E k w), snd (ev_put E k w), l)"
  "ev_publish (logged E) p (w, l) = (fst (ev_publish E p w), snd (ev_publish E p w), l @ [p])"
  "ev_dropped (logged E) to f p e (w, l) = (ev_dropped E to f p e w, l)"
  "ev_publish_error (logged E) (w, l) = (ev_publish_error E w, l)"
  "send_publish_ack (logged E) pid r (w, l) = (fst (send_publish_ack E pid r w), snd (send_publish_ack E pid r w), l)"
  "send_publish_received (logged E) pid r (w, l) = (fst (send_publish_received E pid r w), snd (send_publish_received E pid r w), l)"
  "send_publish_complete (logged E) pid (w, l) = (fst (send_publish_complete E pid w), snd (send_publish_complete E pid w), l)"
  by (simp_all add: logged_def send_publish_ack_def send_publish_received_def send_publish_complete_def split_beta split: sink_kind.split)

lemma sent_Ok [simp]: "sent e = Ok () \<longleftrightarrow> e = None"
  by (simp add: sent_def split: option.split)

text \<open>Acknowledging a message that fits publishes it once and registers its identifier if it was published.\<close>

lemma ack_qos2_result:
  assumes "ack_qos2_inbound (logged E) pid p (ib, w, l) = (Ok (), ib', w', l')"
  shows "l' = l @ [p]" "qos2_pending ib' = qos2_pending ib" "in_max_inflight (ib_window ib') = in_max_inflight (ib_window ib)"
    "\<exists>r. fst (ev_publish E p w) = Ok r \<and> (if publish_result_is_success r
     then cached (ib_window ib') = cached (ib_window ib) @ [pid] \<and> pid \<notin> set (cached (ib_window ib)) \<and> \<not> in_is_full (ib_window ib)
     else cached (ib_window ib') = cached (ib_window ib))"
  using assms
  by (auto simp: ack_qos2_inbound_def ib_add_def in_add_def in_is_full_def Let_def split: prod.splits res.splits if_splits)


lemma ack_qos2_inv:
  assumes "ack_qos2_inbound (logged E) pid p (ib, w, l) = (Ok (), ib', w', l')"
    and "inbound_inv (ib\<lparr>qos2_pending := []\<rparr>)" and "distinct (map fst ps @ pid # cached (ib_window ib))"
  shows "inbound_inv (ib'\<lparr>qos2_pending := []\<rparr>)" "distinct (map fst ps @ cached (ib_window ib'))"
proof -
  from ack_qos2_result(4) [OF assms(1)] obtain r where
    "if publish_result_is_success r
     then cached (ib_window ib') = cached (ib_window ib) @ [pid] \<and> pid \<notin> set (cached (ib_window ib)) \<and> \<not> in_is_full (ib_window ib)
     else cached (ib_window ib') = cached (ib_window ib)" by blast
  with assms(2, 3) ack_qos2_result(3) [OF assms(1)]
  show "inbound_inv (ib'\<lparr>qos2_pending := []\<rparr>)" "distinct (map fst ps @ cached (ib_window ib'))"
    by (auto simp: inbound_inv_def in_is_full_def split: if_splits)
qed

text \<open>The loop publishes a prefix of the queue in its order; what is left waits behind a full window.\<close>

lemma drain_result:
  "drain_qos2_loop (logged E) ps (ib, w, l) = (Ok (), ib', w', l') \<Longrightarrow> inbound_inv (ib\<lparr>qos2_pending := []\<rparr>) \<Longrightarrow>
   distinct (map fst ps @ cached (ib_window ib)) \<Longrightarrow> length ps \<le> SESSION_QOS2_PENDING_CAP \<Longrightarrow>
   (\<forall>(pid, p) \<in> set ps. mp_packet_id p = Some pid \<and> pub_qos (mp_inner p) = ExactlyOnce) \<Longrightarrow>
   inbound_inv ib' \<and> l' @ map snd (qos2_pending ib') = l @ map snd ps \<and> set (qos2_pending ib') \<subseteq> set ps"
proof (induction ps arbitrary: ib w l)
  case Nil
  then show ?case by auto
next
  case (Cons x ps)
  obtain pid p where x: "x = (pid, p)" by fastforce
  show ?case
  proof (cases "in_is_full (ib_window ib)")
    case True
    with Cons.prems show ?thesis by (fastforce simp: x inbound_inv_def)
  next
    case False
    with Cons.prems(1) obtain ib1 w1 l1 where
      ack: "ack_qos2_inbound (logged E) pid p (ib\<lparr>qos2_pending := ps\<rparr>, w, l) = (Ok (), ib1, w1, l1)"
      and rest: "drain_qos2_loop (logged E) ps (ib1, w1, l1) = (Ok (), ib', w', l')"
      by (auto simp: x split: prod.splits res.splits)
    note res = ack_qos2_result [OF ack]
    have inv: "inbound_inv (ib1\<lparr>qos2_pending := []\<rparr>)" "distinct (map fst ps @ cached (ib_window ib1))"
      using ack_qos2_inv [OF ack, of ps] Cons.prems(2, 3) by (auto simp: x)
    have "inbound_inv ib' \<and> l' @ map snd (qos2_pending ib') = l1 @ map snd ps \<and> set (qos2_pending ib') \<subseteq> set ps"
      by (rule Cons.IH [OF rest inv]) (use Cons.prems(4, 5) x in auto)
    then show ?thesis using res(1) by (auto simp: x)
  qed
qed


lemma drain_qos2:
  assumes "drain_qos2_loop (logged E) ps (ib, w, l) = (Ok (), ib', w', l')" and "inbound_inv (ib\<lparr>qos2_pending := []\<rparr>)"
    and "distinct (map fst ps @ cached (ib_window ib))" and "length ps \<le> SESSION_QOS2_PENDING_CAP"
    and "\<forall>(pid, p) \<in> set ps. mp_packet_id p = Some pid \<and> pub_qos (mp_inner p) = ExactlyOnce"
  shows "inbound_inv ib'" "qos2_of l' @ map snd (qos2_pending ib') = qos2_of l @ map snd ps"
proof -
  note res = drain_result [OF assms]
  then show "inbound_inv ib'" by blast
  have all: "qos2_of (map snd qs) = map snd qs" if "set qs \<subseteq> set ps" for qs
    using that assms(5) by (induction qs) auto
  from res have "qos2_of l' @ qos2_of (map snd (qos2_pending ib')) = qos2_of l @ qos2_of (map snd ps)" by (metis filter_append)
  with all [of ps] all [of "qos2_pending ib'"] res show "qos2_of l' @ map snd (qos2_pending ib') = qos2_of l @ map snd ps" by simp
qed

lemma ib_remove_simps [simp]:
  "qos2_pending (ib_remove pid ib) = qos2_pending ib" "cached (ib_window (ib_remove pid ib)) = removeAll pid (cached (ib_window ib))"
  "in_max_inflight (ib_window (ib_remove pid ib)) = in_max_inflight (ib_window ib)"
  by (auto simp: ib_remove_def in_remove_def)

lemma inbound_inv_cong:
  "qos2_pending ib' = qos2_pending ib \<Longrightarrow> ib_window ib' = ib_window ib \<Longrightarrow> inbound_inv ib' = inbound_inv ib"
  by (simp add: inbound_inv_def)

lemma ib_window_eq: "cached (ib_window a) = cached (ib_window b) \<Longrightarrow> in_max_inflight (ib_window a) = in_max_inflight (ib_window b) \<Longrightarrow> ib_window a = ib_window b"
  by simp

lemma process_qos1_result:
  assumes "process_qos1 (logged E) pid p (ib, w, l) = (Ok (), ib', w', l')"
  shows "l' = l @ [p]" "qos2_pending ib' = qos2_pending ib" "ib_window ib' = ib_window ib"
proof -
  from assms obtain fresh ib1 where add: "ib_add pid AtLeastOnce ib = (Ok fresh, ib1)"
    and res: "l' = l @ [p]" "ib' = (if fresh then ib_remove pid ib1 else ib1)"
    by (auto simp: process_qos1_def Let_def split: prod.splits res.splits)
  from add have "qos2_pending ib1 = qos2_pending ib" "in_max_inflight (ib_window ib1) = in_max_inflight (ib_window ib)"
    "cached (ib_window ib1) = (if fresh then cached (ib_window ib) @ [pid] else cached (ib_window ib))"
    "fresh \<longrightarrow> pid \<notin> set (cached (ib_window ib))"
    by (auto simp: ib_add_def in_add_def split: if_splits)
  with res show "l' = l @ [p]" "qos2_pending ib' = qos2_pending ib" "ib_window ib' = ib_window ib"
    by (auto intro!: ib_window_eq)
qed

lemma process_qos2_result:
  assumes "process_qos2 (logged E) pid p (ib, w, l) = (Ok (), ib', w', l')" and "inbound_inv ib"
    and "mp_packet_id p = Some pid" and "pub_qos (mp_inner p) = ExactlyOnce"
  shows "inbound_inv ib' \<and> qos2_of l' @ map snd (qos2_pending ib') = qos2_of l @ map snd (qos2_pending ib) @ takes_over (IE_Publish p) ib"
proof (cases "holds_id pid ib")
  case True
  with assms show ?thesis
    by (auto simp: process_qos2_def takes_over_def holds_id_def in_contains_def split: if_splits prod.splits)
next
  case False
  then have not_held: "pid \<notin> fst ` set (qos2_pending ib)" "\<not> in_contains pid (ib_window ib)" by (simp_all add: holds_id_def in_contains_def)
  show ?thesis
  proof (cases "in_is_full (ib_window ib)")
    case True
    with False not_held assms show ?thesis
      by (fastforce simp: process_qos2_def takes_over_def inbound_inv_def in_contains_def split: if_splits)
  next
    case False
    then have none: "qos2_pending ib = []" using assms(2) by (auto simp: inbound_inv_def)
    from assms(1) not_held False have ack: "ack_qos2_inbound (logged E) pid p (ib, w, l) = (Ok (), ib', w', l')"
      by (simp add: process_qos2_def)
    note res = ack_qos2_result [OF ack]
    have "inbound_inv (ib'\<lparr>qos2_pending := []\<rparr>)"
      by (rule ack_qos2_inv [OF ack, of "[]"]) (use assms(2) none not_held in \<open>auto simp: inbound_inv_def in_contains_def\<close>)
    moreover have "qos2_pending ib' = []" using res(2) none by simp
    ultimately have "inbound_inv ib'" using inbound_inv_cong [of "ib'\<lparr>qos2_pending := []\<rparr>" ib'] by simp
    with res none False \<open>\<not> holds_id pid ib\<close> assms(3, 4) show ?thesis by (simp add: takes_over_def)
  qed
qed

lemma process_release_result:
  assumes "process_release (logged E) pid (ib, w, l) = (Ok (), ib', w', l')" and "inbound_inv ib"
  shows "inbound_inv ib'" "qos2_of l' @ map snd (qos2_pending ib') = qos2_of l @ map snd (qos2_pending ib)"
proof -
  let ?ib = "ib_remove pid ib"
  from assms(1) obtain w1 where run: "drain_qos2_loop (logged E) (qos2_pending ?ib) (?ib, w1, l) = (Ok (), ib', w', l')"
    by (auto simp: process_release_def drain_qos2_pending_def Let_def split: option.splits)
  have "length (removeAll pid (cached (ib_window ib))) \<le> unat (in_max_inflight (ib_window ib))"
    by (rule le_trans [OF length_removeAll_less_eq]) (use assms(2) in \<open>simp add: inbound_inv_def\<close>)
  with assms(2) have inv: "inbound_inv (?ib\<lparr>qos2_pending := []\<rparr>)"
    by (auto simp: inbound_inv_def distinct_removeAll)
  have dist: "distinct (map fst (qos2_pending ?ib) @ cached (ib_window ?ib))"
    using assms(2) by (auto simp: inbound_inv_def distinct_removeAll)
  show "inbound_inv ib'" "qos2_of l' @ map snd (qos2_pending ib') = qos2_of l @ map snd (qos2_pending ib)"
    using drain_qos2 [OF run inv dist] assms(2) by (auto simp: inbound_inv_def)
qed

lemma inbound_step_result:
  assumes "inbound_step (logged E) x (ib, w, l) = (Ok (), ib', w', l')" and "inbound_inv ib"
  shows "inbound_inv ib' \<and> qos2_of l' @ map snd (qos2_pending ib') = qos2_of l @ map snd (qos2_pending ib) @ takes_over x ib"
proof (cases x)
  case (IE_Release pid)
  with assms process_release_result [of E pid ib w l] show ?thesis by (simp add: takes_over_def)
next
  case (IE_Publish p)
  show ?thesis
  proof (cases "pub_qos (mp_inner p)")
    case AtMostOnce
    with IE_Publish assms show ?thesis
      by (auto simp: process_publish_def takes_over_def split: res.splits prod.splits option.split)
  next
    case AtLeastOnce
    with IE_Publish assms(1) obtain pid where "process_qos1 (logged E) pid p (ib, w, l) = (Ok (), ib', w', l')"
      by (auto simp: process_publish_def split: res.splits)
    note res = process_qos1_result [OF this]
    with assms(2) inbound_inv_cong [of ib' ib] IE_Publish AtLeastOnce show ?thesis by (auto simp: takes_over_def split: option.split)
  next
    case ExactlyOnce
    with IE_Publish assms(1) obtain pid where "mp_packet_id p = Some pid" "process_qos2 (logged E) pid p (ib, w, l) = (Ok (), ib', w', l')"
      by (auto simp: process_publish_def session_packet_id_def split: res.splits option.splits)
    with process_qos2_result [of E pid p ib w l ib' w' l'] assms(2) ExactlyOnce IE_Publish show ?thesis by blast
  qed
qed


lemma inbound_run_result:
  "inbound_run (logged E) xs (ib, w, l) = (Ok (), ib', w', l') \<Longrightarrow> inbound_inv ib \<Longrightarrow>
   inbound_inv ib' \<and> qos2_of l' @ map snd (qos2_pending ib') = qos2_of l @ map snd (qos2_pending ib) @ taken_over (logged E) xs (ib, w, l)"
proof (induction xs arbitrary: ib w l)
  case (Cons x xs)
  from Cons.prems(1) obtain ib1 w1 l1 where step: "inbound_step (logged E) x (ib, w, l) = (Ok (), ib1, w1, l1)"
    and rest: "inbound_run (logged E) xs (ib1, w1, l1) = (Ok (), ib', w', l')"
    by (auto split: prod.splits res.splits)
  from inbound_step_result [OF step Cons.prems(2)] Cons.IH [OF rest] step show ?case by simp
qed simp

section \<open>Identifiers that are held\<close>

definition always_succeeds :: "'w session_env \<Rightarrow> bool" where
  "always_succeeds E \<longleftrightarrow> (\<forall>p w r w'. ev_publish E p w = (Ok r, w') \<longrightarrow> publish_result_is_success r)"

lemma ack_holds:
  assumes "always_succeeds E" and "ack_qos2_inbound E pid p (ib, w) = (Ok (), ib', w')"
  shows "set (cached (ib_window ib')) = insert pid (set (cached (ib_window ib)))" "qos2_pending ib' = qos2_pending ib"
  using assms by (auto simp: always_succeeds_def ack_qos2_inbound_def ib_add_def in_add_def Let_def split: prod.splits res.splits if_splits)

lemma drain_holds:
  "always_succeeds E \<Longrightarrow> drain_qos2_loop E ps (ib, w) = (Ok (), ib', w') \<Longrightarrow>
   holds_id k ib' \<longleftrightarrow> k \<in> set (cached (ib_window ib)) \<or> k \<in> fst ` set ps"
proof (induction ps arbitrary: ib w)
  case (Cons x ps)
  obtain pid p where x: "x = (pid, p)" by fastforce
  show ?case
  proof (cases "in_is_full (ib_window ib)")
    case True
    with Cons.prems show ?thesis by (auto simp: x holds_id_def)
  next
    case False
    with Cons.prems(2) obtain ib1 w1 where
      ack: "ack_qos2_inbound E pid p (ib\<lparr>qos2_pending := ps\<rparr>, w) = (Ok (), ib1, w1)"
      and rest: "drain_qos2_loop E ps (ib1, w1) = (Ok (), ib', w')"
      by (auto simp: x split: prod.splits res.splits)
    from Cons.IH [OF Cons.prems(1) rest] ack_holds [OF Cons.prems(1) ack] show ?thesis by (auto simp: x)
  qed
qed (auto simp: holds_id_def)

lemma step_holds:
  assumes "always_succeeds E" and "inbound_step E x (ib, w) = (Ok (), ib', w')" and "x \<noteq> IE_Release k"
  shows "holds_id k ib \<or> (\<exists>p \<in> set (takes_over x ib). mp_packet_id p = Some k) \<Longrightarrow> holds_id k ib'"
proof (cases x)
  case (IE_Release pid)
  with assms drain_holds [of E "qos2_pending ib" "ib_remove pid ib" _ ib' w' k]
  show "holds_id k ib \<or> (\<exists>p \<in> set (takes_over x ib). mp_packet_id p = Some k) \<Longrightarrow> holds_id k ib'"
    by (auto simp: process_release_def drain_qos2_pending_def takes_over_def holds_id_def Let_def split: option.splits prod.splits)
next
  case (IE_Publish p)
  assume k: "holds_id k ib \<or> (\<exists>p \<in> set (takes_over x ib). mp_packet_id p = Some k)"
  show "holds_id k ib'"
  proof (cases "pub_qos (mp_inner p)")
    case AtMostOnce
    with IE_Publish assms k show ?thesis
      by (auto simp: process_publish_def takes_over_def split: res.splits prod.splits option.splits)
  next
    case AtLeastOnce
    with IE_Publish assms k show ?thesis
      by (auto simp: process_publish_def process_qos1_def ib_add_def in_add_def takes_over_def session_packet_id_def holds_id_def Let_def
          split: res.splits prod.splits option.splits if_splits)
  next
    case ExactlyOnce
    with IE_Publish assms(2) obtain pid where pid: "mp_packet_id p = Some pid" "process_qos2 E pid p (ib, w) = (Ok (), ib', w')"
      by (auto simp: process_publish_def session_packet_id_def split: res.splits option.splits)
    with k IE_Publish ack_holds [OF assms(1), of pid p ib w ib' w'] show ?thesis
      by (auto simp: process_qos2_def takes_over_def holds_id_def in_contains_def split: if_splits prod.splits)
  qed
qed

lemma run_holds:
  "always_succeeds E \<Longrightarrow> inbound_run E xs (ib, w) = (Ok (), ib', w') \<Longrightarrow> IE_Release k \<notin> set xs \<Longrightarrow> holds_id k ib \<Longrightarrow>
   \<forall>p \<in> set (taken_over E xs (ib, w)). mp_packet_id p \<noteq> Some k"
proof (induction xs arbitrary: ib w)
  case (Cons x xs)
  from Cons.prems(2) obtain ib1 w1 where step: "inbound_step E x (ib, w) = (Ok (), ib1, w1)"
    and rest: "inbound_run E xs (ib1, w1) = (Ok (), ib', w')"
    by (auto split: prod.splits res.splits)
  from step_holds [OF Cons.prems(1) step, of k] Cons.prems have "holds_id k ib1" by auto
  from Cons.IH [OF Cons.prems(1) rest _ this] Cons.prems(3) have "\<forall>p \<in> set (taken_over E xs (ib1, w1)). mp_packet_id p \<noteq> Some k" by simp
  moreover have "\<forall>p \<in> set (takes_over x ib). mp_packet_id p \<noteq> Some k"
    using Cons.prems(4) by (auto simp: takes_over_def split: inbound_event.split option.split)
  ultimately show ?case using step by auto
qed simp

section \<open>Properties\<close>

text \<open>A session whose stream and broker accept everything, and a message with QoS 2.\<close>

definition accepting_env :: "unit session_env" where
  "accepting_env = \<lparr>ev_id = ident_from 1 ''c'' 0, ev_sink = Sink_V3, ev_put = (\<lambda>_ w. (None, w)), ev_publish = (\<lambda>_ w. (Ok publish_result_success, w)),
     ev_dropped = (\<lambda>_ _ _ _ w. w), ev_publish_error = (\<lambda>w. w)\<rparr>"

definition qos2_publish :: "u16 \<Rightarrow> mpublish" where
  "qos2_publish pid = \<lparr>mp_inner = \<lparr>pub_dup = False, pub_retain = False, pub_qos = ExactlyOnce, pub_topic = text_bytes ''a'', pub_packet_id = Some pid,
     pub_payload = [], pub_properties = None\<rparr>, mp_target_clientid = None, mp_delay_interval = None, mp_create_time = None\<rparr>"

lemmas inbound_eval = inbound_new_def in_inflight_new_def process_publish_def process_qos2_def process_release_def qos2_publish_def
  session_packet_id_def in_contains_def in_is_full_def ack_qos2_inbound_def accepting_env_def ib_add_def in_add_def ib_remove_def in_remove_def
  send_publish_received_def send_publish_complete_def publish_result_is_success_def publish_result_success_def publish_result_default_def
  drain_qos2_pending_def SESSION_QOS2_PENDING_CAP_def sent_def logged_def takes_over_def holds_id_def Let_def

text \<open>
  C3: QoS 2 messages of a client, over any sequence of PUBLISH and PUBREL packets that does not end the
  connection, whatever the broker answers: the messages the session has published, followed by those
  that flow control defers, are exactly the messages it took over, once each and in their order.  The
  window never exceeds its size, no identifier is held twice, at most 4096 messages are deferred, and
  messages are deferred only while the window is full.
\<close>

theorem qos2_once_in_order:
  assumes "inbound_run (logged E) xs (inbound_new n c, w, []) = (Ok (), ib, w', published)"
  shows "qos2_of published @ map snd (qos2_pending ib) = taken_over (logged E) xs (inbound_new n c, w, []) \<and>
    distinct (map fst (qos2_pending ib) @ cached (ib_window ib)) \<and>
    length (cached (ib_window ib)) \<le> unat (in_max_inflight (ib_window ib)) \<and> length (qos2_pending ib) \<le> 4096 \<and>
    (qos2_pending ib \<noteq> [] \<longrightarrow> in_is_full (ib_window ib))"
proof -
  have "inbound_inv (inbound_new n c)" by (simp add: inbound_inv_def inbound_new_def in_inflight_new_def)
  from inbound_run_result [OF assms this] show ?thesis
    by (simp add: inbound_inv_def inbound_new_def SESSION_QOS2_PENDING_CAP_def)
qed

theorem qos2_once_in_order_witness:
  "let xs = [IE_Publish (qos2_publish 1), IE_Publish (qos2_publish 2), IE_Publish (qos2_publish 2), IE_Release 1] in
   case inbound_run (logged accepting_env) xs (inbound_new 1 counter_new, (), []) of
     (r, ib, w, published) \<Rightarrow> r = Ok () \<and> qos2_of published @ map snd (qos2_pending ib) = [qos2_publish 1, qos2_publish 2]"
proof -
  let ?xs = "[IE_Publish (qos2_publish 1), IE_Publish (qos2_publish 2), IE_Publish (qos2_publish 2), IE_Release 1]"
  obtain ib w published where run: "inbound_run (logged accepting_env) ?xs (inbound_new 1 counter_new, (), []) = (Ok (), ib, w, published)"
    by (simp add: inbound_eval)
  moreover have "taken_over (logged accepting_env) ?xs (inbound_new 1 counter_new, (), []) = [qos2_publish 1, qos2_publish 2]"
    by (simp add: inbound_eval)
  ultimately show ?thesis using qos2_once_in_order [OF run] by (simp add: Let_def)
qed





end
