(* ===== verification/Topic_Alias.thy ===== *)
theory Topic_Alias
  imports Reasons Maps
begin

text \<open>
  Topic aliases of MQTT 5 (\<^verbatim>\<open>types.rs\<close>): the table of the sending side, which assigns aliases to topics, the
  table of the receiving side, which resolves them, and the branch of \<^verbatim>\<open>Sink::publish\<close> that puts them on
  the wire.  A hash map is an association list with distinct keys.
\<close>

section \<open>Sending side\<close>

record server_topic_aliases =
  s_max_topic_aliases :: nat
  s_aliases :: "(bytes \<times> u16) list"

definition server_topic_aliases_new :: "nat \<Rightarrow> server_topic_aliases" where
  "server_topic_aliases_new n = \<lparr>s_max_topic_aliases = n, s_aliases = []\<rparr>"

text \<open>
  \<^verbatim>\<open>get\<close> reads the table under one lock and inserts under another.  The first section either has the
  answer or gives the alias to insert; \<^verbatim>\<open>unreachable!\<close> is a panic.
\<close>

definition alias_read :: "bytes \<Rightarrow> server_topic_aliases \<Rightarrow> ((bytes option \<times> u16 option) + u16, unit) res" where
  "alias_read topic a =
    (if s_max_topic_aliases a = 0 then Ok (Inl (Some topic, None))
     else case map_of (s_aliases a) topic of
       Some al \<Rightarrow> Ok (Inl (None, Some al))
     | None \<Rightarrow>
         (let len = length (s_aliases a) in
          if s_max_topic_aliases a \<le> len then Ok (Inl (Some topic, None))
          else if (of_nat (len + 1) :: u16) \<noteq> 0 then Ok (Inr (of_nat (len + 1)))
          else Panic))"

definition alias_write :: "bytes \<Rightarrow> u16 \<Rightarrow> server_topic_aliases \<Rightarrow> server_topic_aliases" where
  "alias_write topic al a = a\<lparr>s_aliases := AList.update topic al (s_aliases a)\<rparr>"

definition alias_get :: "bytes \<Rightarrow> server_topic_aliases \<Rightarrow> ((bytes option \<times> u16 option) \<times> server_topic_aliases, unit) res" where
  "alias_get topic a =
    bind_res (alias_read topic a) (\<lambda>r. case r of
      Inl ans \<Rightarrow> Ok (ans, a)
    | Inr al \<Rightarrow> Ok ((Some topic, Some al), alias_write topic al a))"

section \<open>Receiving side\<close>

record client_topic_aliases =
  c_max_topic_aliases :: nat
  c_aliases :: "(u16 \<times> bytes) list"

definition client_topic_aliases_new :: "nat \<Rightarrow> client_topic_aliases" where
  "client_topic_aliases_new n = \<lparr>c_max_topic_aliases = n, c_aliases = []\<rparr>"

definition open_quote :: bytes where "open_quote = [0xE2, 0x80, 0x98]"
definition close_quote :: bytes where "close_quote = [0xE2, 0x80, 0x99]"

definition alias_error :: "bytes \<Rightarrow> any_error" where
  "alias_error msg = E_Mqtt (ME_PublishAckReason PAR_ImplementationSpecificError (text_bytes ''implementation specific error, '' @ msg))"

definition alias_not_found :: any_error where
  "alias_not_found = alias_error (text_bytes ''the '' @ open_quote @ text_bytes ''topic'' @ open_quote @
     text_bytes '' associated with the '' @ open_quote @ text_bytes ''alias'' @ open_quote @ text_bytes '' was not found'')"

definition alias_limit :: "nat \<Rightarrow> any_error" where
  "alias_limit n = alias_error (text_bytes ''the number of topic aliases exceeds the limit ('' @ show_nat n @ text_bytes '')'')"

definition alias_both_empty :: any_error where
  "alias_both_empty = alias_error (open_quote @ text_bytes ''alias'' @ close_quote @ text_bytes '' and '' @ open_quote @
     text_bytes ''topic'' @ close_quote @ text_bytes '' are both empty'')"

definition set_and_get :: "u16 option \<Rightarrow> bytes \<Rightarrow> client_topic_aliases \<Rightarrow> (bytes, any_error) res \<times> client_topic_aliases" where
  "set_and_get alias topic a =
    (case alias of
       Some al \<Rightarrow>
         if topic = [] then (ok_or (map_of (c_aliases a) al) alias_not_found, a)
         else if map_of (c_aliases a) al \<noteq> None then
           (Ok topic, a\<lparr>c_aliases := AList.update al topic (c_aliases a)\<rparr>)
         else if c_max_topic_aliases a \<le> length (c_aliases a) then (Err (alias_limit (c_max_topic_aliases a)), a)
         else (Ok topic, a\<lparr>c_aliases := AList.update al topic (c_aliases a)\<rparr>)
     | None \<Rightarrow> if topic = [] then (Err alias_both_empty, a) else (Ok topic, a))"

section \<open>The sink\<close>

text \<open>
  The MQTT 5 branch of \<^verbatim>\<open>Sink::publish\<close>: the packet it hands to the codec, and the table after it.  The
  table exists when the negotiated maximum is not zero.
\<close>

definition sink_publish_v5 :: "u32 option \<Rightarrow> publish \<Rightarrow> server_topic_aliases option \<Rightarrow>
    (publish \<times> server_topic_aliases option, unit) res" where
  "sink_publish_v5 message_expiry_interval p aliases =
    bind_res
      (case aliases of
         Some a \<Rightarrow> map_res (\<lambda>(r, a). (r, Some a)) (alias_get (pub_topic p) a)
       | None \<Rightarrow> Ok ((Some (pub_topic p), None), None))
      (\<lambda>((topic, alias), aliases).
        Ok (p\<lparr>pub_topic := (case topic of Some t \<Rightarrow> t | None \<Rightarrow> []),
              pub_properties := map_option (\<lambda>pr. pr\<lparr>pp_message_expiry_interval := message_expiry_interval, pp_topic_alias := alias\<rparr>)
                (pub_properties p)\<rparr>, aliases))"

text \<open>The tables of a session, made when the negotiated maximum is above zero.\<close>

definition session_server_aliases :: "u16 \<Rightarrow> server_topic_aliases option" where
  "session_server_aliases mx = (if mx > 0 then Some (server_topic_aliases_new (unat mx)) else None)"

definition session_client_aliases :: "u16 \<Rightarrow> client_topic_aliases option" where
  "session_client_aliases mx = (if mx > 0 then Some (client_topic_aliases_new (unat mx)) else None)"

text \<open>What \<^verbatim>\<open>_publish\<close> of a session makes of the topic of an incoming packet.\<close>

definition resolve_topic :: "publish \<Rightarrow> client_topic_aliases option \<Rightarrow> (publish, any_error) res \<times> client_topic_aliases option" where
  "resolve_topic p aliases =
    (case aliases of
       Some a \<Rightarrow>
         (let (r, a) = set_and_get (Option.bind (pub_properties p) pp_topic_alias) (pub_topic p) a
          in (map_res (\<lambda>t. p\<lparr>pub_topic := t\<rparr>) r, Some a))
     | None \<Rightarrow> (Ok p, None))"

section \<open>The two tables agree\<close>

text \<open>
  The tables of the two ends of a connection: the receiver knows exactly the aliases the sender has
  assigned, which are 1, 2, ... in the order of assignment.
\<close>

definition aliases_agree :: "server_topic_aliases \<Rightarrow> client_topic_aliases \<Rightarrow> bool" where
  "aliases_agree s c \<longleftrightarrow> s_max_topic_aliases s \<le> c_max_topic_aliases c \<and> s_max_topic_aliases s \<le> 65535 \<and>
     length (s_aliases s) \<le> s_max_topic_aliases s \<and> length (c_aliases c) = length (s_aliases s) \<and>
     map snd (s_aliases s) = map (\<lambda>i. of_nat (Suc i)) [0..<length (s_aliases s)] \<and>
     (\<forall>t al. map_of (s_aliases s) t = Some al \<longleftrightarrow> map_of (c_aliases c) al = Some t)"

lemma of_nat_u16_inject: "i \<le> 65535 \<Longrightarrow> j \<le> 65535 \<Longrightarrow> (of_nat i :: u16) = of_nat j \<longleftrightarrow> i = j"
  by (simp add: word_of_nat_eq_iff take_bit_nat_eq_self)

lemma of_nat_u16_neq_0: "i < 65535 \<Longrightarrow> (of_nat (Suc i) :: u16) \<noteq> 0"
  using of_nat_u16_inject [of "Suc i" 0] by simp

lemma agree_fresh:
  assumes "aliases_agree s c" and "length (s_aliases s) < s_max_topic_aliases s"
  shows "map_of (c_aliases c) (of_nat (Suc (length (s_aliases s)))) = None"
proof (rule ccontr)
  let ?n = "length (s_aliases s)"
  assume "map_of (c_aliases c) (of_nat (Suc ?n)) \<noteq> None"
  then obtain t where "map_of (c_aliases c) (of_nat (Suc ?n)) = Some t" by blast
  then have "map_of (s_aliases s) t = Some (of_nat (Suc ?n))" using assms(1) by (simp add: aliases_agree_def)
  then have "of_nat (Suc ?n) \<in> set (map snd (s_aliases s))" by (force dest: map_of_SomeD)
  moreover have "map snd (s_aliases s) = map (\<lambda>i. of_nat (Suc i)) [0..<?n]" using assms(1) by (simp add: aliases_agree_def)
  ultimately have "(of_nat (Suc ?n) :: u16) \<in> (\<lambda>i. of_nat (Suc i)) ` {0..<?n}" by (simp only: set_map set_upt)
  then obtain i where "i < ?n" "(of_nat (Suc ?n) :: u16) = of_nat (Suc i)" by (auto simp del: of_nat_Suc)
  then show False using assms of_nat_u16_inject [of "Suc ?n" "Suc i"] by (auto simp: aliases_agree_def simp del: of_nat_Suc)
qed

lemma inverse_update:
  assumes inv: "\<forall>x y. f x = Some y \<longleftrightarrow> g y = Some x" and "f a = None" and "g b = None"
  shows "(f(a \<mapsto> b)) x = Some y \<longleftrightarrow> (g(b \<mapsto> a)) y = Some x"
  using inv [rule_format, of x y] inv [rule_format, of a y] inv [rule_format, of x b] assms(2, 3) by auto

lemma agree_assign:
  assumes "aliases_agree s c" and "map_of (s_aliases s) t = None" and "length (s_aliases s) < s_max_topic_aliases s"
  shows "aliases_agree (alias_write t (of_nat (Suc (length (s_aliases s)))) s)
    (c\<lparr>c_aliases := AList.update (of_nat (Suc (length (s_aliases s)))) t (c_aliases c)\<rparr>)"
proof -
  let ?n = "of_nat (Suc (length (s_aliases s))) :: u16"
  note fresh = agree_fresh [OF assms(1, 3)]
  have "((map_of (s_aliases s))(t \<mapsto> ?n)) u = Some al \<longleftrightarrow> ((map_of (c_aliases c))(?n \<mapsto> t)) al = Some u" for u al
    by (rule inverse_update) (use assms(1, 2) fresh in \<open>simp_all add: aliases_agree_def\<close>)
  then have "map_of (AList.update t ?n (s_aliases s)) u = Some al \<longleftrightarrow> map_of (AList.update ?n t (c_aliases c)) al = Some u"
    for u al by (simp only: update_conv')
  moreover have "length (AList.update ?n t (c_aliases c)) = Suc (length (s_aliases s))"
    "length (AList.update t ?n (s_aliases s)) = Suc (length (s_aliases s))"
    "map snd (AList.update t ?n (s_aliases s)) = map (\<lambda>i. of_nat (Suc i)) [0..<Suc (length (s_aliases s))]"
    using assms(1) by (simp_all add: update_fresh [OF assms(2)] update_fresh [OF fresh] aliases_agree_def del: of_nat_Suc)
  ultimately show ?thesis using assms(1, 3) by (simp add: aliases_agree_def alias_write_def del: of_nat_Suc)
qed

lemma alias_transfer:
  assumes "aliases_agree s c" and "t \<noteq> []"
  shows "\<exists>topic alias s' c'. alias_get t s = Ok ((topic, alias), s') \<and> topic \<in> {None, Some t} \<and>
    set_and_get alias (case topic of Some t \<Rightarrow> t | None \<Rightarrow> []) c = (Ok t, c') \<and> aliases_agree s' c'"
proof -
  let ?n = "length (s_aliases s)"
  consider (off) "s_max_topic_aliases s = 0" | (known) al where "s_max_topic_aliases s \<noteq> 0" "map_of (s_aliases s) t = Some al"
    | (full) "map_of (s_aliases s) t = None" "s_max_topic_aliases s \<noteq> 0" "s_max_topic_aliases s \<le> ?n"
    | (fresh) "map_of (s_aliases s) t = None" "?n < s_max_topic_aliases s"
    by (cases "map_of (s_aliases s) t") force+
  then show ?thesis
  proof cases
    case off
    then have "alias_get t s = Ok ((Some t, None), s)" by (simp add: alias_get_def alias_read_def)
    then show ?thesis using assms by (simp add: set_and_get_def)
  next
    case (known al)
    then have "alias_get t s = Ok ((None, Some al), s)" by (simp add: alias_get_def alias_read_def)
    moreover have "map_of (c_aliases c) al = Some t" using assms(1) known(2) by (simp add: aliases_agree_def)
    ultimately show ?thesis using assms by (simp add: set_and_get_def)
  next
    case full
    then have "alias_get t s = Ok ((Some t, None), s)" by (simp add: alias_get_def alias_read_def)
    then show ?thesis using assms by (simp add: set_and_get_def)
  next
    case fresh
    have n: "?n < 65535" and room: "length (c_aliases c) < c_max_topic_aliases c"
      using assms(1) fresh(2) by (auto simp: aliases_agree_def)
    have "alias_get t s = Ok ((Some t, Some (of_nat (Suc ?n))), alias_write t (of_nat (Suc ?n)) s)"
      using fresh of_nat_u16_neq_0 [OF n] by (simp add: alias_get_def alias_read_def del: of_nat_Suc)
    then show ?thesis
      using room agree_assign [OF assms(1) fresh] agree_fresh [OF assms(1) fresh(2)] assms(2)
      by (simp add: set_and_get_def del: of_nat_Suc)
  qed
qed

section \<open>Properties\<close>

text \<open>Both ends of a connection: what the sink of one hands to the codec, the receiving session of the other resolves.\<close>

fun transmit :: "(u32 option \<times> publish) list \<Rightarrow> server_topic_aliases option \<Rightarrow> client_topic_aliases option \<Rightarrow>
    (publish, any_error) res list" where
  "transmit [] s c = []"
| "transmit ((m, p) # ps) s c =
    (case sink_publish_v5 m p s of
       Ok (packet, s) \<Rightarrow> (let (r, c) = resolve_topic packet c in r # transmit ps s c)
     | _ \<Rightarrow> [Panic])"

definition ends_agree :: "server_topic_aliases option \<Rightarrow> client_topic_aliases option \<Rightarrow> bool" where
  "ends_agree s c \<longleftrightarrow> (case s of None \<Rightarrow> True | Some s \<Rightarrow> (case c of None \<Rightarrow> False | Some c \<Rightarrow> aliases_agree s c))"

lemma transmit_one:
  assumes "ends_agree s c" and "pub_topic p \<noteq> []" and "pub_properties p \<noteq> None"
  shows "\<exists>packet s' r c'. sink_publish_v5 m p s = Ok (packet, s') \<and> resolve_topic packet c = (Ok r, c') \<and>
    pub_topic r = pub_topic p \<and> ends_agree s' c'"
proof (cases s)
  case None
  then show ?thesis
    using assms by (auto simp: sink_publish_v5_def resolve_topic_def set_and_get_def ends_agree_def split: option.splits)
next
  case (Some a)
  with assms(1) obtain b where b: "c = Some b" "aliases_agree a b" by (auto simp: ends_agree_def split: option.splits)
  from alias_transfer [OF b(2) assms(2)] obtain topic al a' b' where
    "alias_get (pub_topic p) a = Ok ((topic, al), a')"
    "set_and_get al (case topic of Some t \<Rightarrow> t | None \<Rightarrow> []) b = (Ok (pub_topic p), b')" "aliases_agree a' b'" by blast
  with Some b assms(3) show ?thesis by (auto simp: sink_publish_v5_def resolve_topic_def ends_agree_def)
qed

text \<open>
  C19: Topic aliases are transparent: for every sequence of messages that carry MQTT 5 properties, sent
  through a sink whose negotiated alias maximum is at most the receiver's, every message is resolved by
  the receiver to the topic it was published on, and neither end fails.
\<close>

theorem topic_alias_roundtrip:
  assumes "smax \<le> cmax" and "\<forall>(m, p) \<in> set ps. pub_topic p \<noteq> [] \<and> pub_properties p \<noteq> None"
  shows "map (map_res pub_topic) (transmit ps (session_server_aliases smax) (session_client_aliases cmax)) =
    map (\<lambda>(m, p). Ok (pub_topic p)) ps"
proof -
  have run: "ends_agree s c \<Longrightarrow> map (map_res pub_topic) (transmit ps s c) = map (\<lambda>(m, p). Ok (pub_topic p)) ps" for s c
    using assms(2)
  proof (induction ps arbitrary: s c)
    case (Cons mp ps)
    obtain m p where mp: "mp = (m, p)" by (cases mp)
    with Cons.prems transmit_one [of s c p m] obtain packet s' r c' where
      "sink_publish_v5 m p s = Ok (packet, s')" "resolve_topic packet c = (Ok r, c')" "pub_topic r = pub_topic p" "ends_agree s' c'"
      by auto
    with Cons mp show ?case by simp
  qed simp
  have "0 < smax \<Longrightarrow> 0 < cmax" using assms(1) by (simp add: word_less_nat_alt word_le_nat_alt)
  then have "ends_agree (session_server_aliases smax) (session_client_aliases cmax)"
    using assms(1) by (simp add: session_server_aliases_def session_client_aliases_def ends_agree_def aliases_agree_def
      server_topic_aliases_new_def client_topic_aliases_new_def word_le_nat_alt)
  then show ?thesis by (rule run)
qed

definition topic_message :: "bytes \<Rightarrow> publish_properties option \<Rightarrow> publish" where
  "topic_message t pr = \<lparr>pub_dup = False, pub_retain = False, pub_qos = AtMostOnce, pub_topic = t, pub_packet_id = None,
     pub_payload = [], pub_properties = pr\<rparr>"

theorem topic_alias_roundtrip_witness:
  "map (map_res pub_topic)
     (transmit [(None, topic_message [97] (Some publish_properties_default)), (None, topic_message [97] (Some publish_properties_default)),
        (None, topic_message [98] (Some publish_properties_default))] (session_server_aliases 1) (session_client_aliases 2)) =
   [Ok [97], Ok [97], Ok [98]]"
  using topic_alias_roundtrip [of 1 2 "[(None, topic_message [97] (Some publish_properties_default)),
    (None, topic_message [97] (Some publish_properties_default)), (None, topic_message [98] (Some publish_properties_default))]"]
  by (simp add: topic_message_def del: transmit.simps)

text \<open>
  Resolving a topic on the receiving side fails exactly when neither topic nor alias is given, when
  an alias without topic is unknown, or when a new alias comes with the table full, each with its own
  message; on failure the table is unchanged, and in every case it holds at most the maximum number of
  aliases and answers the new alias with the topic.
\<close>

theorem set_and_get_correct:
  assumes "length (c_aliases a) \<le> c_max_topic_aliases a"
  shows "let (r, a') = set_and_get al t a in
    (r = Err alias_both_empty \<longleftrightarrow> al = None \<and> t = []) \<and>
    (r = Err alias_not_found \<longleftrightarrow> (\<exists>k. al = Some k \<and> t = [] \<and> map_of (c_aliases a) k = None)) \<and>
    (r = Err (alias_limit (c_max_topic_aliases a)) \<longleftrightarrow>
      (\<exists>k. al = Some k \<and> t \<noteq> [] \<and> map_of (c_aliases a) k = None \<and> length (c_aliases a) = c_max_topic_aliases a)) \<and>
    (r \<noteq> Panic) \<and> (\<forall>e. r = Err e \<longrightarrow> a' = a \<and> e \<in> {alias_both_empty, alias_not_found, alias_limit (c_max_topic_aliases a)}) \<and>
    length (c_aliases a') \<le> c_max_topic_aliases a' \<and> c_max_topic_aliases a' = c_max_topic_aliases a \<and>
    (\<forall>u. r = Ok u \<longrightarrow> (t \<noteq> [] \<longrightarrow> u = t) \<and>
      (\<forall>k. al = Some k \<longrightarrow> map_of (c_aliases a') = (map_of (c_aliases a))(k \<mapsto> u)) \<and> (al = None \<longrightarrow> a' = a))"
proof -
  have "alias_both_empty \<noteq> alias_not_found" "alias_both_empty \<noteq> alias_limit n" "alias_not_found \<noteq> alias_limit n" for n
    by (simp_all add: alias_both_empty_def alias_not_found_def alias_limit_def alias_error_def text_bytes_def open_quote_def
      close_quote_def)
  note distinct_errors = this this [symmetric]
  show ?thesis
  proof (cases al)
    case None
    then show ?thesis using assms distinct_errors by (auto simp: set_and_get_def)
  next
    case (Some k)
    then show ?thesis
      using assms distinct_errors
      by (cases "map_of (c_aliases a) k") (auto simp: set_and_get_def update_conv' length_update Let_def split: if_splits)
  qed
qed

theorem set_and_get_correct_witness:
  "fst (set_and_get (Some 2) [97] ((client_topic_aliases_new 1)\<lparr>c_aliases := [(1, [98])]\<rparr>)) = Err (alias_limit 1)"
  using set_and_get_correct [of "(client_topic_aliases_new 1)\<lparr>c_aliases := [(1, [98])]\<rparr>" "Some 2" "[97]"]
  by (simp add: client_topic_aliases_new_def case_prod_unfold Let_def)

section \<open>Where aliases go wrong\<close>

text \<open>
  A message without properties, which is what the MQTT 3 codec makes, has no place for the alias.  When its
  topic already has one, the packet goes out with neither topic nor alias, and the receiver rejects it.
\<close>

lemma alias_without_properties:
  assumes "map_of (s_aliases a) (pub_topic p) = Some al" and "s_max_topic_aliases a \<noteq> 0" and "pub_properties p = None"
  shows "sink_publish_v5 m p (Some a) = Ok (p\<lparr>pub_topic := []\<rparr>, Some a) \<and>
    fst (resolve_topic (p\<lparr>pub_topic := []\<rparr>) (Some c)) = Err alias_both_empty"
  using assms by (simp add: sink_publish_v5_def alias_get_def alias_read_def resolve_topic_def set_and_get_def)

text \<open>Two tasks between whose locks another one assigns an alias give the same alias to two topics.\<close>

lemma alias_race:
  assumes "alias_read t a = Ok (Inr al)" and "alias_read u a = Ok (Inr al')" and "t \<noteq> u"
  shows "let a' = alias_write u al' (alias_write t al a) in
    al = al' \<and> map_of (s_aliases a') t = Some al \<and> map_of (s_aliases a') u = Some al"
  using assms by (auto simp: alias_read_def alias_write_def update_conv' Let_def split: if_splits option.splits)

end
