(* ===== verification/Publishing.thy ===== *)
theory Publishing
  imports Registry Delayed Retainer Hooks Inbound Topic_Alias
begin

text \<open>
  Publishing a message (\<^verbatim>\<open>_publish\<close>, \<^verbatim>\<open>publish\<close>, \<^verbatim>\<open>forwards\<close>, \<^verbatim>\<open>inner_forwards\<close> and \<^verbatim>\<open>process_last_will\<close> of \<^verbatim>\<open>session.rs\<close>): topic
  aliases, delayed topics, the hooks and the access check, then the store of retained messages and the
  subscribers.  The state is that of the broker with the retained messages, the delayed ones, the plug-ins
  and the metrics; what the session has of its own is added to it.
\<close>

section \<open>The state\<close>

record metrics =
  client_publish_error :: u64
  client_publish_auth_error :: u64
  client_subscribe_error :: u64
  client_subscribe_auth_error :: u64

record ('q, 't, 'c, 'hp, 'h) world = "('q, 't, 'c) broker" +
  wd_retains :: retain_storage
  wd_delayed :: "'hp delayed_sender"
  wd_plugins :: 'h
  wd_metrics :: metrics

text \<open>What does not change while the broker runs; without a configuration the store of retained messages is off.\<close>

record ('t, 'c, 'hp, 's, 'h) server_context =
  cx_send :: "'t tx_send"
  cx_choice :: "'c choice"
  cx_heap :: "('hp, delayed_message) heap_ops"
  cx_hooks :: "('s, 'h) hook_manager"
  cx_retainer :: "retainer_config option"
  cx_storage :: bool
  cx_delayed_max :: nat
  cx_delayed_immediate :: bool

text \<open>The time in milliseconds, and the reading of the clock of the store of retained messages.\<close>

record moment =
  mo_millis :: int
  mo_tick :: nat

text \<open>The session that publishes: its handle for the hooks, its identity and its settings.\<close>

record 's session_ctx =
  sx_self :: 's
  sx_id :: ident
  sx_superuser :: bool
  sx_fitter :: fitter

abbreviation plugins_do :: "('h \<Rightarrow> 'h) \<Rightarrow> ('q, 't, 'c, 'hp, 'h, 'z) world_scheme \<Rightarrow> ('q, 't, 'c, 'hp, 'h, 'z) world_scheme" where
  "plugins_do f w \<equiv> w\<lparr>wd_plugins := f (wd_plugins w)\<rparr>"

definition count_publish_error :: "('q, 't, 'c, 'hp, 'h, 'z) world_scheme \<Rightarrow> ('q, 't, 'c, 'hp, 'h, 'z) world_scheme" where
  "count_publish_error w = w\<lparr>wd_metrics := (wd_metrics w)\<lparr>client_publish_error := client_publish_error (wd_metrics w) + 1\<rparr>\<rparr>"

definition count_publish_auth_error :: "('q, 't, 'c, 'hp, 'h, 'z) world_scheme \<Rightarrow> ('q, 't, 'c, 'hp, 'h, 'z) world_scheme" where
  "count_publish_auth_error w = w\<lparr>wd_metrics := (wd_metrics w)\<lparr>client_publish_auth_error := client_publish_auth_error (wd_metrics w) + 1\<rparr>\<rparr>"

section \<open>Forwarding\<close>

definition topic_error_text :: "topic_error \<Rightarrow> bytes" where
  "topic_error_text e = text_bytes (case e of InvalidTopic s \<Rightarrow> ''InvalidTopic('' @ s @ '')'' | InvalidLevel s \<Rightarrow> ''InvalidLevel('' @ s @ '')'')"

definition retain_message :: "('t, 'c, 'hp, 's, 'h) server_context \<Rightarrow> moment \<Rightarrow> msg_from \<Rightarrow> mpublish \<Rightarrow> nat option \<Rightarrow> retain_storage \<Rightarrow>
    (unit, topic_error) res \<times> retain_storage" where
  "retain_message cx m f p expiry st =
    (case cx_retainer cx of
       Some cfg \<Rightarrow>
         if pub_retain (mp_inner p) then
           ram_set cfg (mo_tick m) (bytes_text (pub_topic (mp_inner p))) \<lparr>rt_msg_id = None, rt_from = f, rt_publish = p\<rparr> expiry st
         else (Ok (), st)
     | None \<Rightarrow> (Ok (), st))"

definition drop_failed :: "('t, 'c, 'hp, 's, 'h) server_context \<Rightarrow> delivery_error list \<Rightarrow> 'h \<Rightarrow> 'h" where
  "drop_failed cx errs = fold (\<lambda>(to, f, p, r) h. hook_message_dropped (Some to) f p r (cx_hooks cx) h) errs"

definition inner_forwards :: "('t, 'c, 'hp, 's, 'h) server_context \<Rightarrow> moment \<Rightarrow> msg_from \<Rightarrow> mpublish \<Rightarrow> nat option \<Rightarrow>
    ('q, 't, 'c, 'hp, 'h, 'z) world_scheme \<Rightarrow> (unit, any_error) res \<times> ('q, 't, 'c, 'hp, 'h, 'z) world_scheme" where
  "inner_forwards cx m f p expiry w =
    (case retain_message cx m f p expiry (wd_retains w) of
       (Err e, st) \<Rightarrow> (Err (E_Other (topic_error_text e)), w\<lparr>wd_retains := st\<rparr>)
     | (Panic, st) \<Rightarrow> (Panic, w\<lparr>wd_retains := st\<rparr>)
     | (Ok _, st) \<Rightarrow>
         (case forwards (word_of_int (mo_millis m)) (cx_send cx) (cx_choice cx) None f p (w\<lparr>wd_retains := st\<rparr>) of
            (Ok n, _, w) \<Rightarrow> (Ok (), if n = 0 then plugins_do (hook_message_nonsubscribed f (cx_hooks cx)) w else w)
          | (Err (_, errs), _, w) \<Rightarrow> (Ok (), plugins_do (drop_failed cx errs) w)
          | (Panic, _, w) \<Rightarrow> (Panic, w)))"

definition session_forwards :: "('t, 'c, 'hp, 's, 'h) server_context \<Rightarrow> moment \<Rightarrow> msg_from \<Rightarrow> mpublish \<Rightarrow> nat option \<Rightarrow>
    ('q, 't, 'c, 'hp, 'h, 'z) world_scheme \<Rightarrow> (unit, any_error) res \<times> ('q, 't, 'c, 'hp, 'h, 'z) world_scheme" where
  "session_forwards cx m f p expiry w =
    (if mp_delay_interval p \<noteq> None then
       (case delay_publish (cx_heap cx) (cx_delayed_max cx) (mo_millis m) f p (cx_storage cx) expiry (wd_delayed w) of
          (None, ds) \<Rightarrow> (Ok (), w\<lparr>wd_delayed := ds\<rparr>)
        | (Some (f, p), ds) \<Rightarrow>
            if cx_delayed_immediate cx then inner_forwards cx m f p expiry (w\<lparr>wd_delayed := ds\<rparr>)
            else (Ok (), plugins_do (hook_message_dropped None f p R_DelayedPublishRefused (cx_hooks cx)) (w\<lparr>wd_delayed := ds\<rparr>)))
     else inner_forwards cx m f p expiry w)"

text \<open>The background task of the delayed messages: what one sweep takes out is forwarded in its order; errors are logged.\<close>

fun forward_expired :: "('t, 'c, 'hp, 's, 'h) server_context \<Rightarrow> moment \<Rightarrow> delayed_message list \<Rightarrow>
    ('q, 't, 'c, 'hp, 'h, 'z) world_scheme \<Rightarrow> ('q, 't, 'c, 'hp, 'h, 'z) world_scheme" where
  "forward_expired cx m [] w = w"
| "forward_expired cx m (dp # dps) w =
    (case delayed_out dp of (f, p, _, expiry) \<Rightarrow> forward_expired cx m dps (snd (inner_forwards cx m f p expiry w)))"

section \<open>A message of a client\<close>

record ('q, 't, 'c, 'hp, 'h, 'k) session_world = "('q, 't, 'c, 'hp, 'h) world" +
  sw_aliases :: "client_topic_aliases option"
  sw_sink :: 'k

text \<open>The text of the number parser at the end of the error is left out.\<close>

definition delayed_error_of :: "delayed_error \<Rightarrow> any_error" where
  "delayed_error_of e = (case e of Delay_Not_Integer t \<Rightarrow>
     E_Other (text_bytes ''the delay time of $delayed must be an integer, topic: '' @ t))"

definition parse_delayed :: "'s session_ctx \<Rightarrow> mpublish \<Rightarrow> (mpublish, any_error) res" where
  "parse_delayed sx p =
    (if delayed_publish (listen_cfg (sx_fitter sx)) then
       (case delayed_parse p of Ok p \<Rightarrow> Ok p | Err e \<Rightarrow> Err (delayed_error_of e) | Panic \<Rightarrow> Panic)
     else Ok p)"

definition ack_reason_error :: "publish_result \<Rightarrow> any_error" where
  "ack_reason_error r = E_Mqtt (ME_PublishAckReason (pr_reason_code r) (case pr_reason_string r of Some s \<Rightarrow> s | None \<Rightarrow> []))"

text \<open>The message after the hook, the answer of the access check, and the plug-ins after both.\<close>

definition check_publish :: "('t, 'c, 'hp, 's, 'h) server_context \<Rightarrow> 's session_ctx \<Rightarrow> mpublish \<Rightarrow> 'h \<Rightarrow> mpublish \<times> publish_acl_result \<times> 'h" where
  "check_publish cx sx p h =
    (let (changed, h) = hook_message_publish (Some (sx_self sx)) (from_custom (sx_id sx)) p (cx_hooks cx) h;
         p = (case changed of Some p \<Rightarrow> p | None \<Rightarrow> p);
         (acl_result, h) = hook_publish_check_acl (sx_superuser sx) (sx_self sx) p (cx_hooks cx) h
     in (p, acl_result, h))"

definition expiry_for :: "('t, 'c, 'hp, 's, 'h) server_context \<Rightarrow> 's session_ctx \<Rightarrow> mpublish \<Rightarrow> nat option" where
  "expiry_for cx sx p =
    (if cx_storage cx \<or> pub_retain (mp_inner p) \<and> cx_retainer cx \<noteq> None
     then Some (fitter_message_expiry_interval (mp_inner p) (sx_fitter sx)) else None)"

definition publish_checked :: "('t, 'c, 'hp, 's, 'h) server_context \<Rightarrow> 's session_ctx \<Rightarrow> moment \<Rightarrow> mpublish \<Rightarrow>
    ('q, 't, 'c, 'hp, 'h, 'z) world_scheme \<Rightarrow> (publish_result, any_error) res \<times> ('q, 't, 'c, 'hp, 'h, 'z) world_scheme" where
  "publish_checked cx sx m p w =
    (let f = from_custom (sx_id sx);
         (p, acl_result, h) = check_publish cx sx p (wd_plugins w);
         w = w\<lparr>wd_plugins := h\<rparr>
     in
     if \<not> acl_is_allow acl_result then
       (let r = pub_res acl_result;
            w = plugins_do (hook_message_dropped None f p (R_PublishResult r) (cx_hooks cx)) (count_publish_auth_error w)
        in if pr_disconnect r then (Err (ack_reason_error r), w) else (Ok r, w))
     else
       (case session_forwards cx m f p (expiry_for cx sx p) w of
          (Ok _, w) \<Rightarrow> (Ok publish_result_success, w)
        | (Err e, w) \<Rightarrow> (Err e, w)
        | (Panic, w) \<Rightarrow> (Panic, w)))"

definition session_publish_inner :: "('t, 'c, 'hp, 's, 'h) server_context \<Rightarrow> 's session_ctx \<Rightarrow> moment \<Rightarrow> mpublish \<Rightarrow>
    ('q, 't, 'c, 'hp, 'h, 'k) session_world \<Rightarrow> (publish_result, any_error) res \<times> ('q, 't, 'c, 'hp, 'h, 'k) session_world" where
  "session_publish_inner cx sx m p w =
    (case resolve_topic (mp_inner p) (sw_aliases w) of
       (Err e, al) \<Rightarrow> (Err e, w\<lparr>sw_aliases := al\<rparr>)
     | (Panic, al) \<Rightarrow> (Panic, w\<lparr>sw_aliases := al\<rparr>)
     | (Ok resolved, al) \<Rightarrow>
         (case parse_delayed sx (p\<lparr>mp_inner := resolved\<rparr>) of
            Err e \<Rightarrow> (Err e, w\<lparr>sw_aliases := al\<rparr>)
          | Panic \<Rightarrow> (Panic, w\<lparr>sw_aliases := al\<rparr>)
          | Ok p \<Rightarrow> publish_checked cx sx m p (w\<lparr>sw_aliases := al\<rparr>)))"

definition session_publish :: "('t, 'c, 'hp, 's, 'h) server_context \<Rightarrow> 's session_ctx \<Rightarrow> moment \<Rightarrow> mpublish \<Rightarrow>
    ('q, 't, 'c, 'hp, 'h, 'k) session_world \<Rightarrow> (publish_result, any_error) res \<times> ('q, 't, 'c, 'hp, 'h, 'k) session_world" where
  "session_publish cx sx m p w =
    (case session_publish_inner cx sx m p w of
       (Err e, w) \<Rightarrow> (Err e, count_publish_error w)
     | (Panic, w) \<Rightarrow> (Panic, w)
     | (Ok r, w) \<Rightarrow>
         if publish_result_is_success r then (Ok r, w)
         else (if pr_disconnect r then Err (ack_reason_error r) else Ok r, count_publish_error w))"

text \<open>The operations that the incoming side of a session uses.\<close>

definition session_env_of :: "('t, 'c, 'hp, 's, 'h) server_context \<Rightarrow> 's session_ctx \<Rightarrow> moment \<Rightarrow> sink_kind \<Rightarrow> (packet \<Rightarrow> 'k \<Rightarrow> any_error option \<times> 'k) \<Rightarrow>
    ('q, 't, 'c, 'hp, 'h, 'k) session_world session_env" where
  "session_env_of cx sx m kind sendk = \<lparr>ev_id = sx_id sx, ev_sink = kind,
     ev_put = (\<lambda>pk w. let (e, k) = sendk pk (sw_sink w) in (e, w\<lparr>sw_sink := k\<rparr>)),
     ev_publish = session_publish cx sx m,
     ev_dropped = (\<lambda>to f p r. plugins_do (hook_message_dropped to f p r (cx_hooks cx))),
     ev_publish_error = count_publish_error\<rparr>"

section \<open>Last will\<close>

datatype last_will = LW_V3 v3_last_will | LW_V5 v5_last_will

definition ci_last_will :: "connect_info \<Rightarrow> last_will option" where
  "ci_last_will c = (case c of CI_V3 _ c \<Rightarrow> map_option LW_V3 (c3_last_will c) | CI_V5 _ c \<Rightarrow> map_option LW_V5 (cn_last_will c))"

definition lw_delay :: "last_will \<Rightarrow> nat option" where
  "lw_delay lw = (case lw of LW_V3 _ \<Rightarrow> None | LW_V5 lw \<Rightarrow> map_option from_secs (lw_will_delay_interval_sec lw))"

text \<open>The parser of the query part of a topic (\<^verbatim>\<open>form_urlencoded\<close> of the \<^verbatim>\<open>url\<close> crate) is an argument.\<close>

definition publish_of_will :: "(bytes \<Rightarrow> user_properties) \<Rightarrow> int \<Rightarrow> last_will \<Rightarrow> mpublish" where
  "publish_of_will form_parse now lw =
    (let (retain, q, topic, payload, props) =
       (case lw of
          LW_V3 lw \<Rightarrow>
            (let user_properties = (case dropWhile (\<lambda>b. b \<noteq> 63) (lw3_topic lw) of _ # query \<Rightarrow> form_parse query | [] \<Rightarrow> [])
             in (lw3_retain lw, lw3_qos lw, lw3_topic lw, lw3_message lw, publish_properties_default\<lparr>pp_user_properties := user_properties\<rparr>))
        | LW_V5 lw \<Rightarrow>
            (lw_retain lw, lw_qos lw, lw_topic lw, lw_message lw,
             publish_properties_default\<lparr>pp_correlation_data := lw_correlation_data lw, pp_message_expiry_interval := lw_message_expiry_interval lw,
               pp_content_type := lw_content_type lw, pp_user_properties := lw_user_properties lw,
               pp_is_utf8_payload := (lw_is_utf8_payload lw = Some True), pp_response_topic := lw_response_topic lw\<rparr>))
     in \<lparr>mp_inner = \<lparr>pub_dup = False, pub_retain = retain, pub_qos = q, pub_topic = topic, pub_packet_id = None, pub_payload = payload,
          pub_properties = Some props\<rparr>, mp_target_clientid = None, mp_delay_interval = None, mp_create_time = Some (word_of_int now)\<rparr>)"

definition process_last_will :: "(bytes \<Rightarrow> user_properties) \<Rightarrow> ('t, 'c, 'hp, 's, 'h) server_context \<Rightarrow> 's session_ctx \<Rightarrow> moment \<Rightarrow>
    ('q, 't, 'c, 'hp, 'h, 'z) world_scheme \<Rightarrow> (unit, any_error) res \<times> ('q, 't, 'c, 'hp, 'h, 'z) world_scheme" where
  "process_last_will form_parse cx sx m w =
    (case ci_last_will (conn_info (sx_fitter sx)) of
       None \<Rightarrow> (Ok (), w)
     | Some lw \<Rightarrow>
         (let p = publish_of_will form_parse (mo_millis m) lw;
              f = from_lastwill (sx_id sx);
              (changed, h) = hook_message_publish (Some (sx_self sx)) f p (cx_hooks cx) (wd_plugins w);
              p = (case changed of Some p \<Rightarrow> p | None \<Rightarrow> p);
              expiry = (if cx_storage cx then Some (fitter_message_expiry_interval (mp_inner p) (sx_fitter sx)) else None)
          in session_forwards cx m f p expiry (w\<lparr>wd_plugins := h\<rparr>)))"

section \<open>Properties\<close>

text \<open>What a session of this node finds on its channel after a message has been forwarded to the subscriptions \<^verbatim>\<open>m\<close>.\<close>

definition delivered_copies :: "('t \<Rightarrow> message list) \<Rightarrow> ('t \<Rightarrow> bool) \<Rightarrow> msg_from \<Rightarrow> mpublish \<Rightarrow> topic \<Rightarrow>
    (string \<Rightarrow> client_id \<rightharpoonup> ident \<times> subscription_options_mqtt) \<Rightarrow> ('q, 't, 'c, 'z) broker_scheme \<Rightarrow> ('q, 't, 'c, 'z) broker_scheme \<Rightarrow> bool" where
  "delivered_copies received is_open f p t m b b' \<longleftrightarrow>
    (\<exists>pick. (\<forall>tf g. group_members m (from_id f) t tf g \<noteq> {} \<longrightarrow> pick tf g \<in> group_members m (from_id f) t tf g) \<and>
      (\<forall>cid s tx. map_of (bk_peers b) cid = Some (s, tx) \<and> is_open tx \<longrightarrow>
        (\<exists>tx'. map_of (bk_peers b') cid = Some (s, tx') \<and>
          gets_copies received f (\<lambda>c. \<exists>tf opts ids. entitled m (from_id f) t (bk_node b) tf cid opts \<and> c = forward_copy p opts ids)
            ((bk_node b, cid) \<in> direct_receivers m (from_id f) t \<union> {pick tf g | tf g. group_members m (from_id f) t tf g \<noteq> {}}) tx tx')))"

lemma delivered_copies_direct:
  assumes "delivered_copies received is_open f p t m b b'" and "map_of (bk_peers b) cid = Some (s, tx)" and "is_open tx"
    and "(bk_node b, cid) \<in> direct_receivers m (from_id f) t"
  shows "\<exists>tx' copies. map_of (bk_peers b') cid = Some (s, tx') \<and> received tx' = received tx @ map (M_Forward f) copies \<and> copies \<noteq> []"
  using assms unfolding delivered_copies_def gets_copies_def by blast

lemma inner_forwards_delivers:
  assumes "tx_laws (cx_send cx) received is_open" and "cx_choice cx = shared_choice" and "length ops < 2 ^ 63"
    and "topic_from_str (bytes_text (pub_topic (mp_inner p))) = Ok t" and "topic_name t" and "mp_target_clientid p = None"
    and "bk_router w = fold router_step ops router_new" and "retain_message cx m f p expiry (wd_retains w) = (Ok (), st)"
  shows "\<exists>w'. inner_forwards cx m f p expiry w = (Ok (), w') \<and> wd_retains w' = st \<and>
    delivered_copies received is_open f p t (fold subscription_step ops (\<lambda>_ _. None)) w w'"
proof -
  let ?w = "w\<lparr>wd_retains := st\<rparr>"
  have "bk_router ?w = fold router_step ops router_new" using assms(7) by simp
  from forwards_delivers [OF assms(1, 3, 4, 5, 6) this, of "word_of_int (mo_millis m)" f] obtain res w' pick where
    run: "forwards (word_of_int (mo_millis m)) (cx_send cx) (cx_choice cx) None f p ?w = (res, None, w')" "res \<noteq> Panic"
    and del: "let m = fold subscription_step ops (\<lambda>_ _. None); members = group_members m (from_id f) t in
     (\<forall>tf g. members tf g \<noteq> {} \<longrightarrow> pick tf g \<in> members tf g) \<and>
     (\<forall>cid s tx. map_of (bk_peers ?w) cid = Some (s, tx) \<and> is_open tx \<longrightarrow>
        (\<exists>tx'. map_of (bk_peers w') cid = Some (s, tx') \<and>
           gets_copies received f (\<lambda>c. \<exists>tf opts ids. entitled m (from_id f) t (bk_node ?w) tf cid opts \<and> c = forward_copy p opts ids)
             ((bk_node ?w, cid) \<in> direct_receivers m (from_id f) t \<union> {pick tf g | tf g. members tf g \<noteq> {}}) tx tx'))"
    unfolding assms(2) by blast
  have retains: "wd_retains w' = st" using arg_cong [OF forwards_frame [OF run(1)], of wd_retains] by simp
  have same: "delivered_copies received is_open f p t (fold subscription_step ops (\<lambda>_ _. None)) w w'"
    using del unfolding Let_def delivered_copies_def by auto
  show ?thesis
  proof (cases res)
    case (Ok n)
    with run retains same assms(8) show ?thesis
      by (cases "n = 0") (auto simp: inner_forwards_def delivered_copies_def)
  next
    case (Err e)
    with run retains same assms(8) show ?thesis
      by (cases e) (auto simp: inner_forwards_def delivered_copies_def)
  qed (use run in simp)
qed

lemma retain_message_Ok:
  assumes "topic_from_str (bytes_text (pub_topic (mp_inner p))) = Ok t"
  shows "retain_message cx m f p expiry st = (Ok (), snd (retain_message cx m f p expiry st))"
  using assms
  by (auto simp: retain_message_def ram_set_def ram_get_def get_message_def set_with_timeout_def prod_eq_iff Let_def split: option.split prod.split)

text \<open>The message as it leaves the hooks, when topic aliases and delayed topics are resolved and the access check lets it pass.\<close>

definition passes_as :: "('t, 'c, 'hp, 's, 'h) server_context \<Rightarrow> 's session_ctx \<Rightarrow> mpublish \<Rightarrow> ('q, 't, 'c, 'hp, 'h, 'k) session_world \<Rightarrow> mpublish option" where
  "passes_as cx sx p w =
    (case fst (resolve_topic (mp_inner p) (sw_aliases w)) of
       Ok resolved \<Rightarrow>
         (case parse_delayed sx (p\<lparr>mp_inner := resolved\<rparr>) of
            Ok p \<Rightarrow> (case check_publish cx sx p (wd_plugins w) of (p, acl_result, _) \<Rightarrow> if acl_is_allow acl_result then Some p else None)
          | _ \<Rightarrow> None)
     | _ \<Rightarrow> None)"

lemma passes_as_cases:
  assumes "passes_as cx sx p w = Some q"
  obtains al h acl_result p' resolved where
    "resolve_topic (mp_inner p) (sw_aliases w) = (Ok resolved, al)" "parse_delayed sx (p\<lparr>mp_inner := resolved\<rparr>) = Ok p'"
    "check_publish cx sx p' (wd_plugins w) = (q, acl_result, h)" "acl_is_allow acl_result"
proof -
  obtain r al where r: "resolve_topic (mp_inner p) (sw_aliases w) = (r, al)" by fastforce
  from assms r obtain resolved where res: "r = Ok resolved" by (cases r) (auto simp: passes_as_def)
  with assms r obtain p' where p': "parse_delayed sx (p\<lparr>mp_inner := resolved\<rparr>) = Ok p'"
    by (cases "parse_delayed sx (p\<lparr>mp_inner := resolved\<rparr>)") (auto simp: passes_as_def)
  with assms r res that show thesis by (auto simp: passes_as_def split: prod.splits if_splits)
qed

text \<open>A broker with one subscriber, a client that publishes, and a handler that refuses every message.\<close>

definition sample_context :: "(unit, unit) hook_manager \<Rightarrow> (message list \<times> bool, u64, delayed_message list, unit, unit) server_context" where
  "sample_context mgr = \<lparr>cx_send = list_send, cx_choice = shared_choice, cx_heap = list_heap, cx_hooks = mgr,
     cx_retainer = Some retainer_config_default, cx_storage = False, cx_delayed_max = 10, cx_delayed_immediate = True\<rparr>"

definition sample_publisher :: "unit session_ctx" where
  "sample_publisher = \<lparr>sx_self = (), sx_id = ident_from 1 ''p'' 0, sx_superuser = False,
     sx_fitter = fitter_new (acl_client ''p'') (ident_from 1 ''p'' 0) sample_limits\<rparr>"

definition sample_world :: "((u16, out_inflight_message) alist, message list \<times> bool, u64, delayed_message list, unit, unit) session_world" where
  "sample_world = broker.extend sample_broker \<lparr>wd_retains = storage_new, wd_delayed = delayed_sender_new list_heap, wd_plugins = (),
     wd_metrics = \<lparr>client_publish_error = 0, client_publish_auth_error = 0, client_subscribe_error = 0, client_subscribe_auth_error = 0\<rparr>,
     sw_aliases = None, sw_sink = ()\<rparr>"

definition refusing_hooks :: "(unit, unit) hook_manager" where
  "refusing_hooks = [(HT_MessagePublishCheckAcl, [((0, ''x''),
     \<lparr>he_handler = (\<lambda>p acc h. ((False, Some (HR_PublishAclResult (acl_rejected True None))), h)), he_enabled = True\<rparr>)])]"



text \<open>
  C38: A message that the access check refuses goes nowhere: no channel, no subscription, no retained message,
  no delayed message and no shared group changes; the session learns the code of the check, and the
  connection ends exactly when the check says so.
\<close>

theorem publish_refused:
  assumes "resolve_topic (mp_inner p) (sw_aliases w) = (Ok resolved, al)" and "parse_delayed sx (p\<lparr>mp_inner := resolved\<rparr>) = Ok p'"
    and "check_publish cx sx p' (wd_plugins w) = (q, acl_result, h)" and "\<not> acl_is_allow acl_result"
  shows "case session_publish cx sx m p w of (r, w') \<Rightarrow>
    (bk_peers w', bk_router w', bk_choice w', wd_retains w', wd_delayed w') = (bk_peers w, bk_router w, bk_choice w, wd_retains w, wd_delayed w) \<and>
    r = (if pr_disconnect (pub_res acl_result) then Err (ack_reason_error (pub_res acl_result)) else Ok (pub_res acl_result)) \<and>
    client_publish_error (wd_metrics w') = client_publish_error (wd_metrics w) + 1 \<and>
    client_publish_auth_error (wd_metrics w') = client_publish_auth_error (wd_metrics w) + 1"
  using assms
  by (auto simp: session_publish_def session_publish_inner_def publish_checked_def acl_is_allow_def publish_result_is_success_def
      count_publish_error_def count_publish_auth_error_def Let_def)

theorem publish_refused_witness:
  "fst (session_publish (sample_context refusing_hooks) sample_publisher \<lparr>mo_millis = 0, mo_tick = 0\<rparr> sample_publish sample_world) =
     Err (ack_reason_error (pub_res (acl_rejected True None)))"
proof -
  have w: "sw_aliases sample_world = None" by (simp add: sample_world_def broker.extend_def)
  have "resolve_topic (mp_inner sample_publish) (sw_aliases sample_world) = (Ok (mp_inner sample_publish), None)" by (simp add: resolve_topic_def w)
  moreover have "parse_delayed sample_publisher (sample_publish\<lparr>mp_inner := mp_inner sample_publish\<rparr>) = Ok sample_publish"
    by (simp add: parse_delayed_def sample_publisher_def fitter_new_def sample_limits_def)
  moreover have "check_publish (sample_context refusing_hooks) sample_publisher sample_publish (wd_plugins sample_world) = (sample_publish, acl_rejected True None, ())"
    by (simp add: check_publish_def sample_context_def refusing_hooks_def hook_message_publish_def hook_publish_check_acl_def hook_exec_def sample_publisher_def)
  moreover have "\<not> acl_is_allow (acl_rejected True None)"
    by (simp add: acl_is_allow_def acl_rejected_def publish_result_reason_code_def publish_result_default_def)
  ultimately show ?thesis
    using publish_refused [of sample_publish sample_world "mp_inner sample_publish" None sample_publisher sample_publish
        "sample_context refusing_hooks" sample_publish "acl_rejected True None" "()" "\<lparr>mo_millis = 0, mo_tick = 0\<rparr>"]
    by (auto simp: acl_rejected_def publish_result_reason_code_def split: prod.splits)
qed

section \<open>Limits of the code\<close>

text \<open>The query part of the topic of a will becomes properties, but also stays in the topic.\<close>

lemma will_topic_keeps_query:
  "pub_topic (mp_inner (publish_of_will form_parse now (LW_V3 lw))) = lw3_topic lw"
  by (simp add: publish_of_will_def Let_def)

end
