(* ===== verification/Lifecycle.thy ===== *)
theory Lifecycle
  imports Publishing
begin

text \<open>
  The end of a session (\<^verbatim>\<open>run\<close> after its event loop, \<^verbatim>\<open>offline_run_loop\<close>, \<^verbatim>\<open>offline_restart\<close> and \<^verbatim>\<open>clean\<close> in
  \<^verbatim>\<open>session.rs\<close>): a machine whose state is what the session owns and whose steps say, as a list of actions,
  what the session does to the broker; \<^verbatim>\<open>perform\<close> does them with the operations of the other theories.
\<close>

section \<open>Flags and decisions\<close>

record state_flags =
  fl_kicked :: bool
  fl_by_admin_kick :: bool
  fl_disconnect_received :: bool
  fl_clean_start :: bool
  fl_ping :: bool

definition flags_empty :: state_flags where
  "flags_empty = \<lparr>fl_kicked = False, fl_by_admin_kick = False, fl_disconnect_received = False, fl_clean_start = False, fl_ping = False\<rparr>"

definition flags_kick :: "bool \<Rightarrow> bool \<Rightarrow> state_flags \<Rightarrow> state_flags" where
  "flags_kick clean_start is_admin fl =
    (let fl = fl\<lparr>fl_kicked := True\<rparr>;
         fl = (if is_admin then fl\<lparr>fl_by_admin_kick := True\<rparr> else fl)
     in if clean_start then fl\<lparr>fl_clean_start := True\<rparr> else fl)"

definition last_will_enable :: "state_flags \<Rightarrow> bool \<Rightarrow> bool" where
  "last_will_enable fl clean =
    (let session_present = fl_kicked fl \<and> \<not> fl_clean_start fl \<and> \<not> clean in
     \<not> (fl_disconnect_received fl \<or> session_present))"

definition will_delay_interval :: "connect_info \<Rightarrow> nat option" where
  "will_delay_interval c = Option.bind (ci_last_will c) lw_delay"

definition clean_session :: "fitter \<Rightarrow> disconnect option \<Rightarrow> bool" where
  "clean_session f d =
    (case conn_info f of
       CI_V3 _ c \<Rightarrow> c3_clean_session c
     | CI_V5 _ _ \<Rightarrow> fitter_session_expiry_interval d f = 0)"

section \<open>What a session owns\<close>

text \<open>Its flags, the delivery queue with its channel, the window of outgoing messages and how it was disconnected.\<close>

record ('q, 'g) life =
  lf_flags :: state_flags
  lf_chan :: "(delivery, broker_stats, 'g) chan"
  lf_window :: "('q, broker_stats) out_inflight"
  lf_info :: disconnect_info

definition deliver_policy :: "delivery \<Rightarrow> policy" where
  "deliver_policy = (\<lambda>(_, p). case pub_qos (mp_inner p) of AtMostOnce \<Rightarrow> Policy_Current | _ \<Rightarrow> Policy_Early)"

text \<open>What a session does outside.\<close>

datatype life_action =
    A_Will
  | A_Disconnected reason
  | A_SendDisconnect v5_disconnect
  | A_OfflineMessage msg_from mpublish
  | A_OfflineInflight "out_inflight_message list"
  | A_Dropped msg_from mpublish reason
  | A_Terminated reason
  | A_Remove

text \<open>A message for the queue, and its report if there is no place for it.\<close>

definition enqueue :: "('g \<Rightarrow> bool \<times> 'g) \<Rightarrow> msg_from \<Rightarrow> mpublish \<Rightarrow> ('q, 'g) life \<Rightarrow> life_action list \<times> ('q, 'g) life" where
  "enqueue ts f p lf =
    (case send ts deliver_policy (f, p) (lf_chan lf) of
       (Err (f, p), c) \<Rightarrow> ([A_Dropped f p R_MessageQueueFull], lf\<lparr>lf_chan := c\<rparr>)
     | (_, c) \<Rightarrow> ([], lf\<lparr>lf_chan := c\<rparr>))"

section \<open>Cleaning up\<close>

function clean_queue :: "reason \<Rightarrow> ('q, 'g) life \<Rightarrow> life_action list \<times> ('q, 'g) life" where
  "clean_queue r lf =
    (case sender_pop (lf_chan lf) of
       (Some (f, p), c) \<Rightarrow> (let (as, lf) = clean_queue r (lf\<lparr>lf_chan := c\<rparr>) in (A_Dropped f p r # as, lf))
     | (None, c) \<Rightarrow> ([], lf\<lparr>lf_chan := c\<rparr>))"
  by pat_completeness auto
termination
  by (relation "measure (\<lambda>(_, lf). length (items (lf_chan lf)))") (auto simp: sender_pop_eq split: list.splits)

declare clean_queue.simps [simp del]

partial_function (option) clean_window :: "'q messages \<Rightarrow> reason \<Rightarrow> ('q, 'g) life \<Rightarrow> (life_action list \<times> ('q, 'g) life) option" where
  "clean_window D r lf =
    (let (m, w, s) = pop_front D (lf_window lf, hooks (lf_chan lf)); lf = lf\<lparr>lf_window := w, lf_chan := (lf_chan lf)\<lparr>hooks := s\<rparr>\<rparr> in
     if m = None then Some ([], lf)
     else Option.bind (clean_window D r lf) (\<lambda>(as, lf). Some (A_Dropped (oi_from (the m)) (oi_publish (the m)) r # as, lf)))"

definition clean :: "'q messages \<Rightarrow> reason \<Rightarrow> ('q, 'g) life \<Rightarrow> (life_action list \<times> ('q, 'g) life) option" where
  "clean D r lf =
    (let (queued, lf) = clean_queue r lf in
     Option.bind (clean_window D r lf) (\<lambda>(unacked, lf). Some (queued @ unacked @ [A_Terminated r, A_Remove], lf)))"

section \<open>Offline\<close>

text \<open>What wakes the offline loop: a message, with whether the one who asked still waits, the end of the channel, or a timer.\<close>

datatype offline_event = OE_Message message bool | OE_Closed | OE_Expired | OE_WillTimer

text \<open>The actions, whether the loop ends, the will that is still to be sent, and the session.\<close>

fun offline_step :: "('g \<Rightarrow> bool \<times> 'g) \<Rightarrow> offline_event \<Rightarrow> nat option \<times> ('q, 'g) life \<Rightarrow> life_action list \<times> bool \<times> nat option \<times> ('q, 'g) life" where
  "offline_step ts (OE_Message msg waits) (will, lf) =
    (case msg of
       M_Forward f p \<Rightarrow> (let (as, lf) = enqueue ts f p lf in (A_OfflineMessage f p # as, False, will, lf))
     | M_Kick _ clean_start is_admin \<Rightarrow>
         (if waits then ([], True, will, lf\<lparr>lf_flags := flags_kick clean_start is_admin (lf_flags lf)\<rparr>) else ([], False, will, lf))
     | _ \<Rightarrow> ([], False, will, lf))"
| "offline_step ts OE_Closed (will, lf) = ([], True, will, lf)"
| "offline_step ts OE_Expired (will, lf) = (if will \<noteq> None then [A_Will] else [], True, will, lf)"
| "offline_step ts OE_WillTimer (will, lf) = (if will \<noteq> None then [A_Will] else [], False, None, lf)"

text \<open>The loop over the events that come; it is over when a step ends it.\<close>

fun offline_run_loop :: "('g \<Rightarrow> bool \<times> 'g) \<Rightarrow> offline_event list \<Rightarrow> nat option \<times> ('q, 'g) life \<Rightarrow> life_action list \<times> bool \<times> nat option \<times> ('q, 'g) life" where
  "offline_run_loop ts [] (will, lf) = ([], False, will, lf)"
| "offline_run_loop ts (e # es) (will, lf) =
    (case offline_step ts e (will, lf) of
       (as, True, will, lf) \<Rightarrow> (as, True, will, lf)
     | (as, False, will, lf) \<Rightarrow> (let (as', ended, will, lf) = offline_run_loop ts es (will, lf) in (as @ as', ended, will, lf)))"

text \<open>The loop and what follows it.\<close>

definition offline_phase :: "'q messages \<Rightarrow> ('g \<Rightarrow> bool \<times> 'g) \<Rightarrow> offline_event list \<Rightarrow> nat option \<Rightarrow> ('q, 'g) life \<Rightarrow> (life_action list \<times> ('q, 'g) life) option" where
  "offline_phase D ts es will lf =
    (let (as, ended, will, lf) = offline_run_loop ts es (will, lf) in
     if ended \<and> \<not> fl_kicked (lf_flags lf)
     then Option.bind (clean D R_SessionExpiration lf) (\<lambda>(as', lf). Some (as @ as', lf))
     else Some (as, lf))"

text \<open>The will of a session that goes offline: sent at once, left for later, or not at all.\<close>

definition will_now :: "fitter \<Rightarrow> state_flags \<Rightarrow> bool \<Rightarrow> life_action list \<times> nat option" where
  "will_now f fl cleaning =
    (if last_will_enable fl cleaning then
       (let interval = will_delay_interval (conn_info f) in
        if cleaning \<or> interval = None then ([A_Will], None) else ([], interval))
     else ([], None))"

section \<open>The end of the connection\<close>

text \<open>
  \<^verbatim>\<open>run\<close> after its event loop has ended with a reason; the text of a reason is an argument, \<^verbatim>\<open>v5\<close> says that the
  client speaks MQTT 5.
\<close>

definition disconnect_for :: "(reason \<Rightarrow> bytes) \<Rightarrow> reason \<Rightarrow> v5_disconnect" where
  "disconnect_for show_reason r =
    (case r of
       R_ConnectDisconnect (Some (D_V5 d)) \<Rightarrow> d
     | _ \<Rightarrow> \<lparr>di_reason_code = reason_to_reason_code r, di_session_expiry_interval_secs = None, di_server_reference = None,
          di_reason_string = Some (show_reason r), di_user_properties = []\<rparr>)"

definition close_reason :: "disconnect_info \<Rightarrow> reason \<times> disconnect_info" where
  "close_reason info =
    (if disconnect_reasons info \<noteq> [] then (disconnected_reason info, info)
     else (R_ConnectRemoteClose, disconnected_reason_add R_ConnectRemoteClose info))"

definition session_end :: "(reason \<Rightarrow> bytes) \<Rightarrow> 'q messages \<Rightarrow> ('g \<Rightarrow> bool \<times> 'g) \<Rightarrow> fitter \<Rightarrow> bool \<Rightarrow> int \<Rightarrow> reason option \<Rightarrow> offline_event list \<Rightarrow>
    ('q, 'g) life \<Rightarrow> (life_action list \<times> ('q, 'g) life) option" where
  "session_end show_reason D ts f v5 now cause es lf =
    (let lf = (case cause of Some r \<Rightarrow> lf\<lparr>lf_info := disconnected_reason_add r (lf_info lf)\<rparr> | None \<Rightarrow> lf);
         d = mqtt_disconnect (lf_info lf);
         cleaning = clean_session f d;
         lf = lf\<lparr>lf_info := disconnected_set now None None (lf_info lf)\<rparr>;
         (wills, will) = will_now f (lf_flags lf) cleaning;
         (r, info) = close_reason (lf_info lf);
         lf = lf\<lparr>lf_info := info\<rparr>;
         as = wills @ (if v5 then [A_SendDisconnect (disconnect_for show_reason r)] else []) @ [A_Disconnected r]
     in
     if fl_kicked (lf_flags lf) then
       (if fl_by_admin_kick (lf_flags lf) then
          (let (r, info) = disconnected_reason_take (lf_info lf) in
           Option.bind (clean D r (lf\<lparr>lf_info := info\<rparr>)) (\<lambda>(as', lf). Some (as @ as', lf)))
        else Some (as, lf))
     else if cleaning then
       (let (r, info) = disconnected_reason_take (lf_info lf) in
        Option.bind (clean D r (lf\<lparr>lf_info := info\<rparr>)) (\<lambda>(as', lf). Some (as @ as', lf)))
     else
       (let unacked = clone_inflight_messages D (lf_window lf);
            as = as @ (if unacked \<noteq> [] then [A_OfflineInflight unacked] else [])
        in Option.bind (offline_phase D ts es will lf) (\<lambda>(as', lf). Some (as @ as', lf))))"

text \<open>A session that is restored offline, without a connection before it.\<close>

definition offline_restart :: "'q messages \<Rightarrow> ('g \<Rightarrow> bool \<times> 'g) \<Rightarrow> fitter \<Rightarrow> offline_event list \<Rightarrow> ('q, 'g) life \<Rightarrow> (life_action list \<times> ('q, 'g) life) option" where
  "offline_restart D ts f es lf =
    (let lf = lf\<lparr>lf_flags := flags_empty\<rparr>;
         (wills, will) = will_now f (lf_flags lf) (clean_session f (mqtt_disconnect (lf_info lf)))
     in Option.bind (offline_phase D ts es will lf) (\<lambda>(as, lf). Some (wills @ as, lf)))"

section \<open>The actions\<close>

text \<open>Errors of the will are logged; the DISCONNECT packet goes to a sink that has been closed before, so it has no effect here.\<close>

fun perform :: "(bytes \<Rightarrow> user_properties) \<Rightarrow> ('t, 'c, 'hp, 's, 'h) server_context \<Rightarrow> 's session_ctx \<Rightarrow> moment \<Rightarrow> life_action \<Rightarrow>
    ('q, 't, 'c, 'hp, 'h, 'z) world_scheme \<Rightarrow> ('q, 't, 'c, 'hp, 'h, 'z) world_scheme" where
  "perform fp cx sx m A_Will w = snd (process_last_will fp cx sx m w)"
| "perform fp cx sx m (A_Disconnected r) w = plugins_do (hook_client_disconnected (sx_self sx) r (cx_hooks cx)) w"
| "perform fp cx sx m (A_SendDisconnect d) w = w"
| "perform fp cx sx m (A_OfflineMessage f p) w = plugins_do (hook_offline_message (sx_self sx) f p (cx_hooks cx)) w"
| "perform fp cx sx m (A_OfflineInflight ms) w = plugins_do (hook_offline_inflight_messages (sx_self sx) ms (cx_hooks cx)) w"
| "perform fp cx sx m (A_Dropped f p r) w = plugins_do (hook_message_dropped (Some (sx_id sx)) f p r (cx_hooks cx)) w"
| "perform fp cx sx m (A_Terminated r) w = plugins_do (hook_session_terminated (sx_self sx) r (cx_hooks cx)) w"
| "perform fp cx sx m A_Remove w =
    (if id_same (sx_id sx) (bk_peers w) = Some True then snd (entry_remove_with True (sx_id sx) (sx_id sx) w) else w)"

section \<open>What becomes of the messages\<close>

abbreviation queued :: "('q, 'g, 'z) life_scheme \<Rightarrow> delivery list" where
  "queued lf \<equiv> items (lf_chan lf)"

definition unacked :: "'q messages \<Rightarrow> ('q, 'g, 'z) life_scheme \<Rightarrow> delivery list" where
  "unacked D lf = map (\<lambda>(_, m). (oi_from m, oi_publish m)) (entries D (lf_window lf))"

definition drops :: "reason \<Rightarrow> delivery list \<Rightarrow> life_action list" where
  "drops r = map (\<lambda>(f, p). A_Dropped f p r)"

fun dropped_by :: "life_action \<Rightarrow> delivery list" where
  "dropped_by (A_Dropped f p _) = [(f, p)]"
| "dropped_by _ = []"

fun offline_by :: "life_action \<Rightarrow> delivery list" where
  "offline_by (A_OfflineMessage f p) = [(f, p)]"
| "offline_by _ = []"

abbreviation dropped :: "life_action list \<Rightarrow> delivery list" where
  "dropped as \<equiv> concat (map dropped_by as)"

abbreviation taken_offline :: "life_action list \<Rightarrow> delivery list" where
  "taken_offline as \<equiv> concat (map offline_by as)"

lemma drops_simps [simp]: "dropped (drops r ds) = ds" "taken_offline (drops r ds) = []" "count_list (drops r ds) A_Will = 0"
  by (induction ds) (auto simp: drops_def)

lemma clean_queue_result:
  "\<exists>c. clean_queue r lf = (drops r (queued lf), lf\<lparr>lf_chan := c\<rparr>) \<and> items c = []"
proof (induction "queued lf" arbitrary: lf)
  case Nil
  then have "sender_pop (lf_chan lf) = (None, lf_chan lf)" by (simp add: sender_pop_eq flip: Nil)
  with Nil show ?case by (subst clean_queue.simps) (auto simp: drops_def simp flip: Nil intro: exI [of _ "lf_chan lf"])
next
  case (Cons d ds)
  obtain f p where d: "d = (f, p)" by fastforce
  obtain c where pop: "sender_pop (lf_chan lf) = (Some d, c)" "items c = ds"
    by (cases "sender_pop (lf_chan lf)") (auto simp: sender_pop_eq simp flip: Cons.hyps(2))
  from Cons.hyps(1) [of "lf\<lparr>lf_chan := c\<rparr>"] pop(2) obtain c' where
    "clean_queue r (lf\<lparr>lf_chan := c\<rparr>) = (drops r ds, lf\<lparr>lf_chan := c'\<rparr>)" "items c' = []" by auto
  with pop d show ?case by (subst clean_queue.simps) (auto simp: drops_def simp flip: Cons.hyps(2))
qed

lemma clean_window_result:
  assumes "deque_laws D"
  shows "\<exists>lf'. clean_window D r lf = Some (drops r (unacked D lf), lf') \<and> unacked D lf' = [] \<and> queued lf' = queued lf"
proof (induction "entries D (lf_window lf)" arbitrary: lf)
  case Nil
  with pop_front_entries [OF assms, of "lf_window lf" "hooks (lf_chan lf)"] obtain w' where
    w': "pop_front D (lf_window lf, hooks (lf_chan lf)) = (None, w', hooks (lf_chan lf))" "entries D w' = []" by auto
  with Nil show ?case by (subst clean_window.simps) (auto simp: drops_def unacked_def simp flip: Nil)
next
  case (Cons x xs)
  obtain k m where x: "x = (k, m)" by fastforce
  with pop_front_entries [OF assms, of "lf_window lf" "hooks (lf_chan lf)"] Cons.hyps(2) [symmetric] obtain w' s' where
    w': "pop_front D (lf_window lf, hooks (lf_chan lf)) = (Some m, w', s')" "entries D w' = xs" by auto
  let ?lf = "lf\<lparr>lf_window := w', lf_chan := (lf_chan lf)\<lparr>hooks := s'\<rparr>\<rparr>"
  from Cons.hyps(1) [of ?lf] w'(2) obtain lf' where
    "clean_window D r ?lf = Some (drops r (unacked D ?lf), lf')" "unacked D lf' = []" "queued lf' = queued lf" by auto
  with w' x show ?case by (subst clean_window.simps) (auto simp: drops_def unacked_def simp flip: Cons.hyps(2))
qed

lemma clean_result:
  assumes "deque_laws D"
  shows "\<exists>lf'. clean D r lf = Some (drops r (queued lf @ unacked D lf) @ [A_Terminated r, A_Remove], lf') \<and> queued lf' = [] \<and> unacked D lf' = []"
proof -
  obtain c where q: "clean_queue r lf = (drops r (queued lf), lf\<lparr>lf_chan := c\<rparr>)" "items c = []" using clean_queue_result by blast
  obtain lf' where "clean_window D r (lf\<lparr>lf_chan := c\<rparr>) = Some (drops r (unacked D (lf\<lparr>lf_chan := c\<rparr>)), lf')" "unacked D lf' = []" "queued lf' = []"
    using clean_window_result [OF assms, of r "lf\<lparr>lf_chan := c\<rparr>"] q(2) by auto
  with q show ?thesis by (simp add: clean_def unacked_def drops_def)
qed

lemma enqueue_result:
  assumes "bounded (lf_chan lf)" and "enqueue ts f p lf = (as, lf')"
  shows "mset (queued lf) + {#(f, p)#} = mset (dropped as) + mset (queued lf') \<and> taken_offline as = [] \<and> count_list as A_Will = 0 \<and>
    bounded (lf_chan lf') \<and> lf_window lf' = lf_window lf \<and> lf_flags lf' = lf_flags lf"
proof -
  obtain r c where r: "send ts deliver_policy (f, p) (lf_chan lf) = (r, c)" by fastforce
  with assms(2) have lf': "lf' = lf\<lparr>lf_chan := c\<rparr>" and as: "as = [] \<or> (\<exists>f p. as = [A_Dropped f p R_MessageQueueFull])"
    by (auto simp: enqueue_def split: res.splits)
  have "chan_step ts undefined deliver_policy (Op_Send (f, p)) (lf_chan lf) = (dropped as, [], c)"
    using assms(2) r by (auto simp: enqueue_def split: res.splits)
  from send_items [OF assms(1) this] as show ?thesis by (auto simp: lf')
qed

lemma offline_step_result:
  assumes "bounded (lf_chan lf)" and "offline_step ts e (will, lf) = (as, ended, will', lf')"
  shows "mset (queued lf) + mset (taken_offline as) = mset (dropped as) + mset (queued lf') \<and> bounded (lf_chan lf') \<and> lf_window lf' = lf_window lf"
proof (cases e)
  case (OE_Message msg waits)
  show ?thesis
  proof (cases msg)
    case (M_Forward f p)
    obtain as1 lf1 where q: "enqueue ts f p lf = (as1, lf1)" by fastforce
    with M_Forward OE_Message assms(2) have "as = A_OfflineMessage f p # as1" "lf' = lf1" by auto
    with enqueue_result [OF assms(1) q] show ?thesis by (simp del: concat_eq_Nil_conv)
  qed (use OE_Message assms in \<open>auto split: if_splits\<close>)
qed (use assms in \<open>auto split: if_splits\<close>)

lemma offline_run_loop_result:
  assumes "bounded (lf_chan lf)" and "offline_run_loop ts es (will, lf) = (as, ended, will', lf')"
  shows "mset (queued lf) + mset (taken_offline as) = mset (dropped as) + mset (queued lf') \<and> bounded (lf_chan lf') \<and> lf_window lf' = lf_window lf"
  using assms
proof (induction es arbitrary: will lf as)
  case (Cons e es)
  obtain as1 b will1 lf1 where s: "offline_step ts e (will, lf) = (as1, b, will1, lf1)" by (metis prod_cases4)
  note step = offline_step_result [OF Cons.prems(1) s]
  show ?case
  proof (cases b)
    case False
    obtain as2 e2 w2 lf2 where r: "offline_run_loop ts es (will1, lf1) = (as2, e2, w2, lf2)" by (metis prod_cases4)
    with s False Cons.prems(2) have "as = as1 @ as2" "lf' = lf2" by auto
    moreover have "mset (queued lf1) + mset (taken_offline as2) = mset (dropped as2) + mset (queued lf') \<and> bounded (lf_chan lf') \<and> lf_window lf' = lf_window lf1"
      by (rule Cons.IH) (use step r s False Cons.prems(2) in auto)
    moreover have "mset (queued lf) + mset (taken_offline as1) = mset (dropped as1) + mset (queued lf1)" "lf_window lf1 = lf_window lf" using step by simp_all
    ultimately show ?thesis by (simp add: add.assoc [symmetric])
  qed (use s step Cons.prems(2) in auto)
qed simp

text \<open>A timer sends the will when it fires before something else ends the loop.\<close>

fun will_comes :: "offline_event list \<Rightarrow> bool" where
  "will_comes [] = False"
| "will_comes (e # es) =
    (case e of
       OE_Expired \<Rightarrow> True
     | OE_WillTimer \<Rightarrow> True
     | OE_Closed \<Rightarrow> False
     | OE_Message (M_Kick _ _ _) waits \<Rightarrow> \<not> waits \<and> will_comes es
     | OE_Message _ _ \<Rightarrow> will_comes es)"

lemma offline_step_will:
  assumes "offline_step ts e (will, lf) = (as, ended, will', lf')"
  shows "count_list as A_Will = (if will \<noteq> None \<and> (e = OE_Expired \<or> e = OE_WillTimer) then 1 else 0) \<and>
    will' = (if e = OE_WillTimer then None else will) \<and>
    (ended \<longleftrightarrow> e = OE_Expired \<or> e = OE_Closed \<or> (\<exists>i c a. e = OE_Message (M_Kick i c a) True))"
proof (cases e)
  case (OE_Message msg waits)
  show ?thesis
  proof (cases msg)
    case (M_Forward f p)
    obtain as1 lf1 where q: "enqueue ts f p lf = (as1, lf1)" by fastforce
    then have "count_list as1 A_Will = 0" by (auto simp: enqueue_def split: prod.splits res.splits)
    with q M_Forward OE_Message assms show ?thesis by auto
  qed (use OE_Message assms in \<open>auto split: if_splits\<close>)
qed (use assms in \<open>auto split: if_splits\<close>)

lemma offline_run_loop_wills:
  "offline_run_loop ts es (will, lf) = (as, ended, will', lf') \<Longrightarrow> count_list as A_Will = (if will \<noteq> None \<and> will_comes es then 1 else 0)"
proof (induction es arbitrary: will lf as ended will' lf')
  case (Cons e es)
  obtain as1 b will1 lf1 where s: "offline_step ts e (will, lf) = (as1, b, will1, lf1)" by (metis prod_cases4)
  obtain as2 e2 w2 lf2 where r: "offline_run_loop ts es (will1, lf1) = (as2, e2, w2, lf2)" by (metis prod_cases4)
  have as: "as = (if b then as1 else as1 @ as2)" using Cons.prems s r by (auto split: bool.splits)
  show ?case
    using offline_step_will [OF s] Cons.IH [OF r] by (auto simp: as count_list_append split: offline_event.splits message.splits)
qed simp

text \<open>What becomes of the session, in either case of its end: the common part of the two theorems below.\<close>

lemma offline_phase_result:
  assumes "deque_laws D" and "bounded (lf_chan lf)"
  shows "\<exists>as lf'. offline_phase D ts es will lf = Some (as, lf') \<and>
    count_list as A_Will = (if will \<noteq> None \<and> will_comes es then 1 else 0) \<and>
    mset (queued lf) + mset (unacked D lf) + mset (taken_offline as) = mset (dropped as) + mset (queued lf') + mset (unacked D lf')"
proof -
  obtain as ended will1 lf1 where r: "offline_run_loop ts es (will, lf) = (as, ended, will1, lf1)" by (metis prod_cases4)
  note loop = offline_run_loop_result [OF assms(2) r] and wills = offline_run_loop_wills [OF r]
  from loop have u: "unacked D lf1 = unacked D lf" by (simp add: unacked_def)
  show ?thesis
  proof (cases "ended \<and> \<not> fl_kicked (lf_flags lf1)")
    case True
    let ?drops = "drops R_SessionExpiration (queued lf1 @ unacked D lf1)"
    obtain lf2 where c: "clean D R_SessionExpiration lf1 = Some (?drops @ [A_Terminated R_SessionExpiration, A_Remove], lf2)"
      "queued lf2 = []" "unacked D lf2 = []" using clean_result [OF assms(1)] by blast
    let ?as = "as @ ?drops @ [A_Terminated R_SessionExpiration, A_Remove]"
    have "offline_phase D ts es will lf = Some (?as, lf2)" using True c r by (simp add: offline_phase_def)
    moreover have "count_list ?as A_Will = count_list as A_Will" "taken_offline ?as = taken_offline as" "dropped ?as = dropped as @ queued lf1 @ unacked D lf1"
      by (simp_all del: append_assoc)
    moreover have "mset (queued lf) + mset (unacked D lf) + mset (taken_offline as) = mset (dropped as @ queued lf1 @ unacked D lf1) + mset (queued lf2) + mset (unacked D lf2)"
      using loop c(2, 3) u by (simp add: add.commute add.left_commute)
    ultimately show ?thesis using wills by - (rule exI [of _ ?as], rule exI [of _ lf2], simp)
  next
    case False
    then have "offline_phase D ts es will lf = Some (as, lf1)" using r by (auto simp: offline_phase_def)
    moreover have "mset (queued lf) + mset (unacked D lf) + mset (taken_offline as) = mset (dropped as) + mset (queued lf1) + mset (unacked D lf1)"
      using loop u by (simp add: add.commute add.left_commute)
    ultimately show ?thesis using wills by - (rule exI [of _ as], rule exI [of _ lf1], simp)
  qed
qed

lemma unacked_info [simp]: "unacked D (lf\<lparr>lf_info := i\<rparr>) = unacked D lf"
  by (simp add: unacked_def)

text \<open>The reports before the session is cleaned, left or goes offline.\<close>

definition farewell :: "(reason \<Rightarrow> bytes) \<Rightarrow> bool \<Rightarrow> reason \<Rightarrow> life_action list" where
  "farewell show_reason v5 r = (if v5 then [A_SendDisconnect (disconnect_for show_reason r)] else []) @ [A_Disconnected r]"

lemma farewell_simps [simp]:
  "count_list (farewell sr v5 r) A_Will = 0" "dropped (farewell sr v5 r) = []" "taken_offline (farewell sr v5 r) = []"
  by (simp_all add: farewell_def)

definition wills_due :: "fitter \<Rightarrow> state_flags \<Rightarrow> bool \<Rightarrow> nat \<times> bool" where
  "wills_due f fl cleaning =
    (if \<not> last_will_enable fl cleaning then (0, False)
     else if cleaning \<or> will_delay_interval (conn_info f) = None then (1, False)
     else (0, True))"

lemma will_now_due:
  "will_now f fl cleaning = (wills, will) \<Longrightarrow>
   (count_list wills A_Will, will \<noteq> None) = wills_due f fl cleaning \<and> dropped wills = [] \<and> taken_offline wills = []"
  by (auto simp: will_now_def wills_due_def Let_def split: if_splits)

lemma session_end_cases:
  obtains r info wills will where
    "will_now f (lf_flags lf) (clean_session f (mqtt_disconnect (lf_info lf))) = (wills, will)"
    "session_end sr D ts f v5 now cause es lf =
      (if fl_kicked (lf_flags lf) \<and> \<not> fl_by_admin_kick (lf_flags lf) then Some (wills @ farewell sr v5 r, lf\<lparr>lf_info := info\<rparr>)
       else if fl_kicked (lf_flags lf) \<or> clean_session f (mqtt_disconnect (lf_info lf)) then
         (case disconnected_reason_take info of (r', info') \<Rightarrow>
            map_option (\<lambda>(as, lf). (wills @ farewell sr v5 r @ as, lf)) (clean D r' (lf\<lparr>lf_info := info'\<rparr>)))
       else
         (let held = clone_inflight_messages D (lf_window lf) in
          map_option (\<lambda>(as, lf). (wills @ farewell sr v5 r @ (if held \<noteq> [] then [A_OfflineInflight held] else []) @ as, lf))
            (offline_phase D ts es will (lf\<lparr>lf_info := info\<rparr>))))"
proof -
  define info0 where "info0 = (case cause of Some r \<Rightarrow> disconnected_reason_add r (lf_info lf) | None \<Rightarrow> lf_info lf)"
  have lf0: "(case cause of Some r \<Rightarrow> lf\<lparr>lf_info := disconnected_reason_add r (lf_info lf)\<rparr> | None \<Rightarrow> lf) = lf\<lparr>lf_info := info0\<rparr>"
    by (simp add: info0_def split: option.split)
  have d: "mqtt_disconnect info0 = mqtt_disconnect (lf_info lf)"
    by (simp add: info0_def disconnected_reason_add_def split: option.split)
  obtain wills will where w: "will_now f (lf_flags lf) (clean_session f (mqtt_disconnect (lf_info lf))) = (wills, will)" by fastforce
  obtain r info where r: "close_reason (disconnected_set now None None info0) = (r, info)" by fastforce
  obtain r' info' where t: "disconnected_reason_take info = (r', info')" by fastforce
  have bind: "Option.bind x (\<lambda>(as', lf). Some (g as', lf)) = map_option (\<lambda>(as, lf). (g as, lf)) x"
    for x :: "(life_action list \<times> ('a, 'b) life) option" and g by (cases x) auto
  show thesis
    by (rule that [OF w, of r info]) (simp add: session_end_def lf0 d w r t bind farewell_def Let_def)
qed

lemma session_end_result:
  assumes "deque_laws D" and "bounded (lf_chan lf)"
  shows "\<exists>as lf'. session_end sr D ts f v5 now cause es lf = Some (as, lf') \<and>
    count_list as A_Will = (case wills_due f (lf_flags lf) (clean_session f (mqtt_disconnect (lf_info lf))) of
      (n, later) \<Rightarrow> n + (if later \<and> \<not> fl_kicked (lf_flags lf) \<and> will_comes es then 1 else 0)) \<and>
    mset (queued lf) + mset (unacked D lf) + mset (taken_offline as) = mset (dropped as) + mset (queued lf') + mset (unacked D lf')"
proof (rule session_end_cases [of f lf sr D ts v5 now cause es])
  fix r info wills will
  let ?cleaning = "clean_session f (mqtt_disconnect (lf_info lf))"
  assume w: "will_now f (lf_flags lf) ?cleaning = (wills, will)"
    and run: "session_end sr D ts f v5 now cause es lf =
      (if fl_kicked (lf_flags lf) \<and> \<not> fl_by_admin_kick (lf_flags lf) then Some (wills @ farewell sr v5 r, lf\<lparr>lf_info := info\<rparr>)
       else if fl_kicked (lf_flags lf) \<or> ?cleaning then
         (case disconnected_reason_take info of (r', info') \<Rightarrow>
            map_option (\<lambda>(as, lf). (wills @ farewell sr v5 r @ as, lf)) (clean D r' (lf\<lparr>lf_info := info'\<rparr>)))
       else
         (let held = clone_inflight_messages D (lf_window lf) in
          map_option (\<lambda>(as, lf). (wills @ farewell sr v5 r @ (if held \<noteq> [] then [A_OfflineInflight held] else []) @ as, lf))
            (offline_phase D ts es will (lf\<lparr>lf_info := info\<rparr>))))"
  obtain n later where due: "wills_due f (lf_flags lf) ?cleaning = (n, later)" by fastforce
  with will_now_due [OF w] have wills: "count_list wills A_Will = n" "later = (will \<noteq> None)" "dropped wills = []" "taken_offline wills = []" by simp_all
  obtain r' info' where t: "disconnected_reason_take info = (r', info')" by fastforce
  obtain lf2 where c: "clean D r' (lf\<lparr>lf_info := info'\<rparr>) = Some (drops r' (queued lf @ unacked D lf) @ [A_Terminated r', A_Remove], lf2)"
    "queued lf2 = []" "unacked D lf2 = []" using clean_result [OF assms(1), of r' "lf\<lparr>lf_info := info'\<rparr>"] by auto
  obtain as3 lf3 where o: "offline_phase D ts es will (lf\<lparr>lf_info := info\<rparr>) = Some (as3, lf3)"
    "count_list as3 A_Will = (if will \<noteq> None \<and> will_comes es then 1 else 0)"
    "mset (queued lf) + mset (unacked D lf) + mset (taken_offline as3) = mset (dropped as3) + mset (queued lf3) + mset (unacked D lf3)"
    using offline_phase_result [OF assms(1), of "lf\<lparr>lf_info := info\<rparr>" ts es will] assms(2) by auto
  consider "fl_kicked (lf_flags lf)" "\<not> fl_by_admin_kick (lf_flags lf)"
    | "fl_kicked (lf_flags lf) \<and> fl_by_admin_kick (lf_flags lf) \<or> \<not> fl_kicked (lf_flags lf) \<and> ?cleaning"
    | "\<not> fl_kicked (lf_flags lf)" "\<not> ?cleaning" by blast
  then show ?thesis
  proof cases
    case 1
    then show ?thesis using run due wills by (simp del: concat_eq_Nil_conv)
  next
    case 2
    then have "later \<Longrightarrow> fl_kicked (lf_flags lf)" using due by (auto simp: wills_due_def split: if_splits)
    with 2 run due wills t c show ?thesis by (auto simp del: concat_eq_Nil_conv)
  next
    case 3
    then show ?thesis using run due wills o by (simp add: Let_def del: concat_eq_Nil_conv)
  qed
qed

section \<open>Properties\<close>



text \<open>An MQTT 5 session that is kept for an hour and whose will is delayed by a minute.\<close>

definition delayed_will :: v5_last_will where
  "delayed_will = \<lparr>lw_qos = AtLeastOnce, lw_retain = False, lw_topic = text_bytes ''gone'', lw_message = [], lw_will_delay_interval_sec = Some 60,
     lw_correlation_data = None, lw_message_expiry_interval = None, lw_content_type = None, lw_user_properties = [],
     lw_is_utf8_payload = None, lw_response_topic = None\<rparr>"

definition will_fitter :: fitter where
  "will_fitter = fitter_new (CI_V5 (ident_from 1 ''c'' 0) (v5_connect_default\<lparr>cn_last_will := Some delayed_will, cn_session_expiry_interval_secs := 3600\<rparr>))
     (ident_from 1 ''c'' 0) sample_limits"

definition lost_session :: "((u16, out_inflight_message) alist, nat) life" where
  "lost_session = \<lparr>lf_flags = flags_empty,
     lf_chan = \<lparr>queue = queue_new 1, hooks = \<lparr>bs_subs = \<lparr>st_subscriptions = counter_new, st_subscriptions_shared = counter_new\<rparr>,
       bs_message_queues = counter_new, bs_out_inflights = counter_new\<rparr>, signals = 0\<rparr>,
     lf_window = out_inflight_new alist_deque 16 20000 0, lf_info = disconnect_info_new 0\<rparr>"

lemma lost_session_facts:
  "bounded (lf_chan lost_session)" "last_will_enable (lf_flags lost_session) False" "\<not> fl_kicked (lf_flags lost_session)"
  "\<not> clean_session will_fitter (mqtt_disconnect (lf_info lost_session))" "will_delay_interval (conn_info will_fitter) = Some (60 * 10 ^ 9)"
  by (simp_all add: lost_session_def queue_new_def last_will_enable_def flags_empty_def clean_session_def will_fitter_def fitter_new_def
      fitter_session_expiry_interval_def disconnect_info_new_def sample_limits_def from_secs_def will_delay_interval_def ci_last_will_def lw_delay_def delayed_will_def)



section \<open>Limits of the code\<close>

text \<open>
  A connection that starts clean ends the session it takes over, but its delayed will is never sent: kicked
  while it is online, and kicked while it is offline.
\<close>

lemma clean_start_loses_will:
  assumes "deque_laws D" and "bounded (lf_chan lf)" and "fl_kicked (lf_flags lf)" and "fl_clean_start (lf_flags lf)"
    and "\<not> clean_session f (mqtt_disconnect (lf_info lf))" and "will_delay_interval (conn_info f) = Some n"
  shows "\<exists>as lf'. session_end sr D ts f v5 now cause es lf = Some (as, lf') \<and> A_Will \<notin> set as"
proof -
  obtain as lf' where "session_end sr D ts f v5 now cause es lf = Some (as, lf')" "count_list as A_Will = 0"
    using session_end_result [OF assms(1, 2), of sr ts f v5 now cause es] assms(3-6) by (auto simp: wills_due_def split: if_splits)
  then show ?thesis by (auto simp: count_list_0_iff)
qed

lemma offline_kick_loses_will:
  "offline_run_loop ts (OE_Message (M_Kick i True False) True # es) (Some n, lf) = ([], True, Some n, lf\<lparr>lf_flags := flags_kick True False (lf_flags lf)\<rparr>)"
  by simp

text \<open>The DISCONNECT packet the client sent is never sent back, since the reasons of a session are always a list.\<close>

lemma disconnect_not_echoed: "fst (close_reason info) \<noteq> R_ConnectDisconnect (Some d)"
  by (simp add: close_reason_def disconnected_reason_def)

end
