(* ===== verification/Takeover.thy ===== *)
theory Takeover
  imports Lifecycle
begin

text \<open>
  Taking a session over: the new session gets the state of the old one in a message and makes it its own
  (\<^verbatim>\<open>transfer_session_state\<close>, \<^verbatim>\<open>reforward\<close> and \<^verbatim>\<open>forward\<close> in \<^verbatim>\<open>session.rs\<close>).  The sending half of the channel of the session
  and its table of subscriptions are values of their own here; the registry has copies of both handles.
  The store of messages is switched off.
\<close>

section \<open>Operations\<close>

definition session_forward :: "('t, 'c, 'hp, 's, 'h) server_context \<Rightarrow> 's session_ctx \<Rightarrow> msg_from \<Rightarrow> mpublish \<Rightarrow>
    't \<times> ('q, 't, 'c, 'hp, 'h, 'z) world_scheme \<Rightarrow> 't \<times> ('q, 't, 'c, 'hp, 'h, 'z) world_scheme" where
  "session_forward cx sx f p = (\<lambda>(tx, w).
    case cx_send cx (M_Forward f p) tx of
      Some tx \<Rightarrow> (tx, w)
    | None \<Rightarrow> (tx, plugins_do (hook_message_dropped (Some (sx_id sx)) f p (R_Error (text_bytes ''Send Publish message error, Tx is closed'')) (cx_hooks cx)) w))"

text \<open>The error is that of the channel.\<close>

definition set_dup :: "mpublish \<Rightarrow> mpublish" where
  "set_dup p = p\<lparr>mp_inner := (mp_inner p)\<lparr>pub_dup := True\<rparr>\<rparr>"

definition reforward :: "('t, 'c, 'hp, 's, 'h) server_context \<Rightarrow> 's session_ctx \<Rightarrow> int \<Rightarrow> out_inflight_message \<Rightarrow>
    't \<times> ('q, 't, 'c, 'hp, 'h, 'z) world_scheme \<Rightarrow> (unit, unit) res \<times> 't \<times> ('q, 't, 'c, 'hp, 'h, 'z) world_scheme" where
  "reforward cx sx now m = (\<lambda>(tx, w).
    case oi_status m of
      UnAck \<Rightarrow> (Ok (), session_forward cx sx (oi_from m) (set_dup (oi_publish m)) (tx, w))
    | UnReceived \<Rightarrow> (Ok (), session_forward cx sx (oi_from m) (set_dup (oi_publish m)) (tx, w))
    | UnComplete \<Rightarrow>
        (let dflt = int (message_expiry_interval (listen_cfg (sx_fitter sx)) div 10 ^ 6);
             (check, h) = hook_message_expiry_check now dflt (sx_self sx) (oi_from m) (oi_publish m) (cx_hooks cx) (wd_plugins w);
             w = w\<lparr>wd_plugins := h\<rparr>
         in if is_expiry check then (Ok (), tx, w)
            else case cx_send cx (M_SendRerelease m) tx of Some tx \<Rightarrow> (Ok (), tx, w) | None \<Rightarrow> (Err (), tx, w)))"

text \<open>The filters of the old session for the new one; an error of the router is logged.\<close>

fun restore_routes :: "ident \<Rightarrow> session_subs \<Rightarrow> router \<Rightarrow> router" where
  "restore_routes i [] r = r"
| "restore_routes i ((tf, opts) # subs) r = restore_routes i subs (snd (router_add tf i opts r))"

text \<open>The unacknowledged messages, taken from the end.\<close>

fun reforward_all :: "('t, 'c, 'hp, 's, 'h) server_context \<Rightarrow> 's session_ctx \<Rightarrow> int \<Rightarrow> out_inflight_message list \<Rightarrow>
    't \<times> ('q, 't, 'c, 'hp, 'h, 'z) world_scheme \<Rightarrow> 't \<times> ('q, 't, 'c, 'hp, 'h, 'z) world_scheme" where
  "reforward_all cx sx now [] s = s"
| "reforward_all cx sx now (m # ms) s =
    reforward_all cx sx now (butlast (m # ms)) (if oi_status (last (m # ms)) \<noteq> UnComplete then snd (reforward cx sx now (last (m # ms)) s) else s)"

fun forward_all :: "('t, 'c, 'hp, 's, 'h) server_context \<Rightarrow> 's session_ctx \<Rightarrow> delivery list \<Rightarrow>
    't \<times> ('q, 't, 'c, 'hp, 'h, 'z) world_scheme \<Rightarrow> 't \<times> ('q, 't, 'c, 'hp, 'h, 'z) world_scheme" where
  "forward_all cx sx [] s = s"
| "forward_all cx sx ((f, p) # ds) s = forward_all cx sx ds (session_forward cx sx f p s)"

definition transfer_session_state :: "('t, 'c, 'hp, 's, 'h) server_context \<Rightarrow> 's session_ctx \<Rightarrow> int \<Rightarrow> bool \<Rightarrow> offline_info \<Rightarrow>
    't \<times> session_subs \<times> ('q, 't, 'c, 'hp, 'h, 'z) world_scheme \<Rightarrow> 't \<times> session_subs \<times> ('q, 't, 'c, 'hp, 'h, 'z) world_scheme" where
  "transfer_session_state cx sx now clear_subscriptions info = (\<lambda>(tx, subs, w).
    let (subs, w) =
          (if clear_subscriptions then (subs, w)
           else
             (let w = w\<lparr>bk_router := restore_routes (sx_id sx) (off_subscriptions info) (bk_router w)\<rparr>;
                  (subs, st) = subs_extend (off_subscriptions info) (subs, bs_subs (bk_stats w))
              in (subs, w\<lparr>bk_stats := (bk_stats w)\<lparr>bs_subs := st\<rparr>\<rparr>)));
        (tx, w) = reforward_all cx sx now (off_inflight_messages info) (tx, w);
        (tx, w) = forward_all cx sx (off_offline_messages info) (tx, w)
    in (tx, subs, w))"

section \<open>What the new session receives\<close>

abbreviation resends :: "out_inflight_message list \<Rightarrow> message list" where
  "resends ms \<equiv> map (\<lambda>m. M_Forward (oi_from m) (set_dup (oi_publish m))) (filter (\<lambda>m. oi_status m \<noteq> UnComplete) (rev ms))"

abbreviation deliveries :: "delivery list \<Rightarrow> message list" where
  "deliveries ds \<equiv> map (\<lambda>(f, p). M_Forward f p) ds"

lemma session_forward_sent:
  assumes "tx_laws (cx_send cx) received is_open" and "is_open tx"
  shows "\<exists>tx'. session_forward cx sx f p (tx, w) = (tx', w) \<and> is_open tx' \<and> received tx' = received tx @ [M_Forward f p]"
proof (cases "cx_send cx (M_Forward f p) tx")
  case None
  with tx_lawsD(1) [OF assms(1)] assms(2) show ?thesis by simp
next
  case (Some tx')
  with tx_lawsD(2, 3) [OF assms(1) Some] show ?thesis by (simp add: session_forward_def)
qed

lemma forward_all_sent:
  assumes "tx_laws (cx_send cx) received is_open"
  shows "is_open tx \<Longrightarrow> \<exists>tx'. forward_all cx sx ds (tx, w) = (tx', w) \<and> is_open tx' \<and> received tx' = received tx @ deliveries ds"
proof (induction ds arbitrary: tx)
  case (Cons d ds)
  obtain f p where d: "d = (f, p)" by fastforce
  from session_forward_sent [OF assms Cons.prems] obtain tx1 where
    one: "session_forward cx sx f p (tx, w) = (tx1, w)" "is_open tx1" "received tx1 = received tx @ [M_Forward f p]" by blast
  from Cons.IH [OF one(2)] one d show ?case by auto
qed auto

lemma reforward_sent:
  assumes "tx_laws (cx_send cx) received is_open" and "is_open tx" and "oi_status m \<noteq> UnComplete"
  shows "\<exists>tx'. reforward cx sx now m (tx, w) = (Ok (), tx', w) \<and> is_open tx' \<and> received tx' = received tx @ [M_Forward (oi_from m) (set_dup (oi_publish m))]"
  using session_forward_sent [OF assms(1, 2), of sx "oi_from m" "set_dup (oi_publish m)" w] assms(3)
  by (cases "oi_status m") (auto simp: reforward_def)

lemma reforward_all_snoc:
  "reforward_all cx sx now (ms @ [m]) s =
   reforward_all cx sx now ms (if oi_status m \<noteq> UnComplete then snd (reforward cx sx now m s) else s)"
proof -
  obtain m' ms' where eq: "ms @ [m] = m' # ms'" by (cases ms) auto
  have "last (m' # ms') = m" "butlast (m' # ms') = ms" by (simp_all flip: eq)
  then show ?thesis by (simp only: eq reforward_all.simps)
qed

lemma reforward_all_sent:
  assumes "tx_laws (cx_send cx) received is_open"
  shows "is_open tx \<Longrightarrow> \<exists>tx'. reforward_all cx sx now ms (tx, w) = (tx', w) \<and> is_open tx' \<and> received tx' = received tx @ resends ms"
proof (induction ms arbitrary: tx rule: rev_induct)
  case (snoc m ms)
  show ?case
  proof (cases "oi_status m = UnComplete")
    case True
    with snoc show ?thesis by (simp add: reforward_all_snoc)
  next
    case False
    from reforward_sent [OF assms snoc.prems False] obtain tx1 where
      one: "reforward cx sx now m (tx, w) = (Ok (), tx1, w)" "is_open tx1" "received tx1 = received tx @ [M_Forward (oi_from m) (set_dup (oi_publish m))]" by blast
    from snoc.IH [OF one(2)] one False show ?thesis by (auto simp: reforward_all_snoc)
  qed
qed auto

section \<open>The subscriptions\<close>

lemma restore_routes_subscription:
  "distinct (map fst subs) \<Longrightarrow> \<forall>tf \<in> fst ` set subs. \<exists>t. topic_from_str tf = Ok t \<Longrightarrow>
   subscription (restore_routes i subs r) tf cid =
     (if cid = id_client_id i then (case map_of subs tf of Some opts \<Rightarrow> Some (i, opts) | None \<Rightarrow> subscription r tf cid) else subscription r tf cid)"
proof (induction subs arbitrary: r)
  case (Cons x subs)
  obtain tf' opts where x: "x = (tf', opts)" by fastforce
  from Cons.prems(2) x obtain t where t: "topic_from_str tf' = Ok t" by auto
  obtain res r' where add: "router_add tf' i opts r = (res, r')" by fastforce
  from Cons.prems x have new: "map_of subs tf' = None" by (simp add: map_of_eq_None_iff)
  from Cons.IH [of r'] Cons.prems x add have
    "subscription (restore_routes i (x # subs) r) tf cid =
      (if cid = id_client_id i then (case map_of subs tf of Some opts \<Rightarrow> Some (i, opts) | None \<Rightarrow> subscription r' tf cid) else subscription r' tf cid)" by simp
  with router_add_subscription [OF t add] new x show ?case by (cases "tf = tf'") (simp_all split: option.split)
qed simp

lemma subs_extend_map:
  "map_of (fst (subs_extend new (subs, st))) = map_of subs ++ map_of (rev new)"
proof (induction new arbitrary: subs st)
  case (Cons x new)
  obtain tf opts where x: "x = (tf, opts)" by fastforce
  obtain prev subs1 st1 where add: "subs_add tf opts (subs, st) = (prev, subs1, st1)" by (metis surj_pair)
  then have "map_of subs1 = (map_of subs)(tf \<mapsto> opts)" by (auto simp: subs_add_def Let_def update_conv' split: if_splits prod.splits option.splits)
  with Cons.IH [of subs1 st1] add x show ?case by (auto simp: fun_eq_iff map_add_def split: option.split)
qed simp

lemma map_of_rev: "distinct (map fst xs) \<Longrightarrow> map_of (rev xs) = map_of xs"
  by (intro map_of_eqI) (auto simp: rev_map [symmetric])

text \<open>Removing the filters of a session takes those that are still its own out of the router.\<close>

lemma unsubscribe_all_router:
  "router_shape (bk_router b) \<Longrightarrow> map_of (bk_peers b) (id_client_id i) = None \<Longrightarrow>
   router_shape (bk_router (unsubscribe_all i tfs b)) \<and> bk_peers (unsubscribe_all i tfs b) = bk_peers b \<and>
   subscription (bk_router (unsubscribe_all i tfs b)) tf cid =
     (if cid = id_client_id i \<and> tf \<in> set tfs \<and> (\<exists>opts. subscription (bk_router b) tf cid = Some (i, opts)) then None
      else subscription (bk_router b) tf cid)"
proof (induction tfs arbitrary: b)
  case (Cons tf' tfs)
  obtain res r' where rem: "router_remove tf' i (bk_router b) = (res, r')" by fastforce
  show ?case
  proof (cases "\<exists>opts. subscription (bk_router b) tf' (id_client_id i) = Some (i, opts)")
    case True
    then obtain opts where sub: "subscription (bk_router b) tf' (id_client_id i) = Some (i, opts)" by blast
    note f = router_remove_fields(1) [OF Cons.prems(1) sub rem] router_remove_shape [OF Cons.prems(1) sub rem]
      router_remove_subscription [OF Cons.prems(1) sub rem]
    from Cons.IH [of "b\<lparr>bk_router := r'\<rparr>"] Cons.prems f sub rem show ?thesis
      by (cases "tf = tf'") (auto simp: with_subs_def)
  next
    case False
    with router_remove_none rem have "res = Ok False" "r' = bk_router b" by fastforce+
    with Cons.IH [of b] Cons.prems False rem show ?thesis by (auto simp: with_subs_def)
  qed
qed auto

section \<open>The old session\<close>

lemma queue_drain_all: "\<exists>q' s'. queue_drain (q, s) = (inner q, q', s')"
proof (induction "inner q" arbitrary: q s)
  case Nil
  then show ?case by (subst queue_drain.simps) (simp add: queue_pop_def flip: Nil)
next
  case (Cons v vs)
  from Cons.hyps(1) [of "q\<lparr>inner := vs\<rparr>" "call_hook (on_pop_fn q) s"] obtain q' s' where
    "queue_drain (q\<lparr>inner := vs\<rparr>, call_hook (on_pop_fn q) s) = (vs, q', s')" by auto
  then show ?case by (subst queue_drain.simps) (simp add: queue_pop_def flip: Cons.hyps(2))
qed

lemma to_offline_info_all:
  assumes "deque_laws D" and "distinct (map fst (ss_subscriptions s))"
  shows "\<exists>st'. to_offline_info D s st = Some (\<lparr>off_id = ss_id s, off_subscriptions = ss_subscriptions s, off_offline_messages = inner (ss_deliver_queue s),
    off_inflight_messages = map snd (entries D (ss_out_inflight s)), off_created_at = ss_created_at s\<rparr>, st')"
proof -
  obtain subs rest ss where d: "subs_drain (ss_subscriptions s, bs_subs st) = (subs, rest, ss)" by (metis surj_pair)
  with subs_remove_all_drains [OF assms(2), of "bs_subs st"] have "subs = ss_subscriptions s" by (simp add: subs_drain_def)
  moreover obtain q' st1 where "queue_drain (ss_deliver_queue s, st\<lparr>bs_subs := ss\<rparr>) = (inner (ss_deliver_queue s), q', st1)"
    using queue_drain_all [of "ss_deliver_queue s" "st\<lparr>bs_subs := ss\<rparr>"] by auto
  moreover obtain v st2 where "to_inflight_messages D (ss_out_inflight s, st1) = Some (map snd (entries D (ss_out_inflight s)), v, st2)"
    using drain_entries [OF assms(1), of "ss_out_inflight s" st1] by auto
  ultimately show ?thesis using d by (simp add: to_offline_info_def)
qed

section \<open>Properties\<close>

text \<open>
  C2: When a connection takes over a session it wants to keep, the old session leaves the registry and
  nothing of it is lost: the new session receives first the unacknowledged messages, marked as
  duplicates and last in first out, except those the client has already received and which only lack
  the end of their exchange, and then the queued messages in their order; it has all the subscriptions of
  the old one, and in the router exactly they belong to it.  Nothing is reported as dropped.
\<close>

theorem takeover_complete:
  assumes "tx_laws (cx_send cx) received is_open" and "deque_laws D"
    and "map_of (bk_peers w) (id_client_id (sx_id sx)) = Some (s, old_tx)" and "reply \<noteq> Some Kick_Recv_Error"
    and "distinct (map fst (ss_subscriptions s))" and "\<forall>tf \<in> fst ` set (ss_subscriptions s). \<exists>t. topic_from_str tf = Ok t"
  shows "\<exists>info w1. kick_finish D (sx_id sx) False False reply w = Some (Ok (Off_Exist (Some info)), w1) \<and>
    map_of (bk_peers w1) (id_client_id (sx_id sx)) = None \<and> bk_router w1 = bk_router w \<and>
    (\<forall>v tx. is_open tx \<longrightarrow> (\<exists>tx' subs v'. transfer_session_state cx sx now False info (tx, [], v) = (tx', subs, v') \<and>
       received tx' = received tx @ resends (map snd (entries D (ss_out_inflight s))) @ deliveries (inner (ss_deliver_queue s)) \<and>
       map_of subs = map_of (ss_subscriptions s) \<and> wd_plugins v' = wd_plugins v \<and> bk_peers v' = bk_peers v \<and>
       (\<forall>tf cid. subscription (bk_router v') tf cid =
          (case map_of (ss_subscriptions s) tf of
             Some opts \<Rightarrow> if cid = id_client_id (sx_id sx) then Some (sx_id sx, opts) else subscription (bk_router v) tf cid
           | None \<Rightarrow> subscription (bk_router v) tf cid))))"
proof -
  let ?cid = "id_client_id (sx_id sx)" and ?subs = "ss_subscriptions s"
  let ?info = "\<lparr>off_id = ss_id s, off_subscriptions = ?subs, off_offline_messages = inner (ss_deliver_queue s),
    off_inflight_messages = map snd (entries D (ss_out_inflight s)), off_created_at = ss_created_at s\<rparr>"
  let ?w = "w\<lparr>bk_peers := AList.delete ?cid (bk_peers w)\<rparr>"
  obtain st where "to_offline_info D s (bk_stats w) = Some (?info, st)" using to_offline_info_all [OF assms(2, 5)] by blast
  then have "kick_finish D (sx_id sx) False False reply w = Some (Ok (Off_Exist (Some ?info)), ?w\<lparr>bk_stats := st\<rparr>)"
    using assms(3, 4) by (simp add: kick_finish_def entry_remove_def take_peer_def)
  moreover have "\<exists>tx' subs v'. transfer_session_state cx sx now False ?info (tx, [], v) = (tx', subs, v') \<and>
       received tx' = received tx @ resends (map snd (entries D (ss_out_inflight s))) @ deliveries (inner (ss_deliver_queue s)) \<and>
       map_of subs = map_of ?subs \<and> wd_plugins v' = wd_plugins v \<and> bk_peers v' = bk_peers v \<and> bk_router v' = restore_routes (sx_id sx) ?subs (bk_router v)"
    if o: "is_open tx" for v tx
  proof -
    obtain subs ss where e: "subs_extend ?subs ([], bs_subs (bk_stats v)) = (subs, ss)" by fastforce
    have "map_of subs = map_of ?subs" using subs_extend_map [of ?subs "[]" "bs_subs (bk_stats v)"] map_of_rev [OF assms(5)] e by simp
    moreover define v' where "v' = v\<lparr>bk_router := restore_routes (sx_id sx) ?subs (bk_router v), bk_stats := (bk_stats v)\<lparr>bs_subs := ss\<rparr>\<rparr>"
    obtain tx1 where one: "reforward_all cx sx now (off_inflight_messages ?info) (tx, v') = (tx1, v')" "is_open tx1"
      "received tx1 = received tx @ resends (off_inflight_messages ?info)" using reforward_all_sent [OF assms(1) o] by blast
    obtain tx2 where two: "forward_all cx sx (off_offline_messages ?info) (tx1, v') = (tx2, v')"
      "received tx2 = received tx1 @ deliveries (off_offline_messages ?info)" using forward_all_sent [OF assms(1) one(2)] by blast
    moreover have "transfer_session_state cx sx now False ?info (tx, [], v) = (tx2, subs, v')"
      using e one(1) two(1) by (simp add: transfer_session_state_def v'_def Let_def)
    moreover have "received tx2 = received tx @ resends (map snd (entries D (ss_out_inflight s))) @ deliveries (inner (ss_deliver_queue s))"
      using one(3) two(2) by simp
    ultimately show ?thesis by (auto simp: v'_def)
  qed
  ultimately show ?thesis
    using restore_routes_subscription [OF assms(5, 6), of "sx_id sx"] by (fastforce simp: map_of_delete split: option.split)
qed

text \<open>
  C40: A connection that starts clean ends the session of its client: the session leaves the registry, the
  subscriptions that are its own leave the router, and all others stay; nothing is handed over.
\<close>

theorem takeover_clean:
  assumes "map_of (bk_peers w) (id_client_id i) = Some (s, old_tx)" and "reply \<noteq> Some Kick_Recv_Error"
    and "router_shape (bk_router w)" and "id_client_id (ss_id s) = id_client_id i"
  shows "\<exists>w1. kick_finish D i True True reply w = Some (Ok (Off_Exist None), w1) \<and>
    map_of (bk_peers w1) = (map_of (bk_peers w))(id_client_id i := None) \<and> router_shape (bk_router w1) \<and>
    (\<forall>tf cid. subscription (bk_router w1) tf cid =
       (if cid = id_client_id i \<and> tf \<in> fst ` set (ss_subscriptions s) \<and> (\<exists>opts. subscription (bk_router w) tf cid = Some (ss_id s, opts)) then None
        else subscription (bk_router w) tf cid))"
proof -
  let ?w = "w\<lparr>bk_peers := AList.delete (id_client_id i) (bk_peers w)\<rparr>"
  let ?w1 = "unsubscribe_all (ss_id s) (to_topic_filters (ss_subscriptions s)) ?w"
  have "kick_finish D i True True reply w = Some (Ok (Off_Exist None), ?w1)"
    using assms(1, 2) by (simp add: kick_finish_def entry_remove_def take_peer_def)
  moreover note unsubscribe_all_router [of ?w "ss_id s" "to_topic_filters (ss_subscriptions s)"]
  ultimately show ?thesis using assms(3, 4) by (auto simp: map_of_delete to_topic_filters_def)
qed

text \<open>A session with a subscription, a queued message and one that waits for its acknowledgement, and the connection that takes it over.\<close>

definition kept_session :: "((u16, out_inflight_message) alist) session" where
  "kept_session = sample_session\<lparr>ss_subscriptions := [(''a/+'', subscription_options_mqtt_default)],
     ss_deliver_queue := (queue_new 10)\<lparr>inner := [(from_custom subscriber, sample_publish)]\<rparr>,
     ss_out_inflight := (out_inflight_new alist_deque 16 20000 0)\<lparr>oi_queues := DAList.update 1 waiting_message DAList.empty\<rparr>\<rparr>"

definition kept_world :: "((u16, out_inflight_message) alist, message list \<times> bool, u64, delayed_message list, unit, unit) session_world" where
  "kept_world = sample_world\<lparr>bk_peers := [(''c1'', kept_session, [], True)]\<rparr>"

definition taker :: "unit session_ctx" where
  "taker = sample_publisher\<lparr>sx_id := ident_from 1 ''c1'' 9\<rparr>"

lemma taker_client: "id_client_id (sx_id taker) = ''c1''"
  by (simp add: taker_def ident_from_def ident_new_def)

theorem takeover_complete_witness:
  "\<exists>info w1 tx' subs v'. kick_finish alist_deque (sx_id taker) False False (Some Kick_Done) kept_world = Some (Ok (Off_Exist (Some info)), w1) \<and>
     transfer_session_state (sample_context hook_manager_new) taker 1000 False info (([], True), [], w1) = (tx', subs, v') \<and>
     fst tx' = [M_Forward (oi_from waiting_message) (set_dup (oi_publish waiting_message)), M_Forward (from_custom subscriber) sample_publish] \<and>
     map_of subs ''a/+'' = Some subscription_options_mqtt_default \<and>
     subscription (bk_router v') ''a/+'' ''c1'' = Some (sx_id taker, subscription_options_mqtt_default)"
proof -
  let ?cx = "sample_context hook_manager_new" and ?opts = subscription_options_mqtt_default
  have parse: "topic_from_str ''a/+'' = Ok [Normal ''a'', SingleWildcard]" by code_simp
  have s: "ss_subscriptions kept_session = [(''a/+'', ?opts)]" "inner (ss_deliver_queue kept_session) = [(from_custom subscriber, sample_publish)]"
    "map snd (entries alist_deque (ss_out_inflight kept_session)) = [waiting_message]"
    by (simp_all add: kept_session_def alist_deque_def DAList.update.rep_eq DAList.empty.rep_eq)
  have m: "oi_status waiting_message = UnAck" by (simp add: waiting_message_def out_inflight_message_new_def)
  have at: "map_of (bk_peers kept_world) (id_client_id (sx_id taker)) = Some (kept_session, [], True)" by (simp add: kept_world_def taker_client)
  have cx: "tx_laws (cx_send ?cx) fst snd" by (simp add: sample_context_def list_send_laws)
  have subs: "distinct (map fst (ss_subscriptions kept_session))" "\<forall>tf \<in> fst ` set (ss_subscriptions kept_session). \<exists>t. topic_from_str tf = Ok t"
    by (simp_all add: s parse)
  have reply: "Some Kick_Done \<noteq> Some Kick_Recv_Error" by simp
  from takeover_complete [OF cx alist_deque_laws at reply subs, of 1000, unfolded s] obtain info w1 where
    k: "kick_finish alist_deque (sx_id taker) False False (Some Kick_Done) kept_world = Some (Ok (Off_Exist (Some info)), w1)"
    and "snd ([] :: message list, True) \<longrightarrow> (\<exists>tx' subs v'. transfer_session_state ?cx taker 1000 False info (([], True), [], w1) = (tx', subs, v') \<and>
       fst tx' = fst ([], True) @ resends [waiting_message] @ deliveries [(from_custom subscriber, sample_publish)] \<and>
       map_of subs = map_of [(''a/+'', ?opts)] \<and> wd_plugins v' = wd_plugins w1 \<and> bk_peers v' = bk_peers w1 \<and>
       (\<forall>tf cid. subscription (bk_router v') tf cid =
          (case map_of [(''a/+'', ?opts)] tf of
             Some opts \<Rightarrow> if cid = id_client_id (sx_id taker) then Some (sx_id taker, opts) else subscription (bk_router w1) tf cid
           | None \<Rightarrow> subscription (bk_router w1) tf cid)))"
    by blast
  with m obtain tx' subs v' where
    "transfer_session_state ?cx taker 1000 False info (([], True), [], w1) = (tx', subs, v')"
    "fst tx' = [M_Forward (oi_from waiting_message) (set_dup (oi_publish waiting_message)), M_Forward (from_custom subscriber) sample_publish]"
    "map_of subs ''a/+'' = Some ?opts" "subscription (bk_router v') ''a/+'' ''c1'' = Some (sx_id taker, ?opts)"
    by (auto simp: taker_client)
  with k show ?thesis by blast
qed

theorem takeover_clean_witness:
  "\<exists>w1. kick_finish alist_deque (sx_id taker) True True None kept_world = Some (Ok (Off_Exist None), w1) \<and>
     map_of (bk_peers w1) ''c1'' = None \<and> subscription (bk_router w1) ''a/+'' ''c1'' = None"
proof -
  have parse: "topic_from_str ''a/+'' = Ok [Normal ''a'', SingleWildcard]" by code_simp
  have at: "map_of (bk_peers kept_world) (id_client_id (sx_id taker)) = Some (kept_session, [], True)" by (simp add: kept_world_def taker_client)
  let ?ops = "[R_Add ''a/+'' subscriber subscription_options_mqtt_default]"
  have r: "bk_router kept_world = fold router_step ?ops router_new"
    by (simp add: kept_world_def sample_world_def broker.extend_def sample_broker_def del: fold.simps)
  from router_run [of ?ops] parse have run: "router_shape (bk_router kept_world)"
    "subscription (bk_router kept_world) ''a/+'' ''c1'' = Some (ss_id kept_session, subscription_options_mqtt_default)"
    unfolding r by (simp_all add: kept_session_def sample_session_def subscriber_def ident_from_def ident_new_def del: router_step.simps)
  have same: "id_client_id (ss_id kept_session) = id_client_id (sx_id taker)"
    by (simp add: taker_client kept_session_def sample_session_def subscriber_def ident_from_def ident_new_def)
  have tf: "fst ` set (ss_subscriptions kept_session) = {''a/+''}" by (simp add: kept_session_def)
  from takeover_clean [OF at _ run(1) same, of None alist_deque] run(2) show ?thesis unfolding tf by (auto simp: taker_client)
qed

section \<open>Limits of the code\<close>

text \<open>
  Unacknowledged messages are sent again in reverse order, against the ordering MQTT asks for, and an
  exchange of quality of service 2 whose PUBREL is not yet answered is forgotten.
\<close>

lemma takeover_reverses_unacked: "oi_status m \<noteq> UnComplete \<Longrightarrow> oi_status m' \<noteq> UnComplete \<Longrightarrow>
    resends [m, m'] = [M_Forward (oi_from m') (set_dup (oi_publish m')), M_Forward (oi_from m) (set_dup (oi_publish m))]"
  by simp

lemma takeover_forgets_release: "oi_status m = UnComplete \<Longrightarrow> reforward_all cx sx now [m] s = s"
  by simp

end
