(* ===== verification/Subscribing.thy ===== *)
theory Subscribing
  imports Publishing
begin

text \<open>
  Subscribing and unsubscribing (\<^verbatim>\<open>_subscribe\<close>, \<^verbatim>\<open>subscribe\<close>, \<^verbatim>\<open>unsubscribe\<close> and the handlers of the packets in \<^verbatim>\<open>session.rs\<close>): the
  limits of the listener, the hooks and the access check, the registration with router and registry, and the
  retained messages a new subscription gets.
\<close>

section \<open>Limits\<close>

definition limit_check :: "client_id \<Rightarrow> subscribe \<Rightarrow> router \<Rightarrow> (unit, any_error) res" where
  "limit_check cid sub r =
    (case limit_subs (sub_opts sub) of
       None \<Rightarrow> Ok ()
     | Some limit \<Rightarrow>
         (let (allow, count) = (case map_of (relations r) (sub_topic_filter sub) of
                Some rels \<Rightarrow>
                  if map_of rels cid \<noteq> None then (True, length rels - 1) else (length rels < limit, length rels)
              | None \<Rightarrow> (True, 0))
          in if allow then Ok ()
             else Err (E_Mqtt (ME_SubscribeLimited (text_bytes ''limited: '' @ show_nat limit @ text_bytes '', current count: '' @ show_nat count @
               text_bytes '', topic_filter: '' @ text_bytes (sub_topic_filter sub))))))"

definition level_check :: "nat \<Rightarrow> string \<Rightarrow> (unit, any_error) res" where
  "level_check mx tf =
    (if 0 < mx then
       (case topic_from_str tf of
          Ok t \<Rightarrow> if mx < length t then Err (E_Mqtt ME_TooManyTopicLevels) else Ok ()
        | Err e \<Rightarrow> Err (E_Other (topic_error_text e))
        | Panic \<Rightarrow> Panic)
     else Ok ())"

definition subscribe_check :: "'s session_ctx \<Rightarrow> session_subs \<Rightarrow> subscribe \<Rightarrow> router \<Rightarrow> (unit, any_error) res" where
  "subscribe_check sx subs sub r =
    (let cfg = listen_cfg (sx_fitter sx) in
     if 0 < max_subscriptions cfg \<and> max_subscriptions cfg \<le> subs_len subs then Err (E_Mqtt ME_TooManySubscriptions)
     else bind_res (level_check (max_topic_levels cfg) (sub_topic_filter sub)) (\<lambda>_. limit_check (id_client_id (sx_id sx)) sub r))"

section \<open>A subscription\<close>

definition entry_error_of :: "entry_error \<Rightarrow> any_error" where
  "entry_error_of e = (case e of
     Session_Not_Exist \<Rightarrow> E_Other (text_bytes ''session is not exist'')
   | Entry_Topic e \<Rightarrow> E_Other (topic_error_text e)
   | Kick_Failed \<Rightarrow> E_Other (text_bytes ''recv kick result''))"

text \<open>The request after the hook and the access check, or the refusal of the check, and the plug-ins after both.\<close>

definition check_subscribe :: "('t, 'c, 'hp, 's, 'h) server_context \<Rightarrow> 's session_ctx \<Rightarrow> subscribe \<Rightarrow> 'h \<Rightarrow> (subscribe, subscribe_return) res \<times> 'h" where
  "check_subscribe cx sx sub h =
    (let sub = sub\<lparr>sub_opts := set_qos (less_value (opts_qos (sub_opts sub)) (max_qos_allowed (listen_cfg (sx_fitter sx)))) (sub_opts sub)\<rparr>;
         (changed, h) = hook_client_subscribe (sx_self sx) sub (cx_hooks cx) h;
         sub = (case changed of Some tf \<Rightarrow> sub\<lparr>sub_topic_filter := tf\<rparr> | None \<Rightarrow> sub);
         (acl_result, h) = hook_subscribe_check_acl (sx_superuser sx) (sx_self sx) sub (cx_hooks cx) h
     in
     (case acl_result of
        None \<Rightarrow> (Ok sub, h)
      | Some r \<Rightarrow>
          (case return_granted r of
             Some q \<Rightarrow> (Ok (sub\<lparr>sub_opts := set_qos (less_value (opts_qos (sub_opts sub)) q) (sub_opts sub)\<rparr>), h)
           | None \<Rightarrow> (Err r, h))))"

text \<open>What \<^verbatim>\<open>tokio::spawn\<close> starts after a subscription is a step of its own, below; here only the hook is called.\<close>

definition session_subscribe_inner :: "('t, 'c, 'hp, 's, 'h) server_context \<Rightarrow> 's session_ctx \<Rightarrow> session_subs \<Rightarrow> subscribe \<Rightarrow>
    ('q, 't, 'c, 'hp, 'h, 'z) world_scheme \<Rightarrow> (subscribe_return, any_error) res \<times> ('q, 't, 'c, 'hp, 'h, 'z) world_scheme" where
  "session_subscribe_inner cx sx subs sub w =
    (case subscribe_check sx subs sub (bk_router w) of
       Err e \<Rightarrow> (Err e, w)
     | Panic \<Rightarrow> (Panic, w)
     | Ok _ \<Rightarrow>
         (case check_subscribe cx sx sub (wd_plugins w) of
            (Err r, h) \<Rightarrow> (Ok r, w\<lparr>wd_plugins := h\<rparr>)
          | (Panic, h) \<Rightarrow> (Panic, w\<lparr>wd_plugins := h\<rparr>)
          | (Ok sub, h) \<Rightarrow>
              (case entry_subscribe (sx_id sx) sub (w\<lparr>wd_plugins := h\<rparr>) of
                 (Err e, w) \<Rightarrow> (Err (entry_error_of e), w)
               | (Panic, w) \<Rightarrow> (Panic, w)
               | (Ok ret, w) \<Rightarrow>
                   (Ok ret, if return_granted ret \<noteq> None then plugins_do (hook_session_subscribed (sx_self sx) sub (cx_hooks cx)) w else w))))"

definition count_subscribe_error :: "('q, 't, 'c, 'hp, 'h, 'z) world_scheme \<Rightarrow> ('q, 't, 'c, 'hp, 'h, 'z) world_scheme" where
  "count_subscribe_error w = w\<lparr>wd_metrics := (wd_metrics w)\<lparr>client_subscribe_error := client_subscribe_error (wd_metrics w) + 1\<rparr>\<rparr>"

definition count_subscribe_auth_error :: "('q, 't, 'c, 'hp, 'h, 'z) world_scheme \<Rightarrow> ('q, 't, 'c, 'hp, 'h, 'z) world_scheme" where
  "count_subscribe_auth_error w = w\<lparr>wd_metrics := (wd_metrics w)\<lparr>client_subscribe_auth_error := client_subscribe_auth_error (wd_metrics w) + 1\<rparr>\<rparr>"

definition session_subscribe :: "('t, 'c, 'hp, 's, 'h) server_context \<Rightarrow> 's session_ctx \<Rightarrow> session_subs \<Rightarrow> subscribe \<Rightarrow>
    ('q, 't, 'c, 'hp, 'h, 'z) world_scheme \<Rightarrow> (subscribe_return, any_error) res \<times> ('q, 't, 'c, 'hp, 'h, 'z) world_scheme" where
  "session_subscribe cx sx subs sub w =
    (case session_subscribe_inner cx sx subs sub w of
       (Ok ret, w) \<Rightarrow>
         (Ok ret,
          if ack_reason ret = SAR_NotAuthorized then count_subscribe_auth_error w
          else if return_granted ret \<noteq> None then w
          else count_subscribe_error w)
     | (Err e, w) \<Rightarrow> (Err e, count_subscribe_error w)
     | (Panic, w) \<Rightarrow> (Panic, w))"

section \<open>Retained messages of a subscription\<close>

definition retain_copy :: "int \<Rightarrow> qos \<Rightarrow> string \<times> retain \<Rightarrow> delivery" where
  "retain_copy now q = (\<lambda>(topic, r).
    (rt_from r, (rt_publish r)\<lparr>mp_inner := (mp_inner (rt_publish r))\<lparr>pub_dup := False, pub_retain := True,
       pub_qos := less_value (pub_qos (mp_inner (rt_publish r))) q, pub_topic := text_bytes topic, pub_packet_id := None\<rparr>,
       mp_create_time := Some (word_of_int now)\<rparr>))"

fun send_retain_messages :: "('t, 'c, 'hp, 's, 'h) server_context \<Rightarrow> int \<Rightarrow> ident \<Rightarrow> qos \<Rightarrow> (string \<times> retain) list \<Rightarrow>
    ('q, 't, 'c, 'hp, 'h, 'z) world_scheme \<Rightarrow> ('q, 't, 'c, 'hp, 'h, 'z) world_scheme" where
  "send_retain_messages cx now i q [] w = w"
| "send_retain_messages cx now i q (r # rs) w =
    (case retain_copy now q r of (f, p) \<Rightarrow>
     (case entry_publish (cx_send cx) i f p w of
        (Err (f, p, reason), w) \<Rightarrow> send_retain_messages cx now i q rs (plugins_do (hook_message_dropped (Some i) f p reason (cx_hooks cx)) w)
      | (_, w) \<Rightarrow> send_retain_messages cx now i q rs w))"

definition send_retain_enable :: "retain_handling option \<Rightarrow> bool \<Rightarrow> bool" where
  "send_retain_enable handling prev_opts_is_none =
    (case handling of
       Some AtSubscribe \<Rightarrow> True
     | Some AtSubscribeNew \<Rightarrow> prev_opts_is_none
     | Some NoAtSubscribe \<Rightarrow> False
     | None \<Rightarrow> True)"

text \<open>The task a subscription starts, with the store of messages switched off; an error of the store is logged.\<close>

definition send_subscribe_messages :: "('t, 'c, 'hp, 's, 'h) server_context \<Rightarrow> moment \<Rightarrow> ident \<Rightarrow> string \<Rightarrow> retain_handling option \<Rightarrow> bool \<Rightarrow> qos \<Rightarrow>
    ('q, 't, 'c, 'hp, 'h, 'z) world_scheme \<Rightarrow> ('q, 't, 'c, 'hp, 'h, 'z) world_scheme" where
  "send_subscribe_messages cx m i tf handling prev_opts_is_none q w =
    (if cx_retainer cx \<noteq> None \<and> send_retain_enable handling prev_opts_is_none then
       (case ram_get (mo_tick m) tf (wd_retains w) of
          Ok retains \<Rightarrow> send_retain_messages cx (mo_millis m) i q retains w
        | _ \<Rightarrow> w)
     else w)"

section \<open>Packets\<close>

fun subscribes_v3 :: "('t, 'c, 'hp, 's, 'h) server_context \<Rightarrow> 's session_ctx \<Rightarrow> bool \<Rightarrow> (('q, 't, 'c, 'hp, 'h, 'z) world_scheme \<Rightarrow> session_subs) \<Rightarrow>
    (bytes \<times> qos) list \<Rightarrow> ('q, 't, 'c, 'hp, 'h, 'z) world_scheme \<Rightarrow>
    (subscribe_return_code list, filter_error) res \<times> ('q, 't, 'c, 'hp, 'h, 'z) world_scheme" where
  "subscribes_v3 cx sx shared subs_of [] w = (Ok [], w)"
| "subscribes_v3 cx sx shared subs_of ((tf, q) # tfs) w =
    (case subscribe_from_v3 (bytes_text tf) q shared (limit_subscription (listen_cfg (sx_fitter sx))) of
       Err e \<Rightarrow> (Err e, w)
     | Panic \<Rightarrow> (Panic, w)
     | Ok s \<Rightarrow>
         (case session_subscribe cx sx (subs_of w) s w of
            (Panic, w) \<Rightarrow> (Panic, w)
          | (r, w) \<Rightarrow>
              (let code = (case r of
                     Ok ret \<Rightarrow> (case return_granted ret of Some q \<Rightarrow> Success q | None \<Rightarrow> Failure)
                   | _ \<Rightarrow> Failure);
                   (rs, w) = subscribes_v3 cx sx shared subs_of tfs w
               in (map_res ((#) code) rs, w))))"

fun subscribes_v5_status :: "('t, 'c, 'hp, 's, 'h) server_context \<Rightarrow> 's session_ctx \<Rightarrow> bool \<Rightarrow> (('q, 't, 'c, 'hp, 'h, 'z) world_scheme \<Rightarrow> session_subs) \<Rightarrow>
    u32 option \<Rightarrow> (bytes \<times> subscription_options) list \<Rightarrow> ('q, 't, 'c, 'hp, 'h, 'z) world_scheme \<Rightarrow>
    (subscribe_ack_reason list, filter_error) res \<times> ('q, 't, 'c, 'hp, 'h, 'z) world_scheme" where
  "subscribes_v5_status cx sx shared subs_of sub_id [] w = (Ok [], w)"
| "subscribes_v5_status cx sx shared subs_of sub_id ((tf, opts) # tfs) w =
    (case subscribe_from_v5 (bytes_text tf) opts shared (limit_subscription (listen_cfg (sx_fitter sx))) sub_id of
       Err e \<Rightarrow> (Err e, w)
     | Panic \<Rightarrow> (Panic, w)
     | Ok s \<Rightarrow>
         (case session_subscribe cx sx (subs_of w) s w of
            (Panic, w) \<Rightarrow> (Panic, w)
          | (r, w) \<Rightarrow>
              (let code = (case r of Ok ret \<Rightarrow> ack_reason ret | _ \<Rightarrow> SAR_UnspecifiedError);
                   (rs, w) = subscribes_v5_status cx sx shared subs_of sub_id tfs w
               in (map_res ((#) code) rs, w))))"

definition subscribes_v5 :: "('t, 'c, 'hp, 's, 'h) server_context \<Rightarrow> 's session_ctx \<Rightarrow> bool \<Rightarrow> (('q, 't, 'c, 'hp, 'h, 'z) world_scheme \<Rightarrow> session_subs) \<Rightarrow>
    v5_subscribe \<Rightarrow> ('q, 't, 'c, 'hp, 'h, 'z) world_scheme \<Rightarrow> (v5_subscribe_ack, filter_error) res \<times> ('q, 't, 'c, 'hp, 'h, 'z) world_scheme" where
  "subscribes_v5 cx sx shared subs_of packet w =
    (let (rs, w) = subscribes_v5_status cx sx shared subs_of (sb_id packet) (sb_topic_filters packet) w in
     (map_res (\<lambda>status. \<lparr>sa_packet_id = sb_packet_id packet, sa_properties = [], sa_reason_string = None, sa_status = status\<rparr>) rs, w))"

definition session_unsubscribe :: "('t, 'c, 'hp, 's, 'h) server_context \<Rightarrow> 's session_ctx \<Rightarrow> unsubscribe \<Rightarrow>
    ('q, 't, 'c, 'hp, 'h, 'z) world_scheme \<Rightarrow> (unit, any_error) res \<times> ('q, 't, 'c, 'hp, 'h, 'z) world_scheme" where
  "session_unsubscribe cx sx unsub w =
    (let (changed, h) = hook_client_unsubscribe (sx_self sx) unsub (cx_hooks cx) (wd_plugins w);
         unsub = (case changed of Some tf \<Rightarrow> unsub\<lparr>unsub_topic_filter := tf\<rparr> | None \<Rightarrow> unsub)
     in
     (case entry_unsubscribe (sx_id sx) (unsub_topic_filter unsub) (w\<lparr>wd_plugins := h\<rparr>) of
        (Ok ok, w) \<Rightarrow> (Ok (), if ok then plugins_do (hook_session_unsubscribed (sx_self sx) unsub (cx_hooks cx)) w else w)
      | (Err e, w) \<Rightarrow> (Err (entry_error_of e), w)
      | (Panic, w) \<Rightarrow> (Panic, w)))"

datatype unsubscribes_error = Unsub_Filter filter_error | Unsub_Other any_error

fun unsubscribes_v3 :: "('t, 'c, 'hp, 's, 'h) server_context \<Rightarrow> 's session_ctx \<Rightarrow> bool \<Rightarrow> bytes list \<Rightarrow>
    ('q, 't, 'c, 'hp, 'h, 'z) world_scheme \<Rightarrow> (unit, unsubscribes_error) res \<times> ('q, 't, 'c, 'hp, 'h, 'z) world_scheme" where
  "unsubscribes_v3 cx sx shared [] w = (Ok (), w)"
| "unsubscribes_v3 cx sx shared (tf # tfs) w =
    (case unsubscribe_from (bytes_text tf) shared (limit_subscription (listen_cfg (sx_fitter sx))) of
       Err e \<Rightarrow> (Err (Unsub_Filter e), w)
     | Panic \<Rightarrow> (Panic, w)
     | Ok u \<Rightarrow>
         (case session_unsubscribe cx sx u w of
            (Ok _, w) \<Rightarrow> unsubscribes_v3 cx sx shared tfs w
          | (Err e, w) \<Rightarrow> (Err (Unsub_Other e), w)
          | (Panic, w) \<Rightarrow> (Panic, w)))"

definition unsubscribes_v5 :: "('t, 'c, 'hp, 's, 'h) server_context \<Rightarrow> 's session_ctx \<Rightarrow> bool \<Rightarrow> v5_unsubscribe \<Rightarrow>
    ('q, 't, 'c, 'hp, 'h, 'z) world_scheme \<Rightarrow> (v5_unsubscribe_ack, unsubscribes_error) res \<times> ('q, 't, 'c, 'hp, 'h, 'z) world_scheme" where
  "unsubscribes_v5 cx sx shared packet w =
    (let (r, w) = unsubscribes_v3 cx sx shared (us_topic_filters packet) w in
     (map_res (\<lambda>_. \<lparr>sa_packet_id = us_packet_id packet, sa_properties = [], sa_reason_string = None,
        sa_status = replicate (length (us_topic_filters packet)) UAR_Success\<rparr>) r, w))"


section \<open>What a subscription does\<close>

lemma set_qos_set_qos [simp]: "set_qos a (set_qos b opts) = set_qos a opts"
  by (cases opts) simp_all

lemma opts_qos_set_qos [simp]: "opts_qos (set_qos q opts) = q"
  by (cases opts) simp_all

lemma topic_from_str_no_panic [simp]: "topic_from_str s \<noteq> Panic"
  by (auto simp: topic_from_str_def collect_res_no_panic)

lemma subscribe_check_no_panic [simp]: "subscribe_check sx subs sub r \<noteq> Panic"
  by (auto simp: subscribe_check_def level_check_def limit_check_def Let_def bind_res_def split: res.splits option.splits if_splits prod.splits)

text \<open>The filter a request is for once the plug-ins have seen it.\<close>

definition requested_filter :: "('t, 'c, 'hp, 's, 'h) server_context \<Rightarrow> 's session_ctx \<Rightarrow> subscribe \<Rightarrow> ('q, 't, 'c, 'hp, 'h, 'z) world_scheme \<Rightarrow> string" where
  "requested_filter cx sx sub w =
    (case fst (hook_client_subscribe (sx_self sx)
       (sub\<lparr>sub_opts := set_qos (less_value (opts_qos (sub_opts sub)) (max_qos_allowed (listen_cfg (sx_fitter sx)))) (sub_opts sub)\<rparr>) (cx_hooks cx) (wd_plugins w)) of
       Some tf \<Rightarrow> tf | None \<Rightarrow> sub_topic_filter sub)"

lemma check_subscribe_cases:
  assumes "check_subscribe cx sx sub (wd_plugins w) = (r, h)"
  shows "case r of
     Ok sub' \<Rightarrow> sub_topic_filter sub' = requested_filter cx sx sub w \<and> sub_opts sub' = set_qos (opts_qos (sub_opts sub')) (sub_opts sub) \<and>
       opts_qos (sub_opts sub') \<le> opts_qos (sub_opts sub) \<and> opts_qos (sub_opts sub') \<le> max_qos_allowed (listen_cfg (sx_fitter sx))
   | Err ret \<Rightarrow> return_granted ret = None
   | Panic \<Rightarrow> False"
  using assms
  by (auto simp: check_subscribe_def requested_filter_def less_value_min Let_def min.coboundedI1 split: prod.splits option.splits)

text \<open>The effect of a granted subscription: at this filter, for this client, with the options of the request and the quality of service granted.\<close>

definition subscribed_as :: "ident \<Rightarrow> string \<Rightarrow> subscription_options_mqtt \<Rightarrow> ('q, 't, 'c, 'z) broker_scheme \<Rightarrow> ('q, 't, 'c, 'z) broker_scheme \<Rightarrow> bool" where
  "subscribed_as i tf opts b b' \<longleftrightarrow>
    subscription (bk_router b') = (subscription (bk_router b))(tf := (subscription (bk_router b) tf)(id_client_id i \<mapsto> (i, opts))) \<and>
    (\<forall>s tx. map_of (bk_peers b) (id_client_id i) = Some (s, tx) \<longrightarrow>
       map_of (bk_peers b') = (map_of (bk_peers b))(id_client_id i \<mapsto> (s\<lparr>ss_subscriptions := AList.update tf opts (ss_subscriptions s)\<rparr>, tx)))"

lemma entry_subscribe_Ok:
  assumes "map_of (bk_peers b) (id_client_id i) = Some (s, tx)" and "id_node_id (ss_id s) = bk_node b"
    and "topic_from_str (sub_topic_filter sub) = Ok t"
  shows "\<exists>prev b'. entry_subscribe i sub b = (Ok (return_success (opts_qos (sub_opts sub)) prev), b') \<and>
    subscribed_as i (sub_topic_filter sub) (sub_opts sub) b b'"
proof -
  obtain ok r where add: "router_add (sub_topic_filter sub) i (sub_opts sub) (bk_router b) = (ok, r)" by fastforce
  have ok: "ok = Ok ()" by (rule router_add_fields(1) [OF assms(3) add])
  obtain prev subs st where ps: "subs_add (sub_topic_filter sub) (sub_opts sub) (ss_subscriptions s, bs_subs (bk_stats b)) = (prev, subs, st)"
    by (cases "subs_add (sub_topic_filter sub) (sub_opts sub) (ss_subscriptions s, bs_subs (bk_stats b))")
  then have subs: "subs = AList.update (sub_topic_filter sub) (sub_opts sub) (ss_subscriptions s)" by (auto simp: subs_add_def Let_def)
  show ?thesis
    using router_add_subscription [OF assms(3) add] assms(1)
    by (auto simp: entry_subscribe_def assms(2) add ok with_subs_def ps subs subscribed_as_def update_conv' intro: exI [of _ prev])
qed

lemma entry_subscribe_cases:
  assumes "map_of (bk_peers b) (id_client_id i) = Some (s, tx)" and "id_node_id (ss_id s) = bk_node b"
    and "entry_subscribe i sub b = (res, b')"
  shows "case res of
     Ok ret \<Rightarrow> return_granted ret = Some (opts_qos (sub_opts sub)) \<and> subscribed_as i (sub_topic_filter sub) (sub_opts sub) b b'
   | Err e \<Rightarrow> bk_router b' = bk_router b \<and> bk_peers b' = bk_peers b
   | Panic \<Rightarrow> False"
proof (cases "topic_from_str (sub_topic_filter sub)")
  case (Ok t)
  from entry_subscribe_Ok [OF assms(1, 2) this] assms(3) show ?thesis by auto
qed (use assms in \<open>auto simp: entry_subscribe_def router_add_def\<close>)

text \<open>The quality of service an attempt was granted.\<close>

definition granted_qos :: "(subscribe_return, any_error) res \<Rightarrow> qos option" where
  "granted_qos res = (case res of Ok ret \<Rightarrow> return_granted ret | _ \<Rightarrow> None)"

lemma session_subscribe_inner_cases:
  assumes "map_of (bk_peers w) (id_client_id (sx_id sx)) = Some (s, tx)" and "id_node_id (ss_id s) = bk_node w"
    and "session_subscribe_inner cx sx subs sub w = (res, w')"
  shows "res \<noteq> Panic \<and>
    (case granted_qos res of
       Some q \<Rightarrow> q \<le> opts_qos (sub_opts sub) \<and> q \<le> max_qos_allowed (listen_cfg (sx_fitter sx)) \<and>
         subscribe_check sx subs sub (bk_router w) = Ok () \<and>
         subscribed_as (sx_id sx) (requested_filter cx sx sub w) (set_qos q (sub_opts sub)) w w'
     | None \<Rightarrow> bk_router w' = bk_router w \<and> bk_peers w' = bk_peers w)"
proof (cases "subscribe_check sx subs sub (bk_router w)")
  case (Ok u)
  obtain r h where c: "check_subscribe cx sx sub (wd_plugins w) = (r, h)" by fastforce
  note cs = check_subscribe_cases [OF c]
  show ?thesis
  proof (cases r)
    case (Ok sub')
    obtain e w1 where e: "entry_subscribe (sx_id sx) sub' (w\<lparr>wd_plugins := h\<rparr>) = (e, w1)" by fastforce
    have "map_of (bk_peers (w\<lparr>wd_plugins := h\<rparr>)) (id_client_id (sx_id sx)) = Some (s, tx)" "id_node_id (ss_id s) = bk_node (w\<lparr>wd_plugins := h\<rparr>)"
      using assms(1, 2) by simp_all
    from entry_subscribe_cases [OF this e] have es: "case e of
       Ok ret \<Rightarrow> return_granted ret = Some (opts_qos (sub_opts sub')) \<and> subscribed_as (sx_id sx) (sub_topic_filter sub') (sub_opts sub') w w1
     | Err e \<Rightarrow> bk_router w1 = bk_router w \<and> bk_peers w1 = bk_peers w
     | Panic \<Rightarrow> False" by (cases e) (simp_all add: subscribed_as_def)
    show ?thesis
      using assms(3) cs es \<open>subscribe_check sx subs sub (bk_router w) = Ok u\<close> Ok
      by (cases e) (auto simp: session_subscribe_inner_def c e granted_qos_def subscribed_as_def split: if_splits)
  next
    case (Err ret)
    then show ?thesis
      using assms(3) cs Ok by (auto simp: session_subscribe_inner_def c granted_qos_def)
  qed (use cs in simp)
qed (use assms(3) in \<open>auto simp: session_subscribe_inner_def granted_qos_def\<close>)

text \<open>A SUBACK or UNSUBACK has one code for each filter of the request, and its packet identifier.\<close>

lemma subscribes_v3_length: "subscribes_v3 cx sx shared subs_of tfs w = (Ok codes, w') \<Longrightarrow> length codes = length tfs"
proof (induction tfs arbitrary: w codes w')
  case (Cons f tfs)
  then show ?case by (cases f) (auto simp: Let_def split: res.splits prod.splits)
qed simp

lemma subscribes_v5_status_length: "subscribes_v5_status cx sx shared subs_of sid tfs w = (Ok codes, w') \<Longrightarrow> length codes = length tfs"
proof (induction tfs arbitrary: w codes w')
  case (Cons f tfs)
  then show ?case by (cases f) (auto simp: Let_def split: res.splits prod.splits)
qed simp

lemma subscribes_v5_ack:
  assumes "subscribes_v5 cx sx shared subs_of packet w = (Ok ack, w')"
  shows "sa_packet_id ack = sb_packet_id packet \<and> length (sa_status ack) = length (sb_topic_filters packet)"
  using assms by (auto simp: subscribes_v5_def Let_def dest: subscribes_v5_status_length split: prod.splits)

text \<open>With its channel open, the session gets every retained message that was found, in this order, as a copy of its own.\<close>

lemma send_retain_messages_received:
  assumes "tx_laws (cx_send cx) received is_open"
    and "map_of (bk_peers w) (id_client_id i) = Some (s, tx)" and "is_open tx"
  shows "\<exists>tx'. map_of (bk_peers (send_retain_messages cx now i q rs w)) (id_client_id i) = Some (s, tx') \<and> is_open tx' \<and>
    received tx' = received tx @ map (\<lambda>r. case retain_copy now q r of (f, p) \<Rightarrow> M_Forward f p) rs"
  using assms(2, 3)
proof (induction rs arbitrary: w tx)
  case (Cons r rs)
  obtain f p where r: "retain_copy now q r = (f, p)" by fastforce
  obtain tx1 where tx1: "cx_send cx (M_Forward f p) tx = Some tx1" using tx_lawsD(1) [OF assms(1)] Cons.prems(2) by blast
  note got = tx_lawsD(2, 3) [OF assms(1) tx1]
  let ?w = "w\<lparr>bk_peers := AList.update (id_client_id i) (s, tx1) (bk_peers w)\<rparr>"
  have "send_retain_messages cx now i q (r # rs) w = send_retain_messages cx now i q rs ?w"
    using Cons.prems tx1 by (simp add: r entry_publish_def)
  moreover have "map_of (bk_peers ?w) (id_client_id i) = Some (s, tx1)" by (simp add: update_conv')
  ultimately show ?case using Cons.IH [of ?w tx1] got r by auto
qed auto

text \<open>
  C39: Retained messages at subscription time: when the subscription asks for them (by its retain handling and
  by whether it is new), a session of open channel gets at the end of its channel one copy of each
  retained message the store finds for the filter, in the order of the store; each copy has the
  retain flag set, no duplicate flag and no packet identifier, the topic it is stored under, its payload and a
  quality of service that is at most the granted one and the stored one.  When the subscription does not
  ask for them, or retaining is switched off, nothing changes.
\<close>

theorem retained_on_subscribe:
  assumes "tx_laws (cx_send cx) received is_open"
    and "map_of (bk_peers w) (id_client_id i) = Some (s, tx)" and "is_open tx"
    and "ram_get (mo_tick m) tf (wd_retains w) = Ok found"
  shows "let w' = send_subscribe_messages cx m i tf handling is_new q w in
    if cx_retainer cx \<noteq> None \<and> (handling = None \<or> handling = Some AtSubscribe \<or> handling = Some AtSubscribeNew \<and> is_new)
    then \<exists>tx' copies. map_of (bk_peers w') (id_client_id i) = Some (s, tx') \<and>
      received tx' = received tx @ map (\<lambda>(f, p). M_Forward f p) copies \<and>
      list_all2 (\<lambda>(topic, r) (f, p). f = rt_from r \<and> pub_retain (mp_inner p) \<and> \<not> pub_dup (mp_inner p) \<and> pub_packet_id (mp_inner p) = None \<and>
        pub_topic (mp_inner p) = text_bytes topic \<and> pub_payload (mp_inner p) = pub_payload (mp_inner (rt_publish r)) \<and>
        pub_qos (mp_inner p) = min (pub_qos (mp_inner (rt_publish r))) q) found copies
    else w' = w"
proof -
  have enable: "send_retain_enable handling is_new \<longleftrightarrow> handling = None \<or> handling = Some AtSubscribe \<or> handling = Some AtSubscribeNew \<and> is_new"
    by (auto simp: send_retain_enable_def split: option.splits retain_handling.splits)
  obtain tx' where "map_of (bk_peers (send_retain_messages cx (mo_millis m) i q found w)) (id_client_id i) = Some (s, tx')"
    "received tx' = received tx @ map (\<lambda>r. case retain_copy (mo_millis m) q r of (f, p) \<Rightarrow> M_Forward f p) found"
    using send_retain_messages_received [OF assms(1-3)] by blast
  then show ?thesis
    by (auto simp: send_subscribe_messages_def enable Let_def assms(4) list_all2_map2 retain_copy_def less_value_min
        intro!: exI [of _ "map (retain_copy (mo_millis m) q) found"] list_all2_refl)
qed

definition one_retained :: retain_storage where
  "one_retained = \<lparr>messages = RNode None [(Normal ''a'', RNode (Some (TimedValue sample_retain (Some 15))) [])],
     retaineds = \<lparr>current = 1, maximum = 1, merge_mode = SMM_None\<rparr>\<rparr>"

theorem retained_on_subscribe_witness:
  "\<exists>tx'. map_of (bk_peers (send_subscribe_messages (sample_context hook_manager_new) \<lparr>mo_millis = 0, mo_tick = 5\<rparr> subscriber ''+'' None True AtLeastOnce
     (sample_world\<lparr>wd_retains := one_retained\<rparr>))) ''c1'' = Some (sample_session, tx') \<and> length (fst tx') = 1"
proof -
  let ?cx = "sample_context hook_manager_new" and ?w = "sample_world\<lparr>wd_retains := one_retained\<rparr>" and ?m = "\<lparr>mo_millis = 0, mo_tick = 5\<rparr>"
  have cx: "tx_laws (cx_send ?cx) fst snd" "cx_retainer ?cx \<noteq> None" by (simp_all add: sample_context_def list_send_laws)
  have me: "id_client_id subscriber = ''c1''" by (simp add: subscriber_def ident_from_def ident_new_def)
  have w: "map_of (bk_peers ?w) (id_client_id subscriber) = Some (sample_session, [], True)"
    by (simp add: me sample_world_def broker.extend_def sample_broker_def del: fold.simps)
  have "ram_get 5 ''+'' one_retained = Ok [(''a'', sample_retain)]" by code_simp
  then have found: "ram_get (mo_tick ?m) ''+'' (wd_retains ?w) = Ok [(''a'', sample_retain)]" by simp
  from retained_on_subscribe [OF cx(1) w _ found, of None True AtLeastOnce] cx(2) show ?thesis
    by (auto simp: me Let_def dest: list_all2_lengthD)
qed

text \<open>
  C5: What a subscribe request does, on every path through limits, hooks, access check, router and registry.
  For a session of this node that is in the table, the attempt never panics.  When it is granted, the limits
  of the listener held, the quality of service granted is at most the one requested and at most the one the
  listener allows, and exactly one subscription has been made: at the filter the plug-ins left, for this
  client, with the requested options and the granted quality of service, in the router and in the session
  alike.  When it is not granted, whether refused or failed, router and registry are as they were.
\<close>

theorem subscribe_exact:
  assumes "map_of (bk_peers w) (id_client_id (sx_id sx)) = Some (s, tx)" and "id_node_id (ss_id s) = bk_node w"
    and "session_subscribe cx sx subs sub w = (res, w')"
  shows "res \<noteq> Panic \<and>
    (case granted_qos res of
       Some q \<Rightarrow> q \<le> opts_qos (sub_opts sub) \<and> q \<le> max_qos_allowed (listen_cfg (sx_fitter sx)) \<and>
         subscribe_check sx subs sub (bk_router w) = Ok () \<and>
         subscribed_as (sx_id sx) (requested_filter cx sx sub w) (set_qos q (sub_opts sub)) w w'
     | None \<Rightarrow> bk_router w' = bk_router w \<and> bk_peers w' = bk_peers w)"
proof -
  obtain r w1 where r: "session_subscribe_inner cx sx subs sub w = (r, w1)" by fastforce
  have same: "res = r" "bk_router w' = bk_router w1" "bk_peers w' = bk_peers w1"
    using assms(3)
    by (auto simp: session_subscribe_def r count_subscribe_error_def count_subscribe_auth_error_def split: res.splits if_splits)
  then show ?thesis
    using session_subscribe_inner_cases [OF assms(1, 2) r] by (auto simp: subscribed_as_def split: option.splits)
qed

definition sample_subscriber :: "unit session_ctx" where
  "sample_subscriber = \<lparr>sx_self = (), sx_id = subscriber, sx_superuser = False, sx_fitter = fitter_new (acl_client ''c1'') subscriber sample_limits\<rparr>"

definition sample_request :: subscribe where
  "sample_request = \<lparr>sub_topic_filter = ''x/#'', sub_opts = set_qos ExactlyOnce subscription_options_mqtt_default\<rparr>"

theorem subscribe_exact_witness:
  "let (res, w') = session_subscribe (sample_context hook_manager_new) sample_subscriber [] sample_request sample_world
   in granted_qos res = Some ExactlyOnce \<and> subscription (bk_router w') ''x/#'' ''c1'' \<noteq> None"
proof -
  let ?cx = "sample_context hook_manager_new"
  obtain res w' where run: "session_subscribe ?cx sample_subscriber [] sample_request sample_world = (res, w')" by fastforce
  have w: "bk_node sample_world = 1" "map_of (bk_peers sample_world) ''c1'' = Some (sample_session, [], True)"
    by (simp_all add: sample_world_def broker.extend_def sample_broker_def del: fold.simps)
  have me: "sx_id sample_subscriber = subscriber" "id_client_id subscriber = ''c1''" "id_node_id (ss_id sample_session) = 1"
    by (simp_all add: sample_subscriber_def subscriber_def sample_session_def ident_from_def ident_new_def)
  have check: "check_subscribe ?cx sample_subscriber sample_request h = (Ok sample_request, h)" for h
    by (simp add: check_subscribe_def sample_context_def hook_manager_new_def hook_client_subscribe_def hook_subscribe_check_acl_def hook_exec_def
        sample_subscriber_def fitter_new_def sample_limits_def sample_request_def less_value_def)
  have limits: "subscribe_check sample_subscriber [] sample_request r = Ok ()" for r
    by (simp add: subscribe_check_def level_check_def limit_check_def bind_res_def sample_subscriber_def fitter_new_def sample_limits_def
        sample_request_def subscription_options_mqtt_default_def)
  let ?w = "sample_world\<lparr>wd_plugins := ()\<rparr>"
  have "topic_from_str ''x/#'' = Ok [Normal ''x'', MultiWildcard]" by code_simp
  with w me have "map_of (bk_peers ?w) (id_client_id subscriber) = Some (sample_session, [], True)" "id_node_id (ss_id sample_session) = bk_node ?w"
    "topic_from_str (sub_topic_filter sample_request) = Ok [Normal ''x'', MultiWildcard]"
    by (simp_all add: sample_request_def)
  from entry_subscribe_Ok [OF this] obtain prev b' where "entry_subscribe subscriber sample_request ?w = (Ok (return_success ExactlyOnce prev), b')"
    by (auto simp: sample_request_def)
  then have "granted_qos res = Some ExactlyOnce"
    using run
    by (auto simp: session_subscribe_def session_subscribe_inner_def check limits me(1) granted_qos_def split: if_splits)
  moreover have "requested_filter ?cx sample_subscriber sample_request sample_world = ''x/#''"
    by (simp add: requested_filter_def sample_context_def hook_manager_new_def hook_client_subscribe_def hook_exec_def sample_request_def)
  ultimately show ?thesis
    using subscribe_exact [of sample_world sample_subscriber sample_session "([], True)", OF _ _ run] run w me
    by (auto simp: subscribed_as_def)
qed

end
