(* ===== verification/Online.thy ===== *)
theory Online
  imports Takeover Subscribing
begin

text \<open>
  A session while its client is connected (\<^verbatim>\<open>run_loop\<close>, \<^verbatim>\<open>process_message\<close>, \<^verbatim>\<open>process_mqtt_message\<close> and \<^verbatim>\<open>deliver\<close> of
  \<^verbatim>\<open>session.rs\<close>): the branches of the event loop as steps on what the session owns and the broker around it.
  The statistics are shared by the queue, the window and the registry, and the registry has a copy of the
  handles of the session; the definitions of the first section say how.
\<close>

section \<open>The state\<close>

text \<open>What does not change: the context, the operations of the stream and of the signal channel, and the texts of errors.\<close>

record ('q, 't, 'c, 'hp, 's, 'h, 'k, 'g) online_env =
  oe_cx :: "('t, 'c, 'hp, 's, 'h) server_context"
  oe_sx :: "'s session_ctx"
  oe_deque :: "'q messages"
  oe_try_send :: "'g \<Rightarrow> bool \<times> 'g"
  oe_poll :: "'g \<Rightarrow> unit option poll \<times> 'g"
  oe_sink :: sink_kind
  oe_put :: "packet \<Rightarrow> 'k \<Rightarrow> any_error option \<times> 'k"
  oe_shared :: bool
  oe_filter_text :: "filter_error \<Rightarrow> bytes"
  oe_unsub_text :: "unsubscribes_error \<Rightarrow> bytes"
  oe_packet_text :: "packet \<Rightarrow> bytes"
  oe_closed_text :: bytes

record ('q, 't, 'c, 'hp, 'h, 'k, 'g) online =
  on_world :: "('q, 't, 'c, 'hp, 'h, 'k) session_world"
  on_life :: "('q, 'g) life"
  on_inbound :: inbound
  on_aliases :: "server_topic_aliases option"
  on_tx :: 't
  on_subs :: session_subs

abbreviation world_do :: "(('q, 't, 'c, 'hp, 'h, 'k) session_world \<Rightarrow> ('q, 't, 'c, 'hp, 'h, 'k) session_world) \<Rightarrow>
    ('q, 't, 'c, 'hp, 'h, 'k, 'g) online \<Rightarrow> ('q, 't, 'c, 'hp, 'h, 'k, 'g) online" where
  "world_do f s \<equiv> s\<lparr>on_world := f (on_world s)\<rparr>"

definition put_packet :: "('q, 't, 'c, 'hp, 's, 'h, 'k, 'g) online_env \<Rightarrow> packet \<Rightarrow> ('q, 't, 'c, 'hp, 'h, 'k, 'g) online \<Rightarrow>
    any_error option \<times> ('q, 't, 'c, 'hp, 'h, 'k, 'g) online" where
  "put_packet E pk s = (let (e, k) = oe_put E pk (sw_sink (on_world s)) in (e, world_do (\<lambda>w. w\<lparr>sw_sink := k\<rparr>) s))"

definition with_window :: "(('q, broker_stats) out_inflight \<times> broker_stats \<Rightarrow> 'r \<times> ('q, broker_stats) out_inflight \<times> broker_stats) \<Rightarrow>
    ('q, 't, 'c, 'hp, 'h, 'k, 'g) online \<Rightarrow> 'r \<times> ('q, 't, 'c, 'hp, 'h, 'k, 'g) online" where
  "with_window f s =
    (let (r, win, st) = f (lf_window (on_life s), bk_stats (on_world s)) in
     (r, s\<lparr>on_life := (on_life s)\<lparr>lf_window := win\<rparr>, on_world := (on_world s)\<lparr>bk_stats := st\<rparr>\<rparr>))"

definition with_chan :: "((delivery, broker_stats, 'g) chan \<Rightarrow> 'r \<times> (delivery, broker_stats, 'g) chan) \<Rightarrow>
    ('q, 't, 'c, 'hp, 'h, 'k, 'g) online \<Rightarrow> 'r \<times> ('q, 't, 'c, 'hp, 'h, 'k, 'g) online" where
  "with_chan f s =
    (let (r, c) = f ((lf_chan (on_life s))\<lparr>hooks := bk_stats (on_world s)\<rparr>) in
     (r, s\<lparr>on_life := (on_life s)\<lparr>lf_chan := c\<rparr>, on_world := (on_world s)\<lparr>bk_stats := hooks c\<rparr>\<rparr>))"

text \<open>The handles of the session are those of the table as long as its entry is there.\<close>

definition load_own :: "'s session_ctx \<Rightarrow> ('q, 't, 'c, 'hp, 'h, 'k, 'g) online \<Rightarrow> 't \<times> session_subs" where
  "load_own sx s =
    (case map_of (bk_peers (on_world s)) (id_client_id (sx_id sx)) of
       Some (ss, tx) \<Rightarrow> if ss_id ss = sx_id sx then (tx, ss_subscriptions ss) else (on_tx s, on_subs s)
     | None \<Rightarrow> (on_tx s, on_subs s))"

definition store_own :: "'s session_ctx \<Rightarrow> 't \<times> session_subs \<Rightarrow> ('q, 't, 'c, 'hp, 'h, 'k, 'g) online \<Rightarrow> ('q, 't, 'c, 'hp, 'h, 'k, 'g) online" where
  "store_own sx = (\<lambda>(tx, subs) s.
    let s = s\<lparr>on_tx := tx, on_subs := subs\<rparr> in
    case map_of (bk_peers (on_world s)) (id_client_id (sx_id sx)) of
      Some (ss, _) \<Rightarrow>
        if ss_id ss = sx_id sx
        then world_do (\<lambda>w. w\<lparr>bk_peers := AList.update (id_client_id (sx_id sx)) (ss\<lparr>ss_subscriptions := subs\<rparr>, tx) (bk_peers w)\<rparr>) s
        else s
    | None \<Rightarrow> s)"

section \<open>Sending a message\<close>

definition sink_publish :: "('q, 't, 'c, 'hp, 's, 'h, 'k, 'g) online_env \<Rightarrow> mpublish \<Rightarrow> u32 option \<Rightarrow> ('q, 't, 'c, 'hp, 'h, 'k, 'g) online \<Rightarrow>
    (unit, any_error) res \<times> ('q, 't, 'c, 'hp, 'h, 'k, 'g) online" where
  "sink_publish E p expiry s =
    (let sent = (\<lambda>(e, s). (case e of None \<Rightarrow> Ok () | Some e \<Rightarrow> Err e, s)) in
     case oe_sink E of
       Sink_V3 \<Rightarrow> sent (put_packet E (P_V3 (V3_Publish (mp_inner p))) s)
     | Sink_V5 \<Rightarrow>
         (case sink_publish_v5 expiry (mp_inner p) (on_aliases s) of
            Ok (pk, al) \<Rightarrow> sent (put_packet E (P_V5 (V5_Publish pk)) (s\<lparr>on_aliases := al\<rparr>))
          | _ \<Rightarrow> (Panic, s)))"

definition expiry_check_of :: "('q, 't, 'c, 'hp, 's, 'h, 'k, 'g) online_env \<Rightarrow> int \<Rightarrow> msg_from \<Rightarrow> mpublish \<Rightarrow> 'h \<Rightarrow> expiry_check \<times> 'h" where
  "expiry_check_of E now f p h =
    hook_message_expiry_check now (int (message_expiry_interval (listen_cfg (sx_fitter (oe_sx E))) div 10 ^ 6)) (sx_self (oe_sx E)) f p
      (cx_hooks (oe_cx E)) h"

definition deliver :: "('q, 't, 'c, 'hp, 's, 'h, 'k, 'g) online_env \<Rightarrow> int \<Rightarrow> msg_from \<Rightarrow> mpublish \<Rightarrow> ('q, 't, 'c, 'hp, 'h, 'k, 'g) online \<Rightarrow>
    (unit, any_error) res \<times> ('q, 't, 'c, 'hp, 'h, 'k, 'g) online" where
  "deliver E now f p s =
    (let D = oe_deque E; hk = cx_hooks (oe_cx E); sx = oe_sx E;
         (check, h) = expiry_check_of E now f p (wd_plugins (on_world s));
         s = world_do (\<lambda>w. w\<lparr>wd_plugins := h\<rparr>) s
     in
     if is_expiry check then (Ok (), world_do (plugins_do (hook_message_dropped (Some (sx_id sx)) f p R_MessageExpiration hk)) s)
     else
       (case with_window (\<lambda>(win, st). let (r, win) = assign_packet_id D p win in (r, win, st)) s of
          (Err e, s) \<Rightarrow> (Err e, s)
        | (Panic, s) \<Rightarrow> (Panic, s)
        | (Ok p, s) \<Rightarrow>
            (let (changed, h) = hook_message_delivered (sx_self sx) f p hk (wd_plugins (on_world s));
                 p = (case changed of Some p \<Rightarrow> p | None \<Rightarrow> p);
                 s = world_do (\<lambda>w. w\<lparr>wd_plugins := h\<rparr>) s
             in
             (case sink_publish E p (remaining_interval check) s of
                (Ok _, s) \<Rightarrow> (Ok (), snd (with_window (\<lambda>ws. ((), cache_inflight D now f p ws)) s))
              | (e, s) \<Rightarrow> (e, s)))))"

section \<open>Messages of other tasks\<close>

definition of_error :: "(unit, any_error) res \<Rightarrow> (unit, reason) res" where
  "of_error r = (case r of Ok _ \<Rightarrow> Ok () | Err e \<Rightarrow> Err (reason_of_error e) | Panic \<Rightarrow> Panic)"

definition reforward_own :: "('q, 't, 'c, 'hp, 's, 'h, 'k, 'g) online_env \<Rightarrow> int \<Rightarrow> out_inflight_message \<Rightarrow> ('q, 't, 'c, 'hp, 'h, 'k, 'g) online \<Rightarrow>
    (unit, reason) res \<times> ('q, 't, 'c, 'hp, 'h, 'k, 'g) online" where
  "reforward_own E now m s =
    (let (tx, subs) = load_own (oe_sx E) s; (r, tx, w) = reforward (oe_cx E) (oe_sx E) now m (tx, on_world s) in
     (case r of Ok _ \<Rightarrow> Ok () | Err _ \<Rightarrow> Err (R_Error (oe_closed_text E)) | Panic \<Rightarrow> Panic,
      store_own (oe_sx E) (tx, subs) (s\<lparr>on_world := w\<rparr>)))"

definition rerelease :: "('q, 't, 'c, 'hp, 's, 'h, 'k, 'g) online_env \<Rightarrow> int \<Rightarrow> out_inflight_message \<Rightarrow> ('q, 't, 'c, 'hp, 'h, 'k, 'g) online \<Rightarrow>
    (unit, reason) res \<times> ('q, 't, 'c, 'hp, 'h, 'k, 'g) online" where
  "rerelease E now m s =
    (case with_window (send_rerelease (oe_deque E) now m) s of
       (Err r, s) \<Rightarrow> (Err r, s)
     | (Panic, s) \<Rightarrow> (Panic, s)
     | (Ok (packet_id, reason_code), s) \<Rightarrow>
         (let (e, s) = put_packet E (case oe_sink E of
                Sink_V3 \<Rightarrow> P_V3 (V3_PublishRelease packet_id)
              | Sink_V5 \<Rightarrow> P_V5 (V5_PublishRelease ((ack2_default packet_id)\<lparr>ack_reason_code := reason_code\<rparr>))) s
          in (Inbound.sent e, s)))"

fun subscribe_all :: "('q, 't, 'c, 'hp, 's, 'h, 'k, 'g) online_env \<Rightarrow> subscribe list \<Rightarrow> ('q, 't, 'c, 'hp, 'h, 'k, 'g) online \<Rightarrow>
    (subscribe_return, any_error) res list \<times> ('q, 't, 'c, 'hp, 'h, 'k, 'g) online" where
  "subscribe_all E [] s = ([], s)"
| "subscribe_all E (sub # subs) s =
    (let (r, w) = session_subscribe (oe_cx E) (oe_sx E) (snd (load_own (oe_sx E) s)) sub (on_world s);
         (rs, s) = subscribe_all E subs (s\<lparr>on_world := w\<rparr>)
     in (r # rs, s))"

text \<open>
  \<^verbatim>\<open>waits\<close> says that the one who asks still waits for the answer; the answers themselves, and errors of a
  request from elsewhere, are not results of the session.
\<close>

definition panics :: "('a, 'e) res list \<Rightarrow> bool" where
  "panics rs \<longleftrightarrow> Panic \<in> set rs"

definition process_message :: "('q, 't, 'c, 'hp, 's, 'h, 'k, 'g) online_env \<Rightarrow> int \<Rightarrow> message \<Rightarrow> bool \<Rightarrow> ('q, 't, 'c, 'hp, 'h, 'k, 'g) online \<Rightarrow>
    (unit, reason) res \<times> ('q, 't, 'c, 'hp, 'h, 'k, 'g) online" where
  "process_message E now msg waits s =
    (let cx = oe_cx E; sx = oe_sx E in
     case msg of
       M_Forward f p \<Rightarrow>
         (case with_chan (send (oe_try_send E) deliver_policy (f, p)) s of
            (Err (f, p), s) \<Rightarrow> (Ok (), world_do (plugins_do (hook_message_dropped (Some (sx_id sx)) f p R_MessageQueueFull (cx_hooks cx))) s)
          | (_, s) \<Rightarrow> (Ok (), s))
     | M_SendRerelease m \<Rightarrow> rerelease E now m s
     | M_Kick _ clean_start is_admin \<Rightarrow>
         (if waits then
            (Err (R_ConnectKicked is_admin), s\<lparr>on_life := (on_life s)\<lparr>lf_flags := flags_kick clean_start is_admin (lf_flags (on_life s))\<rparr>\<rparr>)
          else (Ok (), s))
     | M_Subscribe sub \<Rightarrow> (let (rs, s) = subscribe_all E [sub] s in (if panics rs then Panic else Ok (), s))
     | M_Subscribes subs \<Rightarrow> (let (rs, s) = subscribe_all E subs s in (if panics rs then Panic else Ok (), s))
     | M_Unsubscribe u \<Rightarrow>
         (let (r, w) = session_unsubscribe cx sx u (on_world s) in (if panics [r] then Panic else Ok (), s\<lparr>on_world := w\<rparr>))
     | M_SessionStateTransfer info clear \<Rightarrow>
         (let (tx, subs) = load_own sx s; (tx, subs, w) = transfer_session_state cx sx now clear info (tx, subs, on_world s) in
          (Ok (), store_own sx (tx, subs) (s\<lparr>on_world := w\<rparr>)))
     | M_Closed r \<Rightarrow> (Err r, s))"

section \<open>Packets of the client\<close>

definition publish_from :: "publish \<Rightarrow> mpublish" where
  "publish_from p = \<lparr>mp_inner = p, mp_target_clientid = None, mp_delay_interval = None, mp_create_time = None\<rparr>"

definition with_inbound :: "('q, 't, 'c, 'hp, 's, 'h, 'k, 'g) online_env \<Rightarrow> moment \<Rightarrow>
    (('q, 't, 'c, 'hp, 'h, 'k) session_world session_env \<Rightarrow> inbound \<times> ('q, 't, 'c, 'hp, 'h, 'k) session_world \<Rightarrow>
      (unit, reason) res \<times> inbound \<times> ('q, 't, 'c, 'hp, 'h, 'k) session_world) \<Rightarrow>
    ('q, 't, 'c, 'hp, 'h, 'k, 'g) online \<Rightarrow> (unit, reason) res \<times> ('q, 't, 'c, 'hp, 'h, 'k, 'g) online" where
  "with_inbound E m f s =
    (let (r, ib, w) = f (session_env_of (oe_cx E) (oe_sx E) m (oe_sink E) (oe_put E)) (on_inbound s, on_world s) in
     (r, s\<lparr>on_inbound := ib, on_world := w\<rparr>))"

text \<open>\<^verbatim>\<open>v3_mut\<close> and \<^verbatim>\<open>v5_mut\<close> panic on a sink of the other version.\<close>

definition reply_v3 :: "('q, 't, 'c, 'hp, 's, 'h, 'k, 'g) online_env \<Rightarrow> v3_packet \<Rightarrow> ('q, 't, 'c, 'hp, 'h, 'k, 'g) online \<Rightarrow>
    (unit, reason) res \<times> ('q, 't, 'c, 'hp, 'h, 'k, 'g) online" where
  "reply_v3 E pk s = (case oe_sink E of Sink_V3 \<Rightarrow> (let (e, s) = put_packet E (P_V3 pk) s in (Inbound.sent e, s)) | Sink_V5 \<Rightarrow> (Panic, s))"

definition reply_v5 :: "('q, 't, 'c, 'hp, 's, 'h, 'k, 'g) online_env \<Rightarrow> v5_packet \<Rightarrow> ('q, 't, 'c, 'hp, 'h, 'k, 'g) online \<Rightarrow>
    (unit, reason) res \<times> ('q, 't, 'c, 'hp, 'h, 'k, 'g) online" where
  "reply_v5 E pk s = (case oe_sink E of Sink_V5 \<Rightarrow> (let (e, s) = put_packet E (P_V5 pk) s in (Inbound.sent e, s)) | Sink_V3 \<Rightarrow> (Panic, s))"

definition acknowledged :: "('q, 't, 'c, 'hp, 's, 'h, 'k, 'g) online_env \<Rightarrow> u16 \<Rightarrow> ('q, 't, 'c, 'hp, 'h, 'k, 'g) online \<Rightarrow>
    (unit, reason) res \<times> ('q, 't, 'c, 'hp, 'h, 'k, 'g) online" where
  "acknowledged E packet_id s =
    (case with_window (out_remove (oe_deque E) packet_id) s of
       (Some m, s) \<Rightarrow> (Ok (), world_do (plugins_do (hook_message_acked (sx_self (oe_sx E)) (oi_from m) (oi_publish m) (cx_hooks (oe_cx E)))) s)
     | (None, s) \<Rightarrow> (Ok (), s))"

definition received_by_client :: "('q, 't, 'c, 'hp, 's, 'h, 'k, 'g) online_env \<Rightarrow> int \<Rightarrow> u16 \<Rightarrow> ('q, 't, 'c, 'hp, 'h, 'k, 'g) online \<Rightarrow>
    ('q, 't, 'c, 'hp, 'h, 'k, 'g) online" where
  "received_by_client E now packet_id s =
    snd (with_window (\<lambda>(win, st). ((), out_update_status (oe_deque E) now packet_id UnComplete win, st)) s)"

definition set_flags :: "(state_flags \<Rightarrow> state_flags) \<Rightarrow> ('q, 't, 'c, 'hp, 'h, 'k, 'g) online \<Rightarrow> ('q, 't, 'c, 'hp, 'h, 'k, 'g) online" where
  "set_flags f s = s\<lparr>on_life := (on_life s)\<lparr>lf_flags := f (lf_flags (on_life s))\<rparr>\<rparr>"

definition disconnect_received :: "int \<Rightarrow> disconnect \<Rightarrow> ('q, 't, 'c, 'hp, 'h, 'k, 'g) online \<Rightarrow> ('q, 't, 'c, 'hp, 'h, 'k, 'g) online" where
  "disconnect_received now d s =
    (let s = set_flags (\<lambda>fl. fl\<lparr>fl_disconnect_received := True\<rparr>) s in
     s\<lparr>on_life := (on_life s)\<lparr>lf_info := disconnected_set now (Some d) None (lf_info (on_life s))\<rparr>\<rparr>)"

text \<open>A step after which the loop goes on only if the first one succeeds.\<close>

definition then_do :: "(unit, reason) res \<times> 's \<Rightarrow> ('s \<Rightarrow> 's) \<Rightarrow> (unit, reason) res \<times> 's" where
  "then_do = (\<lambda>(r, s) f. (r, case r of Ok _ \<Rightarrow> f s | _ \<Rightarrow> s))"

definition subscribe_reply :: "('q, 't, 'c, 'hp, 's, 'h, 'k, 'g) online_env \<Rightarrow> (bytes \<Rightarrow> reason) \<Rightarrow> ('e \<Rightarrow> bytes) \<Rightarrow>
    ('a \<Rightarrow> ('q, 't, 'c, 'hp, 'h, 'k, 'g) online \<Rightarrow> (unit, reason) res \<times> ('q, 't, 'c, 'hp, 'h, 'k, 'g) online) \<Rightarrow>
    ('a, 'e) res \<times> ('q, 't, 'c, 'hp, 'h, 'k) session_world \<Rightarrow> ('q, 't, 'c, 'hp, 'h, 'k, 'g) online \<Rightarrow>
    (unit, reason) res \<times> ('q, 't, 'c, 'hp, 'h, 'k, 'g) online" where
  "subscribe_reply E failed text reply = (\<lambda>(r, w) s.
    let s = s\<lparr>on_world := w\<rparr> in
    case r of Ok a \<Rightarrow> reply a s | Err e \<Rightarrow> (Err (failed (text e)), s) | Panic \<Rightarrow> (Panic, s))"

text \<open>The table of subscriptions of the session in a state of the broker.\<close>

definition subs_in :: "'s session_ctx \<Rightarrow> ('q, 't, 'c, 'hp, 'h, 'k, 'g) online \<Rightarrow> ('q, 't, 'c, 'hp, 'h, 'k) session_world \<Rightarrow> session_subs" where
  "subs_in sx s w = snd (load_own sx (s\<lparr>on_world := w\<rparr>))"

fun handle_v3 :: "('q, 't, 'c, 'hp, 's, 'h, 'k, 'g) online_env \<Rightarrow> moment \<Rightarrow> v3_packet \<Rightarrow> ('q, 't, 'c, 'hp, 'h, 'k, 'g) online \<Rightarrow>
    (unit, reason) res \<times> ('q, 't, 'c, 'hp, 'h, 'k, 'g) online" where
  "handle_v3 E m (V3_Publish p) s =
    with_inbound E m (\<lambda>ev. process_publish ev ((publish_from p)\<lparr>mp_create_time := Some (word_of_int (mo_millis m))\<rparr>)) s"
| "handle_v3 E m (V3_PublishRelease packet_id) s = with_inbound E m (\<lambda>ev. process_release ev packet_id) s"
| "handle_v3 E m (V3_PublishAck packet_id) s = acknowledged E packet_id s"
| "handle_v3 E m (V3_PublishReceived packet_id) s =
    reply_v3 E (V3_PublishRelease packet_id) (received_by_client E (mo_millis m) packet_id s)"
| "handle_v3 E m (V3_PublishComplete packet_id) s = acknowledged E packet_id s"
| "handle_v3 E m (V3_Subscribe packet_id topic_filters) s =
    subscribe_reply E (\<lambda>t. R_SubscribeFailed (Some t)) (oe_filter_text E) (\<lambda>status. reply_v3 E (V3_SubscribeAck packet_id status))
      (subscribes_v3 (oe_cx E) (oe_sx E) (oe_shared E) (subs_in (oe_sx E) s) topic_filters (on_world s)) s"
| "handle_v3 E m (V3_Unsubscribe packet_id topic_filters) s =
    subscribe_reply E (\<lambda>t. R_UnsubscribeFailed (Some t)) (oe_unsub_text E) (\<lambda>_. reply_v3 E (V3_UnsubscribeAck packet_id))
      (unsubscribes_v3 (oe_cx E) (oe_sx E) (oe_shared E) topic_filters (on_world s)) s"
| "handle_v3 E m V3_PingRequest s = then_do (reply_v3 E V3_PingResponse s) (set_flags (\<lambda>fl. fl\<lparr>fl_ping := True\<rparr>))"
| "handle_v3 E m V3_Disconnect s = (Ok (), disconnect_received (mo_millis m) D_V3 s)"
| "handle_v3 E m pk s = (Err (R_Error (text_bytes ''Received an unimplemented message, '' @ oe_packet_text E (P_V3 pk))), s)"

fun handle_v5 :: "('q, 't, 'c, 'hp, 's, 'h, 'k, 'g) online_env \<Rightarrow> moment \<Rightarrow> v5_packet \<Rightarrow> ('q, 't, 'c, 'hp, 'h, 'k, 'g) online \<Rightarrow>
    (unit, reason) res \<times> ('q, 't, 'c, 'hp, 'h, 'k, 'g) online" where
  "handle_v5 E m (V5_Publish p) s =
    with_inbound E m (\<lambda>ev. process_publish ev ((publish_from p)\<lparr>mp_create_time := Some (word_of_int (mo_millis m))\<rparr>)) s"
| "handle_v5 E m (V5_PublishRelease ack2) s = with_inbound E m (\<lambda>ev. process_release ev (ack_packet_id ack2)) s"
| "handle_v5 E m (V5_PublishAck ack) s = acknowledged E (ack_packet_id ack) s"
| "handle_v5 E m (V5_PublishReceived ack) s =
    reply_v5 E (V5_PublishRelease ((ack2_default (ack_packet_id ack))\<lparr>ack_reason_code := PA2R_SendOnward\<rparr>))
      (received_by_client E (mo_millis m) (ack_packet_id ack) s)"
| "handle_v5 E m (V5_PublishComplete ack2) s = acknowledged E (ack_packet_id ack2) s"
| "handle_v5 E m (V5_Subscribe subs) s =
    subscribe_reply E (\<lambda>t. R_SubscribeFailed (Some t)) (oe_filter_text E) (\<lambda>ack. reply_v5 E (V5_SubscribeAck ack))
      (subscribes_v5 (oe_cx E) (oe_sx E) (oe_shared E) (subs_in (oe_sx E) s) subs (on_world s)) s"
| "handle_v5 E m (V5_Unsubscribe unsubs) s =
    subscribe_reply E (\<lambda>t. R_UnsubscribeFailed (Some t)) (oe_unsub_text E) (\<lambda>ack. reply_v5 E (V5_UnsubscribeAck ack))
      (unsubscribes_v5 (oe_cx E) (oe_sx E) (oe_shared E) unsubs (on_world s)) s"
| "handle_v5 E m V5_PingRequest s = then_do (reply_v5 E V5_PingResponse s) (set_flags (\<lambda>fl. fl\<lparr>fl_ping := True\<rparr>))"
| "handle_v5 E m (V5_Disconnect d) s = (Ok (), disconnect_received (mo_millis m) (D_V5 d) s)"
| "handle_v5 E m (V5_Auth _) s = reply_v5 E (V5_Auth auth_default) s"
| "handle_v5 E m pk s = (Err (R_Error (text_bytes ''Received an unimplemented message, '' @ oe_packet_text E (P_V5 pk))), s)"

text \<open>The end of \<^verbatim>\<open>process_mqtt_message\<close>, which a DISCONNECT packet does not reach.\<close>

definition keepalive_end :: "('q, 't, 'c, 'hp, 's, 'h, 'k, 'g) online_env \<Rightarrow> ('q, 't, 'c, 'hp, 'h, 'k, 'g) online \<Rightarrow> ('q, 't, 'c, 'hp, 'h, 'k, 'g) online" where
  "keepalive_end E s =
    (let is_ping = fl_ping (lf_flags (on_life s));
         s = world_do (plugins_do (hook_client_keepalive (sx_self (oe_sx E)) is_ping (cx_hooks (oe_cx E)))) s
     in if is_ping then set_flags (\<lambda>fl. fl\<lparr>fl_ping := False\<rparr>) s else s)"

definition is_disconnect :: "packet \<Rightarrow> bool" where
  "is_disconnect pk = (case pk of P_V3 V3_Disconnect \<Rightarrow> True | P_V5 (V5_Disconnect _) \<Rightarrow> True | _ \<Rightarrow> False)"

definition process_mqtt_message :: "('q, 't, 'c, 'hp, 's, 'h, 'k, 'g) online_env \<Rightarrow> moment \<Rightarrow> packet \<Rightarrow> ('q, 't, 'c, 'hp, 'h, 'k, 'g) online \<Rightarrow>
    (unit, reason) res \<times> ('q, 't, 'c, 'hp, 'h, 'k, 'g) online" where
  "process_mqtt_message E m pk s =
    (let r = (case pk of P_V3 pk \<Rightarrow> handle_v3 E m pk s | P_V5 pk \<Rightarrow> handle_v5 E m pk s) in
     if is_disconnect pk then r else then_do r (keepalive_end E))"

section \<open>The event loop\<close>

text \<open>The messages of the window that are due again; there are at most as many as the window has.\<close>

fun retry_loop :: "('q, 't, 'c, 'hp, 's, 'h, 'k, 'g) online_env \<Rightarrow> int \<Rightarrow> nat \<Rightarrow> ('q, 't, 'c, 'hp, 'h, 'k, 'g) online \<Rightarrow>
    (unit, reason) res \<times> ('q, 't, 'c, 'hp, 'h, 'k, 'g) online" where
  "retry_loop E now 0 s = (Ok (), s)"
| "retry_loop E now (Suc n) s =
    (case with_window (pop_front_timeout (oe_deque E) now) s of
       (None, s) \<Rightarrow> (Ok (), s)
     | (Some m, s) \<Rightarrow> (case reforward_own E now m s of (Ok _, s) \<Rightarrow> retry_loop E now n s | (e, s) \<Rightarrow> (e, s)))"

datatype online_event =
    OE_KeepAliveTimeout
  | OE_RetryTimer
  | OE_DeliverQueue
  | OE_Rx message bool
  | OE_RxEnd
  | OE_Packet packet
  | OE_RecvError any_error
  | OE_RemoteClose

fun online_step :: "('q, 't, 'c, 'hp, 's, 'h, 'k, 'g) online_env \<Rightarrow> moment \<Rightarrow> online_event \<Rightarrow> ('q, 't, 'c, 'hp, 'h, 'k, 'g) online \<Rightarrow>
    (unit, reason) res \<times> ('q, 't, 'c, 'hp, 'h, 'k, 'g) online" where
  "online_step E m OE_KeepAliveTimeout s = (Err R_ConnectKeepaliveTimeout, s)"
| "online_step E m OE_RetryTimer s = retry_loop E (mo_millis m) (out_len (oe_deque E) (lf_window (on_life s))) s"
| "online_step E m OE_DeliverQueue s =
    (if has_credit (oe_deque E) (lf_window (on_life s)) then
       (case with_chan (poll_next (oe_poll E)) s of
          (Pending, s) \<Rightarrow> (Ok (), s)
        | (Ready (Some (Some (f, p))), s) \<Rightarrow> (let (r, s) = deliver E (mo_millis m) f p s in (of_error r, s))
        | (Ready (Some None), s) \<Rightarrow> (Ok (), s)
        | (Ready None, s) \<Rightarrow> (Err (R_Error (text_bytes ''Message delivery queue is closed'')), s))
     else (Ok (), s))"
| "online_step E m (OE_Rx msg waits) s = process_message E (mo_millis m) msg waits s"
| "online_step E m OE_RxEnd s = (Err (R_Error (text_bytes ''No message received from the Rx'')), s)"
| "online_step E m (OE_Packet pk) s = process_mqtt_message E m pk s"
| "online_step E m (OE_RecvError e) s = (Err (reason_of_error e), s)"
| "online_step E m OE_RemoteClose s = (Err R_ConnectRemoteClose, s)"

text \<open>The loop ends with the first error; it never returns without one.\<close>

fun run_loop :: "('q, 't, 'c, 'hp, 's, 'h, 'k, 'g) online_env \<Rightarrow> (moment \<times> online_event) list \<Rightarrow> ('q, 't, 'c, 'hp, 'h, 'k, 'g) online \<Rightarrow>
    (unit, reason) res \<times> ('q, 't, 'c, 'hp, 'h, 'k, 'g) online" where
  "run_loop E [] s = (Ok (), s)"
| "run_loop E ((m, e) # es) s = (case online_step E m e s of (Ok _, s) \<Rightarrow> run_loop E es s | (r, s) \<Rightarrow> (r, s))"

definition keep_alive_interval :: "u16 \<Rightarrow> nat" where
  "keep_alive_interval ka = (if ka = 0 then from_secs (- 1) else from_secs (ucast ka))"

section \<open>The window\<close>

abbreviation win :: "('q, 't, 'c, 'hp, 'h, 'k, 'g, 'z) online_scheme \<Rightarrow> ('q, broker_stats) out_inflight" where
  "win s \<equiv> lf_window (on_life s)"

lemma with_window_result: "f (win s, bk_stats (on_world s)) = (r, v, st) \<Longrightarrow> fst (with_window f s) = r \<and> win (snd (with_window f s)) = v"
  by (simp add: with_window_def)

lemma win_put [simp]: "win (snd (put_packet E pk s)) = win s"
  by (simp add: put_packet_def split: prod.split)

lemma win_chan [simp]: "win (snd (with_chan f s)) = win s"
  by (simp add: with_chan_def split: prod.split)

lemma win_store [simp]: "win (store_own sx h s) = win s"
  by (simp add: store_own_def Let_def split: prod.split option.split)

lemma win_inbound [simp]: "win (snd (with_inbound E m f s)) = win s"
  by (simp add: with_inbound_def split: prod.split)

lemma win_flags [simp]: "win (set_flags f s) = win s" "win (disconnect_received now d s) = win s" "win (keepalive_end E s) = win s"
  by (simp_all add: set_flags_def disconnect_received_def keepalive_end_def Let_def)

lemma win_reply [simp]: "win (snd (reply_v3 E k3 s)) = win s" "win (snd (reply_v5 E k5 s)) = win s"
  by (simp_all add: reply_v3_def reply_v5_def case_prod_unfold Let_def split: sink_kind.split)

lemma win_then [simp]: "(\<And>s. win (f s) = win s) \<Longrightarrow> win (snd (then_do rs f)) = win (snd rs)"
  by (cases rs) (simp add: then_do_def split: res.split)

lemma win_subscribe_reply [simp]: "(\<And>a s. win (snd (reply a s)) = win s) \<Longrightarrow> win (snd (subscribe_reply E failed text reply rw s)) = win s"
  by (cases rw) (simp add: subscribe_reply_def Let_def split: res.split)

lemma win_subscribe_all [simp]: "win (snd (subscribe_all E subs s)) = win s"
  by (induction E subs s rule: subscribe_all.induct) (auto simp: Let_def split: prod.split)

lemma win_reforward [simp]: "win (snd (reforward_own E now m s)) = win s"
  by (simp add: reforward_own_def Let_def split: prod.split)

lemma win_sink_publish [simp]: "win (snd (sink_publish E p expiry s)) = win s"
  using win_put [of E "P_V3 (V3_Publish (mp_inner p))" s]
  by (auto simp: sink_publish_def Let_def case_prod_unfold split: sink_kind.split res.split)

lemma win_received:
  "win (received_by_client E now k s) = out_update_status (oe_deque E) now k UnComplete (win s)"
  by (simp add: received_by_client_def with_window_def)

section \<open>Messages stay until they are acknowledged\<close>

definition same_message :: "out_inflight_message \<Rightarrow> out_inflight_message \<Rightarrow> bool" where
  "same_message x y \<longleftrightarrow> oi_from x = oi_from y \<and> oi_publish x = oi_publish y"

definition holds :: "'q messages \<Rightarrow> ('q, broker_stats) out_inflight \<Rightarrow> u16 \<Rightarrow> out_inflight_message \<Rightarrow> bool" where
  "holds D v k x \<longleftrightarrow> (\<exists>y. map_of (entries D v) k = Some y \<and> same_message x y)"

text \<open>The client acknowledges the message with this identifier.\<close>

fun acknowledges :: "online_event \<Rightarrow> u16 \<Rightarrow> bool" where
  "acknowledges (OE_Packet (P_V3 (V3_PublishAck k'))) k = (k' = k)"
| "acknowledges (OE_Packet (P_V3 (V3_PublishComplete k'))) k = (k' = k)"
| "acknowledges (OE_Packet (P_V5 (V5_PublishAck ack))) k = (ack_packet_id ack = k)"
| "acknowledges (OE_Packet (P_V5 (V5_PublishComplete ack))) k = (ack_packet_id ack = k)"
| "acknowledges _ _ = False"

text \<open>A message that is sent again brings its identifier with it.\<close>

definition brings_id :: "mpublish \<Rightarrow> u16 \<Rightarrow> bool" where
  "brings_id p k \<longleftrightarrow> pub_dup (mp_inner p) \<and> mp_packet_id p = Some k"

fun reuses :: "online_event \<Rightarrow> ('q, 't, 'c, 'hp, 'h, 'k, 'g) online \<Rightarrow> u16 \<Rightarrow> bool" where
  "reuses OE_DeliverQueue s k = (case items (lf_chan (on_life s)) of (_, p) # _ \<Rightarrow> brings_id p k | [] \<Rightarrow> False)"
| "reuses (OE_Rx (M_SendRerelease m) _) s k = (mp_packet_id (oi_publish m) = Some k)"
| "reuses _ s k = False"

text \<open>No plug-in replaces a message that is delivered.\<close>

definition keeps_delivered :: "('q, 't, 'c, 'hp, 's, 'h, 'k, 'g) online_env \<Rightarrow> bool" where
  "keeps_delivered E \<longleftrightarrow> (\<forall>f p h. fst (hook_message_delivered (sx_self (oe_sx E)) f p (cx_hooks (oe_cx E)) h) = None)"

lemma holds_same: "map_of (entries D v) k = Some x \<Longrightarrow> holds D v k x"
  by (simp add: holds_def same_message_def)

lemma push_back_holds:
  assumes "deque_laws D" and "map_of (entries D v) k = Some x" and "mp_packet_id (oi_publish y) \<noteq> Some k"
  shows "map_of (entries D (fst (snd (push_back D y (v, st))))) k = Some x"
proof (cases "mp_packet_id (oi_publish y)")
  case None
  then show ?thesis using assms(2) by (simp add: push_back_def)
next
  case (Some j)
  from push_back_entries [OF assms(1) Some, of v st] assms(2, 3) Some show ?thesis by auto
qed

lemma cache_holds:
  assumes "deque_laws D" and "map_of (entries D v) k = Some x" and "pub_qos (mp_inner p) \<noteq> AtMostOnce \<Longrightarrow> mp_packet_id p \<noteq> Some k"
  shows "map_of (entries D (fst (cache_inflight D now f p (v, st)))) k = Some x"
  using push_back_holds [OF assms(1, 2), of "out_inflight_message_new now UnAck f p" st]
    push_back_holds [OF assms(1, 2), of "out_inflight_message_new now UnReceived f p" st] assms(2, 3)
  by (cases "pub_qos (mp_inner p)") (simp_all add: cache_inflight_def out_inflight_message_new_def)

text \<open>What \<^verbatim>\<open>deliver\<close> makes of the identifier.\<close>

lemma assign_result:
  assumes "deque_laws D" and "length (entries D v) < 65534" and "assign_packet_id D p v = (r, v')"
  shows "\<exists>q. r = Ok q \<and> entries D v' = entries D v \<and>
    (q = p \<and> (pub_qos (mp_inner p) \<noteq> AtMostOnce \<longrightarrow> (\<exists>k. brings_id p k)) \<or>
     (\<exists>k. q = p\<lparr>mp_inner := (mp_inner p)\<lparr>pub_packet_id := Some k\<rparr>\<rparr> \<and> k \<noteq> 0 \<and> map_of (entries D v) k = None \<and> pub_qos (mp_inner p) \<noteq> AtMostOnce))"
proof -
  obtain k where k: "next_id D v = (Ok k, v\<lparr>oi_next := k + 1\<rparr>)" "k \<noteq> 0" "map_of (entries D v) k = None"
    by (rule next_id_cases [OF assms(1, 2)])
  show ?thesis
    by (cases "pub_qos (mp_inner p) \<noteq> AtMostOnce \<and> (\<not> pub_dup (mp_inner p) \<or> mp_packet_id p = None)")
      (use assms(3) k in \<open>auto simp: assign_packet_id_def brings_id_def\<close>)
qed

lemma deliver_window:
  assumes "deque_laws (oe_deque E)" and "keeps_delivered E" and "length (entries (oe_deque E) (win s)) < 65534" and "deliver E now f p s = (r, s')"
  obtains "entries (oe_deque E) (win s') = entries (oe_deque E) (win s)"
    "r = Ok () \<longrightarrow> is_expiry (fst (expiry_check_of E now f p (wd_plugins (on_world s))))"
  | q v st s1 s2 where "assign_packet_id (oe_deque E) p (win s) = (Ok q, v)" "entries (oe_deque E) v = entries (oe_deque E) (win s)" "r = Ok ()"
    "sink_publish E q (remaining_interval (fst (expiry_check_of E now f p (wd_plugins (on_world s))))) s1 = (Ok (), s2)"
    "sw_sink (on_world s1) = sw_sink (on_world s)" "on_aliases s1 = on_aliases s"
    "win s' = fst (cache_inflight (oe_deque E) now f q (v, st))" "sw_sink (on_world s') = sw_sink (on_world s2)" "on_aliases s' = on_aliases s2"
proof -
  let ?D = "oe_deque E"
  obtain check h where check: "expiry_check_of E now f p (wd_plugins (on_world s)) = (check, h)" by fastforce
  let ?s0 = "world_do (\<lambda>w. w\<lparr>wd_plugins := h\<rparr>) s"
  show thesis
  proof (cases "is_expiry check")
    case True
    with assms(4) check that(1) show thesis by (auto simp: deliver_def Let_def)
  next
    case False
    obtain r0 v where a: "assign_packet_id ?D p (win s) = (r0, v)" by fastforce
    from assign_result [OF assms(1, 3) a] obtain q where q: "r0 = Ok q" "entries ?D v = entries ?D (win s)" by blast
    define s1a where "s1a = ?s0\<lparr>on_life := (on_life s)\<lparr>lf_window := v\<rparr>\<rparr>"
    obtain h' where h': "hook_message_delivered (sx_self (oe_sx E)) f q (cx_hooks (oe_cx E)) (wd_plugins (on_world s1a)) = (None, h')"
      using assms(2) unfolding keeps_delivered_def by (metis prod.collapse)
    define s1 where "s1 = world_do (\<lambda>w. w\<lparr>wd_plugins := h'\<rparr>) s1a"
    obtain r1 s2 where pub: "sink_publish E q (remaining_interval check) s1 = (r1, s2)" by fastforce
    have run: "deliver E now f p s = (case r1 of Ok _ \<Rightarrow> (Ok (), snd (with_window (\<lambda>ws. ((), cache_inflight ?D now f q ws)) s2)) | e \<Rightarrow> (e, s2))"
      using False check a q(1) h' pub by (simp add: deliver_def with_window_def Let_def s1a_def s1_def split: res.split)
    have w2: "win s2 = v" using win_sink_publish [of E q "remaining_interval check" s1] unfolding pub by (simp add: s1_def s1a_def)
    have same: "sw_sink (on_world s1) = sw_sink (on_world s)" "on_aliases s1 = on_aliases s" by (simp_all add: s1_def s1a_def)
    show thesis
    proof (cases r1)
      case (Ok u)
      have fin: "s' = snd (with_window (\<lambda>ws. ((), cache_inflight ?D now f q ws)) s2)" "r = Ok ()" using run Ok assms(4) by auto
      show thesis
        by (rule that(2) [OF a [unfolded q(1)] q(2) fin(2) _ same(1, 2), where st = "bk_stats (on_world s2)"])
          (use pub Ok check w2 in \<open>auto simp: fin(1) with_window_def case_prod_unfold\<close>)
    qed (use run assms(4) that(1) w2 q(2) in auto)
  qed
qed

lemma deliver_keeps:
  assumes "deque_laws (oe_deque E)" and "keeps_delivered E" and "length (entries (oe_deque E) (win s)) < 65534" and "deliver E now f p s = (r, s')"
    and "map_of (entries (oe_deque E) (win s)) k = Some x" and "\<not> brings_id p k"
  shows "map_of (entries (oe_deque E) (win s')) k = Some x"
  using assms(1-4)
proof (cases rule: deliver_window)
  case 1
  with assms(5) show ?thesis by simp
next
  case (2 q v st s1 s2)
  from assign_result [OF assms(1, 3) 2(1)] have "q = p \<and> (pub_qos (mp_inner p) \<noteq> AtMostOnce \<longrightarrow> (\<exists>k. brings_id p k)) \<or>
     (\<exists>k. q = p\<lparr>mp_inner := (mp_inner p)\<lparr>pub_packet_id := Some k\<rparr>\<rparr> \<and> k \<noteq> 0 \<and> map_of (entries (oe_deque E) (win s)) k = None \<and> pub_qos (mp_inner p) \<noteq> AtMostOnce)"
    by simp
  then have "pub_qos (mp_inner q) \<noteq> AtMostOnce \<Longrightarrow> mp_packet_id q \<noteq> Some k"
    using assms(5, 6) unfolding brings_id_def by auto
  with cache_holds [OF assms(1), of v k x q] 2 assms(5) show ?thesis by simp
qed

lemma acknowledged_keeps:
  assumes "deque_laws (oe_deque E)" and "map_of (entries (oe_deque E) (win s)) k = Some x" and "j \<noteq> k"
  shows "map_of (entries (oe_deque E) (win (snd (acknowledged E j s)))) k = Some x"
proof -
  from out_remove_entries [OF assms(1), of j "win s" "bk_stats (on_world s)"] obtain v st where
    "out_remove (oe_deque E) j (win s, bk_stats (on_world s)) = (map_of (entries (oe_deque E) (win s)) j, v, st)"
    "entries (oe_deque E) v = filter (\<lambda>(k', m). k' \<noteq> j) (entries (oe_deque E) (win s))" by blast
  with assms(2, 3) show ?thesis by (auto simp: acknowledged_def with_window_def map_of_filter_key split: option.split)
qed

lemma received_keeps:
  assumes "deque_laws (oe_deque E)" and "map_of (entries (oe_deque E) (win s)) k = Some x"
  shows "holds (oe_deque E) (win (received_by_client E now j s)) k x"
  using assms(2) by (auto simp: win_received holds_def same_message_def out_update_status_def deque_lawsD(9) [OF assms(1)] map_of_modify_key message_update_status_def)

lemma rerelease_keeps:
  assumes "deque_laws (oe_deque E)" and "map_of (entries (oe_deque E) (win s)) k = Some x" and "mp_packet_id (oi_publish m) \<noteq> Some k"
  shows "map_of (entries (oe_deque E) (win (snd (rerelease E now m s)))) k = Some x"
  using push_back_holds [OF assms(1, 2), of "out_inflight_message_new now UnComplete (oi_from m) (oi_publish m)" "bk_stats (on_world s)"] assms(2, 3)
  by (auto simp: rerelease_def with_window_def send_rerelease_def out_inflight_message_new_def case_prod_unfold Let_def split: res.split)

lemma packet_keeps:
  assumes "deque_laws (oe_deque E)" and "map_of (entries (oe_deque E) (win s)) k = Some x" and "\<not> acknowledges (OE_Packet pk) k"
  shows "holds (oe_deque E) (win (snd (process_mqtt_message E m pk s))) k x"
proof -
  note ok = holds_same [OF assms(2)] holds_same [OF acknowledged_keeps [OF assms(1, 2)]] received_keeps [OF assms(1, 2)]
  have "holds (oe_deque E) (win (snd (handle_v3 E m p3 s))) k x" if "pk = P_V3 p3" for p3
    using assms(3) that by (cases p3) (auto intro: ok)
  moreover have "holds (oe_deque E) (win (snd (handle_v5 E m p5 s))) k x" if "pk = P_V5 p5" for p5
    using assms(3) that by (cases p5) (auto intro: ok)
  ultimately show ?thesis by (cases pk) (auto simp: process_mqtt_message_def Let_def)
qed

lemma message_keeps:
  assumes "deque_laws (oe_deque E)" and "map_of (entries (oe_deque E) (win s)) k = Some x" and "\<not> reuses (OE_Rx msg waits) s k"
  shows "map_of (entries (oe_deque E) (win (snd (process_message E now msg waits s)))) k = Some x"
proof (cases msg)
  case (M_Forward f p)
  then show ?thesis
    using assms(2) win_chan [of "send (oe_try_send E) deliver_policy (f, p)" s]
    by (auto simp: process_message_def Let_def simp del: win_chan split: prod.split res.split)
next
  case (M_Subscribe sub)
  then show ?thesis using assms(2) win_subscribe_all [of E "[sub]" s]
    by (auto simp: process_message_def Let_def simp del: win_subscribe_all subscribe_all.simps split: prod.split)
next
  case (M_Subscribes subs)
  then show ?thesis using assms(2) win_subscribe_all [of E subs s]
    by (auto simp: process_message_def Let_def simp del: win_subscribe_all split: prod.split)
next
  case (M_SendRerelease m)
  with assms rerelease_keeps [OF assms(1, 2), of m now] show ?thesis by (simp add: process_message_def)
qed (use assms(2) in \<open>auto simp: process_message_def Let_def split: prod.split\<close>)

lemma poll_head:
  "with_chan (poll_next po) s = (Ready (Some (Some d)), s') \<Longrightarrow> \<exists>ds. items (lf_chan (on_life s)) = d # ds"
  by (auto simp: with_chan_def poll_next_def sender_pop_eq Let_def split: prod.splits poll.splits option.splits list.splits)

section \<open>Sending again\<close>

text \<open>What a message of the window that is due becomes on the channel of its own session.\<close>

definition resent :: "out_inflight_message \<Rightarrow> message" where
  "resent x = (if oi_status x = UnComplete then M_SendRerelease x else M_Forward (oi_from x) (set_dup (oi_publish x)))"

definition due :: "int \<Rightarrow> ('q, broker_stats) out_inflight \<Rightarrow> u16 \<times> out_inflight_message \<Rightarrow> bool" where
  "due now v = (\<lambda>(k, x). oi_interval v \<noteq> 0 \<and> message_timeout now (oi_interval v) x)"

text \<open>Whatever the plug-ins have seen, the message is not reported as expired.\<close>

definition unexpired :: "('q, 't, 'c, 'hp, 's, 'h, 'k, 'g) online_env \<Rightarrow> int \<Rightarrow> out_inflight_message \<Rightarrow> bool" where
  "unexpired E now x \<longleftrightarrow> (\<forall>h. \<not> is_expiry (fst (expiry_check_of E now (oi_from x) (oi_publish x) h)))"

lemma load_store [simp]: "load_own sx (store_own sx (tx, subs) s) = (tx, subs)"
  by (auto simp: load_own_def store_own_def Let_def update_conv' split: option.split)

lemma load_own_window [simp]: "load_own sx (s\<lparr>on_life := lf\<rparr>) = load_own sx s"
  by (simp add: load_own_def split: option.split)

lemma load_with_window [simp]: "load_own sx (snd (with_window f s)) = load_own sx s"
  by (simp add: load_own_def with_window_def split: prod.split option.split)

lemma reforward_own_sent:
  assumes "tx_laws (cx_send (oe_cx E)) received is_open" and "is_open (fst (load_own (oe_sx E) s))" and "unexpired E now x"
  shows "\<exists>s'. reforward_own E now x s = (Ok (), s') \<and> win s' = win s \<and> is_open (fst (load_own (oe_sx E) s')) \<and>
    received (fst (load_own (oe_sx E) s')) = received (fst (load_own (oe_sx E) s)) @ [resent x]"
proof -
  obtain tx subs where own: "load_own (oe_sx E) s = (tx, subs)" by fastforce
  have "\<exists>tx' w'. reforward (oe_cx E) (oe_sx E) now x (tx, on_world s) = (Ok (), tx', w') \<and> is_open tx' \<and> received tx' = received tx @ [resent x]"
  proof (cases "oi_status x = UnComplete")
    case False
    with reforward_sent [OF assms(1) _ False, of tx "oe_sx E" now "on_world s"] assms(2) own show ?thesis by (auto simp: resent_def)
  next
    case True
    obtain check h where c: "expiry_check_of E now (oi_from x) (oi_publish x) (wd_plugins (on_world s)) = (check, h)" by fastforce
    have "\<not> is_expiry check" using assms(3) c unfolding unexpired_def by (metis fst_conv)
    moreover obtain tx' where "cx_send (oe_cx E) (M_SendRerelease x) tx = Some tx'" "is_open tx'" "received tx' = received tx @ [M_SendRerelease x]"
      using tx_lawsD [OF assms(1)] assms(2) own by (metis fst_conv not_None_eq)
    ultimately show ?thesis using True c by (simp add: reforward_def resent_def expiry_check_of_def)
  qed
  then obtain tx' w' where r: "reforward (oe_cx E) (oe_sx E) now x (tx, on_world s) = (Ok (), tx', w')" "is_open tx'" "received tx' = received tx @ [resent x]" by blast
  then have "reforward_own E now x s = (Ok (), store_own (oe_sx E) (tx', subs) (s\<lparr>on_world := w'\<rparr>))" using own by (simp add: reforward_own_def)
  with r own show ?thesis by simp
qed

lemma pop_timeout_window:
  assumes "deque_laws (oe_deque E)"
  shows "case entries (oe_deque E) (win s) of
     [] \<Rightarrow> with_window (pop_front_timeout (oe_deque E) now) s = (None, s)
   | (k, x) # xs \<Rightarrow>
       if due now (win s) (k, x) then
         \<exists>v s'. with_window (pop_front_timeout (oe_deque E) now) s = (Some x, s') \<and> win s' = v \<and> entries (oe_deque E) v = xs \<and> oi_interval v = oi_interval (win s)
       else with_window (pop_front_timeout (oe_deque E) now) s = (None, s)"
proof (cases "entries (oe_deque E) (win s)")
  case Nil
  then show ?thesis by (simp add: with_window_def pop_front_timeout_def front_timeout_def deque_lawsD(12) [OF assms])
next
  case (Cons kx xs)
  obtain k x where kx: "kx = (k, x)" by fastforce
  show ?thesis
  proof (cases "due now (win s) (k, x)")
    case True
    then have t: "front_timeout (oe_deque E) now (win s)" using Cons kx by (simp add: front_timeout_def due_def deque_lawsD(12) [OF assms])
    from pop_front_entries [OF assms, of "win s" "bk_stats (on_world s)"] Cons kx obtain v where
      v: "pop_front (oe_deque E) (win s, bk_stats (on_world s)) = (Some x, v, call_hook (oi_on_pop_fn (win s)) (bk_stats (on_world s)))"
      "v = (win s)\<lparr>oi_queues := oi_queues v\<rparr>" "entries (oe_deque E) v = xs" by auto
    have "oi_interval v = oi_interval (win s)" by (subst v(2)) simp
    with v t True Cons kx show ?thesis by (simp add: with_window_def pop_front_timeout_def)
  next
    case False
    then have "\<not> front_timeout (oe_deque E) now (win s)" using Cons kx by (auto simp: front_timeout_def due_def deque_lawsD(12) [OF assms])
    with False Cons kx show ?thesis by (simp add: with_window_def pop_front_timeout_def)
  qed
qed

lemma retry_loop_result:
  assumes "deque_laws (oe_deque E)" and "tx_laws (cx_send (oe_cx E)) received is_open"
  shows "\<forall>(k, x) \<in> set (entries (oe_deque E) (win s)). unexpired E now x \<Longrightarrow> length (entries (oe_deque E) (win s)) \<le> n \<Longrightarrow> is_open (fst (load_own (oe_sx E) s)) \<Longrightarrow>
    \<exists>s'. retry_loop E now n s = (Ok (), s') \<and> entries (oe_deque E) (win s') = dropWhile (due now (win s)) (entries (oe_deque E) (win s)) \<and>
      received (fst (load_own (oe_sx E) s')) =
        received (fst (load_own (oe_sx E) s)) @ map (resent \<circ> snd) (takeWhile (due now (win s)) (entries (oe_deque E) (win s)))"
proof (induction n arbitrary: s)
  case (Suc n)
  show ?case
  proof (cases "entries (oe_deque E) (win s)")
    case Nil
    with pop_timeout_window [OF assms(1), of now s] show ?thesis by simp
  next
    case (Cons kx xs)
    obtain k x where kx: "kx = (k, x)" by fastforce
    show ?thesis
    proof (cases "due now (win s) (k, x)")
      case False
      with pop_timeout_window [OF assms(1), of now s] Cons kx show ?thesis by simp
    next
      case True
      from pop_timeout_window [OF assms(1), of now s] Cons kx True obtain s1 where
        one: "with_window (pop_front_timeout (oe_deque E) now) s = (Some x, s1)" "entries (oe_deque E) (win s1) = xs" "oi_interval (win s1) = oi_interval (win s)" by auto
      have own: "load_own (oe_sx E) s1 = load_own (oe_sx E) s" using load_with_window [of "oe_sx E" _ s] one(1) by (metis snd_conv)
      have "unexpired E now x" using Suc.prems(1) Cons kx by simp
      with reforward_own_sent [OF assms(2), of s1 now x] own Suc.prems(3) obtain s2 where
        two: "reforward_own E now x s1 = (Ok (), s2)" "win s2 = win s1" "is_open (fst (load_own (oe_sx E) s2))"
          "received (fst (load_own (oe_sx E) s2)) = received (fst (load_own (oe_sx E) s)) @ [resent x]" by auto
      have due: "due now (win s2) = due now (win s)" using two(2) one(3) by (simp add: due_def)
      from Suc.IH [of s2] Suc.prems(1, 2) Cons one two due show ?thesis using kx True by auto
    qed
  qed
qed auto

section \<open>Properties\<close>

text \<open>
  C7: A message of quality of service 1 or 2 that has been sent stays with its session until the client
  acknowledges it: whatever event the loop handles, and whether or not it ends the connection, the window
  keeps the message under its identifier, unless the event is a PUBACK or PUBCOMP for it, the retry
  timer, or a message that is sent again under the same identifier.
\<close>

theorem unacked_until_acknowledged:
  assumes "deque_laws (oe_deque E)" and "keeps_delivered E" and "length (entries (oe_deque E) (win s)) < 65534"
    and "online_step E m e s = (r, s')" and "map_of (entries (oe_deque E) (win s)) k = Some x"
    and "\<not> acknowledges e k" and "e \<noteq> OE_RetryTimer" and "\<not> reuses e s k"
  shows "\<exists>y. map_of (entries (oe_deque E) (win s')) k = Some y \<and> oi_from y = oi_from x \<and> oi_publish y = oi_publish x"
proof -
  have "holds (oe_deque E) (win (snd (online_step E m e s))) k x"
  proof (cases e)
    case OE_DeliverQueue
    show ?thesis
    proof (cases "has_credit (oe_deque E) (win s)")
      case True
      obtain pr s1 where poll: "with_chan (poll_next (oe_poll E)) s = (pr, s1)" by fastforce
      have w1: "win s1 = win s" using win_chan [of "poll_next (oe_poll E)" s] unfolding poll by simp
      consider f p where "pr = Ready (Some (Some (f, p)))" | "\<nexists>d. pr = Ready (Some (Some d))" by fastforce
      then show ?thesis
      proof cases
        case 1
        have ids: "\<not> brings_id p k" using poll_head poll 1 assms(8) OE_DeliverQueue by fastforce
        obtain r2 s2 where d: "deliver E (mo_millis m) f p s1 = (r2, s2)" by fastforce
        from deliver_keeps [OF assms(1, 2) _ d, of k x] assms(3, 5) ids w1 have "map_of (entries (oe_deque E) (win s2)) k = Some x" by simp
        with True poll 1 d OE_DeliverQueue show ?thesis by (auto intro: holds_same)
      next
        case 2
        with True poll w1 OE_DeliverQueue assms(5) show ?thesis by (auto intro: holds_same split: poll.split option.split)
      qed
    qed (use assms(5) OE_DeliverQueue in \<open>simp add: holds_same\<close>)
  next
    case (OE_Rx msg waits)
    with message_keeps [OF assms(1, 5)] assms(8) show ?thesis by (auto intro: holds_same)
  next
    case (OE_Packet pk)
    with packet_keeps [OF assms(1, 5)] assms(6) show ?thesis by simp
  qed (use assms(5, 7) in \<open>auto intro: holds_same\<close>)
  then show ?thesis using assms(4) by (auto simp: holds_def same_message_def)
qed


lemma same_id: "mp_packet_id p = Some k \<Longrightarrow> p\<lparr>mp_inner := (mp_inner p)\<lparr>pub_packet_id := Some k\<rparr>\<rparr> = p"
  by (cases p, cases "mp_inner p") simp

text \<open>
  C17: A message of quality of service 1 or 2 that is taken from the queue and has not expired is sent in one
  PUBLISH packet and kept in the window until its acknowledgement: under the identifier it was sent
  with before when it is sent again, and otherwise under a new one, which is not zero and which no
  other message of the window has.  All other messages stay in the window as they are.
\<close>

theorem deliver_tracked:
  assumes "deque_laws (oe_deque E)" and "keeps_delivered E" and "length (entries (oe_deque E) (win s)) < 65534"
    and "deliver E now f p s = (Ok (), s')" and "pub_qos (mp_inner p) \<noteq> AtMostOnce"
    and "\<not> is_expiry (fst (expiry_check_of E now f p (wd_plugins (on_world s))))"
  shows "\<exists>k q pk. mp_packet_id q = Some k \<and> q = p\<lparr>mp_inner := (mp_inner p)\<lparr>pub_packet_id := Some k\<rparr>\<rparr> \<and>
    (if pub_dup (mp_inner p) \<and> mp_packet_id p \<noteq> None then q = p else k \<noteq> 0 \<and> map_of (entries (oe_deque E) (win s)) k = None) \<and>
    map_of (entries (oe_deque E) (win s')) = (map_of (entries (oe_deque E) (win s)))(k \<mapsto>
      out_inflight_message_new now (if pub_qos (mp_inner p) = AtLeastOnce then UnAck else UnReceived) f q) \<and>
    oe_put E pk (sw_sink (on_world s)) = (None, sw_sink (on_world s')) \<and>
    (case oe_sink E of
       Sink_V3 \<Rightarrow> pk = P_V3 (V3_Publish (mp_inner q))
     | Sink_V5 \<Rightarrow> \<exists>inner. pk = P_V5 (V5_Publish inner) \<and>
         sink_publish_v5 (remaining_interval (fst (expiry_check_of E now f p (wd_plugins (on_world s))))) (mp_inner q) (on_aliases s) = Ok (inner, on_aliases s'))"
  using assms(1-4)
proof (cases rule: deliver_window)
  case 1
  then show ?thesis using assms(6) by simp
next
  case (2 q v st s1 s2)
  from assign_result [OF assms(1, 3) 2(1)] assms(5) obtain k where
    k: "mp_packet_id q = Some k" "q = p\<lparr>mp_inner := (mp_inner p)\<lparr>pub_packet_id := Some k\<rparr>\<rparr>"
    "q = p \<and> brings_id p k \<or> k \<noteq> 0 \<and> map_of (entries (oe_deque E) (win s)) k = None" using same_id by (fastforce simp: brings_id_def)
  have cond: "if pub_dup (mp_inner p) \<and> mp_packet_id p \<noteq> None then q = p else k \<noteq> 0 \<and> map_of (entries (oe_deque E) (win s)) k = None"
    using 2(1) k assms(5) by (auto simp: assign_packet_id_def brings_id_def)
  have id: "mp_packet_id (oi_publish (out_inflight_message_new now st' f q)) = Some k" for st' using k(1) by (simp add: out_inflight_message_new_def)
  have entries: "map_of (entries (oe_deque E) (win s')) = (map_of (entries (oe_deque E) (win s)))(k \<mapsto>
      out_inflight_message_new now (if pub_qos (mp_inner p) = AtLeastOnce then UnAck else UnReceived) f q)"
    using push_back_entries [OF assms(1) id, of UnAck v st] push_back_entries [OF assms(1) id, of UnReceived v st] 2(2, 7) assms(5) k(2)
    by (cases "pub_qos (mp_inner p)") (auto simp: cache_inflight_def)
  have "\<exists>pk. oe_put E pk (sw_sink (on_world s)) = (None, sw_sink (on_world s')) \<and>
    (case oe_sink E of
       Sink_V3 \<Rightarrow> pk = P_V3 (V3_Publish (mp_inner q))
     | Sink_V5 \<Rightarrow> \<exists>inner. pk = P_V5 (V5_Publish inner) \<and>
         sink_publish_v5 (remaining_interval (fst (expiry_check_of E now f p (wd_plugins (on_world s))))) (mp_inner q) (on_aliases s) = Ok (inner, on_aliases s'))"
    using 2(4-6, 8, 9)
    by (auto simp: sink_publish_def put_packet_def Let_def split: sink_kind.splits prod.splits option.splits res.splits)
  with k cond entries show ?thesis by blast
qed

text \<open>A connected client that has one message to acknowledge and one in its queue.\<close>

definition online_world :: "((u16, out_inflight_message) alist, message list \<times> bool, u64, delayed_message list, unit, packet list) session_world" where
  "online_world = broker.extend sample_broker \<lparr>wd_retains = storage_new, wd_delayed = delayed_sender_new list_heap, wd_plugins = (),
     wd_metrics = \<lparr>client_publish_error = 0, client_publish_auth_error = 0, client_subscribe_error = 0, client_subscribe_auth_error = 0\<rparr>,
     sw_aliases = None, sw_sink = []\<rparr>"

definition online_session :: "((u16, out_inflight_message) alist, message list \<times> bool, u64, delayed_message list, unit, packet list, nat) online" where
  "online_session = \<lparr>on_world = online_world,
     on_life = lost_session\<lparr>lf_window := (lf_window lost_session)\<lparr>oi_queues := DAList.update 1 waiting_message DAList.empty\<rparr>\<rparr>,
     on_inbound = inbound_new 10 counter_new, on_aliases = None, on_tx = ([], True), on_subs = []\<rparr>"

definition online_sample_env :: "((u16, out_inflight_message) alist, message list \<times> bool, u64, delayed_message list, unit, unit, packet list, nat) online_env" where
  "online_sample_env = \<lparr>oe_cx = sample_context hook_manager_new, oe_sx = taker, oe_deque = alist_deque, oe_try_send = (\<lambda>n. (True, Suc n)),
     oe_poll = (\<lambda>n. if n = 0 then (Pending, 0) else (Ready (Some ()), n - 1)), oe_sink = Sink_V3, oe_put = (\<lambda>pk l. (None, l @ [pk])), oe_shared = True,
     oe_filter_text = (\<lambda>_. []), oe_unsub_text = (\<lambda>_. []), oe_packet_text = (\<lambda>_. []), oe_closed_text = []\<rparr>"

lemma online_facts:
  "oe_deque online_sample_env = alist_deque" "oe_sink online_sample_env = Sink_V3" "oe_put online_sample_env pk l = (None, l @ [pk])"
  "entries alist_deque (win online_session) = [(1, waiting_message)]" "oi_interval (win online_session) = 20000"
  "keeps_delivered online_sample_env" "sw_sink (on_world online_session) = []"
  "load_own (oe_sx online_sample_env) online_session = (([], True), [])"
  "tx_laws (cx_send (oe_cx online_sample_env)) fst snd"
  by (simp_all add: online_sample_env_def online_session_def lost_session_def alist_deque_def DAList.update.rep_eq DAList.empty.rep_eq out_inflight_new_def
      interval_def keeps_delivered_def hook_message_delivered_def hook_exec_def sample_context_def hook_manager_new_def online_world_def broker.extend_def
      load_own_def sample_broker_def sample_session_def taker_def subscriber_def ident_from_def ident_new_def list_send_laws del: fold.simps)

theorem unacked_until_acknowledged_witness:
  "\<exists>r s' y. online_step online_sample_env \<lparr>mo_millis = 5000, mo_tick = 0\<rparr> (OE_Packet (P_V3 (V3_PublishReceived 1))) online_session = (r, s') \<and>
     map_of (entries alist_deque (win s')) 1 = Some y \<and> oi_publish y = oi_publish waiting_message"
proof -
  obtain r s' where run: "online_step online_sample_env \<lparr>mo_millis = 5000, mo_tick = 0\<rparr> (OE_Packet (P_V3 (V3_PublishReceived 1))) online_session = (r, s')"
    by fastforce
  from unacked_until_acknowledged [OF _ _ _ run, of 1 waiting_message] alist_deque_laws run show ?thesis by (auto simp: online_facts simp del: online_step.simps)
qed


theorem deliver_tracked_witness:
  "\<exists>k q s'. deliver online_sample_env 0 (from_custom subscriber) sample_publish online_session = (Ok (), s') \<and> k \<noteq> 0 \<and> k \<noteq> 1 \<and>
     map_of (entries alist_deque (win s')) = [1 \<mapsto> waiting_message, k \<mapsto> out_inflight_message_new 0 UnReceived (from_custom subscriber) q] \<and>
     sw_sink (on_world s') = [P_V3 (V3_Publish (mp_inner q))]"
proof -
  let ?E = online_sample_env and ?f = "from_custom subscriber"
  have check: "expiry_check_of ?E 0 ?f sample_publish h = (Remaining (Some 300), h)" for h
    by (simp add: expiry_check_of_def hook_message_expiry_check_def hook_exec_def online_sample_env_def sample_context_def hook_manager_new_def
        expiry_of_def sample_publish_def taker_def sample_publisher_def fitter_new_def sample_limits_def Let_def)
  have p: "pub_qos (mp_inner sample_publish) = ExactlyOnce" "\<not> pub_dup (mp_inner sample_publish)" by (simp_all add: sample_publish_def)
  obtain r s' where run: "deliver ?E 0 ?f sample_publish online_session = (r, s')" by fastforce
  have laws: "deque_laws (oe_deque ?E)" "keeps_delivered ?E" "length (entries (oe_deque ?E) (win online_session)) < 65534"
    by (simp_all add: online_facts alist_deque_laws)
  obtain r0 v where a: "assign_packet_id alist_deque sample_publish (win online_session) = (r0, v)" by fastforce
  with assign_result [OF laws(1, 3), of sample_publish r0 v] obtain q0 where q0: "r0 = Ok q0" by (auto simp: online_facts)
  have hook: "hook_message_delivered (sx_self (oe_sx ?E)) f q (cx_hooks (oe_cx ?E)) h = (None, h)" for f q h
    by (simp add: hook_message_delivered_def hook_exec_def online_sample_env_def sample_context_def hook_manager_new_def)
  have "r = Ok ()"
    using run a q0 by (simp add: deliver_def check is_expiry_def with_window_def online_facts hook sink_publish_def put_packet_def Let_def split: prod.splits)
  with deliver_tracked [OF laws, of 0 ?f sample_publish s'] run p check obtain k q where
    "k \<noteq> 0" "map_of [(1, waiting_message)] k = None"
    "map_of (entries alist_deque (win s')) = (map_of [(1, waiting_message)])(k \<mapsto> out_inflight_message_new 0 UnReceived ?f q)"
    "sw_sink (on_world s') = [P_V3 (V3_Publish (mp_inner q))]"
    by (auto simp: online_facts is_expiry_def)
  with run \<open>r = Ok ()\<close> show ?thesis by (auto intro!: exI [of _ k] split: if_splits)
qed

end
