(* ===== verification/Handshake.thy ===== *)
theory Handshake
  imports Takeover
begin

text \<open>
  The handshake of a connection (\<^verbatim>\<open>v3.rs\<close> and \<^verbatim>\<open>v5.rs\<close>) and the session it makes (\<^verbatim>\<open>Session::new\<close> and \<^verbatim>\<open>SessionState::new\<close> of
  \<^verbatim>\<open>session.rs\<close>): the checks, the takeover of the session the client had, the registration, and the CONNACK packet.
  What happens elsewhere meanwhile is an argument: what the old session does until it answers, whether a
  lock is free at an attempt, how long the hooks take, whether the machine is busy.
\<close>

section \<open>State and environment\<close>

text \<open>The number of sessions of the node, the statistics of incoming messages and the count of handshakes the executor gave up.\<close>

record ('q, 't, 'c, 'hp, 'h) node_world = "('q, 't, 'c, 'hp, 'h) world" +
  nd_sessions :: counter
  nd_in_inflights :: counter
  nd_handshaking_timeout :: u64

record ('q, 't, 'c, 'hp, 's, 'h, 'k) handshake_env =
  hs_cx :: "('t, 'c, 'hp, 's, 'h) server_context"
  hs_deque :: "'q messages"
  hs_limits :: listener_limits
  hs_allow_anonymous :: bool
  hs_max_packet_size :: u32
  hs_max_sessions :: int
  hs_lid :: u16
  hs_local_addr :: socket_addr
  hs_remote_addr :: socket_addr
  hs_busy :: bool
  hs_now :: int
  hs_elapsed :: nat
  hs_try_lock :: "nat \<Rightarrow> bool"
  hs_lock_error :: any_error
  hs_react :: "('q, 't, 'c, 'hp, 'h) node_world \<Rightarrow> kick_reply \<times> ('q, 't, 'c, 'hp, 'h) node_world"
  hs_self :: 's
  hs_channel :: 't
  hs_auto_subscribe :: "(ident \<Rightarrow> (subscribe list, any_error) res) option"
  hs_shared_available :: bool
  hs_closed_error :: any_error
  hs_new_client_id :: bytes
  hs_put :: "packet \<Rightarrow> 'k \<Rightarrow> any_error option \<times> 'k"
  hs_set_max_outbound :: "u32 \<Rightarrow> 'k \<Rightarrow> 'k"
  hs_executed :: bool

type_synonym refusal = "connect_ack_code \<times> any_error"

section \<open>Codes\<close>

definition ack_success :: "connect_ack_code \<Rightarrow> bool" where
  "ack_success c \<longleftrightarrow> c = Ack_V3 ConnectionAccepted \<or> c = Ack_V5 CAR_Success"

definition ack_not_authorized :: "connect_ack_code \<Rightarrow> bool" where
  "ack_not_authorized c \<longleftrightarrow> c = Ack_V3 NotAuthorized \<or> c = Ack_V3 BadUserNameOrPassword \<or> c = Ack_V5 CAR_NotAuthorized \<or> c = Ack_V5 CAR_BadUserNameOrPassword"

definition success_or_auth_error :: "connect_ack_code \<Rightarrow> bool \<times> bool" where
  "success_or_auth_error c =
    (if c \<in> {Ack_V3 ConnectionAccepted, Ack_V5 CAR_Success} then (True, False)
     else if c \<in> {Ack_V3 NotAuthorized, Ack_V3 BadUserNameOrPassword, Ack_V5 CAR_NotAuthorized, Ack_V5 CAR_BadUserNameOrPassword} then (False, True)
     else (False, False))"

definition unavailable :: "connect_info \<Rightarrow> connect_ack_code" where
  "unavailable c = (case c of CI_V3 _ _ \<Rightarrow> Ack_V3 ServiceUnavailable | CI_V5 _ _ \<Rightarrow> Ack_V5 CAR_ServerUnavailable)"

definition accepted_code :: "connect_info \<Rightarrow> connect_ack_code" where
  "accepted_code c = (case c of CI_V3 _ _ \<Rightarrow> Ack_V3 ConnectionAccepted | CI_V5 _ _ \<Rightarrow> Ack_V5 CAR_Success)"

definition error_text :: "string \<Rightarrow> any_error" where
  "error_text t = E_Other (text_bytes t)"

section \<open>The checks\<close>

text \<open>Everything before the session of the client is touched; the plug-ins see the connection and authenticate it.\<close>

definition admit :: "('q, 't, 'c, 'hp, 's, 'h, 'k) handshake_env \<Rightarrow> ident \<Rightarrow> connect_info \<Rightarrow> ('q, 't, 'c, 'hp, 'h) node_world \<Rightarrow>
    (bool \<times> auth_info option, refusal) res \<times> ('q, 't, 'c, 'hp, 'h) node_world" where
  "admit E i c w =
    (let hk = cx_hooks (hs_cx E); cfg = hs_limits E; w = plugins_do (\<lambda>h. snd (hook_client_connect c hk h)) w in
     if handshake_timeout cfg < hs_elapsed E then (Err (unavailable c, error_text ''handshake timeout''), w)
     else if 0 < max_clientid_len cfg \<and> max_clientid_len cfg < length (id_client_id i) then
       (Err (case c of CI_V3 _ _ \<Rightarrow> Ack_V3 IdentifierRejected | CI_V5 _ _ \<Rightarrow> Ack_V5 CAR_ClientIdentifierNotValid, error_text ''client_id is too long''), w)
     else if ci_auth_method c \<noteq> None then (Err (Ack_V5 CAR_BadAuthenticationMethod, error_text ''extended Auth is not supported''), w)
     else if 0 < hs_max_sessions E \<and> hs_max_sessions E \<le> current (nd_sessions w) \<and> \<not> peer_exist (id_client_id i) (bk_peers w) then
       (Err (unavailable c, E_Other (text_bytes ''the number of sessions on the current node exceeds the limit, with a maximum of '' @
          show_nat (nat (hs_max_sessions E)) @ text_bytes '' sessions allowed'')), w)
     else
       (let ((ack, superuser, info), h) = hook_client_authenticate c (hs_allow_anonymous E) hk (wd_plugins w); w = w\<lparr>wd_plugins := h\<rparr> in
        if \<not> ack_success ack then (Err (ack, error_text ''Authentication failed''), w) else (Ok (superuser, info), w)))"

text \<open>The lock of the entry of the client: ten more attempts after the first.\<close>

function lock_retry :: "(nat \<Rightarrow> bool) \<Rightarrow> nat \<Rightarrow> bool" where
  "lock_retry free attempts = (if free attempts then True else if attempts < 10 then lock_retry free (attempts + 1) else False)"
  by pat_completeness auto
termination
  by (relation "measure (\<lambda>(_, attempts). 11 - attempts)") auto

declare lock_retry.simps [simp del]

lemma lock_retry_from: "n \<le> 10 \<Longrightarrow> lock_retry free n \<longleftrightarrow> (\<exists>m. n \<le> m \<and> m \<le> 10 \<and> free m)"
proof (induction free n rule: lock_retry.induct)
  case (1 free n)
  have "(\<exists>m. n \<le> m \<and> m \<le> 10 \<and> free m) \<longleftrightarrow> free n \<or> (\<exists>m. n + 1 \<le> m \<and> m \<le> 10 \<and> free m)"
  proof
    assume "\<exists>m. n \<le> m \<and> m \<le> 10 \<and> free m"
    then obtain m where m: "n \<le> m" "m \<le> 10" "free m" by blast
    then show "free n \<or> (\<exists>m. n + 1 \<le> m \<and> m \<le> 10 \<and> free m)" by (cases "m = n") (auto intro!: exI [of _ m])
  qed (use 1(2) in \<open>auto intro: Suc_leD\<close>)
  with 1 show ?case by (subst lock_retry.simps) (cases "n < 10"; auto)
qed

lemma lock_retry_iff: "lock_retry free 0 \<longleftrightarrow> (\<exists>n \<le> 10. free n)"
  using lock_retry_from [of 0 free] by auto

section \<open>The session of the client\<close>

text \<open>The old session is asked to leave, and answers or not.\<close>

definition ask_old :: "('q, 't, 'c, 'hp, 's, 'h, 'k) handshake_env \<Rightarrow> ident \<Rightarrow> bool \<Rightarrow> bool \<Rightarrow> ('q, 't, 'c, 'hp, 'h) node_world \<Rightarrow>
    kick_reply option \<times> ('q, 't, 'c, 'hp, 'h) node_world" where
  "ask_old E i clean_start is_admin w =
    (let (asked, w) = kick_request (cx_send (hs_cx E)) i clean_start is_admin w in
     if asked then (let (r, w) = hs_react E w in (Some r, w)) else (None, w))"

definition entry_kick :: "('q, 't, 'c, 'hp, 's, 'h, 'k) handshake_env \<Rightarrow> ident \<Rightarrow> bool \<Rightarrow> bool \<Rightarrow> bool \<Rightarrow> ('q, 't, 'c, 'hp, 'h) node_world \<Rightarrow>
    ((offline_session, entry_error) res \<times> ('q, 't, 'c, 'hp, 'h) node_world) option" where
  "entry_kick E i clean_start clear_subscriptions is_admin w =
    (let (reply, w) = ask_old E i clean_start is_admin w in kick_finish (hs_deque E) i clean_start clear_subscriptions reply w)"

definition count_queue :: "(counter \<Rightarrow> counter) \<Rightarrow> broker_stats \<Rightarrow> broker_stats" where
  "count_queue f st = st\<lparr>bs_message_queues := f (bs_message_queues st)\<rparr>"

definition count_window :: "(counter \<Rightarrow> counter) \<Rightarrow> broker_stats \<Rightarrow> broker_stats" where
  "count_window f st = st\<lparr>bs_out_inflights := f (bs_out_inflights st)\<rparr>"

text \<open>\<^verbatim>\<open>Session::new\<close> for a session without subscriptions; the counters of the node count it.\<close>

definition session_new :: "'q messages \<Rightarrow> ident \<Rightarrow> listener_limits \<Rightarrow> nat \<Rightarrow> u16 \<Rightarrow> int \<Rightarrow> ('q, 't, 'c, 'hp, 'h) node_world \<Rightarrow>
    'q session \<times> ('q, 't, 'c, 'hp, 'h) node_world" where
  "session_new D i cfg mqueue_len window created_at w =
    (\<lparr>ss_id = i, ss_subscriptions = [],
      ss_deliver_queue = on_pop (count_queue dec) (on_push (count_queue inc) (queue_new mqueue_len)),
      ss_out_inflight = out_on_pop (count_window dec) (out_on_push (count_window inc)
        (out_inflight_new D (unat window) (int (message_retry_interval cfg div 10 ^ 6)) (int (message_expiry_interval cfg div 10 ^ 6)))),
      ss_created_at = created_at, ss_connected = True, ss_disconnect_info = disconnect_info_new 0\<rparr>,
     w\<lparr>nd_sessions := inc (nd_sessions w)\<rparr>)"

text \<open>
  The last reference to a session is dropped.  The references to the old session are those of its event loop, which ends
  in its own time.
\<close>

definition session_drop :: "('q, 't, 'c, 'hp, 'h) node_world \<Rightarrow> ('q, 't, 'c, 'hp, 'h) node_world" where
  "session_drop w = w\<lparr>nd_sessions := dec (nd_sessions w)\<rparr>"

text \<open>What the event loop of the new session starts with.\<close>

record ('q, 't) session_start =
  st_session :: "'q session"
  st_tx :: 't
  st_fitter :: fitter
  st_superuser :: bool
  st_session_present :: bool
  st_keep_alive :: u16
  st_server_keepalive :: u16
  st_server_aliases :: "server_topic_aliases option"
  st_client_aliases :: "client_topic_aliases option"
  st_inbound :: inbound

definition session_start_new :: "'q session \<Rightarrow> 't \<Rightarrow> fitter \<Rightarrow> bool \<Rightarrow> bool \<Rightarrow> u16 \<Rightarrow> u16 \<Rightarrow> counter \<Rightarrow> ('q, 't) session_start" where
  "session_start_new s tx f superuser present ka server_ka c =
    \<lparr>st_session = s, st_tx = tx, st_fitter = f, st_superuser = superuser, st_session_present = present, st_keep_alive = ka,
     st_server_keepalive = server_ka, st_server_aliases = session_server_aliases (max_server_topic_aliases f),
     st_client_aliases = session_client_aliases (max_client_topic_aliases f), st_inbound = inbound_new (max_inflight (listen_cfg f)) c\<rparr>"

text \<open>A message to the new session, whose handle is in the table as well.\<close>

definition send_own :: "('q, 't, 'c, 'hp, 's, 'h, 'k) handshake_env \<Rightarrow> connect_info \<Rightarrow> message \<Rightarrow> ('q, 't) session_start \<Rightarrow>
    ('q, 't, 'c, 'hp, 'h) node_world \<Rightarrow> (('q, 't) session_start, refusal) res \<times> ('q, 't, 'c, 'hp, 'h) node_world" where
  "send_own E c m st w =
    (case cx_send (hs_cx E) m (st_tx st) of
       None \<Rightarrow> (Err (unavailable c, hs_closed_error E), w)
     | Some tx \<Rightarrow> (Ok (st\<lparr>st_tx := tx\<rparr>), w\<lparr>bk_peers := entry_set (ss_id (st_session st)) (st_session st) tx (bk_peers w)\<rparr>))"

definition auto_subscribe :: "('q, 't, 'c, 'hp, 's, 'h, 'k) handshake_env \<Rightarrow> connect_info \<Rightarrow> ('q, 't) session_start \<Rightarrow>
    ('q, 't, 'c, 'hp, 'h) node_world \<Rightarrow> (('q, 't) session_start, refusal) res \<times> ('q, 't, 'c, 'hp, 'h) node_world" where
  "auto_subscribe E c st w =
    (case hs_auto_subscribe E of
       None \<Rightarrow> (Ok st, w)
     | Some subscribes \<Rightarrow>
         (case subscribes (ss_id (st_session st)) of
            Err e \<Rightarrow> (Err (unavailable c, e), w)
          | Panic \<Rightarrow> (Panic, w)
          | Ok subs \<Rightarrow> send_own E c (M_Subscribes subs) st w))"

text \<open>From the answer of the old session to the end of \<^verbatim>\<open>_handshake\<close>.\<close>

definition open_session :: "('q, 't, 'c, 'hp, 's, 'h, 'k) handshake_env \<Rightarrow> ident \<Rightarrow> connect_info \<Rightarrow> bool \<Rightarrow> offline_session \<Rightarrow>
    ('q, 't, 'c, 'hp, 'h) node_world \<Rightarrow> (('q, 't) session_start, refusal) res \<times> ('q, 't, 'c, 'hp, 'h) node_world" where
  "open_session E i c superuser old w =
    (let hk = cx_hooks (hs_cx E); cfg = hs_limits E; clean_session = ci_clean_start c;
         (session_present, offline) = (case old of
            Off_NotExist \<Rightarrow> (False, None)
          | Off_Exist (Some info) \<Rightarrow> (\<not> clean_session, Some info)
          | Off_Exist None \<Rightarrow> (False, None));
         created_at = (case offline of Some info \<Rightarrow> off_created_at info | None \<Rightarrow> hs_now E);
         f = fitter_new c i cfg;
         (s, w) = session_new (hs_deque E) i cfg (fitter_max_mqueue_len f) (fitter_max_inflight f) created_at w
     in
     (case keep_alive (ci_keep_alive c) f of
        (Err e, _) \<Rightarrow> (Err (unavailable c, e), session_drop w)
      | (Panic, _) \<Rightarrow> (Panic, w)
      | (Ok ka, server_ka) \<Rightarrow>
          (let w = (if offline = None then plugins_do (hook_session_created (hs_self E) hk) w else w);
               st = session_start_new s (hs_channel E) f superuser session_present ka server_ka (nd_in_inflights w);
               w = w\<lparr>bk_peers := entry_set i s (hs_channel E) (bk_peers w)\<rparr>;
               w = plugins_do (\<lambda>h. snd (hook_client_connack c (accepted_code c) hk h)) w;
               w = plugins_do (hook_client_connected (hs_self E) hk) w
           in
           (case (case offline of Some info \<Rightarrow> send_own E c (M_SessionStateTransfer info clean_session) st w | None \<Rightarrow> (Ok st, w)) of
              (Ok st, w) \<Rightarrow> auto_subscribe E c st w
            | (r, w) \<Rightarrow> (r, w)))))"

text \<open>\<^verbatim>\<open>_handshake\<close>; nothing when the window of the old session is never empty.\<close>

definition handshake_inner :: "('q, 't, 'c, 'hp, 's, 'h, 'k) handshake_env \<Rightarrow> ident \<Rightarrow> connect_info \<Rightarrow> ('q, 't, 'c, 'hp, 'h) node_world \<Rightarrow>
    ((('q, 't) session_start, refusal) res \<times> ('q, 't, 'c, 'hp, 'h) node_world) option" where
  "handshake_inner E i c w =
    (case admit E i c w of
       (Err r, w) \<Rightarrow> Some (Err r, w)
     | (Panic, w) \<Rightarrow> Some (Panic, w)
     | (Ok (superuser, _), w) \<Rightarrow>
         if \<not> lock_retry (hs_try_lock E) 0 then Some (Err (unavailable c, hs_lock_error E), w)
         else
           Option.bind (entry_kick E i (ci_clean_start c) (ci_clean_start c) False w) (\<lambda>(r, w). Some
             (case r of
                Err _ \<Rightarrow> (Err (unavailable c, error_text ''recv kick result''), w)
              | Panic \<Rightarrow> (Panic, w)
              | Ok old \<Rightarrow> open_session E i c superuser old w)))"

section \<open>Version 3\<close>

definition client_ident :: "('q, 't, 'c, 'hp, 's, 'h, 'k) handshake_env \<Rightarrow> node_id \<Rightarrow> bytes \<Rightarrow> bytes option \<Rightarrow> ident" where
  "client_ident E node cid user =
    ident_new node (hs_lid E) (Some (hs_local_addr E)) (Some (hs_remote_addr E)) (bytes_text cid) (map_option bytes_text user) (word_of_int (hs_now E))"

text \<open>The task is given to an executor, which may give it up before it runs.\<close>

definition executed :: "('q, 't, 'c, 'hp, 's, 'h, 'k) handshake_env \<Rightarrow> ident \<Rightarrow> connect_info \<Rightarrow> ('q, 't, 'c, 'hp, 'h) node_world \<Rightarrow>
    ((('q, 't) session_start, refusal) res \<times> ('q, 't, 'c, 'hp, 'h) node_world) option" where
  "executed E i c w =
    (if hs_executed E then handshake_inner E i c w
     else Some (Err (unavailable c, error_text ''Connection Refused, execute handshake timeout''),
       w\<lparr>nd_handshaking_timeout := nd_handshaking_timeout w + 1\<rparr>))"

definition connack_v3 :: "v3_connect_ack_reason \<Rightarrow> bool \<Rightarrow> packet" where
  "connack_v3 code present = P_V3 (V3_ConnectAck \<lparr>ca3_return_code = code, ca3_session_present = present\<rparr>)"

text \<open>\<^verbatim>\<open>handshake\<close> after the CONNECT packet has been received, or not.\<close>

definition handshake_v3 :: "('q, 't, 'c, 'hp, 's, 'h, 'k) handshake_env \<Rightarrow> (v3_connect, any_error) res \<Rightarrow> 'k \<times> ('q, 't, 'c, 'hp, 'h) node_world \<Rightarrow>
    ((('q, 't) session_start, refusal) res \<times> 'k \<times> ('q, 't, 'c, 'hp, 'h) node_world) option" where
  "handshake_v3 E recv = (\<lambda>(k, w).
    if hs_busy E then Some (Err (Ack_V3 ServiceUnavailable, error_text ''the system is currently overloaded''), k, w)
    else case recv of
      Err e \<Rightarrow> Some (Err (Ack_V3 ServiceUnavailable, e), k, w)
    | Panic \<Rightarrow> Some (Panic, k, w)
    | Ok c \<Rightarrow>
        if c3_client_id c = [] \<and> \<not> c3_clean_session c then Some (Err (Ack_V3 IdentifierRejected, E_Mqtt ME_IdentifierRejected), k, w)
        else
          (let c = (if c3_client_id c = [] then c\<lparr>c3_client_id := hs_new_client_id E\<rparr> else c);
               i = client_ident E (bk_node w) (c3_client_id c) (c3_username c)
           in Option.bind (executed E i (CI_V3 i c) w) (\<lambda>(r, w). Some
             (case r of
                Ok st \<Rightarrow>
                  (case hs_put E (connack_v3 ConnectionAccepted (st_session_present st)) k of
                     (None, k) \<Rightarrow> (Ok st, k, w)
                   | (Some e, k) \<Rightarrow> (Err (Ack_V3 ServiceUnavailable, e), k, w))
              | Err r \<Rightarrow> (Err r, k, w)
              | Panic \<Rightarrow> (Panic, k, w)))))"

definition refused_ack_v3 :: "('q, 't, 'c, 'hp, 's, 'h, 'k) handshake_env \<Rightarrow> connect_ack_code \<Rightarrow> 'k \<Rightarrow> any_error option \<times> 'k" where
  "refused_ack_v3 E code k = hs_put E (connack_v3 (case code of Ack_V3 r \<Rightarrow> r | Ack_V5 _ \<Rightarrow> ServiceUnavailable) False) k"

text \<open>The session to run, if there is one.\<close>

definition process_v3 :: "('q, 't, 'c, 'hp, 's, 'h, 'k) handshake_env \<Rightarrow> (v3_connect, any_error) res \<Rightarrow> 'k \<times> ('q, 't, 'c, 'hp, 'h) node_world \<Rightarrow>
    (('q, 't) session_start option \<times> 'k \<times> ('q, 't, 'c, 'hp, 'h) node_world) option" where
  "process_v3 E recv kw =
    Option.bind (handshake_v3 E recv kw) (\<lambda>(r, k, w). Some
      (case r of
         Ok st \<Rightarrow> (Some st, k, w)
       | Err (code, _) \<Rightarrow> (None, snd (refused_ack_v3 E code k), w)
       | Panic \<Rightarrow> (None, k, w)))"

section \<open>Version 5\<close>

text \<open>The CONNACK packet that \<^verbatim>\<open>_handshake\<close> makes at its end.\<close>

definition connack_v5 :: "('q, 't, 'c, 'hp, 's, 'h, 'k) handshake_env \<Rightarrow> bool \<Rightarrow> ('q, 't) session_start \<Rightarrow> v5_connect_ack" where
  "connack_v5 E assigned st =
    (let f = st_fitter st; expiry = word_of_int (int (fitter_session_expiry_interval None f div 10 ^ 9)) in
     v5_connect_ack_default\<lparr>ca_session_present := st_session_present st, ca_server_keepalive_sec := Some (st_server_keepalive st),
       ca_session_expiry_interval_secs := (if (0 :: u32) < expiry then Some expiry else None), ca_receive_max := fitter_max_inflight f,
       ca_max_qos := max_qos_allowed (listen_cfg f), ca_retain_available := (cx_retainer (hs_cx E) \<noteq> None),
       ca_max_packet_size := Some (hs_max_packet_size E),
       ca_assigned_client_id := (if assigned then Some (text_bytes (id_client_id (ss_id (st_session st)))) else None),
       ca_topic_alias_max := max_client_topic_aliases f, ca_wildcard_subscription_available := True,
       ca_subscription_identifiers_available := True, ca_shared_subscription_available := hs_shared_available E\<rparr>)"

definition handshake_v5 :: "('q, 't, 'c, 'hp, 's, 'h, 'k) handshake_env \<Rightarrow> (v5_connect, any_error) res \<Rightarrow> 'k \<times> ('q, 't, 'c, 'hp, 'h) node_world \<Rightarrow>
    ((('q, 't) session_start, refusal) res \<times> 'k \<times> ('q, 't, 'c, 'hp, 'h) node_world) option" where
  "handshake_v5 E recv = (\<lambda>(k, w).
    if hs_busy E then Some (Err (Ack_V5 CAR_ServerUnavailable, error_text ''the system is currently overloaded''), k, w)
    else case recv of
      Err e \<Rightarrow> Some (Err (Ack_V5 CAR_ServerUnavailable, e), k, w)
    | Panic \<Rightarrow> Some (Panic, k, w)
    | Ok c \<Rightarrow>
        (let k = (case cn_max_packet_size c of Some sz \<Rightarrow> hs_set_max_outbound E sz k | None \<Rightarrow> k);
             assigned = (cn_client_id c = []);
             c = (if assigned then c\<lparr>cn_client_id := hs_new_client_id E\<rparr> else c);
             i = client_ident E (bk_node w) (cn_client_id c) (cn_username c)
         in Option.bind (executed E i (CI_V5 i c) w) (\<lambda>(r, w). Some
           (case r of
              Ok st \<Rightarrow>
                (case hs_put E (P_V5 (V5_ConnectAck (connack_v5 E assigned st))) k of
                   (None, k) \<Rightarrow> (Ok st, k, w)
                 | (Some e, k) \<Rightarrow> (Err (Ack_V5 CAR_ServerUnavailable, e), k, w))
            | Err r \<Rightarrow> (Err r, k, w)
            | Panic \<Rightarrow> (Panic, k, w)))))"

definition refused_ack_v5 :: "('q, 't, 'c, 'hp, 's, 'h, 'k) handshake_env \<Rightarrow> connect_ack_code \<Rightarrow> 'k \<Rightarrow> any_error option \<times> 'k" where
  "refused_ack_v5 E code k =
    hs_put E (P_V5 (V5_ConnectAck (v5_connect_ack_default\<lparr>ca_reason_code := (case code of Ack_V5 r \<Rightarrow> r | Ack_V3 _ \<Rightarrow> CAR_ServerUnavailable)\<rparr>))) k"

definition process_v5 :: "('q, 't, 'c, 'hp, 's, 'h, 'k) handshake_env \<Rightarrow> (v5_connect, any_error) res \<Rightarrow> 'k \<times> ('q, 't, 'c, 'hp, 'h) node_world \<Rightarrow>
    (('q, 't) session_start option \<times> 'k \<times> ('q, 't, 'c, 'hp, 'h) node_world) option" where
  "process_v5 E recv kw =
    Option.bind (handshake_v5 E recv kw) (\<lambda>(r, k, w). Some
      (case r of
         Ok st \<Rightarrow> (Some st, k, w)
       | Err (code, _) \<Rightarrow> (None, snd (refused_ack_v5 E code k), w)
       | Panic \<Rightarrow> (None, k, w)))"

section \<open>What the handshake decides\<close>

text \<open>The conditions a client has to meet before its session is touched.\<close>

definition admissible :: "('q, 't, 'c, 'hp, 's, 'h, 'k) handshake_env \<Rightarrow> ident \<Rightarrow> connect_info \<Rightarrow> ('q, 't, 'c, 'hp, 'h) node_world \<Rightarrow> bool" where
  "admissible E i c w \<longleftrightarrow>
    hs_elapsed E \<le> handshake_timeout (hs_limits E) \<and>
    (max_clientid_len (hs_limits E) = 0 \<or> length (id_client_id i) \<le> max_clientid_len (hs_limits E)) \<and>
    ci_auth_method c = None \<and>
    (hs_max_sessions E \<le> 0 \<or> current (nd_sessions w) < hs_max_sessions E \<or> peer_exist (id_client_id i) (bk_peers w)) \<and>
    ack_success (fst (fst (hook_client_authenticate c (hs_allow_anonymous E) (cx_hooks (hs_cx E))
      (snd (hook_client_connect c (cx_hooks (hs_cx E)) (wd_plugins w))))))"

lemma admit_result:
  "\<exists>h. snd (admit E i c w) = w\<lparr>wd_plugins := h\<rparr>" "fst (admit E i c w) \<noteq> Panic"
  "(\<exists>a. fst (admit E i c w) = Ok a) \<longleftrightarrow> admissible E i c w"
  by (auto simp: admit_def admissible_def Let_def not_less not_le split: prod.splits)

lemma kick_finish_total:
  assumes "deque_laws D" and "\<And>s tx. map_of (bk_peers w) (id_client_id i) = Some (s, tx) \<Longrightarrow> distinct (map fst (ss_subscriptions s))"
  shows "\<exists>r w'. kick_finish D i cs clear reply w = Some (r, w') \<and> (reply = Some Kick_Recv_Error \<longleftrightarrow> (\<exists>e. r = Err e)) \<and> r \<noteq> Panic"
proof (cases "map_of (bk_peers w) (id_client_id i)")
  case None
  then show ?thesis by (cases "reply = Some Kick_Recv_Error") (auto simp: kick_finish_def entry_remove_def)
next
  case (Some x)
  obtain s tx where x: "x = (s, tx)" by fastforce
  obtain info st where "to_offline_info D s (bk_stats (take_peer clear (id_client_id i) s w)) = Some (info, st)"
    using to_offline_info_all [OF assms(1), of s] assms(2) Some x by blast
  with Some x show ?thesis by (cases "reply = Some Kick_Recv_Error") (auto simp: kick_finish_def entry_remove_def)
qed

lemma send_own_open:
  assumes "tx_laws (cx_send (hs_cx E)) received is_open" and "is_open (st_tx st)"
  shows "\<exists>tx. send_own E c m st w = (Ok (st\<lparr>st_tx := tx\<rparr>), w\<lparr>bk_peers := entry_set (ss_id (st_session st)) (st_session st) tx (bk_peers w)\<rparr>) \<and>
    is_open tx \<and> received tx = received (st_tx st) @ [m]"
  using tx_lawsD [OF assms(1), of m "st_tx st"] assms(2) by (cases "cx_send (hs_cx E) m (st_tx st)") (auto simp: send_own_def)

abbreviation auto_ok :: "('q, 't, 'c, 'hp, 's, 'h, 'k) handshake_env \<Rightarrow> ident \<Rightarrow> bool" where
  "auto_ok E i \<equiv> \<forall>subscribes. hs_auto_subscribe E = Some subscribes \<longrightarrow> (\<exists>subs. subscribes i = Ok subs)"

text \<open>The state of the old session that is handed to the new one.\<close>

definition handed_over :: "offline_session \<Rightarrow> offline_info option" where
  "handed_over old = (case old of Off_Exist (Some info) \<Rightarrow> Some info | _ \<Rightarrow> None)"

lemma open_session_Ok:
  assumes "tx_laws (cx_send (hs_cx E)) received is_open" and "is_open (hs_channel E)"
    and "keep_alive (ci_keep_alive c) (fitter_new c i (hs_limits E)) = (Ok ka, server_ka)"
  obtains st w1 where "open_session E i c su old w = auto_subscribe E c st w1" "is_open (st_tx st)" "ss_id (st_session st) = i"
    "st_session_present st = (handed_over old \<noteq> None \<and> \<not> ci_clean_start c)" "st_keep_alive st = ka" "st_superuser st = su"
    "received (st_tx st) = received (hs_channel E) @ (case handed_over old of Some info \<Rightarrow> [M_SessionStateTransfer info (ci_clean_start c)] | None \<Rightarrow> [])"
    "map_of (bk_peers w1) = (map_of (bk_peers w))(id_client_id i \<mapsto> (st_session st, st_tx st))" "bk_router w1 = bk_router w"
proof -
  let ?f = "fitter_new c i (hs_limits E)" and ?hk = "cx_hooks (hs_cx E)"
  obtain present offline where old: "(case old of
            Off_NotExist \<Rightarrow> (False, None)
          | Off_Exist (Some info) \<Rightarrow> (\<not> ci_clean_start c, Some info)
          | Off_Exist None \<Rightarrow> (False, None)) = (present, offline)" by fastforce
  then have off: "offline = handed_over old" "present = (handed_over old \<noteq> None \<and> \<not> ci_clean_start c)"
    by (auto simp: handed_over_def split: offline_session.splits option.splits)
  let ?at = "case offline of Some info \<Rightarrow> off_created_at info | None \<Rightarrow> hs_now E"
  obtain s w0 where new: "session_new (hs_deque E) i (hs_limits E) (fitter_max_mqueue_len ?f) (fitter_max_inflight ?f) ?at w = (s, w0)" by fastforce
  then have w0: "bk_peers w0 = bk_peers w" "bk_router w0 = bk_router w" "ss_id s = i" by (auto simp: session_new_def)
  define w2 where "w2 = (if offline = None then plugins_do (hook_session_created (hs_self E) ?hk) w0 else w0)"
  define st where "st = session_start_new s (hs_channel E) ?f su present ka server_ka (nd_in_inflights w2)"
  define w3 where "w3 = plugins_do (hook_client_connected (hs_self E) ?hk) (plugins_do (\<lambda>h. snd (hook_client_connack c (accepted_code c) ?hk h))
    (w2\<lparr>bk_peers := entry_set i s (hs_channel E) (bk_peers w2)\<rparr>))"
  have run: "open_session E i c su old w =
      (case (case offline of Some info \<Rightarrow> send_own E c (M_SessionStateTransfer info (ci_clean_start c)) st w3 | None \<Rightarrow> (Ok st, w3)) of
         (Ok st, w) \<Rightarrow> auto_subscribe E c st w | (r, w) \<Rightarrow> (r, w))"
    unfolding open_session_def Let_def old prod.case new assms(3) res.case w3_def st_def w2_def by (rule refl)
  have w3: "bk_peers w3 = entry_set i s (hs_channel E) (bk_peers w)" "bk_router w3 = bk_router w" by (simp_all add: w3_def w2_def w0)
  have st: "st_tx st = hs_channel E" "st_session st = s" "st_session_present st = present" "st_keep_alive st = ka" "st_superuser st = su"
    by (simp_all add: st_def session_start_new_def)
  show thesis
  proof (cases offline)
    case None
    with run have "open_session E i c su old w = auto_subscribe E c st w3" by simp
    then show thesis by (rule that) (use None st w3 w0 assms(2) off in \<open>simp_all add: entry_set_def update_conv'\<close>)
  next
    case (Some info)
    from send_own_open [OF assms(1), of st c "M_SessionStateTransfer info (ci_clean_start c)" w3] st(1) assms(2) obtain tx where
      snd: "send_own E c (M_SessionStateTransfer info (ci_clean_start c)) st w3 = (Ok (st\<lparr>st_tx := tx\<rparr>), w3\<lparr>bk_peers := entry_set i s tx (bk_peers w3)\<rparr>)"
      "is_open tx" "received tx = received (hs_channel E) @ [M_SessionStateTransfer info (ci_clean_start c)]" by (auto simp: st w0)
    with run Some have "open_session E i c su old w = auto_subscribe E c (st\<lparr>st_tx := tx\<rparr>) (w3\<lparr>bk_peers := entry_set i s tx (bk_peers w3)\<rparr>)" by simp
    then show thesis by (rule that) (use Some st w3 w0 snd off in \<open>auto simp: entry_set_def update_conv'\<close>)
  qed
qed

lemma auto_subscribe_iff:
  assumes "tx_laws (cx_send (hs_cx E)) received is_open" and "is_open (st_tx st)"
  shows "(\<exists>st'. fst (auto_subscribe E c st w) = Ok st') \<longleftrightarrow> auto_ok E (ss_id (st_session st))"
proof (cases "hs_auto_subscribe E")
  case (Some subscribes)
  show ?thesis
  proof (cases "subscribes (ss_id (st_session st))")
    case (Ok subs)
    from send_own_open [OF assms, of c "M_Subscribes subs" w] Some Ok show ?thesis by (auto simp: auto_subscribe_def)
  qed (use Some in \<open>auto simp: auto_subscribe_def\<close>)
qed (simp add: auto_subscribe_def)

lemma open_session_iff:
  assumes "tx_laws (cx_send (hs_cx E)) received is_open" and "is_open (hs_channel E)"
  shows "(\<exists>st. fst (open_session E i c su old w) = Ok st) \<longleftrightarrow> (\<exists>ka. fst (keep_alive (ci_keep_alive c) (fitter_new c i (hs_limits E))) = Ok ka) \<and> auto_ok E i"
proof -
  obtain r ska where k: "keep_alive (ci_keep_alive c) (fitter_new c i (hs_limits E)) = (r, ska)" by fastforce
  show ?thesis
  proof (cases r)
    case (Ok ka)
    show ?thesis
    proof (rule open_session_Ok [OF assms k [unfolded Ok], where su = su and old = old and w = w])
      fix st w1
      assume "open_session E i c su old w = auto_subscribe E c st w1" "is_open (st_tx st)" "ss_id (st_session st) = i"
      with auto_subscribe_iff [OF assms(1), of st c w1] k Ok show ?thesis by simp
    qed
  qed (use k in \<open>auto simp: open_session_def Let_def split: prod.splits\<close>)
qed

section \<open>Properties\<close>

text \<open>
  C6: The handshake always comes to a decision, and it accepts a client exactly when it is in time, its
  identifier is short enough, it asks for no extended authentication, the node has room or already has a
  session of the client, it is authenticated, the lock of its entry is free at one of eleven attempts, its old
  session does not fail to answer, its keep alive is allowed and its automatic subscriptions can be
  found.  A client that is refused before its old session is asked to leave changes nothing but the state
  of the plug-ins.
\<close>

theorem handshake_decides:
  assumes "tx_laws (cx_send (hs_cx E)) received is_open" and "is_open (hs_channel E)" and "deque_laws (hs_deque E)"
    and "\<forall>s tx. map_of (bk_peers (snd (ask_old E i (ci_clean_start c) False (snd (admit E i c w))))) (id_client_id i) = Some (s, tx) \<longrightarrow> distinct (map fst (ss_subscriptions s))"
  shows "\<exists>r w'. handshake_inner E i c w = Some (r, w') \<and>
    ((\<exists>st. r = Ok st) \<longleftrightarrow> admissible E i c w \<and> (\<exists>n \<le> 10. hs_try_lock E n) \<and>
       fst (ask_old E i (ci_clean_start c) False (snd (admit E i c w))) \<noteq> Some Kick_Recv_Error \<and>
       (\<exists>ka. fst (keep_alive (ci_keep_alive c) (fitter_new c i (hs_limits E))) = Ok ka) \<and> auto_ok E i) \<and>
    (\<not> (admissible E i c w \<and> (\<exists>n \<le> 10. hs_try_lock E n)) \<longrightarrow> (\<exists>h. w' = w\<lparr>wd_plugins := h\<rparr>))"
proof -
  obtain a w1 where adm: "admit E i c w = (a, w1)" by fastforce
  have h: "\<exists>h. w1 = w\<lparr>wd_plugins := h\<rparr>" using admit_result(1) [of E i c w] adm by auto
  have lock: "lock_retry (hs_try_lock E) 0 \<longleftrightarrow> (\<exists>n \<le> 10. hs_try_lock E n)" by (rule lock_retry_iff)
  consider e where "a = Err e" "\<not> admissible E i c w" | su info where "a = Ok (su, info)" "admissible E i c w"
    using admit_result(2, 3) [of E i c w] adm by (cases a) auto
  then show ?thesis
  proof cases
    case 1
    then show ?thesis using adm h by (simp add: handshake_inner_def)
  next
    case 2
    show ?thesis
    proof (cases "lock_retry (hs_try_lock E) 0")
      case False
      then show ?thesis using adm h 2 lock by (simp add: handshake_inner_def)
    next
      case True
      obtain reply w2 where ask: "ask_old E i (ci_clean_start c) False w1 = (reply, w2)" by fastforce
      have d: "distinct (map fst (ss_subscriptions s))" if "map_of (bk_peers w2) (id_client_id i) = Some (s, tx)" for s tx
        using assms(4) that adm ask by simp
      from kick_finish_total [OF assms(3), of w2 i, where cs = "ci_clean_start c" and clear = "ci_clean_start c" and reply = reply] d obtain r w3 where
        k: "kick_finish (hs_deque E) i (ci_clean_start c) (ci_clean_start c) reply w2 = Some (r, w3)"
        "reply = Some Kick_Recv_Error \<longleftrightarrow> (\<exists>e. r = Err e)" "r \<noteq> Panic" by blast
      have run: "handshake_inner E i c w = Some (case r of
           Err _ \<Rightarrow> (Err (unavailable c, error_text ''recv kick result''), w3) | Panic \<Rightarrow> (Panic, w3) | Ok old \<Rightarrow> open_session E i c su old w3)"
        using adm 2 True ask k(1) by (simp add: handshake_inner_def entry_kick_def)
      show ?thesis
      proof (cases r)
        case (Ok old)
        with open_session_iff [OF assms(1, 2), of i c su old w3] run k(2) adm ask True 2 lock show ?thesis
          by (cases "open_session E i c su old w3") auto
      qed (use run k adm ask True 2 lock in auto)
    qed
  qed
qed

text \<open>
  C13: A client that connects without starting clean and is accepted continues the session it had: the table
  has the new session under its identifier and keeps the sessions of all other clients, the CONNACK packet
  will say that the session was present, and the first message the new session receives hands it all
  subscriptions, queued and unacknowledged messages of the old one.  Without an old session it starts with nothing.
\<close>

theorem handshake_resumes:
  assumes "tx_laws (cx_send (hs_cx E)) received is_open" and "is_open (hs_channel E)" and "deque_laws (hs_deque E)"
    and "admissible E i c w" and "hs_try_lock E 0" and "\<not> ci_clean_start c" and "hs_auto_subscribe E = None"
    and "ask_old E i False False (snd (admit E i c w)) = (reply, w2)" and "reply \<noteq> Some Kick_Recv_Error"
    and "fst (keep_alive (ci_keep_alive c) (fitter_new c i (hs_limits E))) = Ok ka"
    and "\<forall>s tx. map_of (bk_peers w2) (id_client_id i) = Some (s, tx) \<longrightarrow> distinct (map fst (ss_subscriptions s))"
  shows "\<exists>st w'. handshake_inner E i c w = Some (Ok st, w') \<and> ss_id (st_session st) = i \<and> st_keep_alive st = ka \<and>
    map_of (bk_peers w') = (map_of (bk_peers w2))(id_client_id i \<mapsto> (st_session st, st_tx st)) \<and> bk_router w' = bk_router w2 \<and>
    (case map_of (bk_peers w2) (id_client_id i) of
       None \<Rightarrow> \<not> st_session_present st \<and> received (st_tx st) = received (hs_channel E)
     | Some (s, _) \<Rightarrow> st_session_present st \<and> received (st_tx st) = received (hs_channel E) @ [M_SessionStateTransfer
         \<lparr>off_id = ss_id s, off_subscriptions = ss_subscriptions s, off_offline_messages = inner (ss_deliver_queue s),
          off_inflight_messages = map snd (entries (hs_deque E) (ss_out_inflight s)), off_created_at = ss_created_at s\<rparr> False])"
proof -
  obtain su info w1 where adm: "admit E i c w = (Ok (su, info), w1)"
    using admit_result(3) [of E i c w] assms(4) by (metis prod.collapse)
  have lock: "lock_retry (hs_try_lock E) 0" using assms(5) by (auto simp: lock_retry_iff)
  obtain ska where ka: "keep_alive (ci_keep_alive c) (fitter_new c i (hs_limits E)) = (Ok ka, ska)" using assms(10) by (metis prod.collapse)
  define info_of where "info_of s = \<lparr>off_id = ss_id s, off_subscriptions = ss_subscriptions s, off_offline_messages = inner (ss_deliver_queue s),
          off_inflight_messages = map snd (entries (hs_deque E) (ss_out_inflight s)), off_created_at = ss_created_at s\<rparr>" for s :: "_ session"
  let ?here = "map_of (bk_peers w2) (id_client_id i)"
  have "\<exists>w3. kick_finish (hs_deque E) i False False reply w2 = Some (Ok (case ?here of Some (s, _) \<Rightarrow> Off_Exist (Some (info_of s)) | None \<Rightarrow> Off_NotExist), w3) \<and>
    map_of (bk_peers w3) = (map_of (bk_peers w2))(id_client_id i := None) \<and> bk_router w3 = bk_router w2"
  proof (cases ?here)
    case (Some x)
    obtain s tx where x: "x = (s, tx)" by fastforce
    with to_offline_info_all [OF assms(3), of s "bk_stats w2"] assms(11) Some obtain st where
      "to_offline_info (hs_deque E) s (bk_stats w2) = Some (info_of s, st)" unfolding info_of_def by auto
    with Some x assms(9) show ?thesis by (simp add: kick_finish_def entry_remove_def take_peer_def map_of_delete)
  qed (use assms(9) in \<open>auto simp: kick_finish_def entry_remove_def\<close>)
  then obtain w3 where k: "kick_finish (hs_deque E) i False False reply w2 = Some (Ok (case ?here of Some (s, _) \<Rightarrow> Off_Exist (Some (info_of s)) | None \<Rightarrow> Off_NotExist), w3)"
    and w3: "map_of (bk_peers w3) = (map_of (bk_peers w2))(id_client_id i := None)" "bk_router w3 = bk_router w2" by blast
  define old where "old = (case ?here of Some (s, _) \<Rightarrow> Off_Exist (Some (info_of s)) | None \<Rightarrow> Off_NotExist)"
  have hand: "handed_over old = map_option (info_of \<circ> fst) ?here" by (simp add: old_def handed_over_def split: option.split)
  have run: "handshake_inner E i c w = Some (open_session E i c su old w3)"
    using adm lock assms(6, 8) k by (simp add: handshake_inner_def entry_kick_def old_def)
  show ?thesis
  proof (rule open_session_Ok [OF assms(1, 2) ka, where su = su and old = old and w = w3])
    fix st v
    assume st: "open_session E i c su old w3 = auto_subscribe E c st v" "ss_id (st_session st) = i"
      "st_session_present st = (handed_over old \<noteq> None \<and> \<not> ci_clean_start c)" "st_keep_alive st = ka"
      "received (st_tx st) = received (hs_channel E) @ (case handed_over old of Some info \<Rightarrow> [M_SessionStateTransfer info (ci_clean_start c)] | None \<Rightarrow> [])"
      "map_of (bk_peers v) = (map_of (bk_peers w3))(id_client_id i \<mapsto> (st_session st, st_tx st))" "bk_router v = bk_router w3"
    have "handshake_inner E i c w = Some (Ok st, v)" using run st(1) assms(7) by (simp add: auto_subscribe_def)
    then show ?thesis
      using st(2-) w3 hand assms(6) by (intro exI [of _ st] exI [of _ v]) (auto simp: info_of_def split: option.splits)
  qed
qed

section \<open>The CONNACK packet\<close>

abbreviation auto_quiet :: "('q, 't, 'c, 'hp, 's, 'h, 'k) handshake_env \<Rightarrow> bool" where
  "auto_quiet E \<equiv> \<forall>subscribes i. hs_auto_subscribe E = Some subscribes \<longrightarrow> subscribes i \<noteq> Panic"

lemma executed_total:
  assumes "deque_laws (hs_deque E)"
    and "\<forall>s tx. map_of (bk_peers (snd (ask_old E i (ci_clean_start c) False (snd (admit E i c w))))) (id_client_id i) = Some (s, tx) \<longrightarrow> distinct (map fst (ss_subscriptions s))"
  shows "executed E i c w \<noteq> None"
proof -
  let ?w = "snd (ask_old E i (ci_clean_start c) False (snd (admit E i c w)))"
  let ?reply = "fst (ask_old E i (ci_clean_start c) False (snd (admit E i c w)))"
  have "kick_finish (hs_deque E) i (ci_clean_start c) (ci_clean_start c) ?reply ?w \<noteq> None"
    using kick_finish_total [OF assms(1), of ?w i "ci_clean_start c" "ci_clean_start c" ?reply] assms(2) by auto
  then show ?thesis
    by (auto simp: executed_def handshake_inner_def entry_kick_def split: prod.splits res.splits)
qed

lemma unavailable_fails [simp]: "\<not> ack_success (unavailable c)"
  by (simp add: unavailable_def ack_success_def split: connect_info.split)

lemma admit_refusal: "fst (admit E i c w) = Err (code, e) \<Longrightarrow> \<not> ack_success code"
  by (auto simp: admit_def Let_def split: prod.splits if_splits connect_info.splits) (auto simp: ack_success_def)

lemma keep_alive_no_panic [simp]: "fst (keep_alive ka f) \<noteq> Panic"
  by (auto simp: keep_alive_def Let_def)

lemma send_own_refusal: "fst (send_own E c m st w) \<noteq> Panic" "fst (send_own E c m st w) = Err (code, e) \<Longrightarrow> \<not> ack_success code"
  by (auto simp: send_own_def split: option.splits)

lemma auto_subscribe_refusal:
  assumes "auto_quiet E"
  shows "fst (auto_subscribe E c st w) \<noteq> Panic" "fst (auto_subscribe E c st w) = Err (code, e) \<Longrightarrow> \<not> ack_success code"
  using assms send_own_refusal by (fastforce simp: auto_subscribe_def split: option.splits res.splits)+

lemma open_session_run:
  assumes "keep_alive (ci_keep_alive c) (fitter_new c i (hs_limits E)) = (Ok ka, server_ka)"
  shows "\<exists>x. open_session E i c su old w = (case x of (Ok st, w) \<Rightarrow> auto_subscribe E c st w | (r, w) \<Rightarrow> (r, w)) \<and>
    ((\<exists>m st w. x = send_own E c m st w) \<or> (\<exists>st w. x = (Ok st, w)))"
proof -
  obtain present offline where old: "(case old of
            Off_NotExist \<Rightarrow> (False, None)
          | Off_Exist (Some info) \<Rightarrow> (\<not> ci_clean_start c, Some info)
          | Off_Exist None \<Rightarrow> (False, None)) = (present, offline)" by fastforce
  obtain s w0 where new: "session_new (hs_deque E) i (hs_limits E) (fitter_max_mqueue_len (fitter_new c i (hs_limits E)))
      (fitter_max_inflight (fitter_new c i (hs_limits E))) (case offline of Some info \<Rightarrow> off_created_at info | None \<Rightarrow> hs_now E) w = (s, w0)" by fastforce
  show ?thesis
    unfolding open_session_def Let_def old prod.case new assms res.case
    by (intro exI conjI, rule refl) (auto split: option.split)
qed

lemma open_session_refusal:
  assumes "auto_quiet E"
  shows "fst (open_session E i c su old w) \<noteq> Panic \<and> (\<forall>code e. fst (open_session E i c su old w) = Err (code, e) \<longrightarrow> \<not> ack_success code)"
proof -
  obtain r ska where k: "keep_alive (ci_keep_alive c) (fitter_new c i (hs_limits E)) = (r, ska)" by fastforce
  have panic: "r \<noteq> Panic" using keep_alive_no_panic [of "ci_keep_alive c" "fitter_new c i (hs_limits E)"] k by simp
  show ?thesis
  proof (cases r)
    case (Ok ka)
    from open_session_run [OF k [unfolded Ok], of su old w] obtain x where
      x: "open_session E i c su old w = (case x of (Ok st, w) \<Rightarrow> auto_subscribe E c st w | (r, w) \<Rightarrow> (r, w))"
      and src: "(\<exists>m st w. x = send_own E c m st w) \<or> (\<exists>st w. x = (Ok st, w))" by blast
    have y: "fst x \<noteq> Panic" "\<forall>code e. fst x = Err (code, e) \<longrightarrow> \<not> ack_success code"
      using src by (auto simp: send_own_refusal(1) dest: send_own_refusal(2))
    obtain q v where q: "x = (q, v)" by (cases x)
    show ?thesis using x y auto_subscribe_refusal [OF assms] by (cases q) (auto simp: q)
  next
    case (Err e)
    then have "open_session E i c su old w = (Err (unavailable c, e), snd (open_session E i c su old w))"
      using k by (simp add: open_session_def Let_def split: prod.split)
    then show ?thesis by (metis fst_conv res.distinct(5) res.inject(2) prod.inject unavailable_fails)
  qed (use panic in simp)
qed

lemma kick_finish_no_panic: "kick_finish D i b b' reply v \<noteq> Some (Panic, v')"
  by (auto simp: kick_finish_def split: if_splits option.splits prod.splits bind_splits)

lemma handshake_refusal:
  assumes "auto_quiet E" and "executed E i c w = Some (r, w')"
  shows "r \<noteq> Panic \<and> (\<forall>code e. r = Err (code, e) \<longrightarrow> \<not> ack_success code)"
proof (cases "hs_executed E")
  case True
  obtain a w1 where adm: "admit E i c w = (a, w1)" by fastforce
  show ?thesis
  proof (cases a)
    case (Ok x)
    obtain su info where x: "x = (su, info)" by fastforce
    show ?thesis
    proof (cases "lock_retry (hs_try_lock E) 0")
      case lock: True
      from assms(2) True adm Ok x lock obtain q w2 where
        kick: "entry_kick E i (ci_clean_start c) (ci_clean_start c) False w1 = Some (q, w2)"
        and res: "(r, w') = (case q of Err _ \<Rightarrow> (Err (unavailable c, error_text ''recv kick result''), w2) | Panic \<Rightarrow> (Panic, w2) | Ok old \<Rightarrow> open_session E i c su old w2)"
        by (auto simp: executed_def handshake_inner_def split: bind_splits)
      have "q \<noteq> Panic" using kick by (auto simp: entry_kick_def kick_finish_no_panic split: prod.splits)
      with res show ?thesis
        using open_session_refusal [OF assms(1), of i c su _ w2] by (cases q) (auto, metis fst_conv, metis fst_conv)
    qed (use assms(2) True adm Ok x in \<open>auto simp: executed_def handshake_inner_def\<close>)
  qed (use assms(2) True adm admit_refusal [of E i c w] admit_result(2) [of E i c w] in \<open>auto simp: executed_def handshake_inner_def\<close>)
qed (use assms(2) in \<open>auto simp: executed_def\<close>)


section \<open>A client that comes back\<close>

definition returning :: v3_connect where
  "returning = \<lparr>c3_protocol = 4, c3_clean_session = False, c3_keep_alive = 60, c3_last_will = None, c3_client_id = text_bytes ''c1'',
     c3_username = None, c3_password = None, c3_cert = None\<rparr>"

definition node_sample :: "((u16, out_inflight_message) alist, message list \<times> bool, u64, delayed_message list, unit) node_world" where
  "node_sample = broker.extend (sample_broker\<lparr>bk_peers := [(''c1'', kept_session, [], True)]\<rparr>)
     \<lparr>wd_retains = storage_new, wd_delayed = delayed_sender_new list_heap, wd_plugins = (),
      wd_metrics = \<lparr>client_publish_error = 0, client_publish_auth_error = 0, client_subscribe_error = 0, client_subscribe_auth_error = 0\<rparr>,
      nd_sessions = inc counter_new, nd_in_inflights = counter_new, nd_handshaking_timeout = 0\<rparr>"

definition handshake_sample :: "((u16, out_inflight_message) alist, message list \<times> bool, u64, delayed_message list, unit, unit, packet list) handshake_env" where
  "handshake_sample = \<lparr>hs_cx = sample_context hook_manager_new, hs_deque = alist_deque, hs_limits = sample_limits, hs_allow_anonymous = True,
     hs_max_packet_size = 1048576, hs_max_sessions = 1, hs_lid = 1883, hs_local_addr = ([127, 0, 0, 1], 1883), hs_remote_addr = ([127, 0, 0, 1], 5000),
     hs_busy = False, hs_now = 1000, hs_elapsed = 0, hs_try_lock = (\<lambda>_. True), hs_lock_error = error_text ''locked'',
     hs_react = (\<lambda>w. (Kick_Done, w)), hs_self = (), hs_channel = ([], True), hs_auto_subscribe = None, hs_shared_available = True,
     hs_closed_error = error_text ''closed'', hs_new_client_id = text_bytes ''x'', hs_put = (\<lambda>pk k. (None, k @ [pk])),
     hs_set_max_outbound = (\<lambda>_ k. k), hs_executed = True\<rparr>"

abbreviation returning_ident :: ident where
  "returning_ident \<equiv> ident_from 1 ''c1'' 9"

lemma handshake_sample_facts:
  "tx_laws (cx_send (hs_cx handshake_sample)) fst snd" "snd (hs_channel handshake_sample)" "fst (hs_channel handshake_sample) = []"
  "deque_laws (hs_deque handshake_sample)" "hs_deque handshake_sample = alist_deque" "hs_try_lock handshake_sample n" "hs_auto_subscribe handshake_sample = None"
  "hs_put handshake_sample pk k = (None, k @ [pk])" "hs_set_max_outbound handshake_sample sz k = k" "hs_limits handshake_sample = sample_limits"
  "hs_max_sessions handshake_sample = 1" "hs_elapsed handshake_sample = 0" "hs_allow_anonymous handshake_sample" "hs_executed handshake_sample" "\<not> hs_busy handshake_sample"
  "cx_hooks (hs_cx handshake_sample) = []" "cx_send (hs_cx handshake_sample) = list_send" "hs_react handshake_sample v = (Kick_Done, v)"
  by (simp_all add: handshake_sample_def sample_context_def list_send_laws alist_deque_laws hook_manager_new_def)

lemma kept_session_facts:
  "ss_subscriptions kept_session = [(''a/+'', subscription_options_mqtt_default)]"
  "inner (ss_deliver_queue kept_session) = [(from_custom subscriber, sample_publish)]"
  "map snd (entries alist_deque (ss_out_inflight kept_session)) = [waiting_message]"
  by (simp_all add: kept_session_def alist_deque_def DAList.update.rep_eq DAList.empty.rep_eq)

lemma node_sample_admits: "id_client_id i = ''c1'' \<Longrightarrow> admissible handshake_sample i (CI_V3 i returning) node_sample"
  by (simp add: admissible_def handshake_sample_facts sample_limits_def node_sample_def broker.extend_def peer_exist_def returning_def
      hook_client_authenticate_def connack_of_def ack_success_def Let_def)

lemma node_sample_asks:
  assumes "id_client_id i = ''c1''"
  shows "ask_old handshake_sample i cs False (snd (admit handshake_sample i (CI_V3 i returning) node_sample)) =
    (Some Kick_Done, node_sample\<lparr>bk_peers := [(''c1'', kept_session, [M_Kick i cs False], True)]\<rparr>)"
proof -
  obtain h where "snd (admit handshake_sample i (CI_V3 i returning) node_sample) = node_sample\<lparr>wd_plugins := h\<rparr>" 
    using admit_result(1) [of handshake_sample i "CI_V3 i returning" node_sample] by auto
  then show ?thesis using assms
    by (simp add: ask_old_def kick_request_def handshake_sample_facts list_send_def node_sample_def broker.extend_def Let_def)
qed

lemma returning_keep_alive: "fst (keep_alive (ci_keep_alive (CI_V3 i returning)) (fitter_new (CI_V3 i returning) i sample_limits)) = Ok 90"
  by (simp add: keep_alive_def fitter_new_def sample_limits_def returning_def keepalive_timeout_def backoff_default Let_def)

theorem handshake_decides_witness:
  "\<exists>st w'. handshake_inner handshake_sample returning_ident (CI_V3 returning_ident returning) node_sample = Some (Ok st, w')"
proof -
  let ?c = "CI_V3 returning_ident returning"
  have i: "id_client_id returning_ident = ''c1''" by (simp add: ident_from_def ident_new_def)
  have c: "\<not> ci_clean_start ?c" by (simp add: returning_def)
  note ask = node_sample_asks [OF i, of "ci_clean_start ?c"]
  have "\<exists>n\<le>10. hs_try_lock handshake_sample n" using handshake_sample_facts(6) by blast
  moreover have "\<exists>ka. fst (keep_alive (ci_keep_alive ?c) (fitter_new ?c returning_ident (hs_limits handshake_sample))) = Ok ka"
    using returning_keep_alive handshake_sample_facts(10) by auto
  moreover have "\<forall>s tx. map_of (bk_peers (snd (ask_old handshake_sample returning_ident (ci_clean_start ?c) False (snd (admit handshake_sample returning_ident ?c node_sample)))))
    (id_client_id returning_ident) = Some (s, tx) \<longrightarrow> distinct (map fst (ss_subscriptions s))"
    unfolding ask by (simp add: i kept_session_facts)
  ultimately show ?thesis
    using handshake_decides [OF handshake_sample_facts(1, 2, 4), of returning_ident ?c node_sample] node_sample_admits [OF i] ask
    by (auto simp: handshake_sample_facts(7))
qed

theorem handshake_resumes_witness:
  "\<exists>st w' info. handshake_inner handshake_sample returning_ident (CI_V3 returning_ident returning) node_sample = Some (Ok st, w') \<and>
     st_session_present st \<and> fst (st_tx st) = [M_SessionStateTransfer info False] \<and>
     off_offline_messages info = [(from_custom subscriber, sample_publish)] \<and> off_inflight_messages info = [waiting_message]"
proof -
  let ?c = "CI_V3 returning_ident returning"
  have i: "id_client_id returning_ident = ''c1''" by (simp add: ident_from_def ident_new_def)
  have c: "\<not> ci_clean_start ?c" by (simp add: returning_def)
  have ka: "fst (keep_alive (ci_keep_alive ?c) (fitter_new ?c returning_ident (hs_limits handshake_sample))) = Ok 90"
    using returning_keep_alive handshake_sample_facts(10) by simp
  have "\<forall>s tx. map_of (bk_peers (node_sample\<lparr>bk_peers := [(''c1'', kept_session, [M_Kick returning_ident False False], True)]\<rparr>)) (id_client_id returning_ident) = Some (s, tx) \<longrightarrow>
    distinct (map fst (ss_subscriptions s))"
    by (simp add: i kept_session_facts)
  from handshake_resumes [OF handshake_sample_facts(1, 2, 4) node_sample_admits [OF i] handshake_sample_facts(6) c handshake_sample_facts(7)
      node_sample_asks [OF i, of False] _ ka this] show ?thesis
    by (auto simp: i kept_session_facts handshake_sample_facts(3, 5))
qed

lemma executed_sample: "executed handshake_sample i c node_sample \<noteq> None"
proof (rule executed_total [OF handshake_sample_facts(4)])
  obtain h where "snd (admit handshake_sample i c node_sample) = node_sample\<lparr>wd_plugins := h\<rparr>"
    using admit_result(1) [of handshake_sample i c node_sample] by auto
  then show "\<forall>s tx. map_of (bk_peers (snd (ask_old handshake_sample i (ci_clean_start c) False (snd (admit handshake_sample i c node_sample))))) (id_client_id i) = Some (s, tx) \<longrightarrow>
      distinct (map fst (ss_subscriptions s))"
    by (auto simp: ask_old_def kick_request_def handshake_sample_facts list_send_def node_sample_def broker.extend_def kept_session_facts Let_def
        split: if_splits option.splits)
qed


text \<open>
  A client whose keep alive is refused has lost the session it had: the old session was taken out of the table before
  the check, and nothing puts it back.
\<close>

lemma refused_keep_alive_loses_session:
  assumes "fst (keep_alive (ci_keep_alive c) (fitter_new c i (hs_limits E))) = Err e"
  shows "fst (open_session E i c su old w) = Err (unavailable c, e) \<and> bk_peers (snd (open_session E i c su old w)) = bk_peers w \<and>
    current (nd_sessions (snd (open_session E i c su old w))) = current (dec (inc (nd_sessions w)))"
  using assms by (cases "keep_alive (ci_keep_alive c) (fitter_new c i (hs_limits E))")
    (auto simp: open_session_def session_new_def session_drop_def Let_def split: prod.splits)

end
