(* ===== verification/Spec2Isabelle.thy ===== *)
theory Spec2Isabelle
  imports Version_Codec V5_Codec Circuit_Breaker Builtin_Acl Online Handshake
begin

text \<open>
  A verification development for oximqtt, an MQTT 3.1, 3.1.1 and 5.0 broker written in Rust. Paths below
  are relative to \<^verbatim>\<open>src/oximqtt/src\<close>.

  \<^bold>\<open>The program.\<close> A connection delivers bytes. The codec cuts them into packets (\<^verbatim>\<open>codec/\<close>); the first packet
  decides between the two protocol versions. The handshake negotiates the limits of the session
  (\<^verbatim>\<open>fitter.rs\<close>), and a session (\<^verbatim>\<open>session.rs\<close>) handles the packets of its client: a SUBSCRIBE registers a
  filter with the router (\<^verbatim>\<open>router.rs\<close>, over the subscription tree of \<^verbatim>\<open>trie.rs\<close>), a PUBLISH is given its
  topic (aliases, \<^verbatim>\<open>types.rs\<close>), stored if it is retained (\<^verbatim>\<open>retain.rs\<close>), and routed to the sessions whose
  filters match. Each of them keeps a bounded queue of messages (\<^verbatim>\<open>queue.rs\<close>) and a window of messages that
  are sent and not acknowledged (\<^verbatim>\<open>inflight.rs\<close>). Counters (\<^verbatim>\<open>utils/counter.rs\<close>) and circuit breakers
  (\<^verbatim>\<open>utils/circuit_breaker.rs\<close>) are shared by all tasks.

  \<^bold>\<open>Conventions.\<close> A function that can fail gives a \<^verbatim>\<open>res\<close> (theory \<^verbatim>\<open>Prelude\<close>): \<^verbatim>\<open>Ok\<close>, \<^verbatim>\<open>Err\<close> or \<^verbatim>\<open>Panic\<close>, so an
  index out of range, an \<^verbatim>\<open>unwrap\<close> and \<^verbatim>\<open>unreachable!\<close> are values of the model and the absence of panics is
  a theorem. Integers keep their width where it matters (\<^verbatim>\<open>u8\<close>, \<^verbatim>\<open>u16\<close>, \<^verbatim>\<open>u32\<close>, \<^verbatim>\<open>u64\<close>, \<^verbatim>\<open>i64\<close> are words and
  wrap as in a release build); signed counters are integers with the wrap-around written out, and the
  theorems on them say for which range they hold. A hash map is an association list without duplicate
  keys, a \<^verbatim>\<open>BTreeMap\<close> one sorted by its keys. A clock reading is an argument. Hooks of a component are
  functions on the state of their client, which is passed along. Code of other crates is an argument: the
  double-ended hash map of the outgoing window with its documented laws (\<^verbatim>\<open>deque_laws\<close>), the signal of the
  queue (\<^verbatim>\<open>signal_laws\<close>), and which clients are online; concrete instances show the laws can hold.

  \<^bold>\<open>Theories.\<close>

  \<^item> \<^verbatim>\<open>Prelude\<close>, \<^verbatim>\<open>Maps\<close>: results, readers and writers of byte buffers, association lists, the collections
    \<^verbatim>\<open>codec_simps\<close>, \<^verbatim>\<open>writes_intros\<close>, \<^verbatim>\<open>no_panic_intros\<close>, and the locales \<^verbatim>\<open>consuming\<close> (loops that read items
    until the input is used up) and \<^verbatim>\<open>property_reader\<close> (loops over MQTT 5 properties).

  \<^item> \<^verbatim>\<open>Codec_Types\<close>, \<^verbatim>\<open>Codec_Utils\<close>, \<^verbatim>\<open>Framing\<close>: \<^verbatim>\<open>codec/error.rs\<close>, \<^verbatim>\<open>codec/types.rs\<close>, \<^verbatim>\<open>codec/utils.rs\<close> and what the two
    codecs share. The locale \<^verbatim>\<open>wire_type\<close> states that a value read back is the value written, with the
    announced size; it is interpreted for every primitive. The locale \<^verbatim>\<open>framed\<close> states the contract of a
    decoder that waits for a whole frame; it is interpreted for both codecs.

  \<^item> \<^verbatim>\<open>V3_Codec\<close>, \<^verbatim>\<open>Version_Codec\<close>: \<^verbatim>\<open>codec/v3/\<close>, \<^verbatim>\<open>codec/version.rs\<close>. Decoding gives back every encodable packet, never
    panics, gives well-formed packets only, does not depend on how the bytes arrive, and keeps to the
    maximum size; version detection waits for enough bytes, then answers once and for all.

  \<^item> \<^verbatim>\<open>V5_Types\<close>, \<^verbatim>\<open>V5_Props\<close>, \<^verbatim>\<open>V5_Packets\<close>, \<^verbatim>\<open>V5_Decode\<close>, \<^verbatim>\<open>V5_Encode\<close>, \<^verbatim>\<open>V5_Codec\<close>: \<^verbatim>\<open>codec/v5/\<close>, with the same theorems, and
    that outgoing packets keep to the limit of the peer and carry no diagnostics it did not ask for. The
    locale \<^verbatim>\<open>prim_enum\<close> is the contract of the reason code enumerations.

  \<^item> \<^verbatim>\<open>Topic\<close>, \<^verbatim>\<open>Trie\<close>: \<^verbatim>\<open>topic.rs\<close>, \<^verbatim>\<open>trie.rs\<close>. Parsing and printing of topics, matching against the definition of the
    standard, the subscription tree as a map from filters to values (locale \<^verbatim>\<open>topic_index\<close>, which the
    router builds on) and its iterator, which gives exactly the matching filters.

  \<^item> \<^verbatim>\<open>Retain\<close>: \<^verbatim>\<open>retain.rs\<close>, retained messages with expiry, over the locale \<^verbatim>\<open>topic_map\<close>.

  \<^item> \<^verbatim>\<open>Counter\<close>, \<^verbatim>\<open>Circuit_Breaker\<close>, \<^verbatim>\<open>Queue\<close>: \<^verbatim>\<open>utils/counter.rs\<close>, \<^verbatim>\<open>utils/circuit_breaker.rs\<close>, \<^verbatim>\<open>queue.rs\<close>.

  \<^item> \<^verbatim>\<open>Reasons\<close>, \<^verbatim>\<open>Broker_Types\<close>, \<^verbatim>\<open>Topic_Alias\<close>: the errors, identities, messages, options and aliases of \<^verbatim>\<open>types.rs\<close>.

  \<^item> \<^verbatim>\<open>Inflight\<close>: \<^verbatim>\<open>inflight.rs\<close> and the operations of \<^verbatim>\<open>session.rs\<close> on it.

  \<^item> \<^verbatim>\<open>Router\<close>, \<^verbatim>\<open>Fitter\<close>: \<^verbatim>\<open>router.rs\<close> and \<^verbatim>\<open>subscribe.rs\<close>; \<^verbatim>\<open>fitter.rs\<close> and \<^verbatim>\<open>ConnectInfo\<close>.
\<close>

end
